(* ===== verification/Gwd_Prelude.thy ===== *)
theory Gwd_Prelude
  imports Main "HOL-Library.Word"
begin

text \<open>
  Shared vocabulary of the development: machine integer types of the C++ sources, exceptions as
  values of a sum type, the string and list facts the components share, and the lemma
  collections \<open>word_facts\<close> (values of words and of their conversions), \<open>exc_simps\<close> (sequencing of
  computations that may throw) and \<open>list_facts\<close>.
\<close>

unbundle bit_operations_syntax

named_theorems word_facts
named_theorems exc_simps
named_theorems list_facts

section \<open>Machine integers\<close>

type_synonym u8 = "8 word"
type_synonym u16 = "16 word"
type_synonym u32 = "32 word"
type_synonym u64 = "64 word"
type_synonym bytes = "8 word list"

section \<open>Exceptions\<close>

text \<open>
  A C++ function that may throw returns \<open>Inl\<close> of an exception or \<open>Inr\<close> of its result. The
  constructor is the exception class of the source, the string its literal message (without the
  traced values). \<open>UB\<close> stands for undefined behaviour: an out of range access of a raw array, a
  shift by a negative amount, an iterator moved past the end.
\<close>

datatype exc =
    LogicError string
  | InvalidArgument string
  | DomainError string
  | OutOfRange string
  | RuntimeError string
  | UB string

text \<open>\<open>what()\<close> of an exception; undefined behaviour is none.\<close>

definition what :: "exc \<Rightarrow> string option" where
  "what e = (case e of LogicError m \<Rightarrow> Some m | InvalidArgument m \<Rightarrow> Some m | DomainError m \<Rightarrow> Some m
     | OutOfRange m \<Rightarrow> Some m | RuntimeError m \<Rightarrow> Some m | UB _ \<Rightarrow> None)"

type_synonym 'a result = "exc + 'a"

definition bind_r :: "'a result \<Rightarrow> ('a \<Rightarrow> 'b result) \<Rightarrow> 'b result" where
  "bind_r r f = (case r of Inl e \<Rightarrow> Inl e | Inr x \<Rightarrow> f x)"

definition ok_r :: "'a result \<Rightarrow> bool" where
  "ok_r r = (case r of Inl _ \<Rightarrow> False | Inr _ \<Rightarrow> True)"

lemma bind_r_Inl [simp, exc_simps]: "bind_r (Inl e) f = Inl e"
  by (simp add: bind_r_def)

lemma bind_r_Inr [simp, exc_simps]: "bind_r (Inr x) f = f x"
  by (simp add: bind_r_def)

lemma bind_r_eq_Inr [exc_simps]: "bind_r r f = Inr y \<longleftrightarrow> (\<exists>x. r = Inr x \<and> f x = Inr y)"
  by (cases r) (auto simp: bind_r_def)

lemma bind_r_eq_Inl [exc_simps]:
  "bind_r r f = Inl e \<longleftrightarrow> r = Inl e \<or> (\<exists>x. r = Inr x \<and> f x = Inl e)"
  by (cases r) (auto simp: bind_r_def)

lemma bind_r_assoc: "bind_r (bind_r r f) g = bind_r r (\<lambda>x. bind_r (f x) g)"
  by (cases r) (simp_all add: bind_r_def)

lemma bind_r_cong [fundef_cong]:
  "r = r' \<Longrightarrow> (\<And>x. r' = Inr x \<Longrightarrow> f x = g x) \<Longrightarrow> bind_r r f = bind_r r' g"
  by (cases r') (auto simp: bind_r_def)

lemma ok_r_simps [simp, exc_simps]: "ok_r (Inr x)" "\<not> ok_r (Inl e)"
  by (simp_all add: ok_r_def)

text \<open>A loop that collects the results of a function that may throw.\<close>

primrec map_r :: "('a \<Rightarrow> 'b result) \<Rightarrow> 'a list \<Rightarrow> 'b list result" where
  "map_r f [] = Inr []"
| "map_r f (x # xs) = bind_r (f x) (\<lambda>y. bind_r (map_r f xs) (\<lambda>ys. Inr (y # ys)))"

lemma map_r_Inr_iff [exc_simps]:
  "map_r f xs = Inr ys \<longleftrightarrow> length ys = length xs \<and> (\<forall>i<length xs. f (xs ! i) = Inr (ys ! i))"
proof (induction xs arbitrary: ys)
  case (Cons x xs)
  show ?case
  proof (cases ys)
    case (Cons y zs)
    then show ?thesis using Cons.IH[of zs]
      by (auto simp: bind_r_eq_Inr less_Suc_eq_0_disj)
  qed (simp add: bind_r_eq_Inr)
qed auto

lemma map_r_total [exc_simps]: "map_r (\<lambda>x. Inr (f x)) xs = Inr (map f xs)"
  by (induction xs) simp_all

section \<open>Words\<close>

lemma unat_lt_256 [simp, word_facts]: "unat (b :: u8) < 256"
proof -
  have "unat b < 2 ^ LENGTH(8)" by (rule unsigned_less)
  then show ?thesis by simp
qed

lemma unat_lt_65536 [simp, word_facts]: "unat (b :: u16) < 65536"
proof -
  have "unat b < 2 ^ LENGTH(16)" by (rule unsigned_less)
  then show ?thesis by simp
qed

lemma uint_lt_256 [simp, word_facts]: "uint (b :: u8) < 256"
proof -
  have "uint b < 2 ^ LENGTH(8)" by (rule unsigned_less)
  then show ?thesis by simp
qed

lemma word_of_nat_unat [simp, word_facts]: "word_of_nat (unat (b :: 'a::len word)) = b"
  by simp

lemma unat_of_nat_u8 [word_facts]: "n < 256 \<Longrightarrow> unat (word_of_nat n :: u8) = n"
  by (simp add: unat_of_nat take_bit_nat_eq_self)

lemma unat_of_nat_u16 [word_facts]: "n < 65536 \<Longrightarrow> unat (word_of_nat n :: u16) = n"
  by (simp add: unat_of_nat take_bit_nat_eq_self)

lemma unat_ucast_u8_u16 [word_facts]: "unat (ucast (b :: u8) :: u16) = unat b"
proof -
  have "unat b < 2 ^ 16" by (rule less_trans[OF unat_lt_256]) simp
  then show ?thesis by (simp add: unsigned_ucast_eq take_bit_nat_eq_self)
qed

lemma bit_u8_ge [simp]: "8 \<le> n \<Longrightarrow> \<not> bit (b :: u8) n"
  using bit_imp_le_length[of b n] by auto

lemma u8_eq_iff: "(a :: u8) = b \<longleftrightarrow> (\<forall>k<8. bit a k = bit b k)"
  by (metis bit_eq_iff bit_u8_ge not_le)

lemma u8_zero_iff: "(b :: u8) = 0 \<longleftrightarrow> (\<forall>k<8. \<not> bit b k)"
  by (simp add: u8_eq_iff)

lemma and_ff_take_bit: "(x :: 'a::len word) AND 255 = take_bit 8 x"
proof -
  have "(255 :: 'a word) = mask 8" by (simp add: mask_eq_exp_minus_1)
  then show ?thesis by (simp add: take_bit_eq_mask)
qed

lemma unat_and_ff [word_facts]: "unat ((x :: 'a::len word) AND 255) = unat x mod 256"
proof -
  have "unat (take_bit 8 x) = take_bit 8 (unat x)" by (rule unsigned_take_bit_eq)
  also have "\<dots> = unat x mod 256" by (simp only: take_bit_eq_mod) simp
  finally show ?thesis by (simp only: and_ff_take_bit)
qed

lemma unat_drop_8 [word_facts]: "unat (drop_bit 8 (x :: 'a::len word)) = unat x div 256"
proof -
  have "unat (drop_bit 8 x) = drop_bit 8 (unat x)" by (rule unat_drop_bit_eq)
  also have "\<dots> = unat x div 256" by (simp only: drop_bit_eq_div) simp
  finally show ?thesis .
qed

lemma unat_or_push_8:
  "unat a < 256 \<Longrightarrow> unat b < 256 \<Longrightarrow> 
    unat (a OR push_bit 8 (b :: u16)) = unat a + 256 * unat b"
proof -
  assume a: "unat a < 256" and b: "unat b < 256"
  have na: "\<not> bit a n \<or> \<not> bit (push_bit 8 b) n" for n
  proof (cases "n < 8")
    case True then show ?thesis by (simp add: bit_push_bit_iff)
  next
    case False
    have "take_bit 8 a = a"
      using a by (simp only: and_ff_take_bit[symmetric] word_unat_eq_iff unat_and_ff) simp
    then have "\<not> bit a n" using False bit_take_bit_iff[of 8 a n] by simp
    then show ?thesis by simp
  qed
  have "a OR push_bit 8 b = a + push_bit 8 b" using disjunctive_add[OF na] by simp
  also have "\<dots> = a + 256 * b" by (simp add: push_bit_eq_mult mult.commute)
  also have "unat (a + 256 * b) = unat a + 256 * unat b"
    using a b by (simp add: unat_word_ariths)
  finally show ?thesis .
qed

lemma and_256_u16 [word_facts]: "(x :: u16) AND 256 \<noteq> 0 \<longleftrightarrow> odd (unat x div 256)"
proof -
  have "x AND 256 \<noteq> 0 \<longleftrightarrow> bit x 8" using and_exp_eq_0_iff_not_bit[of x 8] by simp
  also have "\<dots> \<longleftrightarrow> bit (unat x) 8" by (simp only: bit_unsigned_iff) (simp add: bit_imp_le_length)
  also have "\<dots> \<longleftrightarrow> odd (unat x div 256)" by (simp only: bit_iff_odd) simp
  finally show ?thesis .
qed

section \<open>Lists\<close>

lemma takeWhile_append_stop [list_facts]:
  "(\<forall>x\<in>set xs. P x) \<Longrightarrow> ys = [] \<or> \<not> P (hd ys) \<Longrightarrow> takeWhile P (xs @ ys) = xs"
  by (induction xs) (cases ys; auto)+

lemma dropWhile_append_stop [list_facts]:
  "(\<forall>x\<in>set xs. P x) \<Longrightarrow> ys = [] \<or> \<not> P (hd ys) \<Longrightarrow> dropWhile P (xs @ ys) = ys"
  by (induction xs) (cases ys; auto)+

end
