(* ===== verification/Cpp_Std.thy ===== *)
theory Cpp_Std
  imports Gwd_Prelude
begin

text \<open>
  The parts of the C++ standard library that the modelled sources use: character classes,
  searching in \<open>std::string\<close> (\<open>std::string::npos\<close> is \<open>None\<close>), formatted output of integers with
  \<open>std::hex\<close>, \<open>setw\<close> and \<open>setfill\<close>, and formatted extraction of a hexadecimal \<open>int\<close> from an
  \<open>std::istringstream\<close> with its \<open>eofbit\<close> and \<open>failbit\<close>. Lemmas say how printing and extraction
  are inverse to each other; the codecs of the other theories rest on them.
\<close>

section \<open>Characters\<close>

abbreviation char_code :: "char \<Rightarrow> nat" where
  "char_code c \<equiv> of_char c"

definition isspace :: "char \<Rightarrow> bool" where
  "isspace c = (char_code c = 32 \<or> (9 \<le> char_code c \<and> char_code c \<le> 13))"

definition isdigit :: "char \<Rightarrow> bool" where
  "isdigit c = (48 \<le> char_code c \<and> char_code c \<le> 57)"

definition isalpha :: "char \<Rightarrow> bool" where
  "isalpha c = ((65 \<le> char_code c \<and> char_code c \<le> 90) \<or> (97 \<le> char_code c \<and> char_code c \<le> 122))"

definition isalnum :: "char \<Rightarrow> bool" where
  "isalnum c = (isalpha c \<or> isdigit c)"

definition hex_val :: "char \<Rightarrow> nat option" where
  "hex_val c =
     (let n = char_code c in
      if 48 \<le> n \<and> n \<le> 57 then Some (n - 48)
      else if 97 \<le> n \<and> n \<le> 102 then Some (n - 87)
      else if 65 \<le> n \<and> n \<le> 70 then Some (n - 55)
      else None)"

definition isxdigit :: "char \<Rightarrow> bool" where
  "isxdigit c = (hex_val c \<noteq> None)"

definition hex_char :: "nat \<Rightarrow> char" where
  "hex_char d = char_of (if d < 10 then 48 + d else 87 + d)"

definition hex_char_upper :: "nat \<Rightarrow> char" where
  "hex_char_upper d = char_of (if d < 10 then 48 + d else 55 + d)"

section \<open>Strings\<close>

text \<open>\<open>s.find(pat, start)\<close>, \<open>s.rfind(pat, pos)\<close>, \<open>s.find_first_not_of\<close>, \<open>s.find_last_not_of\<close>.\<close>

fun find_at :: "nat \<Rightarrow> string \<Rightarrow> string \<Rightarrow> nat option" where
  "find_at i pat s =
     (if take (length pat) s = pat then Some i
      else case s of [] \<Rightarrow> None | _ # t \<Rightarrow> find_at (Suc i) pat t)"

declare find_at.simps [simp del]

definition str_find :: "string \<Rightarrow> string \<Rightarrow> nat \<Rightarrow> nat option" where
  "str_find s pat start = (if length s < start then None else find_at start pat (drop start s))"

definition str_rfind :: "string \<Rightarrow> string \<Rightarrow> nat option \<Rightarrow> nat option" where
  "str_rfind s pat pos =
     (if length s < length pat then None
      else let hi = (case pos of None \<Rightarrow> length s - length pat | Some p \<Rightarrow> min p (length s - length pat))
           in List.find (\<lambda>i. take (length pat) (drop i s) = pat) (rev [0..<Suc hi]))"

definition find_first_not_of :: "string \<Rightarrow> string \<Rightarrow> nat option" where
  "find_first_not_of s cs = List.find (\<lambda>i. s ! i \<notin> set cs) [0..<length s]"

definition find_last_not_of :: "string \<Rightarrow> string \<Rightarrow> nat option" where
  "find_last_not_of s cs = List.find (\<lambda>i. s ! i \<notin> set cs) (rev [0..<length s])"

definition replace_char :: "char \<Rightarrow> char \<Rightarrow> string \<Rightarrow> string" where
  "replace_char a b s = map (\<lambda>c. if c = a then b else c) s"

section \<open>Formatted output\<close>

fun digits_base :: "nat \<Rightarrow> nat \<Rightarrow> nat list" where
  "digits_base b n = (if b < 2 \<or> n < b then [n] else digits_base b (n div b) @ [n mod b])"

declare digits_base.simps [simp del]

definition show_hex :: "nat \<Rightarrow> string" where
  "show_hex n = map hex_char (digits_base 16 n)"

definition show_hex_upper :: "nat \<Rightarrow> string" where
  "show_hex_upper n = map hex_char_upper (digits_base 16 n)"

definition show_dec :: "nat \<Rightarrow> string" where
  "show_dec n = map hex_char (digits_base 10 n)"

definition show_int :: "int \<Rightarrow> string" where
  "show_int i = (if i < 0 then ''-'' @ show_dec (nat (- i)) else show_dec (nat i))"

text \<open>\<open>setw(w)\<close> with \<open>setfill(c)\<close> and the default right adjustment.\<close>

definition pad_left :: "nat \<Rightarrow> char \<Rightarrow> string \<Rightarrow> string" where
  "pad_left w c s = replicate (w - length s) c @ s"

section \<open>Formatted input of a hexadecimal integer\<close>

record istream =
  is_rest :: string
  is_eof :: bool
  is_fail :: bool

definition istringstream :: "string \<Rightarrow> istream" where
  "istringstream s = \<lparr>is_rest = s, is_eof = False, is_fail = False\<rparr>"

definition split_sign :: "string \<Rightarrow> bool \<times> string" where
  "split_sign s =
     (case s of [] \<Rightarrow> (False, [])
      | c # t \<Rightarrow> if c = CHR ''-'' then (True, t) else if c = CHR ''+'' then (False, t) else (False, s))"

definition split_0x :: "string \<Rightarrow> string" where
  "split_0x s =
     (case s of a # b # t \<Rightarrow> if a = CHR ''0'' \<and> (b = CHR ''x'' \<or> b = CHR ''X'') then t else s
      | _ \<Rightarrow> s)"

definition hex_number :: "string \<Rightarrow> nat" where
  "hex_number ds = foldl (\<lambda>n c. 16 * n + the (hex_val c)) 0 ds"

text \<open>
  \<open>istr >> std::hex >> val\<close> for \<open>int val\<close>: the sentry fails when the stream is not good and skips
  white space; the number is an optional sign, an optional \<open>0x\<close> and hexadecimal digits; no digit
  or a value outside \<open>int\<close> sets \<open>failbit\<close>; reaching the end of the buffer sets \<open>eofbit\<close>.
\<close>

definition get_hex_int :: "istream \<Rightarrow> istream \<times> int" where
  "get_hex_int st =
     (if is_eof st \<or> is_fail st then (st\<lparr>is_fail := True\<rparr>, 0)
      else let s = dropWhile isspace (is_rest st) in
        if s = [] then (\<lparr>is_rest = [], is_eof = True, is_fail = True\<rparr>, 0)
        else let (neg, s1) = split_sign s;
                 s2 = split_0x s1;
                 ds = takeWhile isxdigit s2;
                 rest = dropWhile isxdigit s2;
                 v = (if neg then - int (hex_number ds) else int (hex_number ds));
                 w = (if ds = [] then 0 else max (- (2 ^ 31)) (min (2 ^ 31 - 1) v))
             in (\<lparr>is_rest = rest, is_eof = (rest = []), is_fail = (ds = [] \<or> v \<noteq> w)\<rparr>, w))"

section \<open>Facts about printing and extraction\<close>

lemma char_code_char_of [simp, word_facts]: "n < 256 \<Longrightarrow> char_code (char_of n) = n"
  by (simp add: of_char_of)

lemma hex_val_hex_char [simp]: "d < 16 \<Longrightarrow> hex_val (hex_char d) = Some d"
  by (auto simp: hex_val_def hex_char_def)

lemma hex_val_hex_char_upper [simp]: "d < 16 \<Longrightarrow> hex_val (hex_char_upper d) = Some d"
  by (auto simp: hex_val_def hex_char_upper_def)

lemma isxdigit_hex_char [simp]: "d < 16 \<Longrightarrow> isxdigit (hex_char d)"
  by (simp add: isxdigit_def)

lemma hex_char_code: "d < 16 \<Longrightarrow> char_code (hex_char d) = (if d < 10 then 48 + d else 87 + d)"
  by (auto simp: hex_char_def)

lemma hex_val_lt: "hex_val c = Some d \<Longrightarrow> d < 16"
  by (auto simp: hex_val_def Let_def split: if_splits)

lemma char_eq_code: "c = c' \<longleftrightarrow> char_code c = char_code c'"
  by simp

lemma isxdigit_facts:
  assumes "isxdigit c"
  shows "\<not> isspace c" "c \<noteq> CHR ''-''" "c \<noteq> CHR ''+''" "c \<noteq> CHR ''x''" "c \<noteq> CHR ''X''"
    "c \<noteq> CHR ''.''"
  using assms by (auto simp: isxdigit_def hex_val_def isspace_def split: if_splits)

lemma digits_base_hd_lt: "n < b \<Longrightarrow> digits_base b n = [n]"
  by (simp add: digits_base.simps)

lemma show_hex_small: "n < 16 \<Longrightarrow> show_hex n = [hex_char n]"
  by (simp add: show_hex_def digits_base_hd_lt)

lemma show_hex_two: "16 \<le> n \<Longrightarrow> n < 256 \<Longrightarrow> show_hex n = [hex_char (n div 16), hex_char (n mod 16)]"
proof -
  assume n: "16 \<le> n" "n < 256"
  then have "n div 16 < 16" by simp
  with n show ?thesis
    by (simp add: show_hex_def digits_base.simps[of 16 n] digits_base_hd_lt)
qed

lemma hex_char_0: "hex_char 0 = CHR ''0''"
  by code_simp

lemma pad_hex_byte:
  "n < 256 \<Longrightarrow> pad_left 2 (CHR ''0'') (show_hex n) = [hex_char (n div 16), hex_char (n mod 16)]"
  by (cases "n < 16") (simp_all add: pad_left_def show_hex_small show_hex_two hex_char_0)

text \<open>Every digit printed in a base below 17 is below that base, and the digits denote the number.\<close>

lemma digits_base_bound: "2 \<le> b \<Longrightarrow> d \<in> set (digits_base b n) \<Longrightarrow> d < b"
proof (induction b n rule: digits_base.induct)
  case (1 b n)
  then show ?case
    by (cases "n < b") (auto simp: digits_base.simps[of b n])
qed

lemma digits_base_value: "2 \<le> b \<Longrightarrow> foldl (\<lambda>m d. b * m + d) 0 (digits_base b n) = n"
proof (induction b n rule: digits_base.induct)
  case (1 b n)
  then show ?case
    by (cases "n < b") (auto simp: digits_base.simps[of b n])
qed

lemma hex_number_show_hex: "hex_number (show_hex n) = n"
proof -
  have "hex_number (map hex_char ds) = foldl (\<lambda>m d. 16 * m + d) 0 ds" if "\<forall>d\<in>set ds. d < 16" for ds
    using that unfolding hex_number_def
    by (induction ds rule: rev_induct) auto
  then show ?thesis
    using digits_base_bound[of 16 _ n] digits_base_value[of 16 n] by (simp add: show_hex_def)
qed

lemma get_hex_int_two_digits:
  assumes "a < 16" "b < 16" "\<forall>c\<in>set ws. isspace c" "rest = [] \<or> \<not> isxdigit (hd rest)"
  shows "get_hex_int \<lparr>is_rest = ws @ hex_char a # hex_char b # rest, is_eof = False, is_fail = False\<rparr>
       = (\<lparr>is_rest = rest, is_eof = (rest = []), is_fail = False\<rparr>, int (16 * a + b))"
proof -
  let ?s = "hex_char a # hex_char b # rest"
  have xa: "isxdigit (hex_char a)" and xb: "isxdigit (hex_char b)"
    using assms(1,2) by simp_all
  have "dropWhile isspace (ws @ ?s) = ?s"
    by (rule dropWhile_append_stop) (use assms(3) isxdigit_facts(1)[OF xa] in auto)
  moreover have "split_sign ?s = (False, ?s)" "split_0x ?s = ?s"
    using isxdigit_facts[OF xa] isxdigit_facts[OF xb] by (simp_all add: split_sign_def split_0x_def)
  moreover have "takeWhile isxdigit ?s = [hex_char a, hex_char b]" "dropWhile isxdigit ?s = rest"
    using assms(4) xa xb by (cases rest; auto)+
  moreover have "Ball (set rest) isxdigit = (rest = [])"
    using assms(4) by (cases rest) auto
  ultimately show ?thesis
    using assms(1,2) by (simp add: get_hex_int_def hex_number_def Let_def)
qed

lemma length_get_hex_int:
  assumes "get_hex_int st = (st', v)" "\<not> is_fail st'"
  shows "length (is_rest st') < length (is_rest st)"
proof -
  define s where "s = dropWhile isspace (is_rest st)"
  define s2 where "s2 = split_0x (snd (split_sign s))"
  have ne: "s \<noteq> []" "takeWhile isxdigit s2 \<noteq> []" and r: "is_rest st' = dropWhile isxdigit s2"
    using assms by (auto simp: get_hex_int_def s_def s2_def Let_def split: prod.splits if_splits)
  have "length s2 \<le> length s"
    by (auto simp: s2_def split_sign_def split_0x_def split: list.splits)
  moreover have "length (dropWhile isxdigit s2) < length s2"
    using ne(2) by (cases s2) (auto simp: le_imp_less_Suc length_dropWhile_le split: if_splits)
  moreover have "length s \<le> length (is_rest st)"
    by (simp add: s_def length_dropWhile_le)
  ultimately show ?thesis by (simp add: r)
qed

section \<open>Zero padded numbers\<close>

text \<open>Exactly \<open>k\<close> digits of a number in base 16, the most significant first.\<close>

fun fixed_digits :: "nat \<Rightarrow> nat \<Rightarrow> nat list" where
  "fixed_digits 0 n = []"
| "fixed_digits (Suc k) n = fixed_digits k (n div 16) @ [n mod 16]"

lemma length_fixed_digits [simp]: "length (fixed_digits k n) = k"
  by (induction k arbitrary: n) auto

lemma fixed_digits_0: "fixed_digits k 0 = replicate k 0"
  by (induction k) (simp_all add: replicate_append_same)

lemma length_digits_base: "0 < k \<Longrightarrow> n < 16 ^ k \<Longrightarrow> length (digits_base 16 n) \<le> k"
proof (induction k arbitrary: n)
  case (Suc k)
  show ?case
  proof (cases "n < 16")
    case False
    then have "0 < k" using Suc.prems by (cases k) auto
    then have "length (digits_base 16 (n div 16)) \<le> k"
      using Suc.IH[of "n div 16"] Suc.prems by (simp add: less_mult_imp_div_less mult.commute)
    with False show ?thesis by (subst digits_base.simps) simp
  qed (simp add: digits_base_hd_lt)
qed simp

lemma pad_digits:
  "0 < k \<Longrightarrow> n < 16 ^ k \<Longrightarrow>
     replicate (k - length (digits_base 16 n)) 0 @ digits_base 16 n = fixed_digits k n"
proof (induction k arbitrary: n)
  case (Suc k)
  show ?case
  proof (cases "n < 16")
    case False
    then have k: "0 < k" using Suc.prems by (cases k) auto
    have "n div 16 < 16 ^ k" using Suc.prems by (simp add: less_mult_imp_div_less mult.commute)
    from Suc.IH[OF k this] False show ?thesis
      by (subst (1 2) digits_base.simps) simp
  qed (simp add: digits_base_hd_lt fixed_digits_0)
qed simp

lemma pad_show_hex:
  assumes "0 < k" "n < 16 ^ k"
  shows "pad_left k (CHR ''0'') (show_hex n) = map hex_char (fixed_digits k n)"
    "pad_left k (CHR ''0'') (show_hex_upper n) = map hex_char_upper (fixed_digits k n)"
proof -
  have "hex_char_upper 0 = CHR ''0''" by (simp add: hex_char_upper_def char_eq_code)
  then show "pad_left k (CHR ''0'') (show_hex n) = map hex_char (fixed_digits k n)"
    "pad_left k (CHR ''0'') (show_hex_upper n) = map hex_char_upper (fixed_digits k n)"
    by (simp_all add: pad_left_def show_hex_def show_hex_upper_def hex_char_0 map_replicate_const
        flip: pad_digits[OF assms])
qed

lemma fixed_digits_add:
  "fixed_digits (a + b) n = fixed_digits a (n div 16 ^ b) @ fixed_digits b (n mod 16 ^ b)"
proof (induction b arbitrary: n)
  case (Suc b)
  have "n mod 16 ^ Suc b div 16 = n div 16 mod 16 ^ b"
    by (simp add: mod_mult2_eq)
  moreover have "n mod (16 * 16 ^ b) mod 16 = n mod 16" by (simp add: mod_mod_cancel)
  ultimately show ?case using Suc[of "n div 16"] by (simp add: div_mult2_eq)
qed simp

lemma fixed_digits_inj:
  "m < 16 ^ k \<Longrightarrow> n < 16 ^ k \<Longrightarrow> fixed_digits k m = fixed_digits k n \<Longrightarrow> m = n"
proof (induction k arbitrary: m n)
  case (Suc k)
  then have "m div 16 = n div 16"
    by (simp add: less_mult_imp_div_less mult.commute)
  with Suc.prems show ?case by (metis append1_eq_conv div_mult_mod_eq fixed_digits.simps(2))
qed simp

lemma fixed_digits_bound: "d \<in> set (fixed_digits k n) \<Longrightarrow> d < 16"
  by (induction k arbitrary: n) auto

section \<open>Decimal numbers\<close>

definition dec_value :: "string \<Rightarrow> nat" where
  "dec_value s = foldl (\<lambda>n c. 10 * n + (char_code c - 48)) 0 s"

lemma dec_value_show_dec: "dec_value (show_dec n) = n"
proof -
  have "foldl (\<lambda>m c. 10 * m + (char_code c - 48)) a (map hex_char ds) = foldl (\<lambda>m d. 10 * m + d) a ds"
    if "\<forall>d\<in>set ds. d < 10" for ds a
    using that by (induction ds arbitrary: a) (auto simp: hex_char_code)
  moreover have "\<forall>d\<in>set (digits_base 10 n). d < 10" using digits_base_bound[of 10] by auto
  ultimately show ?thesis
    using digits_base_value[of 10 n] by (simp add: dec_value_def show_dec_def del: digits_base.simps)
qed

end
