(* ===== verification/Hex_String.thy ===== *)
theory Hex_String
  imports Cpp_Std
begin

text \<open>
  \<open>src/include/HexStringCoversion.h\<close>: conversion between dotted hexadecimal text and bytes
  (\<open>parseBinary\<close>, \<open>parseHexaNum\<close>, \<open>encodeHexaNum\<close>, the class \<open>DotMsg\<close>) and between node bitmaps and
  sets of indexes. The loops read an input stream, so each is a recursion over the stream; the
  out parameter \<open>to\<close> is returned beside the result because a thrown exception leaves the bytes
  already stored in it. Proved: both loops stop, the texts \<open>DotMsg\<close> prints are parsed back to
  the same bytes, the bit conversions are inverse to each other, and when each of them throws.
\<close>

section \<open>Parsing\<close>

text \<open>
  The loop shared by the two \<open>parseBinary\<close> overloads: \<open>n\<close> is \<open>maxlen - retval\<close>, \<open>acc\<close> the bytes
  stored so far.
\<close>

fun parse_loop :: "nat \<Rightarrow> istream \<Rightarrow> bytes \<Rightarrow> bytes \<times> unit result" where
  "parse_loop 0 st acc = (acc, Inr ())"
| "parse_loop (Suc n) st acc =
     (let (st', val) = get_hex_int st in
      if is_fail st' then
        (if is_eof st' then (acc, Inr ()) else (acc, Inl (LogicError ''Unexpected format: '')))
      else parse_loop n st' (acc @ [word_of_int val]))"

text \<open>
  \<open>parseBinary(std::vector&, from, maxlen)\<close>: bytes are pushed to the vector, the number of pushed
  bytes is returned.
\<close>

definition parseBinary :: "bytes \<Rightarrow> string \<Rightarrow> int \<Rightarrow> bytes \<times> int result" where
  "parseBinary to from maxlen =
     (if from = [] then (to, Inr 0)
      else let (got, r) = parse_loop (nat maxlen) (istringstream (replace_char (CHR ''.'') (CHR '' '') from)) []
           in (to @ got, map_sum id (\<lambda>_. int (length got)) r))"

text \<open>
  \<open>parseBinary(uint8_t*, from, maxlen)\<close>: the bytes overwrite the buffer from its start; writing
  past its end is undefined.
\<close>

definition parseBinary_buf :: "bytes \<Rightarrow> string \<Rightarrow> int \<Rightarrow> bytes \<times> int result" where
  "parseBinary_buf to from maxlen =
     (if from = [] then (to, Inr 0)
      else let (got, r) = parse_loop (nat maxlen) (istringstream (replace_char (CHR ''.'') (CHR '' '') from)) []
           in if length to < length got then (to, Inl (UB ''buffer overrun''))
              else (got @ drop (length got) to, map_sum id (\<lambda>_. int (length got)) r))"

text \<open>\<open>parseHexaNum<T>\<close> for the unsigned target types of the callers.\<close>

definition parseHexaNum :: "string \<Rightarrow> 'w::len word result" where
  "parseHexaNum from =
     (let (st, val) = get_hex_int (istringstream from) in
      if is_fail st then Inl (LogicError ''Unexpected format: '') else Inr (word_of_int val))"

section \<open>Printing\<close>

definition encodeHexaNum_u8 :: "u8 \<Rightarrow> string" where
  "encodeHexaNum_u8 from = pad_left 2 (CHR ''0'') (show_hex (unat from))"

definition encodeHexaNum_u16 :: "u16 \<Rightarrow> string" where
  "encodeHexaNum_u16 from = pad_left 4 (CHR ''0'') (show_hex (unat from))"

text \<open>
  \<open>encodeBinary\<close> prints through \<open>shape::TracerMemHex\<close>, which is not part of this repository: it is
  the parameter \<open>tracerMemHex\<close>.
\<close>

definition encodeBinary :: "(bytes \<Rightarrow> char \<Rightarrow> string) \<Rightarrow> bytes \<Rightarrow> string" where
  "encodeBinary tracerMemHex from =
     (if from = [] then []
      else let to = tracerMemHex from (CHR ''.'') in
           if to \<noteq> [] \<and> last to = CHR ''.'' then butlast to else to)"

section \<open>Bitmaps\<close>

text \<open>The inner loop over the masks \<open>0x01 \<dots> 0x80\<close> of one byte.\<close>

definition byte_indexes :: "u8 \<Rightarrow> int \<Rightarrow> int set" where
  "byte_indexes b offset = (\<lambda>k. offset + int k) ` set (filter (\<lambda>k. bit b k) [0..<8])"

fun bitmap_loop :: "bytes \<Rightarrow> int \<Rightarrow> int set \<Rightarrow> int set" where
  "bitmap_loop [] offset acc = acc"
| "bitmap_loop (b # bs) offset acc =
     (if b = 0 then bitmap_loop bs (offset + 8) acc
      else bitmap_loop bs (offset + 8) (acc \<union> byte_indexes b offset))"

definition bitmapToIndexes :: "bytes \<Rightarrow> int \<Rightarrow> int \<Rightarrow> int \<Rightarrow> int set result" where
  "bitmapToIndexes bitmap indexFrom indexTo offset =
     (if indexTo < indexFrom then Inr {}
      else if indexFrom < 0 \<or> int (length bitmap) \<le> indexTo then Inl (UB ''bitmap index'')
      else Inr (bitmap_loop (take (nat (indexTo - indexFrom + 1)) (drop (nat indexFrom) bitmap)) offset {}))"

fun set_bits_loop :: "int list \<Rightarrow> bytes \<Rightarrow> bytes result" where
  "set_bits_loop [] bm = Inr bm"
| "set_bits_loop (idx # is) bm =
     (if idx < 0 then Inl (UB ''negative bit index'')
      else if int (length bm) \<le> idx div 8 then Inl (LogicError '' is out of size: '')
      else let j = nat (idx div 8) in
           set_bits_loop is (bm[j := bm ! j OR push_bit (nat (idx mod 8)) 1]))"

definition indexesToBitmap :: "int set \<Rightarrow> nat \<Rightarrow> bytes result" where
  "indexesToBitmap indexes bitmapSize =
     set_bits_loop (sorted_list_of_set indexes) (replicate bitmapSize 0)"

section \<open>DotMsg\<close>

function dot_loop :: "istream \<Rightarrow> bytes \<Rightarrow> bytes result" where
  "dot_loop st acc =
     (let (st', val) = get_hex_int st in
      if is_fail st' then
        (if is_eof st' then Inr acc else Inl (LogicError ''Unexpected format: ''))
      else dot_loop st' (acc @ [word_of_int val]))"
  by pat_completeness auto
termination
  by (relation "measure (\<lambda>(st, acc). length (is_rest st))")
    (auto dest: length_get_hex_int[OF sym])

declare dot_loop.simps [simp del]

definition DotMsg :: "string \<Rightarrow> bytes result" where
  "DotMsg dotMsg =
     (if dotMsg = [] then Inr []
      else dot_loop (istringstream (replace_char (CHR ''.'') (CHR '' '') dotMsg)) [])"

definition dotmsg_string :: "bytes \<Rightarrow> string" where
  "dotmsg_string m =
     (if m = [] then []
      else butlast (concat (map (\<lambda>c. pad_left 2 (CHR ''0'') (show_hex (unat c)) @ ''.'') m)))"

section \<open>Parsing what was printed\<close>

abbreviation hex_pair :: "u8 \<Rightarrow> string" where
  "hex_pair b \<equiv> [hex_char (unat b div 16), hex_char (unat b mod 16)]"

lemma hex_pair_bounds [simp]: "unat (b :: u8) div 16 < 16" "unat b mod 16 < 16"
proof -
  have "unat b < 256" by simp
  then show "unat b div 16 < 16" by (simp add: less_mult_imp_div_less)
qed simp

lemma encodeHexaNum_u8_pair: "encodeHexaNum_u8 b = hex_pair b"
  by (simp add: encodeHexaNum_u8_def pad_hex_byte)

lemma butlast_sep_concat:
  "butlast (concat (map (\<lambda>c. f c @ [d]) (xs @ [x]))) = concat (map (\<lambda>c. f c @ [d]) xs) @ f x"
  by (simp add: butlast_append)

text \<open>The text with dots replaced by blanks, byte by byte: the first pair has no leading blank.\<close>

fun spaced :: "bytes \<Rightarrow> string" where
  "spaced [] = []"
| "spaced (b # bs) = '' '' @ hex_pair b @ spaced bs"

lemma spaced_no_xdigit: "spaced bs = [] \<or> \<not> isxdigit (hd (spaced bs))"
  by (cases bs) (simp_all add: isxdigit_def hex_val_def)

lemma spaced_append: "spaced (bs @ cs) = spaced bs @ spaced cs"
  by (induction bs) simp_all

lemma blanked_dotmsg:
  "m \<noteq> [] \<Longrightarrow> '' '' @ replace_char (CHR ''.'') (CHR '' '') (dotmsg_string m) = spaced m"
proof -
  have nd: "hex_char (unat b div 16) \<noteq> CHR ''.''" "hex_char (unat b mod 16) \<noteq> CHR ''.''" for b :: u8
    using isxdigit_facts(6) by simp_all
  have blank: "replace_char (CHR ''.'') (CHR '' '') (concat (map (\<lambda>c. hex_pair c @ ''.'') xs)) @ '' ''
    = concat (map (\<lambda>c. hex_pair c @ '' '') xs) @ '' ''" for xs :: bytes
    by (induction xs) (use nd in \<open>auto simp: replace_char_def\<close>)
  have shift: "'' '' @ concat (map (\<lambda>c. hex_pair c @ '' '') xs) = spaced xs @ '' ''" for xs :: bytes
    by (induction xs) simp_all
  assume "m \<noteq> []"
  then obtain xs x where m: "m = xs @ [x]" by (metis rev_exhaust)
  have p: "pad_left 2 (CHR ''0'') (show_hex (unat c)) = hex_pair c" for c :: u8
    by (simp add: pad_hex_byte)
  have "dotmsg_string m = concat (map (\<lambda>c. hex_pair c @ ''.'') xs) @ hex_pair x"
    unfolding dotmsg_string_def p m using butlast_sep_concat[of hex_pair "CHR ''.''" xs x] by simp
  then have "'' '' @ replace_char (CHR ''.'') (CHR '' '') (dotmsg_string m)
    = '' '' @ concat (map (\<lambda>c. hex_pair c @ '' '') xs) @ hex_pair x"
    using blank[of xs] nd by (simp add: replace_char_def)
  also have "\<dots> = spaced m" using shift[of xs] by (simp add: m spaced_append)
  finally show ?thesis .
qed

lemma get_hex_int_pair:
  assumes "ws = [] \<or> ws = '' ''"
  shows "get_hex_int \<lparr>is_rest = ws @ hex_pair b @ spaced bs, is_eof = False, is_fail = False\<rparr>
       = (\<lparr>is_rest = spaced bs, is_eof = (bs = []), is_fail = False\<rparr>, uint b)"
proof -
  have "int (16 * (unat b div 16) + unat b mod 16) = uint b"
    by simp
  moreover have "spaced bs = [] \<longleftrightarrow> bs = []" by (cases bs) simp_all
  ultimately show ?thesis
    using get_hex_int_two_digits[of "unat b div 16" "unat b mod 16" ws "spaced bs"]
      spaced_no_xdigit[of bs] assms by (auto simp: isspace_def)
qed

lemma get_hex_int_at_end:
  "get_hex_int \<lparr>is_rest = r, is_eof = True, is_fail = f\<rparr> = (\<lparr>is_rest = r, is_eof = True, is_fail = True\<rparr>, 0)"
  by (simp add: get_hex_int_def)

lemma dot_loop_spaced:
  "ws = [] \<or> ws = '' '' \<Longrightarrow>
   dot_loop \<lparr>is_rest = ws @ hex_pair b @ spaced bs, is_eof = False, is_fail = False\<rparr> acc = Inr (acc @ b # bs)"
proof (induction bs arbitrary: ws b acc)
  case Nil
  then show ?case
    by (simp add: dot_loop.simps[of _ acc] get_hex_int_pair[of ws b Nil, simplified]
        dot_loop.simps[of _ "acc @ [b]"] get_hex_int_at_end)
next
  case (Cons c bs)
  have "dot_loop \<lparr>is_rest = ws @ hex_pair b @ spaced (c # bs), is_eof = False, is_fail = False\<rparr> acc
      = dot_loop \<lparr>is_rest = '' '' @ hex_pair c @ spaced bs, is_eof = False, is_fail = False\<rparr> (acc @ [b])"
    by (subst dot_loop.simps) (simp only: get_hex_int_pair[OF Cons.prems], simp)
  also have "\<dots> = Inr (acc @ b # c # bs)"
    using Cons.IH[of "'' ''" c "acc @ [b]"] by simp
  finally show ?case .
qed

lemma parse_loop_spaced:
  "ws = [] \<or> ws = '' '' \<Longrightarrow> length (b # bs) \<le> n \<Longrightarrow>
   parse_loop n \<lparr>is_rest = ws @ hex_pair b @ spaced bs, is_eof = False, is_fail = False\<rparr> acc
     = (acc @ b # bs, Inr ())"
proof (induction bs arbitrary: ws b acc n)
  case Nil
  then obtain m where n: "n = Suc m" by (cases n) auto
  show ?case
    unfolding n using get_hex_int_pair[OF Nil.prems(1), of b "[]"]
    by (cases m) (simp_all add: get_hex_int_at_end)
next
  case (Cons c bs)
  then obtain m where n: "n = Suc m" by (cases n) auto
  have "parse_loop n \<lparr>is_rest = ws @ hex_pair b @ spaced (c # bs), is_eof = False, is_fail = False\<rparr> acc
      = parse_loop m \<lparr>is_rest = '' '' @ hex_pair c @ spaced bs, is_eof = False, is_fail = False\<rparr> (acc @ [b])"
    unfolding n parse_loop.simps by (simp only: get_hex_int_pair[OF Cons.prems(1)], simp)
  also have "\<dots> = (acc @ b # c # bs, Inr ())"
    using Cons.IH[where ws = "'' ''" and b = c and n = m and acc = "acc @ [b]"] Cons.prems(2) n by simp
  finally show ?case .
qed

lemma replaced_dotmsg_pair:
  "replace_char (CHR ''.'') (CHR '' '') (dotmsg_string (b # bs)) = hex_pair b @ spaced bs"
  using blanked_dotmsg[of "b # bs"] by simp

lemma dotmsg_string_ne: "dotmsg_string (b # bs) \<noteq> []"
  using replaced_dotmsg_pair[of b bs] by (auto simp: replace_char_def)

section \<open>Bits of a bitmap\<close>

definition bitmap_bits :: "bytes \<Rightarrow> int set" where
  "bitmap_bits bm = int ` {i. i < 8 * length bm \<and> bit (bm ! (i div 8)) (i mod 8)}"

lemma bitmap_bits_iff:
  "int i \<in> bitmap_bits bm \<longleftrightarrow> i < 8 * length bm \<and> bit (bm ! (i div 8)) (i mod 8)"
  by (auto simp: bitmap_bits_def)

lemma bitmap_bits_Cons:
  "bitmap_bits (b # bs) = byte_indexes b 0 \<union> (\<lambda>i. 8 + i) ` bitmap_bits bs"
proof (intro set_eqI iffI)
  fix x assume "x \<in> bitmap_bits (b # bs)"
  then obtain i where i: "x = int i" "i < 8 * Suc (length bs)" "bit ((b # bs) ! (i div 8)) (i mod 8)"
    by (auto simp: bitmap_bits_def)
  show "x \<in> byte_indexes b 0 \<union> (\<lambda>i. 8 + i) ` bitmap_bits bs"
  proof (cases "i < 8")
    case True
    with i show ?thesis by (auto simp: byte_indexes_def)
  next
    case False
    then obtain j where j: "i = 8 + j" by (metis add_diff_inverse_nat)
    have "(8 + j) div 8 = Suc (j div 8)" by simp
    then have "j < 8 * length bs" "bit (bs ! (j div 8)) (j mod 8)"
      using i by (simp_all add: j)
    then have "int j \<in> bitmap_bits bs" by (simp add: bitmap_bits_iff)
    then show ?thesis using i(1) j by auto
  qed
next
  fix x assume "x \<in> byte_indexes b 0 \<union> (\<lambda>i. 8 + i) ` bitmap_bits bs"
  then consider (a) k where "x = int k" "k < 8" "bit b k"
    | (b) j where "x = 8 + int j" "j < 8 * length bs" "bit (bs ! (j div 8)) (j mod 8)"
    by (auto simp: byte_indexes_def bitmap_bits_def)
  then show "x \<in> bitmap_bits (b # bs)"
  proof cases
    case a
    then show ?thesis using bitmap_bits_iff[of k "b # bs"] by simp
  next
    case b
    have "(8 + j) div 8 = Suc (j div 8)" by simp
    with b show ?thesis using bitmap_bits_iff[of "8 + j" "b # bs"] by simp
  qed
qed

lemma byte_indexes_shift: "byte_indexes b off = (\<lambda>i. off + i) ` byte_indexes b 0"
  by (simp add: byte_indexes_def image_image)

lemma byte_indexes_0 [simp]: "byte_indexes 0 off = {}"
  by (simp add: byte_indexes_def)

lemma bitmap_loop_bits:
  "bitmap_loop bs off acc = acc \<union> (\<lambda>i. off + i) ` bitmap_bits bs"
proof (induction bs arbitrary: off acc)
  case Nil
  then show ?case by (simp add: bitmap_bits_def)
next
  case (Cons b bs)
  have "(\<lambda>i. off + i) ` bitmap_bits (b # bs) = byte_indexes b off \<union> (\<lambda>i. (off + 8) + i) ` bitmap_bits bs"
    by (simp add: bitmap_bits_Cons image_Un image_image byte_indexes_shift[of b off] add.assoc)
  then show ?case using Cons.IH by (cases "b = 0") (auto simp: Un_assoc)
qed

lemma bitmapToIndexes_whole:
  "bitmapToIndexes bm 0 (int (length bm) - 1) off = Inr ((\<lambda>i. off + i) ` bitmap_bits bm)"
  by (auto simp: bitmapToIndexes_def bitmap_loop_bits bitmap_bits_def)

lemma bitmap_bits_update:
  assumes "j < length bm" "k < 8"
  shows "bitmap_bits (bm[j := bm ! j OR push_bit k 1]) = insert (int (8 * j + k)) (bitmap_bits bm)"
proof -
  have "i < 8 * length bm \<and> bit (bm[j := bm ! j OR push_bit k 1] ! (i div 8)) (i mod 8)
    \<longleftrightarrow> i = 8 * j + k \<or> (i < 8 * length bm \<and> bit (bm ! (i div 8)) (i mod 8))" for i
  proof (cases "i div 8 = j")
    case True
    then have "i = 8 * j + k \<longleftrightarrow> i mod 8 = k" using assms(2) by presburger
    moreover have "bit (push_bit k 1 :: u8) (i mod 8) \<longleftrightarrow> i mod 8 = k"
      using assms(2) by (auto simp: bit_exp_iff)
    ultimately show ?thesis
      using assms True by (auto simp: bit_or_iff)
  next
    case False
    then have "i \<noteq> 8 * j + k" using assms(2) by auto
    with False show ?thesis by simp
  qed
  then have "{i. i < 8 * length bm \<and> bit (bm[j := bm ! j OR push_bit k 1] ! (i div 8)) (i mod 8)}
    = insert (8 * j + k) {i. i < 8 * length bm \<and> bit (bm ! (i div 8)) (i mod 8)}" by blast
  then show ?thesis unfolding bitmap_bits_def length_list_update by (simp only: image_insert)
qed

lemma set_bits_loop_ok:
  "(\<forall>i\<in>set is. 0 \<le> i \<and> i < 8 * int (length bm)) \<Longrightarrow>
   \<exists>bm'. set_bits_loop is bm = Inr bm' \<and> length bm' = length bm \<and> bitmap_bits bm' = bitmap_bits bm \<union> set is"
proof (induction "is" arbitrary: bm)
  case Nil
  then show ?case by simp
next
  case (Cons idx "is")
  let ?j = "nat (idx div 8)" and ?k = "nat (idx mod 8)"
  let ?bm = "bm[?j := bm ! ?j OR push_bit ?k 1]"
  have r: "0 \<le> idx" "idx < 8 * int (length bm)" using Cons.prems by auto
  then have j: "?j < length bm" and k: "?k < 8" and i: "int (8 * ?j + ?k) = idx" by auto
  obtain bm' where bm': "set_bits_loop is ?bm = Inr bm'" "length bm' = length bm"
      "bitmap_bits bm' = bitmap_bits ?bm \<union> set is"
    using Cons.IH[of ?bm] Cons.prems by auto
  have "set_bits_loop (idx # is) bm = Inr bm'" using r bm'(1) by (simp add: Let_def)
  moreover have "bitmap_bits bm' = bitmap_bits bm \<union> set (idx # is)"
    using bm'(3) bitmap_bits_update[OF j k] i by auto
  ultimately show ?case using bm'(2) by blast
qed

lemma set_bits_loop_too_big:
  "(\<forall>i\<in>set is. 0 \<le> i) \<Longrightarrow> \<not> (\<forall>i\<in>set is. i < 8 * int (length bm)) \<Longrightarrow>
   set_bits_loop is bm = Inl (LogicError '' is out of size: '')"
  by (induction "is" arbitrary: bm) (auto simp: Let_def)

lemma bitmap_bits_replicate [simp]: "bitmap_bits (replicate n 0) = {}"
  by (auto simp: bitmap_bits_def)

lemma bitmap_bits_range: "i \<in> bitmap_bits bm \<Longrightarrow> 0 \<le> i \<and> i < 8 * int (length bm)"
  by (auto simp: bitmap_bits_def)

lemma finite_bitmap_bits [simp]: "finite (bitmap_bits bm)"
  by (simp add: bitmap_bits_def)

lemma bitmap_bits_inj:
  assumes "length a = length b" "bitmap_bits a = bitmap_bits b"
  shows "a = b"
proof (rule nth_equalityI[OF assms(1)])
  fix j assume j: "j < length a"
  have "bit (a ! j) k = bit (b ! j) k" if k: "k < 8" for k
    using bitmap_bits_iff[of "8 * j + k" a] bitmap_bits_iff[of "8 * j + k" b] j k assms by auto
  then show "a ! j = b ! j" by (simp add: u8_eq_iff)
qed

section \<open>Properties\<close>

text \<open>
  The text that \<open>DotMsg\<close> prints for a byte string, lower case pairs separated by dots, is
  parsed back by the \<open>DotMsg\<close> constructor and by \<open>parseBinary\<close> to exactly these bytes, provided
  that \<open>maxlen\<close> does not cut it off; \<open>parseBinary\<close> then returns their number.
\<close>

theorem dotmsg_roundtrip:
  assumes "length m \<le> nat maxlen"
  shows "DotMsg (dotmsg_string m) = Inr m \<and>
    parseBinary to (dotmsg_string m) maxlen = (to @ m, Inr (int (length m)))"
proof (cases m)
  case Nil
  then show ?thesis by (simp add: DotMsg_def dotmsg_string_def parseBinary_def)
next
  case (Cons b bs)
  have "dot_loop (istringstream (hex_pair b @ spaced bs)) [] = Inr m"
    using dot_loop_spaced[of "[]" b bs "[]"] by (simp add: istringstream_def Cons)
  moreover have "parse_loop (nat maxlen) (istringstream (hex_pair b @ spaced bs)) [] = (m, Inr ())"
    using parse_loop_spaced[of "[]" b bs "nat maxlen" "[]"] assms by (simp add: istringstream_def Cons)
  ultimately show ?thesis
    using dotmsg_string_ne[of b bs]
    by (simp add: DotMsg_def parseBinary_def replaced_dotmsg_pair Cons)
qed

theorem dotmsg_roundtrip_witness:
  "length [0x00, 0xa5, 0xb1 :: u8] \<le> nat 64 \<and>
   DotMsg (dotmsg_string [0x00, 0xa5, 0xb1]) = Inr [0x00, 0xa5, 0xb1] \<and>
   dotmsg_string [0x00, 0xa5, 0xb1] = ''00.a5.b1''"
proof -
  have len: "length [0x00, 0xa5, 0xb1 :: u8] \<le> nat 64" by simp
  have "dotmsg_string [0x00, 0xa5, 0xb1] = ''00.a5.b1''" by code_simp
  with len dotmsg_roundtrip[OF len] show ?thesis by blast
qed

text \<open>
  A set of node indexes that fits the bitmap survives the conversion to a bitmap and back:
  \<open>indexesToBitmap\<close> succeeds with \<open>bitmapSize\<close> bytes and \<open>bitmapToIndexes\<close> reads the same set from them.
\<close>

theorem bitmap_roundtrip:
  assumes "finite S" "\<forall>i\<in>S. 0 \<le> i \<and> i < 8 * int n"
  shows "\<exists>bm. indexesToBitmap S n = Inr bm \<and> length bm = n \<and>
    bitmapToIndexes bm 0 (int n - 1) 0 = Inr S"
proof -
  obtain bm where bm: "indexesToBitmap S n = Inr bm" "length bm = n" "bitmap_bits bm = S"
    using set_bits_loop_ok[of "sorted_list_of_set S" "replicate n 0"] assms
    by (auto simp: indexesToBitmap_def)
  then show ?thesis using bitmapToIndexes_whole[of bm 0] by auto
qed

theorem bitmap_roundtrip_witness:
  "finite {1, 9, 23 :: int} \<and>
   (\<exists>bm. indexesToBitmap {1, 9, 23} 3 = Inr bm \<and> length bm = 3 \<and>
     bitmapToIndexes bm 0 (int 3 - 1) 0 = Inr {1, 9, 23})"
proof -
  have f: "finite {1, 9, 23 :: int}" and r: "\<forall>i\<in>{1, 9, 23 :: int}. 0 \<le> i \<and> i < 8 * int 3"
    by simp_all
  show ?thesis using f bitmap_roundtrip[OF f r] by blast
qed

text \<open>
  Conversely every bitmap is restored from the indexes read from it, so no two bitmaps of the
  same size denote the same set; and an index at or past \<open>8 * bitmapSize\<close> makes
  \<open>indexesToBitmap\<close> throw instead of writing outside of the vector.
\<close>

theorem bitmap_restored:
  "(\<exists>S. bitmapToIndexes bm 0 (int (length bm) - 1) 0 = Inr S \<and> indexesToBitmap S (length bm) = Inr bm) \<and>
   (finite T \<longrightarrow> (\<forall>i\<in>T. 0 \<le> i) \<longrightarrow> (\<exists>i\<in>T. 8 * int n \<le> i) \<longrightarrow>
     indexesToBitmap T n = Inl (LogicError '' is out of size: ''))"
proof (intro conjI impI)
  have S: "bitmapToIndexes bm 0 (int (length bm) - 1) 0 = Inr (bitmap_bits bm)"
    using bitmapToIndexes_whole[of bm 0] by simp
  obtain bm' where "indexesToBitmap (bitmap_bits bm) (length bm) = Inr bm'"
      "length bm' = length bm" "bitmap_bits bm' = bitmap_bits bm"
    using set_bits_loop_ok[of "sorted_list_of_set (bitmap_bits bm)" "replicate (length bm) 0"]
      bitmap_bits_range[of _ bm] by (auto simp: indexesToBitmap_def)
  with S bitmap_bits_inj[of bm' bm]
  show "\<exists>S. bitmapToIndexes bm 0 (int (length bm) - 1) 0 = Inr S \<and> indexesToBitmap S (length bm) = Inr bm"
    by auto
next
  assume "finite T" "\<forall>i\<in>T. 0 \<le> i" "\<exists>i\<in>T. 8 * int n \<le> i"
  then show "indexesToBitmap T n = Inl (LogicError '' is out of size: '')"
    using set_bits_loop_too_big[of "sorted_list_of_set T" "replicate n 0"]
    by (auto simp: indexesToBitmap_def not_less)
qed

theorem bitmap_restored_witness:
  "indexesToBitmap {3, 40} 4 = Inl (LogicError '' is out of size: '')"
proof -
  have h: "finite {3, 40 :: int}" "\<forall>i\<in>{3, 40 :: int}. 0 \<le> i" "\<exists>i\<in>{3, 40 :: int}. 8 * int 4 \<le> i"
    by simp_all
  show ?thesis using h bitmap_restored[where T = "{3, 40}" and n = 4] by blast
qed

end
