(* ===== verification/Access_Control.thy ===== *)
theory Access_Control
  imports Gwd_Prelude
begin

text \<open>
  \<open>src/include/AccessControl.h\<close>: arbitration of the IQRF channel between the normal, the exclusive
  and the sniffing user. Every operation runs under one recursive mutex, so each is one atomic
  step; the callbacks that an operation runs and the messages it hands to the channel are its
  output events. \<open>AccessorImpl\<close> objects are the handles of the users: their destructor gives the
  access back. The locale \<open>exclusive_access\<close> is the contract the holders of the exclusive access
  rely on; the properties are about all interleavings of users, as a step relation.
\<close>

section \<open>State and operations\<close>

datatype acces_type = Normal | Exclusive | Sniffer

text \<open>
  \<open>std::function\<close> members may be empty: \<open>None\<close>. Callbacks are opaque values of type \<open>'f\<close>.
\<close>

record 'f access_control =
  m_normalReceiveFromFunc :: "'f option"
  m_exclusiveReceiveFromFunc :: "'f option"
  m_snifferReceiveFromFunc :: "'f option"

datatype 'f ac_event = ChannelSend bytes | Callback 'f bytes | NoAccessWarning

record accessor =
  m_type :: acces_type

definition new_AccessControl :: "'f access_control" where
  "new_AccessControl = \<lparr>m_normalReceiveFromFunc = None, m_exclusiveReceiveFromFunc = None,
     m_snifferReceiveFromFunc = None\<rparr>"

definition sendTo :: "'f access_control \<Rightarrow> bytes \<Rightarrow> acces_type \<Rightarrow> 'f ac_event list result" where
  "sendTo ac message access =
     (case access of
        Normal \<Rightarrow>
          if m_exclusiveReceiveFromFunc ac = None then Inr [ChannelSend message]
          else Inl (LogicError ''Cannot send: Exclusive access is active'')
      | Exclusive \<Rightarrow> Inr [ChannelSend message]
      | Sniffer \<Rightarrow> Inl (LogicError ''Cannot send via sniffer access''))"

definition sniff :: "'f access_control \<Rightarrow> bytes \<Rightarrow> 'f ac_event list" where
  "sniff ac message =
     (case m_snifferReceiveFromFunc ac of None \<Rightarrow> [] | Some f \<Rightarrow> [Callback f message])"

definition hasExclusiveAccess :: "'f access_control \<Rightarrow> bool" where
  "hasExclusiveAccess ac = (m_exclusiveReceiveFromFunc ac \<noteq> None)"

definition getAccess ::
  "'f access_control \<Rightarrow> 'f option \<Rightarrow> acces_type \<Rightarrow> ('f access_control \<times> accessor) result" where
  "getAccess ac receiveFromFunc access =
     (case access of
        Normal \<Rightarrow> Inr (ac\<lparr>m_normalReceiveFromFunc := receiveFromFunc\<rparr>, \<lparr>m_type = access\<rparr>)
      | Exclusive \<Rightarrow>
          if m_exclusiveReceiveFromFunc ac = None
          then Inr (ac\<lparr>m_exclusiveReceiveFromFunc := receiveFromFunc\<rparr>, \<lparr>m_type = access\<rparr>)
          else Inl (LogicError ''Exclusive access already assigned'')
      | Sniffer \<Rightarrow> Inr (ac\<lparr>m_snifferReceiveFromFunc := receiveFromFunc\<rparr>, \<lparr>m_type = access\<rparr>))"

definition resetAccess :: "'f access_control \<Rightarrow> acces_type \<Rightarrow> 'f access_control" where
  "resetAccess ac access =
     (case access of
        Normal \<Rightarrow> ac\<lparr>m_normalReceiveFromFunc := None\<rparr>
      | Exclusive \<Rightarrow> ac\<lparr>m_exclusiveReceiveFromFunc := None\<rparr>
      | Sniffer \<Rightarrow> ac\<lparr>m_snifferReceiveFromFunc := None\<rparr>)"

definition messageHandler :: "'f access_control \<Rightarrow> bytes \<Rightarrow> 'f ac_event list" where
  "messageHandler ac message =
     (case m_exclusiveReceiveFromFunc ac of
        None \<Rightarrow> (case m_normalReceiveFromFunc ac of
                   Some f \<Rightarrow> [Callback f message] | None \<Rightarrow> [NoAccessWarning])
      | Some f \<Rightarrow> [Callback f message]) @
     (case m_snifferReceiveFromFunc ac of None \<Rightarrow> [] | Some f \<Rightarrow> [Callback f message])"

section \<open>Accessors\<close>

definition accessor_send ::
  "'f access_control \<Rightarrow> accessor \<Rightarrow> bytes \<Rightarrow> 'f ac_event list result" where
  "accessor_send ac a message = sendTo ac message (m_type a)"

definition accessor_destroy :: "'f access_control \<Rightarrow> accessor \<Rightarrow> 'f access_control" where
  "accessor_destroy ac a = resetAccess ac (m_type a)"

text \<open>
  The programming operations are passed through to the channel object, a template parameter: its
  methods are the fields of \<open>channel_ops\<close>, over the channel's own state \<open>'c\<close>.
\<close>

datatype upload_target =
    UPLOAD_TARGET_CFG | UPLOAD_TARGET_RFPMG | UPLOAD_TARGET_RFBAND | UPLOAD_TARGET_ACCESS_PWD
  | UPLOAD_TARGET_USER_KEY | UPLOAD_TARGET_FLASH | UPLOAD_TARGET_INTERNAL_EEPROM
  | UPLOAD_TARGET_EXTERNAL_EEPROM | UPLOAD_TARGET_SPECIAL

datatype upload_error_code =
    UPLOAD_NO_ERROR | UPLOAD_ERROR_GENERAL | UPLOAD_ERROR_TARGET_MEMORY | UPLOAD_ERROR_DATA_LEN
  | UPLOAD_ERROR_ADDRESS | UPLOAD_ERROR_WRITE_ONLY | UPLOAD_ERROR_COMMUNICATION
  | UPLOAD_ERROR_NOT_SUPPORTED | UPLOAD_ERROR_BUSY

record 'c channel_ops =
  ch_enterProgrammingState :: "'c \<Rightarrow> bool \<times> 'c"
  ch_upload :: "'c \<Rightarrow> upload_target \<Rightarrow> bytes \<Rightarrow> u16 \<Rightarrow> upload_error_code \<times> 'c"
  ch_terminateProgrammingState :: "'c \<Rightarrow> bool \<times> 'c"

definition ac_enterProgrammingState :: "'c channel_ops \<Rightarrow> 'c \<Rightarrow> bool \<times> 'c" where
  "ac_enterProgrammingState ops c = ch_enterProgrammingState ops c"

definition ac_upload ::
  "'c channel_ops \<Rightarrow> 'c \<Rightarrow> upload_target \<Rightarrow> bytes \<Rightarrow> u16 \<Rightarrow> upload_error_code \<times> 'c" where
  "ac_upload ops c target data address = ch_upload ops c target data address"

definition ac_terminateProgrammingState :: "'c channel_ops \<Rightarrow> 'c \<Rightarrow> bool \<times> 'c" where
  "ac_terminateProgrammingState ops c = ch_terminateProgrammingState ops c"

section \<open>The contract of an exclusive access\<close>

text \<open>
  What the holders of an exclusive access rely on: it is granted while it is free, refused while
  it is held, and free after it was given back. Over any sequence of requests and returns the
  grants that are still open are at most one, and one exactly when the access is held.
\<close>

datatype 'h request = Acquire 'h | Release

locale exclusive_access =
  fixes acquire :: "'s \<Rightarrow> 'h \<Rightarrow> 's option"
    and release :: "'s \<Rightarrow> 's"
    and held :: "'s \<Rightarrow> bool"
  assumes acquire_free: "\<not> held s \<Longrightarrow> \<exists>s'. acquire s h = Some s' \<and> held s'"
    and acquire_held: "held s \<Longrightarrow> acquire s h = None"
    and release_free: "\<not> held (release s)"
begin

primrec open_grants :: "'s \<Rightarrow> nat \<Rightarrow> 'h request list \<Rightarrow> 's \<times> nat" where
  "open_grants s n [] = (s, n)"
| "open_grants s n (r # rs) =
     (case r of
        Acquire h \<Rightarrow> (case acquire s h of None \<Rightarrow> open_grants s n rs | Some s' \<Rightarrow> open_grants s' (Suc n) rs)
      | Release \<Rightarrow> open_grants (release s) 0 rs)"

lemma open_grants_held:
  "n = (if held s then 1 else 0) \<Longrightarrow> open_grants s n rs = (s', n') \<Longrightarrow>
   n' = (if held s' then 1 else 0)"
proof (induction rs arbitrary: s n)
  case Nil
  then show ?case by auto
next
  case (Cons r rs)
  show ?case
  proof (cases r)
    case (Acquire h)
    show ?thesis
    proof (cases "held s")
      case True
      then show ?thesis using Cons.IH[of n s] Cons.prems Acquire by (simp add: acquire_held)
    next
      case False
      then obtain t where "acquire s h = Some t" "held t" using acquire_free by blast
      then show ?thesis using Cons.IH[of 1 t] Cons.prems Acquire False by simp
    qed
  next
    case Release
    then show ?thesis using Cons.IH[of 0 "release s"] Cons.prems by (simp add: release_free)
  qed
qed

lemma at_most_one_open:
  "\<not> held s \<Longrightarrow> open_grants s 0 rs = (s', n') \<Longrightarrow> n' \<le> 1 \<and> (n' = 1 \<longleftrightarrow> held s')"
  using open_grants_held[of 0 s rs s' n'] by auto

end

definition acquire_exclusive :: "'f access_control \<Rightarrow> 'f \<Rightarrow> 'f access_control option" where
  "acquire_exclusive ac f =
     (case getAccess ac (Some f) Exclusive of Inl _ \<Rightarrow> None | Inr (ac', _) \<Rightarrow> Some ac')"

definition release_exclusive :: "'f access_control \<Rightarrow> 'f access_control" where
  "release_exclusive ac = accessor_destroy ac \<lparr>m_type = Exclusive\<rparr>"

lemmas ac_defs = sendTo_def getAccess_def resetAccess_def accessor_send_def accessor_destroy_def
  messageHandler_def hasExclusiveAccess_def

interpretation chan_excl: exclusive_access acquire_exclusive release_exclusive hasExclusiveAccess
  by unfold_locales
    (auto simp: acquire_exclusive_def release_exclusive_def ac_defs)

section \<open>Users of the channel, interleaved\<close>

text \<open>
  \<open>live\<close> holds the accessors handed out and not yet destroyed, each with the callback its owner
  registered; \<open>out\<close> is everything that happened at the channel and at the callbacks, newest last.
  A user passes a proper (non-empty) callback.
\<close>

record 'f channel_sys =
  control :: "'f access_control"
  live :: "(accessor \<times> 'f) list"
  out :: "'f ac_event list"

definition init_channel_sys :: "'f channel_sys" where
  "init_channel_sys = \<lparr>control = new_AccessControl, live = [], out = []\<rparr>"

inductive channel_step :: "'f channel_sys \<Rightarrow> 'f channel_sys \<Rightarrow> bool" where
  grant: "getAccess (control s) (Some f) t = Inr (ac', a) \<Longrightarrow>
     channel_step s (s\<lparr>control := ac', live := (a, f) # live s\<rparr>)"
| refuse: "getAccess (control s) (Some f) t = Inl e \<Longrightarrow> channel_step s s"
| destroy: "live s = xs @ (a, f) # ys \<Longrightarrow>
     channel_step s (s\<lparr>control := accessor_destroy (control s) a, live := xs @ ys\<rparr>)"
| send: "(a, f) \<in> set (live s) \<Longrightarrow> accessor_send (control s) a msg = Inr evs \<Longrightarrow>
     channel_step s (s\<lparr>out := out s @ evs\<rparr>)"
| send_refused: "(a, f) \<in> set (live s) \<Longrightarrow> accessor_send (control s) a msg = Inl e \<Longrightarrow> channel_step s s"
| receive: "channel_step s (s\<lparr>out := out s @ messageHandler (control s) msg\<rparr>)"

inductive channel_reachable :: "'f channel_sys \<Rightarrow> bool" where
  start: "channel_reachable init_channel_sys"
| step: "channel_reachable s \<Longrightarrow> channel_step s t \<Longrightarrow> channel_reachable t"

text \<open>The callbacks of the exclusive accessors that are alive.\<close>

definition exclusive_users :: "(accessor \<times> 'f) list \<Rightarrow> 'f list" where
  "exclusive_users as = map snd (filter (\<lambda>(a, f). m_type a = Exclusive) as)"

definition channel_inv :: "'f channel_sys \<Rightarrow> bool" where
  "channel_inv s =
     (exclusive_users (live s) =
        (case m_exclusiveReceiveFromFunc (control s) of None \<Rightarrow> [] | Some f \<Rightarrow> [f]))"

lemma exclusive_users_simps [simp]:
  "exclusive_users [] = []"
  "exclusive_users (af # as) = (if m_type (fst af) = Exclusive then [snd af] else []) @ exclusive_users as"
  "exclusive_users (as @ bs) = exclusive_users as @ exclusive_users bs"
  by (auto simp: exclusive_users_def)

lemma getAccess_exclusive:
  "getAccess ac (Some f) t = Inr (ac', a) \<Longrightarrow> m_type a = t \<and>
   m_exclusiveReceiveFromFunc ac' = (if t = Exclusive then Some f else m_exclusiveReceiveFromFunc ac) \<and>
   (t = Exclusive \<longrightarrow> m_exclusiveReceiveFromFunc ac = None)"
  by (cases t) (auto simp: ac_defs split: if_splits)

lemma accessor_destroy_exclusive:
  "m_exclusiveReceiveFromFunc (accessor_destroy ac a) =
     (if m_type a = Exclusive then None else m_exclusiveReceiveFromFunc ac)"
  by (cases "m_type a") (simp_all add: ac_defs)

lemma channel_step_inv: "channel_step s t \<Longrightarrow> channel_inv s \<Longrightarrow> channel_inv t"
proof (induction rule: channel_step.induct)
  case (grant s f t ac' a)
  then show ?case using getAccess_exclusive[OF grant(1)] by (auto simp: channel_inv_def)
next
  case (destroy s xs a f ys)
  then show ?case
    by (auto simp: channel_inv_def accessor_destroy_exclusive append_eq_Cons_conv split: option.splits)
qed (simp_all add: channel_inv_def)

lemma channel_reachable_inv: "channel_reachable s \<Longrightarrow> channel_inv s"
proof (induction rule: channel_reachable.induct)
  case start
  show ?case by (simp add: channel_inv_def init_channel_sys_def new_AccessControl_def)
qed (rule channel_step_inv)

lemma exclusive_users_mem: "(a, f) \<in> set as \<Longrightarrow> m_type a = Exclusive \<Longrightarrow> f \<in> set (exclusive_users as)"
  by (force simp: exclusive_users_def)

section \<open>Properties\<close>

text \<open>
  C7: However the users of the channel interleave requests, sends, receptions and destructions of
  their accessors, at most one exclusive accessor is alive. As long as one is, every send of a
  normal or sniffing accessor is refused, so only the exclusive holder reaches the channel, and
  every received message is delivered to the callback this holder registered and to no other
  but the sniffer's.
\<close>

theorem exclusive_holder_alone:
  assumes "channel_reachable s"
  shows "length (exclusive_users (live s)) \<le> 1 \<and>
    (\<forall>(x, f)\<in>set (live s). m_type x = Exclusive \<longrightarrow>
       (\<forall>a msg. (\<exists>evs. accessor_send (control s) a msg = Inr evs) \<longleftrightarrow> m_type a = Exclusive) \<and>
       (\<forall>msg. messageHandler (control s) msg = Callback f msg # sniff (control s) msg))"
proof -
  have inv: "channel_inv s" using assms by (rule channel_reachable_inv)
  then have "length (exclusive_users (live s)) \<le> 1"
    by (auto simp: channel_inv_def split: option.splits)
  moreover have "((\<exists>evs. accessor_send (control s) a msg = Inr evs) \<longleftrightarrow> m_type a = Exclusive) \<and>
      messageHandler (control s) msg = Callback f msg # sniff (control s) msg"
    if "(x, f) \<in> set (live s)" "m_type x = Exclusive" for x f a msg
  proof -
    have "m_exclusiveReceiveFromFunc (control s) = Some f"
      using exclusive_users_mem[OF that] inv by (auto simp: channel_inv_def split: option.splits)
    then show ?thesis by (cases "m_type a") (auto simp: ac_defs sniff_def split: option.splits)
  qed
  ultimately show ?thesis by blast
qed

definition demo_channel :: "nat channel_sys" where
  "demo_channel = \<lparr>control = \<lparr>m_normalReceiveFromFunc = Some 7, m_exclusiveReceiveFromFunc = Some 9,
     m_snifferReceiveFromFunc = None\<rparr>, live = [(\<lparr>m_type = Exclusive\<rparr>, 9), (\<lparr>m_type = Normal\<rparr>, 7)], out = []\<rparr>"

lemma demo_channel_reachable: "channel_reachable demo_channel"
proof -
  let ?s1 = "\<lparr>control = new_AccessControl\<lparr>m_normalReceiveFromFunc := Some (7 :: nat)\<rparr>,
    live = [(\<lparr>m_type = Normal\<rparr>, 7)], out = []\<rparr>"
  have "channel_step init_channel_sys ?s1"
    using channel_step.grant[of init_channel_sys 7 Normal]
    by (simp add: init_channel_sys_def getAccess_def)
  moreover have "channel_step ?s1 demo_channel"
    using channel_step.grant[of ?s1 9 Exclusive]
    by (simp add: getAccess_def demo_channel_def new_AccessControl_def)
  ultimately show ?thesis by (blast intro: channel_reachable.intros)
qed

theorem exclusive_holder_alone_witness:
  "channel_reachable demo_channel \<and> length (exclusive_users (live demo_channel)) \<le> 1 \<and>
   messageHandler (control demo_channel) [1, 2] = Callback 9 [1, 2] # sniff (control demo_channel) [1, 2]"
proof -
  have m: "(\<lparr>m_type = Exclusive\<rparr>, 9) \<in> set (live demo_channel)" by (simp add: demo_channel_def)
  show ?thesis
    using demo_channel_reachable exclusive_holder_alone[OF demo_channel_reachable] m by force
qed

text \<open>
  Over any sequence of exclusive requests and returns of the channel, starting with a free
  channel, no two grants are open at the same time and one is open exactly when
  \<open>hasExclusiveAccess\<close> says so.
\<close>

theorem exclusive_grants:
  assumes "\<not> hasExclusiveAccess ac" "chan_excl.open_grants ac 0 rs = (ac', n)"
  shows "n \<le> 1 \<and> (n = 1 \<longleftrightarrow> hasExclusiveAccess ac')"
  using assms by (rule chan_excl.at_most_one_open)

theorem exclusive_grants_witness:
  "\<not> hasExclusiveAccess (new_AccessControl :: nat access_control) \<and>
   snd (chan_excl.open_grants (new_AccessControl :: nat access_control) 0
     [Acquire 1, Acquire 2, Release, Acquire 3]) \<le> 1"
proof -
  have free: "\<not> hasExclusiveAccess (new_AccessControl :: nat access_control)"
    by (simp add: new_AccessControl_def hasExclusiveAccess_def)
  show ?thesis
    using free exclusive_grants[OF free, of "[Acquire 1, Acquire 2, Release, Acquire 3]"]
    by (metis prod.collapse)
qed

end
