(* ===== verification/Task_Queue.thy ===== *)
theory Task_Queue
  imports Gwd_Prelude "HOL-Library.Sublist"
begin

text \<open>
  \<open>src/include/TaskQueue.h\<close>: the FIFO with a worker thread that the splitter, the scheduler and the
  messagings put their work through. The operations of the clients hold \<open>m_taskQueueMutex\<close> and
  are atomic; the worker is a program counter over the points between its lock operations, and
  holds the mutex at \<open>WInner\<close>. \<open>startQueue\<close> reads the size under the mutex and writes
  \<open>m_taskPushed\<close> afterwards without it, so it is two steps. Proved over all interleavings: tasks
  are processed in the order of their pushes and none is lost or duplicated; a running worker
  always reaches the first waiting task; and the one race that can leave a task waiting.
\<close>

section \<open>State\<close>

datatype 't worker_pc =
    WOuter      \<comment> \<open>before the test of the outer loop, mutex free\<close>
  | WWait       \<comment> \<open>in \<open>m_conditionVariable.wait\<close>\<close>
  | WInner      \<comment> \<open>before the test of the inner loop, mutex held\<close>
  | WProcess 't \<comment> \<open>inside \<open>m_processTaskFunc(task)\<close>, mutex free\<close>
  | WRelock     \<comment> \<open>before \<open>lock.lock()\<close> at the end of the inner loop\<close>
  | WDone       \<comment> \<open>thread function returned\<close>

text \<open>
  The last three fields are not in the source: all tasks accepted so far, the tasks the worker
  finished, the number of tasks dropped by \<open>clearQueue\<close>. \<open>starting\<close> is the value of \<open>size() > 0\<close> inside
  a running \<open>startQueue\<close>; \<open>raced\<close> records a push that came while it was false.
\<close>

record 't task_queue =
  m_taskQueue :: "'t list"
  m_taskPushed :: bool
  m_runWorkerThread :: bool
  worker :: "'t worker_pc"
  starting :: "bool option"
  raced :: bool
  pushes :: "'t list"
  processed :: "'t list"
  dropped :: nat

section \<open>Operations of the clients\<close>

definition new_TaskQueue :: "'t task_queue" where
  "new_TaskQueue = \<lparr>m_taskQueue = [], m_taskPushed = False, m_runWorkerThread = True,
     worker = WOuter, starting = None, raced = False, pushes = [], processed = [], dropped = 0\<rparr>"

definition pushToQueue :: "'t \<Rightarrow> 't task_queue \<Rightarrow> 't task_queue \<times> nat" where
  "pushToQueue task q =
     (let ts = m_taskQueue q @ [task] in
      (q\<lparr>m_taskQueue := ts, m_taskPushed := True, pushes := pushes q @ [task],
         raced := raced q \<or> starting q = Some False\<rparr>, length ts))"

definition startQueue_read :: "'t task_queue \<Rightarrow> 't task_queue" where
  "startQueue_read q =
     (if m_runWorkerThread q then q else q\<lparr>starting := Some (0 < length (m_taskQueue q))\<rparr>)"

definition startQueue_write :: "'t task_queue \<Rightarrow> 't task_queue" where
  "startQueue_write q =
     (case starting q of None \<Rightarrow> q
      | Some b \<Rightarrow> q\<lparr>m_taskPushed := b, m_runWorkerThread := True, worker := WOuter, starting := None\<rparr>)"

definition stopQueue :: "'t task_queue \<Rightarrow> 't task_queue" where
  "stopQueue q = q\<lparr>m_runWorkerThread := False, m_taskPushed := True\<rparr>"

definition clearQueue :: "'t task_queue \<Rightarrow> 't task_queue" where
  "clearQueue q = q\<lparr>m_taskQueue := [], dropped := dropped q + length (m_taskQueue q)\<rparr>"

definition tq_size :: "'t task_queue \<Rightarrow> nat" where
  "tq_size q = length (m_taskQueue q)"

definition isActive :: "'t task_queue \<Rightarrow> bool" where
  "isActive q = m_runWorkerThread q"

section \<open>The worker thread\<close>

text \<open>\<open>None\<close>: the worker is blocked in the wait or has returned.\<close>

definition worker_step :: "'t task_queue \<Rightarrow> 't task_queue option" where
  "worker_step q =
     (case worker q of
        WOuter \<Rightarrow> Some (q\<lparr>worker := (if m_runWorkerThread q then WWait else WDone)\<rparr>)
      | WWait \<Rightarrow> if m_taskPushed q then Some (q\<lparr>m_taskPushed := False, worker := WInner\<rparr>) else None
      | WInner \<Rightarrow>
          if m_runWorkerThread q then
            (case m_taskQueue q of
               task # ts \<Rightarrow> Some (q\<lparr>m_taskQueue := ts, worker := WProcess task\<rparr>)
             | [] \<Rightarrow> Some (q\<lparr>worker := WOuter\<rparr>))
          else Some (q\<lparr>worker := WDone\<rparr>)
      | WProcess task \<Rightarrow> Some (q\<lparr>processed := processed q @ [task], worker := WRelock\<rparr>)
      | WRelock \<Rightarrow> Some (q\<lparr>worker := WInner\<rparr>)
      | WDone \<Rightarrow> None)"

fun worker_run :: "nat \<Rightarrow> 't task_queue \<Rightarrow> 't task_queue option" where
  "worker_run 0 q = Some q"
| "worker_run (Suc n) q = (case worker_step q of None \<Rightarrow> None | Some q' \<Rightarrow> worker_run n q')"

section \<open>Interleaving\<close>

text \<open>
  Clients take the mutex, so they step only while the worker does not hold it. A queue is
  started again only after \<open>stopQueue\<close> returned, that is after the join of the worker.
\<close>

inductive tq_step :: "'t task_queue \<Rightarrow> 't task_queue \<Rightarrow> bool" where
  push: "worker q \<noteq> WInner \<Longrightarrow> tq_step q (fst (pushToQueue t q))"
| clear: "worker q \<noteq> WInner \<Longrightarrow> tq_step q (clearQueue q)"
| stop: "worker q \<noteq> WInner \<Longrightarrow> starting q = None \<Longrightarrow> tq_step q (stopQueue q)"
| start_read: "worker q = WDone \<Longrightarrow> starting q = None \<Longrightarrow> tq_step q (startQueue_read q)"
| start_write: "worker q = WDone \<Longrightarrow> starting q \<noteq> None \<Longrightarrow> tq_step q (startQueue_write q)"
| work: "worker_step q = Some q' \<Longrightarrow> tq_step q q'"

inductive tq_reachable :: "'t task_queue \<Rightarrow> bool" where
  init: "tq_reachable new_TaskQueue"
| step: "tq_reachable q \<Longrightarrow> tq_step q q' \<Longrightarrow> tq_reachable q'"

section \<open>FIFO contract\<close>

text \<open>
  The queue part alone satisfies the contract of a FIFO: pushing appends, taking removes the
  oldest task. Every client of a FIFO gets its tasks back in push order.
\<close>

locale fifo =
  fixes push :: "'t \<Rightarrow> 'q \<Rightarrow> 'q"
    and take_first :: "'q \<Rightarrow> ('t \<times> 'q) option"
    and contents :: "'q \<Rightarrow> 't list"
  assumes contents_push: "contents (push t q) = contents q @ [t]"
    and take_empty: "contents q = [] \<Longrightarrow> take_first q = None"
    and take_cons: "contents q = t # ts \<Longrightarrow> \<exists>q'. take_first q = Some (t, q') \<and> contents q' = ts"
begin

primrec drain :: "nat \<Rightarrow> 'q \<Rightarrow> 't list \<times> 'q" where
  "drain 0 q = ([], q)"
| "drain (Suc n) q =
     (case take_first q of None \<Rightarrow> ([], q)
      | Some (t, q') \<Rightarrow> let (ts, q'') = drain n q' in (t # ts, q''))"

lemma drain_contents: "fst (drain n q) = take n (contents q)"
proof (induction n arbitrary: q)
  case 0
  then show ?case by simp
next
  case (Suc n)
  then show ?case
  proof (cases "contents q")
    case Nil
    then show ?thesis by (simp add: take_empty)
  next
    case (Cons t ts)
    then obtain q' where "take_first q = Some (t, q')" "contents q' = ts"
      using take_cons by blast
    then show ?thesis using Suc.IH[of q'] Cons by (simp add: Let_def split_beta)
  qed
qed

lemma contents_push_all: "contents (fold push ts q) = contents q @ ts"
  by (induction ts arbitrary: q) (simp_all add: contents_push)

lemma drain_after_push_all:
  "contents q = [] \<Longrightarrow> n = length ts \<Longrightarrow> fst (drain n (fold push ts q)) = ts"
  by (simp add: drain_contents contents_push_all)

end

definition tq_push :: "'t \<Rightarrow> 't task_queue \<Rightarrow> 't task_queue" where
  "tq_push t q = fst (pushToQueue t q)"

text \<open>One task as the worker takes it: the step from \<open>WInner\<close> of a running queue.\<close>

definition tq_take :: "'t task_queue \<Rightarrow> ('t \<times> 't task_queue) option" where
  "tq_take q =
     (case worker_step (q\<lparr>worker := WInner, m_runWorkerThread := True\<rparr>) of
        None \<Rightarrow> None
      | Some q' \<Rightarrow> (case worker q' of WProcess t \<Rightarrow> Some (t, q') | _ \<Rightarrow> None))"

interpretation tq_fifo: fifo tq_push tq_take m_taskQueue
  by unfold_locales
    (auto simp: tq_push_def pushToQueue_def tq_take_def worker_step_def Let_def split: list.splits)

section \<open>Invariants\<close>

definition in_process :: "'t task_queue \<Rightarrow> 't list" where
  "in_process q = (case worker q of WProcess t \<Rightarrow> [t] | _ \<Rightarrow> [])"

definition handled :: "'t task_queue \<Rightarrow> 't list" where
  "handled q = processed q @ in_process q @ m_taskQueue q"

definition tq_inv :: "'t task_queue \<Rightarrow> bool" where
  "tq_inv q \<longleftrightarrow>
     subseq (handled q) (pushes q) \<and>
     length (pushes q) = length (handled q) + dropped q \<and>
     (m_runWorkerThread q \<longrightarrow> worker q \<noteq> WDone \<and> starting q = None) \<and>
     (starting q \<noteq> None \<longrightarrow> worker q = WDone) \<and>
     (starting q = Some False \<longrightarrow> m_taskQueue q = [] \<or> raced q) \<and>
     (worker q = WOuter \<or> worker q = WWait \<longrightarrow> m_taskQueue q = [] \<or> m_taskPushed q \<or> raced q)"

lemmas tq_defs = pushToQueue_def clearQueue_def stopQueue_def startQueue_read_def
  startQueue_write_def handled_def in_process_def Let_def

lemma subseq_middle: "subseq (xs @ ys) zs \<Longrightarrow> subseq xs zs"
  by (metis append_Nil2 list_emb_append_mono list_emb_Nil subseq_order.order_refl subseq_order.trans)

lemma tq_inv_new: "tq_inv new_TaskQueue"
  by (simp add: tq_inv_def tq_defs new_TaskQueue_def)

lemma tq_inv_push: "tq_inv q \<Longrightarrow> tq_inv (fst (pushToQueue t q))"
proof -
  assume q: "tq_inv q"
  have "subseq (handled q @ [t]) (pushes q @ [t])"
    using q by (simp add: tq_inv_def list_emb_append_mono)
  moreover have "handled (fst (pushToQueue t q)) = handled q @ [t]"
    by (simp add: tq_defs split: worker_pc.splits)
  ultimately show ?thesis
    using q by (auto simp: tq_inv_def pushToQueue_def Let_def)
qed

lemma tq_inv_clear: "tq_inv q \<Longrightarrow> tq_inv (clearQueue q)"
proof -
  assume q: "tq_inv q"
  have h: "handled q = handled (clearQueue q) @ m_taskQueue q"
    by (simp add: tq_defs split: worker_pc.splits)
  then have "subseq (handled (clearQueue q)) (pushes q)"
    using q subseq_middle[of "handled (clearQueue q)" "m_taskQueue q" "pushes q"]
    by (simp add: tq_inv_def)
  then show ?thesis using q h by (auto simp: tq_inv_def clearQueue_def)
qed

lemma tq_inv_work: "worker_step q = Some q' \<Longrightarrow> tq_inv q \<Longrightarrow> tq_inv q'"
  by (cases "worker q")
    (auto simp: tq_inv_def handled_def in_process_def worker_step_def split: if_splits list.splits)

lemma tq_step_inv: "tq_step q q' \<Longrightarrow> tq_inv q \<Longrightarrow> tq_inv q'"
proof (induction rule: tq_step.induct)
  case (push q t)
  then show ?case by (simp add: tq_inv_push)
next
  case (clear q)
  then show ?case by (simp add: tq_inv_clear)
next
  case (work q q')
  then show ?case by (simp add: tq_inv_work)
qed (auto simp: tq_inv_def tq_defs split: option.splits if_splits worker_pc.splits)

lemma tq_reachable_inv: "tq_reachable q \<Longrightarrow> tq_inv q"
  by (induction rule: tq_reachable.induct) (auto simp: tq_inv_new intro: tq_step_inv)

lemma worker_reaches_task:
  assumes "tq_inv q" "m_runWorkerThread q" "\<not> raced q" "m_taskQueue q = t # ts"
  shows "\<exists>n \<le> 3. \<exists>q'. worker_run n q = Some q' \<and> worker q' = WProcess t"
proof -
  have "\<exists>q'. worker_run (case worker q of WOuter \<Rightarrow> 3 | WWait \<Rightarrow> 2 | WInner \<Rightarrow> 1 | WProcess _ \<Rightarrow> 3 | WRelock \<Rightarrow> 2 | WDone \<Rightarrow> 0) q
      = Some q' \<and> worker q' = WProcess t"
    using assms by (cases "worker q") (auto simp: tq_inv_def worker_step_def numeral_eq_Suc)
  moreover have "(case worker q of WOuter \<Rightarrow> 3 | WWait \<Rightarrow> 2 | WInner \<Rightarrow> 1 | WProcess _ \<Rightarrow> 3 | WRelock \<Rightarrow> 2 | WDone \<Rightarrow> 0) \<le> (3 :: nat)"
    by (simp split: worker_pc.splits)
  ultimately show ?thesis by blast
qed

section \<open>Properties\<close>

text \<open>
  C8: In every interleaving of pushes, clears, stops, restarts and worker steps, the tasks
  finished, the task in process and the tasks still queued, in this order, form a subsequence of
  the pushed tasks; the only ones missing are those \<open>clearQueue\<close> dropped. So processing is FIFO
  and no task is lost, duplicated or reordered.
\<close>

theorem task_queue_fifo:
  assumes "tq_reachable q"
  shows "subseq (handled q) (pushes q) \<and> length (pushes q) = length (handled q) + dropped q \<and>
    (dropped q = 0 \<longrightarrow> handled q = pushes q)"
proof -
  have "tq_inv q" using assms by (rule tq_reachable_inv)
  then have s: "subseq (handled q) (pushes q)" and l: "length (pushes q) = length (handled q) + dropped q"
    by (simp_all add: tq_inv_def)
  moreover have "dropped q = 0 \<Longrightarrow> handled q = pushes q"
    using s l by (metis add_0_right subseq_same_length)
  ultimately show ?thesis by blast
qed

definition demo_queue :: "nat task_queue" where
  "demo_queue = fst (pushToQueue 5 (fst (pushToQueue 4 new_TaskQueue)))"

lemma demo_queue_reachable: "tq_reachable demo_queue"
proof -
  have 1: "tq_step new_TaskQueue (fst (pushToQueue (4 :: nat) new_TaskQueue))"
    by (rule tq_step.push) (simp add: new_TaskQueue_def)
  have 2: "tq_step (fst (pushToQueue (4 :: nat) new_TaskQueue)) demo_queue"
    unfolding demo_queue_def by (rule tq_step.push) (simp add: new_TaskQueue_def pushToQueue_def Let_def)
  show ?thesis using tq_reachable.step[OF tq_reachable.step[OF tq_reachable.init 1] 2] .
qed

theorem task_queue_fifo_witness:
  "tq_reachable demo_queue \<and> dropped demo_queue = 0 \<and> handled demo_queue = pushes demo_queue"
proof -
  have d: "dropped demo_queue = 0" by (simp add: demo_queue_def pushToQueue_def Let_def new_TaskQueue_def)
  show ?thesis using demo_queue_reachable d task_queue_fifo[OF demo_queue_reachable] by blast
qed

text \<open>
  C33: No wake-up is lost: whenever the queue is started and a task waits, the worker, wherever it
  is, begins to process the oldest waiting task within three of its own steps (a task it is
  processing being one of them), unless a push raced with \<open>startQueue\<close>.
\<close>

theorem task_queue_progress:
  assumes "tq_reachable q" "m_runWorkerThread q" "\<not> raced q" "m_taskQueue q = t # ts"
  shows "\<exists>n \<le> 3. \<exists>q'. worker_run n q = Some q' \<and> worker q' = WProcess t"
  using worker_reaches_task[OF tq_reachable_inv[OF assms(1)] assms(2-4)] .

theorem task_queue_progress_witness:
  "tq_reachable demo_queue \<and> (\<exists>n \<le> 3. \<exists>q'. worker_run n demo_queue = Some q' \<and> worker q' = WProcess 4)"
proof -
  have "m_runWorkerThread demo_queue" "\<not> raced demo_queue" "m_taskQueue demo_queue = 4 # [5]"
    by (simp_all add: demo_queue_def pushToQueue_def Let_def new_TaskQueue_def)
  then show ?thesis using demo_queue_reachable task_queue_progress[OF demo_queue_reachable] by blast
qed

text \<open>
  The race is real: a push that arrives while \<open>startQueue\<close> has evaluated \<open>size() > 0\<close> to false but
  not yet stored it in \<open>m_taskPushed\<close> leaves a reachable state in which the queue is active, a task
  waits and the worker is blocked in its wait.
\<close>

theorem startQueue_lost_wakeup:
  "\<exists>q :: nat task_queue. tq_reachable q \<and> isActive q \<and> tq_size q = 1 \<and> worker_step q = None"
proof -
  let ?a = "stopQueue new_TaskQueue :: nat task_queue"
  let ?b = "?a\<lparr>worker := WDone\<rparr>"
  let ?c = "startQueue_read ?b"
  let ?d = "fst (pushToQueue 1 ?c)"
  let ?e = "startQueue_write ?d"
  let ?f = "?e\<lparr>worker := WWait\<rparr>"
  have a: "tq_reachable ?a"
    by (rule tq_reachable.step[OF tq_reachable.init], rule tq_step.stop) (simp_all add: new_TaskQueue_def)
  have b: "tq_reachable ?b"
    by (rule tq_reachable.step[OF a], rule tq_step.work)
      (simp add: worker_step_def new_TaskQueue_def stopQueue_def)
  have c: "tq_reachable ?c"
    by (rule tq_reachable.step[OF b], rule tq_step.start_read) (simp_all add: new_TaskQueue_def stopQueue_def)
  have d: "tq_reachable ?d"
    by (rule tq_reachable.step[OF c], rule tq_step.push)
      (simp add: new_TaskQueue_def stopQueue_def startQueue_read_def)
  have e: "tq_reachable ?e"
    by (rule tq_reachable.step[OF d], rule tq_step.start_write)
      (simp_all add: new_TaskQueue_def stopQueue_def startQueue_read_def pushToQueue_def Let_def)
  have f: "tq_reachable ?f"
    by (rule tq_reachable.step[OF e], rule tq_step.work)
      (simp add: worker_step_def new_TaskQueue_def stopQueue_def startQueue_read_def pushToQueue_def Let_def startQueue_write_def)
  have "isActive ?f \<and> tq_size ?f = 1 \<and> worker_step ?f = None"
    by (simp add: isActive_def tq_size_def worker_step_def new_TaskQueue_def stopQueue_def
        startQueue_read_def pushToQueue_def Let_def startQueue_write_def)
  with f show ?thesis by blast
qed

end
