(* ===== verification/String_Utils.thy ===== *)
theory String_Utils
  imports Cpp_Std "HOL-Library.Sublist"
begin

text \<open>
  \<open>include/StringUtils.h\<close>: trimming, prefix and suffix tests and splitting by a delimiter. The
  search functions of the standard library are those of \<open>Cpp_Std\<close>.
\<close>

definition STRING_UTILS_WHITESPACE :: string where
  "STRING_UTILS_WHITESPACE = map char_of [32, 9, 10, 13, 12, 11 :: nat]"

text \<open>\<open>s.erase(0, n)\<close> removes \<open>n\<close> characters, all of them when \<open>n\<close> is \<open>npos\<close>.\<close>

definition ltrim :: "string \<Rightarrow> string" where
  "ltrim s = (case find_first_not_of s STRING_UTILS_WHITESPACE of None \<Rightarrow> [] | Some n \<Rightarrow> drop n s)"

text \<open>\<open>s.erase(n)\<close> removes everything from position \<open>n\<close> on; \<open>npos + 1\<close> is 0.\<close>

definition rtrim :: "string \<Rightarrow> string" where
  "rtrim s = (case find_last_not_of s STRING_UTILS_WHITESPACE of None \<Rightarrow> [] | Some n \<Rightarrow> take (n + 1) s)"

definition trim :: "string \<Rightarrow> string" where
  "trim s = ltrim (rtrim s)"

definition startsWith :: "string \<Rightarrow> string \<Rightarrow> bool" where
  "startsWith s pre \<longleftrightarrow> str_rfind s pre (Some 0) = Some 0"

definition endsWith :: "string \<Rightarrow> string \<Rightarrow> bool" where
  "endsWith s suf \<longleftrightarrow>
    (case str_rfind s suf None of None \<Rightarrow> False | Some res \<Rightarrow> res = length s - length suf)"

text \<open>
  The loop of \<open>split\<close> with its variables \<open>start\<close> and \<open>tokens\<close>; it does not end for an empty
  delimiter, which is found at every position.
\<close>

partial_function (option) split_loop :: "string \<Rightarrow> string \<Rightarrow> nat \<Rightarrow> string list \<Rightarrow> string list option" where
  "split_loop s delimiter start tokens =
    (case str_find s delimiter start of
       Some needle \<Rightarrow>
         split_loop s delimiter (needle + length delimiter) (tokens @ [take (needle - start) (drop start s)])
     | None \<Rightarrow> Some (tokens @ [drop start s]))"

definition split :: "string \<Rightarrow> string \<Rightarrow> string list option" where
  "split s delimiter = split_loop s delimiter 0 []"

section \<open>Searching\<close>

lemma find_upt_dropWhile:
  "(case List.find (\<lambda>i. s ! i \<notin> A) [0..<length s] of None \<Rightarrow> [] | Some n \<Rightarrow> drop n s)
     = dropWhile (\<lambda>c. c \<in> A) s"
proof (cases "List.find (\<lambda>i. s ! i \<notin> A) [0..<length s]")
  case None
  then have "\<forall>x\<in>set s. x \<in> A" by (auto simp: find_None_iff in_set_conv_nth)
  then have "dropWhile (\<lambda>c. c \<in> A) s = []" by (simp only: dropWhile_eq_Nil_conv)
  then show ?thesis by (simp only: None option.case)
next
  case (Some n)
  then have n: "n < length s" "s ! n \<notin> A" "\<And>j. j < n \<Longrightarrow> s ! j \<in> A"
    by (auto simp: find_Some_iff)
  have s: "s = take n s @ drop n s" by simp
  have "\<forall>x\<in>set (take n s). x \<in> A" using n by (auto simp: in_set_conv_nth)
  moreover have "hd (drop n s) \<notin> A" using n by (simp add: hd_drop_conv_nth)
  ultimately have "dropWhile (\<lambda>c. c \<in> A) (take n s @ drop n s) = drop n s"
    using dropWhile_append_stop[of "take n s" "\<lambda>c. c \<in> A" "drop n s"] by blast
  then show ?thesis using Some by simp
qed

lemma ltrim_dropWhile: "ltrim s = dropWhile (\<lambda>c. c \<in> set STRING_UTILS_WHITESPACE) s"
  by (simp only: ltrim_def find_first_not_of_def find_upt_dropWhile)

lemma find_map_comp: "List.find P (map f xs) = map_option f (List.find (\<lambda>x. P (f x)) xs)"
  by (induction xs) simp_all

lemma find_rev_upt:
  "List.find P (rev [0..<n]) = map_option (\<lambda>i. n - 1 - i) (List.find (\<lambda>i. P (n - 1 - i)) [0..<n])"
proof -
  have "rev [0..<n] = map (\<lambda>i. n - 1 - i) [0..<n]"
    by (rule nth_equalityI) (simp_all add: rev_nth)
  then show ?thesis by (simp only: find_map_comp)
qed

lemma rtrim_rev: "rtrim s = rev (ltrim (rev s))"
proof -
  let ?A = "set STRING_UTILS_WHITESPACE"
  have e: "List.find (\<lambda>i. s ! (length s - 1 - i) \<notin> ?A) [0..<length s]
      = List.find (\<lambda>i. rev s ! i \<notin> ?A) [0..<length (rev s)]"
    by (rule find_cong) (simp_all add: rev_nth)
  have "take (length s - 1 - n + 1) s = rev (drop n (rev s))" if "n < length s" for n
    using that by (simp add: rev_drop Suc_diff_Suc)
  note t = this
  have f: "find_last_not_of s STRING_UTILS_WHITESPACE
      = map_option (\<lambda>i. length s - 1 - i) (find_first_not_of (rev s) STRING_UTILS_WHITESPACE)"
    by (simp only: find_last_not_of_def find_first_not_of_def find_rev_upt e)
  show ?thesis
  proof (cases "find_first_not_of (rev s) STRING_UTILS_WHITESPACE")
    case None
    then show ?thesis by (simp add: rtrim_def ltrim_def f)
  next
    case (Some n)
    then have "n < length s" by (auto simp: find_first_not_of_def find_Some_iff)
    then show ?thesis using t Some by (simp add: rtrim_def ltrim_def f)
  qed
qed

lemma find_at_Some:
  "find_at i pat s = Some n \<Longrightarrow>
     i \<le> n \<and> n - i + length pat \<le> length s \<and> take (length pat) (drop (n - i) s) = pat
     \<and> (\<forall>j<n - i. take (length pat) (drop j s) \<noteq> pat)"
proof (induction i pat s rule: find_at.induct)
  case (1 i pat s)
  show ?case
  proof (cases "take (length pat) s = pat")
    case True
    then have "length pat \<le> length s" by (metis length_take min.cobounded1 min_def nle_le)
    then show ?thesis using True "1.prems" by (simp add: find_at.simps[of i])
  next
    case False
    then obtain c t where s: "s = c # t" using "1.prems" by (cases s) (auto simp: find_at.simps[of i])
    then have f: "find_at (Suc i) pat t = Some n" using False "1.prems" by (simp add: find_at.simps[of i])
    note IH = "1.IH"[OF False s f]
    then obtain m where m: "n - i = Suc m" "n - Suc i = m" by (metis Suc_diff_le diff_Suc_Suc)
    have "take (length pat) (drop j s) \<noteq> pat" if "j < n - i" for j
      using that IH False s m by (cases j) auto
    then show ?thesis using IH s m by auto
  qed
qed

lemma find_at_None: "find_at i pat s = None \<Longrightarrow> take (length pat) (drop j s) \<noteq> pat"
proof (induction i pat s arbitrary: j rule: find_at.induct)
  case (1 i pat s)
  then have neq: "take (length pat) s \<noteq> pat" by (auto simp: find_at.simps[of i] split: if_splits)
  show ?case
  proof (cases s)
    case Nil
    then show ?thesis using neq by simp
  next
    case (Cons c t)
    then have "find_at (Suc i) pat t = None" using "1.prems" neq by (simp add: find_at.simps[of i])
    then show ?thesis using "1.IH"[OF neq Cons] neq Cons by (cases j) auto
  qed
qed

section \<open>Trimming and prefixes\<close>

abbreviation ws :: "char \<Rightarrow> bool" where
  "ws c \<equiv> c \<in> set STRING_UTILS_WHITESPACE"

lemma trim_decomp:
  obtains a b where "s = a @ trim s @ b" "\<forall>c\<in>set a. ws c" "\<forall>c\<in>set b. ws c"
    "trim s \<noteq> [] \<longrightarrow> \<not> ws (hd (trim s)) \<and> \<not> ws (last (trim s))"
proof -
  define b where "b = rev (takeWhile ws (rev s))"
  define a where "a = takeWhile ws (rtrim s)"
  have r: "s = rtrim s @ b"
    unfolding rtrim_rev ltrim_dropWhile b_def by (metis rev_append rev_rev_ident takeWhile_dropWhile_id)
  have l: "rtrim s = a @ trim s" unfolding trim_def ltrim_dropWhile a_def by simp
  have "\<not> ws (hd (trim s))" if "trim s \<noteq> []"
    using that hd_dropWhile[of ws "rtrim s"] unfolding trim_def ltrim_dropWhile by blast
  moreover have "\<not> ws (last (trim s))" if "trim s \<noteq> []"
  proof -
    have "last (trim s) = last (rtrim s)" using l that by (metis last_appendR)
    also have "\<dots> = hd (dropWhile ws (rev s))" by (simp add: rtrim_rev ltrim_dropWhile last_rev)
    finally show ?thesis
      using that l hd_dropWhile[of ws "rev s"] by (metis append_is_Nil_conv ltrim_dropWhile rev.simps(1) rtrim_rev)
  qed
  moreover have "\<forall>c\<in>set a. ws c" "\<forall>c\<in>set b. ws c"
    by (auto simp: a_def b_def dest: set_takeWhileD)
  ultimately show thesis using that[of a b] r l by (metis append.assoc)
qed

lemma startsWith_prefix: "startsWith s pre \<longleftrightarrow> prefix pre s"
proof
  assume "startsWith s pre"
  then show "prefix pre s"
    by (auto simp: startsWith_def str_rfind_def find_Some_iff Let_def split: if_splits)
      (metis take_is_prefix)
next
  assume "prefix pre s"
  then obtain t where "s = pre @ t" by (auto simp: prefix_def)
  then show "startsWith s pre" by (simp add: startsWith_def str_rfind_def)
qed

lemma endsWith_suffix: "endsWith s suf \<longleftrightarrow> suffix suf s"
proof
  assume "endsWith s suf"
  then have "take (length suf) (drop (length s - length suf) s) = suf"
    by (auto simp: endsWith_def str_rfind_def find_Some_iff Let_def split: if_splits option.splits)
  moreover have "take (length suf) (drop (length s - length suf) s) = drop (length s - length suf) s"
    by (rule take_all) simp
  ultimately have "suf = drop (length s - length suf) s" by simp
  then show "suffix suf s" by (metis suffix_drop)
next
  assume "suffix suf s"
  then obtain t where "s = t @ suf" by (auto simp: suffix_def)
  then show "endsWith s suf" by (simp add: endsWith_def str_rfind_def Let_def)
qed

section \<open>Splitting\<close>

fun join :: "string \<Rightarrow> string list \<Rightarrow> string" where
  "join d [] = []"
| "join d [t] = t"
| "join d (t # ts) = t @ d @ join d ts"

lemma join_Cons: "ts \<noteq> [] \<Longrightarrow> join d (t # ts) = t @ d @ join d ts"
  by (cases ts) simp_all

lemma str_find_Some:
  assumes "str_find s pat start = Some n"
  shows "start \<le> n" "n + length pat \<le> length s"
    "drop start s = take (n - start) (drop start s) @ pat @ drop (n + length pat) s"
    "\<And>j. start \<le> j \<Longrightarrow> j < n \<Longrightarrow> take (length pat) (drop j s) \<noteq> pat"
proof -
  have st: "start \<le> length s" and f: "find_at start pat (drop start s) = Some n"
    using assms by (auto simp: str_find_def split: if_splits)
  note F = find_at_Some[OF f]
  show "start \<le> n" "n + length pat \<le> length s" using F st by auto
  have t: "take (length pat) (drop n s) = pat" using F by auto
  have "drop start s = take (n - start) (drop start s) @ drop n s"
    using F by (metis append_take_drop_id drop_drop le_add_diff_inverse2 add.commute)
  also have "drop n s = pat @ drop (n + length pat) s"
    using t by (metis append_take_drop_id drop_drop add.commute)
  finally show "drop start s = take (n - start) (drop start s) @ pat @ drop (n + length pat) s" .
  show "take (length pat) (drop j s) \<noteq> pat" if "start \<le> j" "j < n" for j
    using F that by (metis diff_less_mono drop_drop le_add_diff_inverse2)
qed

text \<open>A token holds no occurrence of the delimiter.\<close>

definition occurs :: "string \<Rightarrow> string \<Rightarrow> bool" where
  "occurs d t \<longleftrightarrow> str_find t d 0 \<noteq> None"

lemma str_find_None:
  "start \<le> length s \<Longrightarrow> str_find s pat start = None \<Longrightarrow> \<not> occurs pat (drop start s)"
proof -
  assume "start \<le> length s" "str_find s pat start = None"
  then have n: "find_at start pat (drop start s) = None" by (simp add: str_find_def)
  have "find_at 0 pat (drop start s) = None"
  proof (cases "find_at 0 pat (drop start s)")
    case (Some m)
    then show ?thesis using find_at_Some[OF Some] find_at_None[OF n, of m] by simp
  qed
  then show ?thesis by (simp add: occurs_def str_find_def)
qed

lemma not_occurs_before:
  assumes "pat \<noteq> []" "str_find s pat start = Some n"
  shows "\<not> occurs pat (take (n - start) (drop start s))"
proof (rule ccontr)
  let ?t = "take (n - start) (drop start s)"
  assume "\<not> ?thesis"
  then obtain k where "find_at 0 pat ?t = Some k" by (auto simp: occurs_def str_find_def)
  from find_at_Some[OF this] have k: "k + length pat \<le> length ?t" "take (length pat) (drop k ?t) = pat"
    by auto
  then have "k < n - start" using assms(1) by (cases pat) auto
  then have kn: "start + k < n" by simp
  have "take (length pat) (drop k ?t) = take (length pat) (drop (start + k) s)"
  proof -
    have "drop k ?t = take (n - start - k) (drop (start + k) s)"
      by (simp add: drop_take add.commute)
    moreover have "length pat \<le> n - start - k" using k(1) by auto
    ultimately show ?thesis by (simp add: take_take min_absorb1)
  qed
  then show False using k(2) kn str_find_Some(4)[OF assms(2), of "start + k"] by auto
qed

lemma split_loop_correct:
  assumes "delimiter \<noteq> []" "start \<le> length s"
  shows "\<exists>ts. split_loop s delimiter start tokens = Some (tokens @ ts) \<and> ts \<noteq> []
    \<and> join delimiter ts = drop start s \<and> (\<forall>t\<in>set ts. \<not> occurs delimiter t)"
  using assms(2)
proof (induction "length s - start" arbitrary: start tokens rule: less_induct)
  case less
  show ?case
  proof (cases "str_find s delimiter start")
    case None
    then show ?thesis using str_find_None[OF less.prems None] by (subst split_loop.simps) auto
  next
    case (Some n)
    note F = str_find_Some[OF Some]
    let ?t = "take (n - start) (drop start s)"
    have "length s - (n + length delimiter) < length s - start"
      using F(1,2) assms(1) by (cases delimiter) auto
    from less.hyps[OF this F(2), of "tokens @ [?t]"] obtain ts where
      ts: "split_loop s delimiter (n + length delimiter) (tokens @ [?t]) = Some (tokens @ ?t # ts)"
        "ts \<noteq> []" "join delimiter ts = drop (n + length delimiter) s"
        "\<forall>t\<in>set ts. \<not> occurs delimiter t" by auto
    have "split_loop s delimiter start tokens = Some (tokens @ ?t # ts)"
      using ts(1) Some by (subst split_loop.simps) simp
    moreover have "join delimiter (?t # ts) = drop start s"
      using ts(2,3) F(3) by (simp add: join_Cons)
    ultimately show ?thesis using ts(4) not_occurs_before[OF assms(1) Some]
      by (intro exI[of _ "?t # ts"]) auto
  qed
qed

lemma find_at_empty: "find_at i [] s = Some i"
  by (subst find_at.simps) simp

lemma split_loop_Some_delimiter:
  "split_loop s d start tokens = Some r \<Longrightarrow> start \<le> length s \<longrightarrow> d \<noteq> []"
proof (erule split_loop.raw_induct[where P = "\<lambda>s d start _ _. start \<le> length s \<longrightarrow> d \<noteq> []", rotated])
  fix loop and s d :: string and start tokens r
  assume IH: "\<And>s d start tokens r. loop s d start tokens = Some r \<Longrightarrow> start \<le> length s \<longrightarrow> d \<noteq> []"
    and body: "(case str_find s d start of
       Some needle \<Rightarrow> loop s d (needle + length d) (tokens @ [take (needle - start) (drop start s)])
     | None \<Rightarrow> Some (tokens @ [drop start s])) = Some (r :: string list)"
  show "start \<le> length s \<longrightarrow> d \<noteq> []"
  proof (intro impI notI)
    assume "start \<le> length s" "d = []"
    then have "str_find s d start = Some start" by (simp add: str_find_def find_at_empty)
    then have "loop s d (start + length d) (tokens @ [take (start - start) (drop start s)]) = Some r"
      using body by simp
    from IH[OF this] show False using \<open>start \<le> length s\<close> \<open>d = []\<close> by simp
  qed
qed

lemma split_loop_empty_delimiter: "split_loop s [] 0 [] = None"
  using split_loop_Some_delimiter[of s "[]" 0 "[]"] by (cases "split_loop s [] 0 []") auto

section \<open>Properties\<close>

text \<open>
  \<open>StringUtils::split\<close> with a non-empty delimiter returns, joining its tokens with the delimiter
  gives back the string, and no token contains the delimiter. With an empty delimiter the loop
  never ends.\<close>

theorem split_correct:
  "(d \<noteq> [] \<longrightarrow> (\<exists>ts. split s d = Some ts \<and> join d ts = s \<and> (\<forall>t\<in>set ts. \<not> occurs d t)))
   \<and> split s [] = None"
proof -
  have "\<exists>ts. split s d = Some ts \<and> join d ts = s \<and> (\<forall>t\<in>set ts. \<not> occurs d t)" if "d \<noteq> []"
    using split_loop_correct[OF that, of 0 s "[]"] by (auto simp: split_def)
  moreover have "split_loop s [] 0 [] = None" by (rule split_loop_empty_delimiter)
  ultimately show ?thesis by (simp add: split_def)
qed

theorem split_correct_witness:
  "(\<exists>ts. split ''iqrfgd2;1;tok'' '';'' = Some ts \<and> join '';'' ts = ''iqrfgd2;1;tok'')
   \<and> split ''a'' [] = None"
  using split_correct[of "'';''" "''iqrfgd2;1;tok''"] split_correct[of "'';''" "''a''"] by auto

text \<open>
  Trimming removes exactly the white space at both ends: the string is the trimmed one between
  two white space strings, and a non-empty trimmed string neither starts nor ends with white
  space. \<open>startsWith\<close> and \<open>endsWith\<close>, written with \<open>rfind\<close>, decide prefix and suffix.\<close>

theorem trim_startsWith_endsWith:
  "(\<exists>a b. s = a @ trim s @ b \<and> list_all ws a \<and> list_all ws b
      \<and> (trim s = [] \<or> (\<not> ws (hd (trim s)) \<and> \<not> ws (last (trim s)))))
   \<and> startsWith s t = prefix t s \<and> endsWith s t = suffix t s"
  using trim_decomp[of s] by (auto simp: startsWith_prefix endsWith_suffix list_all_iff) metis

end
