(* ===== verification/Ota_Prepare.thy ===== *)
theory Ota_Prepare
  imports Gwd_Prelude
begin

text \<open>
  \<open>IqmeshServices/OtaUploadService/CodeBlock.h\<close> and \<open>PreparedData.h\<close>: the code blocks read from
  a HEX file or an IQRF plugin, their checksum, and their division into the blocks that are
  written to the external EEPROM of the nodes. Addresses and counters are 16 bit words, as in
  the source, so the loops over addresses may wrap around: those that may run forever are
  option valued, with \<open>None\<close> for a loop that does not end.
\<close>

section \<open>Code blocks\<close>

record code_block =
  m_code :: bytes
  m_startAddr :: u16
  m_endAddr :: u16

definition CodeBlock :: "bytes \<Rightarrow> u16 \<Rightarrow> u16 \<Rightarrow> code_block" where
  "CodeBlock code startAddr endAddr =
     \<lparr>m_code = code, m_startAddr = startAddr, m_endAddr = endAddr\<rparr>"

definition getLength :: "code_block \<Rightarrow> u16" where
  "getLength b = word_of_nat (length (m_code b))"

section \<open>Prepared data\<close>

record prepared_data =
  m_data :: "bytes list"
  m_length :: u16
  m_checksum :: u16

definition PreparedData :: "bytes list \<Rightarrow> u16 \<Rightarrow> u16 \<Rightarrow> prepared_data" where
  "PreparedData data len chksum = \<lparr>m_data = data, m_length = len, m_checksum = chksum\<rparr>"

subsection \<open>Checksum\<close>

text \<open>The body of the loop of \<open>checksum\<close> after the byte is chosen.\<close>

definition checksum_step :: "u16 \<Rightarrow> u8 \<Rightarrow> u16" where
  "checksum_step acc byte =
    (let lo = acc AND 0xFF;
         hi = drop_bit 8 acc;
         lo = lo + ucast byte;
         lo = (if lo AND 0x100 \<noteq> 0 then lo + 1 else lo);
         hi = hi + (lo AND 0xFF);
         hi = (if hi AND 0x100 \<noteq> 0 then hi + 1 else hi)
     in (lo AND 0xFF) OR push_bit 8 (hi AND 0xFF))"

text \<open>
  Reading a byte of the constant \<open>basic_string\<close>: the position after the last one holds the
  terminator 0, a position further on is undefined behaviour.
\<close>

definition code_at :: "bytes \<Rightarrow> nat \<Rightarrow> u8 result" where
  "code_at code idx =
    (if idx < length code then Inr (code ! idx)
     else if idx = length code then Inr 0
     else Inl (UB ''string index''))"

lemma unat_addr_Suc: "(addr :: u16) < endAddr \<Longrightarrow> unat (addr + 1) = Suc (unat addr)"
proof -
  assume "addr < endAddr"
  then have "unat addr < unat endAddr" by (simp add: word_less_nat_alt)
  then have "unat addr + 1 < 65536" using unat_lt_65536[of endAddr] by linarith
  then show ?thesis by (simp add: unat_word_ariths)
qed

text \<open>
  The loop of \<open>checksum\<close>: \<open>lower\<close> is \<open>lowerFillingByteOnRank\<close>, \<open>0x34FF\<close> the padding. The
  comparison \<open>block.getEndAddr() - addr >= 0\<close> is one of ints.
\<close>

function checksum_loop :: "code_block \<Rightarrow> u16 \<Rightarrow> u16 \<Rightarrow> nat \<Rightarrow> bool \<Rightarrow> u16 \<Rightarrow> u16 result" where
  "checksum_loop block endAddr addr idx lower acc =
    (if addr < endAddr then
       (if int (unat (m_endAddr block)) - int (unat addr) \<ge> 0 then
          bind_r (code_at (m_code block) idx) (\<lambda>byte.
            checksum_loop block endAddr (addr + 1) (idx + 1) lower (checksum_step acc byte))
        else
          checksum_loop block endAddr (addr + 1) (idx + 1) (\<not> lower)
            (checksum_step acc (if lower then 0xFF else 0x34)))
     else Inr acc)"
  by pat_completeness auto

termination
  by (relation "measure (\<lambda>(_, endAddr, addr, _). unat endAddr - unat addr)")
     (auto simp: unat_addr_Suc word_less_nat_alt)

declare checksum_loop.simps [simp del]

definition checksum :: "code_block \<Rightarrow> u16 \<Rightarrow> u16 \<Rightarrow> u16 result" where
  "checksum block len initVal =
     checksum_loop block (m_startAddr block + len) (m_startAddr block) 0 True initVal"

subsection \<open>Division into blocks\<close>

text \<open>
  \<open>fillByteBlock\<close>: every byte of the resized block is assigned, so the previous content of the
  block does not matter. \<open>offset + i\<close> is an int and does not wrap.
\<close>

definition fillByteBlock :: "bytes \<Rightarrow> u8 \<Rightarrow> u16 \<Rightarrow> bytes" where
  "fillByteBlock source blockSize offset =
    map (\<lambda>i. if unat offset + i \<ge> length source then (if odd i then 0x34 else 0xff)
             else source ! (unat offset + i)) [0..<unat blockSize]"

partial_function (option) mostEffective_loop ::
    "bytes \<Rightarrow> u16 \<Rightarrow> u16 \<Rightarrow> u16 \<Rightarrow> bytes list \<Rightarrow> bytes list option" where
  "mostEffective_loop code endAddr addr cnt data =
    (if addr \<le> endAddr then
       mostEffective_loop code endAddr (addr + 128) (cnt + 48 + 16 + 16 + 48)
         (data @ [fillByteBlock code 48 cnt,
                  fillByteBlock code 16 (cnt + 48),
                  fillByteBlock code 16 (cnt + 48 + 16),
                  fillByteBlock code 48 (cnt + 48 + 16 + 16)])
     else Some data)"

definition prepareAsMostEffective :: "code_block \<Rightarrow> bytes list option" where
  "prepareAsMostEffective block =
     mostEffective_loop (m_code block) (m_endAddr block) (m_startAddr block) 0 []"

text \<open>
  \<open>prepareAs16ByteBlocks\<close>: the first loop fills the local \<open>byteBlock\<close> again and again, the second
  one appends padding blocks until the number of blocks is a multiple of four.
\<close>

partial_function (option) blocks16_loop ::
    "bytes \<Rightarrow> u16 \<Rightarrow> u16 \<Rightarrow> u16 \<Rightarrow> bytes \<Rightarrow> bytes option" where
  "blocks16_loop code endAddr addr cnt byteBlock =
    (if addr \<le> endAddr then
       blocks16_loop code endAddr (addr + 16) (cnt + 16) (fillByteBlock code 16 cnt)
     else Some byteBlock)"

definition padding_block :: "bytes \<Rightarrow> bytes" where
  "padding_block byteBlock =
     fold (\<lambda>i bb. bb[i := 0xFF, i + 1 := 0x34]) [0, 2, 4, 6, 8, 10, 12, 14] byteBlock"

lemma mult_16_mod_64: "n * 16 mod 64 = n mod 4 * (16 :: nat)"
  using mod_mult_mult2[of n 16 4] by simp

function pad16_loop :: "bytes \<Rightarrow> bytes list \<Rightarrow> bytes list" where
  "pad16_loop byteBlock data =
    (if (length data * 16) mod 64 \<noteq> 0
     then pad16_loop (padding_block byteBlock) (data @ [padding_block byteBlock])
     else data)"
  by pat_completeness auto

termination
  by (relation "measure (\<lambda>(_, data). if length data mod 4 = 0 then 0 else 4 - length data mod 4)")
     (simp_all add: mult_16_mod_64 mod_Suc, linarith?)

definition prepareAs16ByteBlocks :: "code_block \<Rightarrow> bytes list option" where
  "prepareAs16ByteBlocks block =
    (case blocks16_loop (m_code block) (m_endAddr block) (m_startAddr block) 0 [] of
       None \<Rightarrow> None
     | Some byteBlock \<Rightarrow> Some (pad16_loop byteBlock []))"

subsection \<open>Entry points\<close>

text \<open>The outer option tells whether the function returns at all, the result whether it throws.\<close>

definition fromHex :: "code_block list \<Rightarrow> prepared_data result option" where
  "fromHex codeBlocks =
    (case find (\<lambda>item. m_startAddr item = 0x3A20 * 2) codeBlocks of
       None \<Rightarrow> Some (Inl (InvalidArgument ''Selected hex file does not include Custom DPA handler section or the code does not start with clrwdt() marker.''))
     | Some block \<Rightarrow>
         let len = (getLength block + (64 - 1)) AND NOT (64 - 1) in
         case checksum block len 1 of
           Inl e \<Rightarrow> Some (Inl e)
         | Inr chksum \<Rightarrow>
             (case prepareAsMostEffective block of
                None \<Rightarrow> None
              | Some data \<Rightarrow> Some (Inr (PreparedData data len chksum))))"

definition fromIqrf :: "code_block \<Rightarrow> bool \<Rightarrow> prepared_data result option" where
  "fromIqrf codeBlock broadcast =
    (let len = getLength codeBlock in
     case checksum codeBlock len 3 of
       Inl e \<Rightarrow> Some (Inl e)
     | Inr chksum \<Rightarrow>
         (case (if broadcast then prepareAs16ByteBlocks codeBlock
                else prepareAsMostEffective codeBlock) of
            None \<Rightarrow> None
          | Some data \<Rightarrow> Some (Inr (PreparedData data len chksum))))"

section \<open>The checksum\<close>

text \<open>One's complement addition of bytes, the reference for the two halves of the sum.\<close>

definition ocadd :: "nat \<Rightarrow> nat \<Rightarrow> nat" where
  "ocadd x y = (if x + y \<ge> 256 then x + y - 255 else x + y)"

lemma ocadd_lt: "x < 256 \<Longrightarrow> y < 256 \<Longrightarrow> ocadd x y < 256"
  by (auto simp: ocadd_def)

lemma ocadd_mod: "ocadd x y mod 255 = (x + y) mod 255"
proof (cases "x + y \<ge> 256")
  case True
  then have "x + y = (x + y - 255) + 255" by simp
  then have "(x + y) mod 255 = (x + y - 255) mod 255" by (metis mod_add_self2)
  then show ?thesis using True by (simp add: ocadd_def)
qed (simp add: ocadd_def)

text \<open>Adding a byte to a half and folding the carry back, on 16 bit words.\<close>

lemma half_add:
  fixes h :: u16
  assumes "unat h < 256" "unat w < 256" and r: "r = h + w"
  shows "unat ((if r AND 0x100 \<noteq> 0 then r + 1 else r) AND 0xFF) = ocadd (unat h) (unat w)"
proof -
  have r': "unat r = unat h + unat w"
    using assms by (simp add: unat_word_ariths)
  have odd_iff: "r AND 0x100 \<noteq> 0 \<longleftrightarrow> unat h + unat w \<ge> 256"
  proof -
    have "unat h + unat w < 512" using assms by simp
    then have "(unat h + unat w) div 256 = (if unat h + unat w \<ge> 256 then 1 else 0)"
      by auto
    then show ?thesis by (simp only: and_256_u16 r') auto
  qed
  have r1: "unat (r + 1) = unat h + unat w + 1"
    using assms r' by (simp add: unat_word_ariths)
  show ?thesis
    using assms(1,2) by (simp only: odd_iff ocadd_def unat_and_ff r' r1 if_distrib[of unat]
        if_distrib[of "\<lambda>x. x AND 255"] split: if_split) (auto simp: r' r1 mod_if)
qed

lemma unat_checksum_step:
  "unat (checksum_step s b) =
     ocadd (unat s mod 256) (unat b) + 256 * ocadd (unat s div 256) (ocadd (unat s mod 256) (unat b))"
proof -
  define lo0 where "lo0 = (s AND 0xFF) + ucast b"
  define lo where "lo = (if lo0 AND 0x100 \<noteq> 0 then lo0 + 1 else lo0)"
  define hi0 where "hi0 = drop_bit 8 s + (lo AND 0xFF)"
  define hi where "hi = (if hi0 AND 0x100 \<noteq> 0 then hi0 + 1 else hi0)"
  note ub = unat_ucast_u8_u16[of b]
  have sd: "unat s div 256 < 256" using unat_lt_65536[of s] by linarith
  have l: "unat (lo AND 0xFF) = ocadd (unat s mod 256) (unat b)"
    using half_add[of "s AND 0xFF" "ucast b" lo0]
    by (simp add: lo_def lo0_def unat_and_ff ub)
  have l': "unat (lo AND 0xFF) < 256" by (simp add: unat_and_ff)
  have h: "unat (hi AND 0xFF) = ocadd (unat s div 256) (ocadd (unat s mod 256) (unat b))"
    using half_add[of "drop_bit 8 s" "lo AND 0xFF" hi0] l l' sd
    unfolding hi_def hi0_def by (simp only: unat_drop_8)
  have h': "unat (hi AND 0xFF) < 256" by (simp add: unat_and_ff)
  have "checksum_step s b = (lo AND 0xFF) OR push_bit 8 (hi AND 0xFF)"
    by (simp only: checksum_step_def Let_def lo_def lo0_def hi0_def hi_def)
  then show ?thesis using unat_or_push_8[OF l' h'] l h by metis
qed

text \<open>Fletcher's two running sums, without any reduction.\<close>

primrec fletcher :: "bytes \<Rightarrow> nat \<times> nat \<Rightarrow> nat \<times> nat" where
  "fletcher [] s = s"
| "fletcher (x # xs) s = fletcher xs (fst s + unat x, snd s + (fst s + unat x))"

lemma checksum_step_halves:
  "unat (checksum_step s b) mod 256 mod 255 = (unat s mod 256 + unat b) mod 255"
  "unat (checksum_step s b) div 256 mod 255
     = (unat s div 256 + (unat s mod 256 + unat b)) mod 255"
proof -
  have lo: "ocadd (unat s mod 256) (unat b) < 256" by (simp add: ocadd_lt)
  show "unat (checksum_step s b) mod 256 mod 255 = (unat s mod 256 + unat b) mod 255"
    using lo by (simp only: unat_checksum_step mod_mult_self2 mod_less ocadd_mod)
  have "unat (checksum_step s b) div 256 mod 255
      = (unat s div 256 + ocadd (unat s mod 256) (unat b)) mod 255"
    using lo by (simp add: unat_checksum_step ocadd_mod)
  also have "\<dots> = (unat s div 256 + (unat s mod 256 + unat b)) mod 255"
    by (metis mod_add_right_eq ocadd_mod)
  finally show "unat (checksum_step s b) div 256 mod 255
     = (unat s div 256 + (unat s mod 256 + unat b)) mod 255" .
qed

lemma fold_checksum_fletcher:
  assumes "unat s mod 256 mod 255 = a mod 255" "unat s div 256 mod 255 = b mod 255"
  shows "unat (fold (\<lambda>x s. checksum_step s x) xs s) mod 256 mod 255 = fst (fletcher xs (a, b)) mod 255
    \<and> unat (fold (\<lambda>x s. checksum_step s x) xs s) div 256 mod 255 = snd (fletcher xs (a, b)) mod 255"
  using assms
proof (induction xs arbitrary: s a b)
  case (Cons x xs)
  have "unat (checksum_step s x) mod 256 mod 255 = (a + unat x) mod 255"
    using Cons.prems(1) by (metis checksum_step_halves(1) mod_add_left_eq)
  moreover have "unat (checksum_step s x) div 256 mod 255 = (b + (a + unat x)) mod 255"
    using Cons.prems checksum_step_halves(2)[of s x] by (metis mod_add_cong)
  ultimately show ?case using Cons.IH by simp
qed simp

section \<open>The prepared blocks\<close>

text \<open>
  A code block is well formed when its addresses delimit its code. The blocks of both parsers
  are (see \<open>Ota_Parsers\<close>).
\<close>

definition wf_block :: "code_block \<Rightarrow> bool" where
  "wf_block b \<longleftrightarrow> unat (m_endAddr b) + 1 = unat (m_startAddr b) + length (m_code b)"

definition pad_byte :: "nat \<Rightarrow> u8" where
  "pad_byte i = (if odd i then 0x34 else 0xFF)"

text \<open>The code followed by padding, the image of the memory the blocks describe.\<close>

definition image_byte :: "bytes \<Rightarrow> nat \<Rightarrow> u8" where
  "image_byte code i = (if i < length code then code ! i else pad_byte i)"

definition mem_image :: "bytes \<Rightarrow> nat \<Rightarrow> bytes" where
  "mem_image code n = map (image_byte code) [0..<n]"

lemma take_image [list_facts]: "m \<le> n \<Longrightarrow> take m (mem_image code n) = mem_image code m"
  by (simp add: mem_image_def take_map)

lemma image_self [list_facts]: "mem_image code (length code) = code"
  by (rule nth_equalityI) (simp_all add: mem_image_def image_byte_def)

lemma fillByteBlock_image:
  "even (unat offset) \<Longrightarrow> fillByteBlock code bs offset
     = map (image_byte code) [unat offset..<unat offset + unat bs]"
  by (rule nth_equalityI)
     (auto simp: fillByteBlock_def image_byte_def pad_byte_def not_less add.commute)

lemma map_upt_append: "a \<le> b \<Longrightarrow> b \<le> c \<Longrightarrow> map f [a..<b] @ map f [b..<c] = map f [a..<c]"
  using upt_add_eq_append[of a b "c - b"] by (simp flip: map_append)

lemma chunk_image:
  assumes "even (unat cnt)" "unat cnt + 128 < 65536"
  shows "concat [fillByteBlock code 48 cnt, fillByteBlock code 16 (cnt + 48),
           fillByteBlock code 16 (cnt + 48 + 16), fillByteBlock code 48 (cnt + 48 + 16 + 16)]
         = map (image_byte code) [unat cnt..<unat cnt + 128]"
proof -
  have u: "unat (cnt + 48) = unat cnt + 48" "unat (cnt + 48 + 16) = unat cnt + 64"
    "unat (cnt + 48 + 16 + 16) = unat cnt + 80"
    using assms by (simp_all add: unat_word_ariths)
  have f: "fillByteBlock code bs off = map (image_byte code) [m..<m']"
    if "unat off = m" "even m" "m' = m + unat bs" for bs off m m'
    using that fillByteBlock_image by blast
  have "fillByteBlock code 48 cnt = map (image_byte code) [unat cnt..<unat cnt + 48]"
    "fillByteBlock code 16 (cnt + 48) = map (image_byte code) [unat cnt + 48..<unat cnt + 64]"
    "fillByteBlock code 16 (cnt + 48 + 16) = map (image_byte code) [unat cnt + 64..<unat cnt + 80]"
    "fillByteBlock code 48 (cnt + 48 + 16 + 16)
       = map (image_byte code) [unat cnt + 80..<unat cnt + 128]"
    by ((rule f; ((rule refl) | (rule u) | (use assms(1) in simp)))+)
  then show ?thesis
    by (simp only: concat.simps append_Nil2) (simp add: map_upt_append)
qed

lemma mostEffective_loop_image:
  assumes "unat endAddr < 0xFF80" "even (unat cnt)" "unat cnt \<le> unat addr"
    and "k = (if addr \<le> endAddr then (unat endAddr - unat addr) div 128 + 1 else 0)"
  shows "\<exists>r. mostEffective_loop code endAddr addr cnt data = Some (data @ r)
    \<and> concat r = map (image_byte code) [unat cnt..<unat cnt + 128 * k]
    \<and> map length r = concat (replicate k [48, 16, 16, 48])"
  using assms
proof (induction k arbitrary: addr cnt data)
  case 0
  then show ?case by (subst mostEffective_loop.simps) (simp split: if_splits)
next
  case (Suc k)
  have le: "unat addr \<le> unat endAddr" using Suc.prems(4)
    by (simp add: word_le_nat_alt split: if_splits)
  have ua: "unat (addr + 128) = unat addr + 128" and uc: "unat (cnt + 128) = unat cnt + 128"
    using le Suc.prems(1,3) by (simp_all add: unat_word_ariths)
  have k: "k = (if addr + 128 \<le> endAddr then (unat endAddr - unat (addr + 128)) div 128 + 1 else 0)"
  proof (cases "unat addr + 128 \<le> unat endAddr")
    case True
    then have "(unat endAddr - unat addr) div 128 = (unat endAddr - (unat addr + 128)) div 128 + 1"
      by (simp add: le_div_geq)
    then show ?thesis using Suc.prems(4) le True by (simp add: word_le_nat_alt ua)
  next
    case False
    then show ?thesis using Suc.prems(4) le by (simp add: word_le_nat_alt ua)
  qed
  define blocks where "blocks = [fillByteBlock code 48 cnt, fillByteBlock code 16 (cnt + 48),
    fillByteBlock code 16 (cnt + 48 + 16), fillByteBlock code 48 (cnt + 48 + 16 + 16)]"
  have "even (unat (cnt + 128))" "unat (cnt + 128) \<le> unat (addr + 128)"
    using Suc.prems(2,3) ua uc by simp_all
  from Suc.IH[OF Suc.prems(1) this k, of "data @ blocks"] obtain r where
    r: "mostEffective_loop code endAddr (addr + 128) (cnt + 128) (data @ blocks)
          = Some ((data @ blocks) @ r)"
       "concat r = map (image_byte code) [unat (cnt + 128)..<unat (cnt + 128) + 128 * k]"
       "map length r = concat (replicate k [48, 16, 16, 48])" by blast
  have "mostEffective_loop code endAddr addr cnt data = Some (data @ blocks @ r)"
    using r(1) le by (subst mostEffective_loop.simps)
      (simp add: word_le_nat_alt blocks_def add.assoc)
  moreover have "concat (blocks @ r) = map (image_byte code) [unat cnt..<unat cnt + 128 * Suc k]"
  proof -
    have "concat blocks = map (image_byte code) [unat cnt..<unat cnt + 128]"
      unfolding blocks_def using chunk_image[of cnt code] Suc.prems le by simp
    then show ?thesis using r(2) by (simp add: uc map_upt_append add.assoc)
  qed
  moreover have "map length (blocks @ r) = concat (replicate (Suc k) [48, 16, 16, 48])"
    using r(3) by (simp add: blocks_def fillByteBlock_def)
  ultimately show ?case by blast
qed

lemma prepareAsMostEffective_image:
  assumes wf: "wf_block b" and e: "unat (m_endAddr b) < 0xFF80"
  defines "k \<equiv> (length (m_code b) + 127) div 128"
  shows "\<exists>r. prepareAsMostEffective b = Some r \<and> concat r = mem_image (m_code b) (128 * k)
    \<and> map length r = concat (replicate k [48, 16, 16, 48])"
proof -
  let ?s = "unat (m_startAddr b)" and ?e = "unat (m_endAddr b)"
  have "k = (if m_startAddr b \<le> m_endAddr b then (?e - ?s) div 128 + 1 else 0)"
  proof (cases "?s \<le> ?e")
    case True
    then have "?e - ?s + 128 = length (m_code b) + 127" using wf by (simp add: wf_block_def)
    then have "k = (?e - ?s + 128) div 128" by (simp add: k_def)
    then show ?thesis using True by (simp add: word_le_nat_alt)
  next
    case False
    then show ?thesis using wf by (simp add: wf_block_def k_def word_le_nat_alt)
  qed
  from mostEffective_loop_image[OF e _ _ this, of 0 "m_code b" "[]"] show ?thesis
    by (auto simp: prepareAsMostEffective_def mem_image_def)
qed

section \<open>The checksum covers the prepared data\<close>

text \<open>The byte the checksum reads at an index: after the code, the padding restarts at 0xFF.\<close>

definition sum_byte :: "bytes \<Rightarrow> nat \<Rightarrow> u8" where
  "sum_byte code j =
     (if j < length code then code ! j else if even (j - length code) then 0xFF else 0x34)"

lemma sum_byte_image: "even (length code) \<Longrightarrow> sum_byte code = image_byte code"
  by (rule ext) (simp add: sum_byte_def image_byte_def pad_byte_def not_less)

lemma checksum_loop_fold:
  assumes wf: "wf_block b" and s: "unat (m_startAddr b) + n < 65536" and "j \<le> n"
    and "endAddr = word_of_nat (unat (m_startAddr b) + n)"
    and "addr = word_of_nat (unat (m_startAddr b) + j)"
    and "lower \<longleftrightarrow> (j \<le> length (m_code b) \<or> even (j - length (m_code b)))"
  shows "checksum_loop b endAddr addr j lower acc
    = Inr (fold (\<lambda>x s. checksum_step s x) (map (sum_byte (m_code b)) [j..<n]) acc)"
  using assms(3-)
proof (induction "n - j" arbitrary: j addr lower acc)
  case 0
  then have j: "j = n" by simp
  then have "\<not> addr < endAddr" using 0(3,4) by simp
  then show ?case using j by (subst checksum_loop.simps) simp
next
  case (Suc m)
  let ?s = "unat (m_startAddr b)" and ?L = "length (m_code b)"
  have j: "j < n" using Suc.hyps(2) by simp
  have ua: "unat addr = ?s + j" and ue: "unat endAddr = ?s + n"
    using j s Suc.prems(2,3) unat_of_nat_u16[of "?s + j"] unat_of_nat_u16[of "?s + n"] by simp_all
  have lt: "addr < endAddr" using j by (simp add: word_less_nat_alt ua ue)
  have a1: "addr + 1 = word_of_nat (?s + Suc j)" using Suc.prems(3) by (simp add: add.commute)
  have IH: "\<And>lower acc. lower \<longleftrightarrow> (Suc j \<le> ?L \<or> even (Suc j - ?L)) \<Longrightarrow>
      checksum_loop b endAddr (addr + 1) (Suc j) lower acc
    = Inr (fold (\<lambda>x s. checksum_step s x) (map (sum_byte (m_code b)) [Suc j..<n]) acc)"
    by (rule Suc.hyps(1)[OF _ _ Suc.prems(2) a1]) (use Suc.hyps(2) j in simp_all)
  have upt: "[j..<n] = j # [Suc j..<n]" using j by (simp add: upt_conv_Cons)
  have dec: "int (unat (m_endAddr b)) - int (unat addr) \<ge> 0 \<longleftrightarrow> j < ?L"
    using wf by (simp only: diff_ge_0_iff_ge of_nat_le_iff ua wf_block_def) linarith
  show ?case
  proof (cases "j < ?L")
    case True
    then show ?thesis using IH[of lower] Suc.prems(4) lt dec
      by (subst checksum_loop.simps) (simp add: upt code_at_def sum_byte_def)
  next
    case False
    then have "lower \<longleftrightarrow> even (j - ?L)" "Suc j - ?L = Suc (j - ?L)" using Suc.prems(4) by auto
    then show ?thesis using IH[of "\<not> lower"] False lt dec
      by (subst checksum_loop.simps) (simp add: upt sum_byte_def)
  qed
qed

lemma checksum_fold:
  assumes "wf_block b" "unat (m_startAddr b) + unat len < 65536"
  shows "checksum b len initVal
    = Inr (fold (\<lambda>x s. checksum_step s x) (map (sum_byte (m_code b)) [0..<unat len]) initVal)"
proof -
  have "m_startAddr b + len = word_of_nat (unat (m_startAddr b) + unat len)" by simp
  from checksum_loop_fold[OF assms _ this, of 0 "m_startAddr b" True initVal] show ?thesis
    by (simp add: checksum_def)
qed

lemma round_up_64:
  assumes "unat (x :: u16) + 63 < 65536"
  shows "unat ((x + (64 - 1)) AND NOT (64 - 1)) = (unat x + 63) div 64 * 64"
proof -
  have "(64 - 1 :: u16) = mask 6" by (simp add: mask_eq_exp_minus_1)
  then have "(x + (64 - 1)) AND NOT (64 - 1) = (x + 63) AND NOT (mask 6)" by simp
  also have "\<dots> = push_bit 6 (drop_bit 6 (x + 63))"
    by (rule bit_eqI) (auto simp: bit_simps)
  finally have "(x + (64 - 1)) AND NOT (64 - 1) = push_bit 6 (drop_bit 6 (x + 63))" .
  moreover have "unat (drop_bit 6 (x + 63)) = (unat x + 63) div 64"
  proof -
    have "unat (drop_bit 6 (x + 63)) = drop_bit 6 (unat (x + 63))" by (rule unat_drop_bit_eq)
    also have "\<dots> = unat (x + 63) div 64" by (simp only: drop_bit_eq_div) simp
    also have "unat (x + 63) = unat x + 63" using assms by (simp add: unat_word_ariths)
    finally show ?thesis .
  qed
  moreover have "unat (push_bit 6 y) = unat y * 64" if "unat y * 64 < 65536" for y :: u16
    using that by (simp add: push_bit_eq_mult unat_word_ariths)
  moreover have "(unat x + 63) div 64 * 64 < 65536" using assms by linarith
  ultimately show ?thesis by simp
qed

lemma round_64_le_128: "(n + 63) div 64 * 64 \<le> 128 * ((n + 127) div 128 :: nat)"
proof -
  have "n \<le> 128 * ((n + 127) div 128)" by linarith
  then have "(n + 63) div 64 \<le> (128 * ((n + 127) div 128) + 63) div 64" by (intro div_le_mono) simp
  also have "\<dots> = 2 * ((n + 127) div 128)" by linarith
  finally show ?thesis by simp
qed

lemma fold_checksum_hex:
  assumes "wf_block b" "unat (m_endAddr b) < 0xFF80" "m_startAddr b = 0x3A20 * 2"
  shows "unat (getLength b) = length (m_code b)"
    and "unat ((getLength b + (64 - 1)) AND NOT (64 - 1)) = (length (m_code b) + 63) div 64 * 64"
    and "unat (m_startAddr b) + (length (m_code b) + 63) div 64 * 64 < 65536"
proof -
  have l: "29760 + length (m_code b) < 65409" using assms by (simp add: wf_block_def)
  then show g: "unat (getLength b) = length (m_code b)"
    by (simp add: getLength_def unat_of_nat_u16)
  show "unat ((getLength b + (64 - 1)) AND NOT (64 - 1)) = (length (m_code b) + 63) div 64 * 64"
    using round_up_64[of "getLength b"] l g by simp
  have "(length (m_code b) + 63) div 64 * 64 \<le> length (m_code b) + 63" by linarith
  then show "unat (m_startAddr b) + (length (m_code b) + 63) div 64 * 64 < 65536"
    using l assms(3) by simp
qed

section \<open>Loops that do not end, blocks that are not stored\<close>

text \<open>
  With an end address at the top of the address space the 16 bit loop variable wraps around
  before it can pass the end.
\<close>

lemma mostEffective_loop_Some_end:
  "mostEffective_loop code endAddr addr cnt data = Some r \<Longrightarrow> endAddr \<noteq> 0xFFFF"
proof (erule mostEffective_loop.raw_induct[where P = "\<lambda>_ endAddr _ _ _ _. endAddr \<noteq> 0xFFFF", rotated])
  fix loop code and endAddr addr cnt :: u16 and data r
  assume IH: "\<And>code endAddr addr cnt data r. loop code endAddr addr cnt data = Some r \<Longrightarrow> endAddr \<noteq> 0xFFFF"
    and body: "(if addr \<le> endAddr then loop code endAddr (addr + 128) (cnt + 48 + 16 + 16 + 48)
         (data @ [fillByteBlock code 48 cnt, fillByteBlock code 16 (cnt + 48),
                  fillByteBlock code 16 (cnt + 48 + 16), fillByteBlock code 48 (cnt + 48 + 16 + 16)])
       else Some data) = Some (r :: bytes list)"
  have "unat addr \<le> 65535" using unat_lt_65536[of addr] by linarith
  then have "addr \<le> 0xFFFF" by (simp add: word_le_nat_alt)
  then show "endAddr \<noteq> 0xFFFF" using body IH by metis
qed

lemma mostEffective_loop_diverges: "mostEffective_loop code 0xFFFF addr cnt data = None"
  using mostEffective_loop_Some_end by (cases "mostEffective_loop code 0xFFFF addr cnt data") blast+

lemma blocks16_loop_Some:
  assumes "unat endAddr < 0xFFF0"
  shows "\<exists>bb. blocks16_loop code endAddr addr cnt byteBlock = Some bb"
proof (induction "unat endAddr + 1 - unat addr" arbitrary: addr cnt byteBlock rule: less_induct)
  case less
  show ?case
  proof (cases "addr \<le> endAddr")
    case True
    then have "unat (addr + 16) = unat addr + 16"
      using assms by (simp add: unat_word_ariths word_le_nat_alt)
    then show ?thesis using True less[of "addr + 16"]
      by (subst blocks16_loop.simps) (simp add: word_le_nat_alt)
  next
    case False
    then show ?thesis by (subst blocks16_loop.simps) simp
  qed
qed

lemma fromHex_prepared:
  assumes "find (\<lambda>item. m_startAddr item = 0x3A20 * 2) blocks = Some b"
    and "wf_block b" "unat (m_endAddr b) < 0xFF80" "even (length (m_code b))"
  shows "\<exists>p. fromHex blocks = Some (Inr p)
    \<and> concat (m_data p) = mem_image (m_code b) (128 * ((length (m_code b) + 127) div 128))
    \<and> map length (m_data p) = concat (replicate ((length (m_code b) + 127) div 128) [48, 16, 16, 48])
    \<and> unat (m_length p) = (length (m_code b) + 63) div 64 * 64
    \<and> m_checksum p = fold (\<lambda>x s. checksum_step s x) (take (unat (m_length p)) (concat (m_data p))) 1"
proof -
  let ?n = "(length (m_code b) + 63) div 64 * 64"
  have st: "m_startAddr b = 0x3A20 * 2" using assms(1) by (auto simp: find_Some_iff)
  note len = fold_checksum_hex[OF assms(2,3) st]
  obtain r where r: "prepareAsMostEffective b = Some r"
    "concat r = mem_image (m_code b) (128 * ((length (m_code b) + 127) div 128))"
    "map length r = concat (replicate ((length (m_code b) + 127) div 128) [48, 16, 16, 48])"
    using prepareAsMostEffective_image[OF assms(2,3)] by blast
  have "?n \<le> 128 * ((length (m_code b) + 127) div 128)" by (rule round_64_le_128)
  then have "take ?n (concat r) = map (sum_byte (m_code b)) [0..<?n]"
    using r(2) by (simp only: take_image sum_byte_image[OF assms(4)]) (simp add: mem_image_def)
  then show ?thesis
    using assms(1) r len(2) checksum_fold[OF assms(2), of "(getLength b + (64 - 1)) AND NOT (64 - 1)" 1] len(3)
    by (simp add: fromHex_def Let_def PreparedData_def)
qed

section \<open>Properties\<close>

text \<open>
  C17: Preparing a Custom DPA handler from a HEX file: when a block starts at the handler address and
  ends below 0xFF80, \<open>fromHex\<close> returns (its loops end) the blocks of sizes 48, 16, 16, 48, ...
  whose concatenation is the code, byte for byte, padded with 0xFF, 0x34, ... to a multiple of
  128 bytes; the length is that of the code rounded up to 64; and for code of even length the
  checksum is the step function folded from 1 over exactly the first \<open>length\<close> bytes of the
  prepared blocks, so the nodes can verify what they received.\<close>

theorem fromHex_correct:
  assumes "find (\<lambda>item. m_startAddr item = 0x3A20 * 2) blocks = Some b"
    and "wf_block b" "unat (m_endAddr b) < 0xFF80" "even (length (m_code b))"
  shows "\<exists>p. fromHex blocks = Some (Inr p)
    \<and> concat (m_data p) = mem_image (m_code b) (128 * ((length (m_code b) + 127) div 128))
    \<and> map length (m_data p) = concat (replicate ((length (m_code b) + 127) div 128) [48, 16, 16, 48])
    \<and> unat (m_length p) = (length (m_code b) + 63) div 64 * 64
    \<and> m_checksum p = fold (\<lambda>x s. checksum_step s x) (take (unat (m_length p)) (concat (m_data p))) 1"
  using fromHex_prepared[OF assms] .

theorem fromHex_correct_witness:
  "\<exists>p. fromHex [CodeBlock [1, 2] 0x100 0x101, CodeBlock (replicate 130 7) 0x7440 0x74C1] = Some (Inr p)
    \<and> concat (m_data p) = mem_image (replicate 130 7) 256
    \<and> map length (m_data p) = [48, 16, 16, 48, 48, 16, 16, 48]
    \<and> unat (m_length p) = 192
    \<and> m_checksum p = fold (\<lambda>x s. checksum_step s x) (take 192 (concat (m_data p))) 1"
proof -
  let ?b = "CodeBlock (replicate 130 7) 0x7440 0x74C1"
  have "find (\<lambda>item. m_startAddr item = 0x3A20 * 2) [CodeBlock [1, 2] 0x100 0x101, ?b] = Some ?b"
    by (simp add: CodeBlock_def)
  moreover have "wf_block ?b" "unat (m_endAddr ?b) < 0xFF80" "even (length (m_code ?b))"
    "length (m_code ?b) = 130" "m_code ?b = replicate 130 7"
    by (simp_all add: CodeBlock_def wf_block_def)
  moreover have "concat (replicate 2 [48, 16, 16, 48]) = [48, 16, 16, 48, 48, 16, 16, 48 :: nat]"
    by (simp add: numeral_2_eq_2)
  ultimately show ?thesis
    using fromHex_correct[of "[CodeBlock [1, 2] 0x100 0x101, ?b]" ?b] by auto
qed

text \<open>
  The checksum is a Fletcher sum: computed with end-around carries on the two halves of a 16 bit
  word, its low half is congruent modulo 255 to the plain sum of the initial low half and of
  the bytes of the block, and its high half to the sum of the successive sums.\<close>

theorem checksum_is_fletcher:
  assumes "wf_block b" "unat (m_startAddr b) + unat len < 65536"
  shows "\<exists>c. checksum b len initVal = Inr c
    \<and> unat c mod 256 mod 255
        = fst (fletcher (map (sum_byte (m_code b)) [0..<unat len])
            (unat initVal mod 256, unat initVal div 256)) mod 255
    \<and> unat c div 256 mod 255
        = snd (fletcher (map (sum_byte (m_code b)) [0..<unat len])
            (unat initVal mod 256, unat initVal div 256)) mod 255"
  using checksum_fold[OF assms, of initVal]
    fold_checksum_fletcher[of initVal "unat initVal mod 256" "unat initVal div 256"] by simp

theorem checksum_is_fletcher_witness:
  "\<exists>c. checksum (CodeBlock [0xFE, 0x80, 0x10] 0 2) 3 3 = Inr c
    \<and> unat c mod 256 mod 255 = (3 + 0xFE + 0x80 + 0x10) mod 255
    \<and> unat c div 256 mod 255 = (0x101 + 0x181 + 0x191) mod 255"
  using checksum_is_fletcher[of "CodeBlock [0xFE, 0x80, 0x10] 0 2" 3 3]
  by (simp add: CodeBlock_def wf_block_def sum_byte_def upt_rec)

text \<open>
  An IQRF plugin prepared for a broadcast upload: \<open>prepareAs16ByteBlocks\<close> ends for an end address
  below 0xFFF0 but never stores the blocks it fills, so the prepared data are empty whatever the
  plugin holds.\<close>

theorem fromIqrf_broadcast_empty:
  assumes "unat (m_endAddr b) < 0xFFF0"
  shows "prepareAs16ByteBlocks b = Some []"
  using blocks16_loop_Some[OF assms, of "m_code b" "m_startAddr b" 0 "[]"]
  by (auto simp: prepareAs16ByteBlocks_def)

theorem fromIqrf_broadcast_empty_witness:
  "prepareAs16ByteBlocks (CodeBlock (replicate 64 9) 0 63) = Some []"
  using fromIqrf_broadcast_empty[of "CodeBlock (replicate 64 9) 0 63"]
  by (simp add: CodeBlock_def)

end
