(* ===== verification/Ota_Parsers.thy ===== *)
theory Ota_Parsers
  imports Ota_Prepare String_Utils "HOL-Library.Multiset"
begin

text \<open>
  \<open>IqmeshServices/OtaUploadService/IntelHexParser.h\<close> and \<open>IqrfParser.h\<close>: reading the lines of an
  Intel HEX file or of an IQRF plugin and turning its records into code blocks. What the parsers
  use of the header parser library (\<open>iqrf_header_parser\<close>, a submodule) is the record \<open>ihp_lib\<close>
  of parameters. A file is the list of the lines \<open>getline\<close> yields, or \<open>None\<close> when it cannot be
  opened. The members \<open>m_mcu\<close>, \<open>m_tr\<close> and \<open>m_os\<close> are not initialised by the sources: their first
  values are arguments of the constructors.
\<close>

record ihp_lib =
  validateRecord :: "string \<Rightarrow> unit result"
  compatibilityRecord :: "string \<Rightarrow> bool"
  parseCompatibilityHeader :: "string \<Rightarrow> (u8 \<times> u8 \<times> u8) result"
  hexStringToByte :: "string \<Rightarrow> nat \<Rightarrow> u8 result"
  END_OF_FILE :: string
  IDENTIFICATION_HEADER_ADDRESS :: u32
  PIC16LF18877 :: u8
  parseMcuHeader :: "string \<Rightarrow> (u8 \<times> u8) result"
  parseOsHeader :: "string \<Rightarrow> string list result"
  validPluginHeaderOs :: "string \<Rightarrow> bool"
  isSeparator :: "string \<Rightarrow> bool"
  validateData :: "string \<Rightarrow> unit result"
  LINE_LENGTH :: nat

datatype MemoryType = flash | eeprom | eeeprom

definition SERIAL_EEPROM_BOTTOM :: u32 where "SERIAL_EEPROM_BOTTOM = 0x0200"
definition SERIAL_EEPROM_TOP :: u32 where "SERIAL_EEPROM_TOP = 0x09FF"
definition IQRF_MAIN_MEM_MAX_ADR_D :: u32 where "IQRF_MAIN_MEM_MAX_ADR_D = 0x3FFF"
definition IQRF_MAIN_MEM_MAX_ADR_G :: u32 where "IQRF_MAIN_MEM_MAX_ADR_G = 0x4FFF"
definition INTERNAL_EEPROM_BOTTOM :: u32 where "INTERNAL_EEPROM_BOTTOM = 0xF000"
definition INTERNAL_EEPROM_TOP :: u32 where "INTERNAL_EEPROM_TOP = 0xF0BF"

text \<open>
  \<open>path.substr(path.find_last_of("/\\") + 1)\<close>, and the rethrow of a \<open>logic_error\<close> (or of a class
  derived from it) with the place of the record appended.
\<close>

definition base_name :: "string \<Rightarrow> string" where
  "base_name path = rev (takeWhile (\<lambda>c. c \<noteq> CHR ''/'' \<and> c \<noteq> CHR 0x5C) (rev path))"

definition rethrow :: "string \<Rightarrow> nat \<Rightarrow> exc \<Rightarrow> exc" where
  "rethrow path linenum e =
    (let at = (\<lambda>what. LogicError (what @ '' ('' @ path @ '':'' @ show_dec linenum @ '')'')) in
     case e of
       LogicError w \<Rightarrow> at w | InvalidArgument w \<Rightarrow> at w | DomainError w \<Rightarrow> at w | OutOfRange w \<Rightarrow> at w
     | RuntimeError w \<Rightarrow> e | UB w \<Rightarrow> e)"

definition catch_logic :: "string \<Rightarrow> nat \<Rightarrow> 'a result \<Rightarrow> 'a result" where
  "catch_logic path linenum r = (case r of Inl e \<Rightarrow> Inl (rethrow path linenum e) | Inr x \<Rightarrow> Inr x)"

section \<open>Intel HEX\<close>

record hex_parser =
  h_contents :: "string list"
  h_codeBlocks :: "code_block list"
  h_identificationRecord :: bool
  h_mcu :: u8
  h_tr :: u8
  h_os :: u8

text \<open>The body of the \<open>try\<close> block for one record.\<close>

definition check_record :: "ihp_lib \<Rightarrow> hex_parser \<Rightarrow> string \<Rightarrow> hex_parser result" where
  "check_record lib p rec =
    bind_r (validateRecord lib rec) (\<lambda>_.
      if compatibilityRecord lib rec then
        bind_r (parseCompatibilityHeader lib rec) (\<lambda>(os, mcu, tr).
          Inr (p\<lparr>h_identificationRecord := True, h_os := os, h_mcu := mcu, h_tr := tr\<rparr>))
      else Inr p)"

fun hex_lines :: "ihp_lib \<Rightarrow> string \<Rightarrow> string list \<Rightarrow> nat \<Rightarrow> hex_parser \<Rightarrow> hex_parser result" where
  "hex_lines lib path [] linenum p = Inr p"
| "hex_lines lib path (line # rest) linenum p =
    (let rec = trim line in
     if rec = [] then hex_lines lib path rest linenum p
     else bind_r (catch_logic path linenum (check_record lib p rec)) (\<lambda>p'.
       hex_lines lib path rest (linenum + 1) (p'\<lparr>h_contents := h_contents p' @ [rec]\<rparr>)))"

definition IntelHexParser ::
    "ihp_lib \<Rightarrow> (u8 \<times> u8 \<times> u8) \<Rightarrow> string \<Rightarrow> string list option \<Rightarrow> hex_parser result" where
  "IntelHexParser lib uninit filename file =
    (case file of
       None \<Rightarrow> Inl (LogicError (''Unable to open file '' @ base_name filename))
     | Some lines \<Rightarrow>
         (let (os, mcu, tr) = uninit;
              p = \<lparr>h_contents = [], h_codeBlocks = [], h_identificationRecord = False,
                   h_mcu = mcu, h_tr = tr, h_os = os\<rparr> in
          bind_r (hex_lines lib (base_name filename) lines 1 p) (\<lambda>p'.
            if h_contents p' = [] then Inl (UB ''back() of an empty list'')
            else if last (h_contents p') \<noteq> END_OF_FILE lib
            then Inl (InvalidArgument ''Intel HEX file is missing end-of-file record.'')
            else Inr p')))"

subsection \<open>Blocks\<close>

definition adjacentBlocks :: "code_block \<Rightarrow> code_block \<Rightarrow> bool" where
  "adjacentBlocks b1 b2 \<longleftrightarrow>
     unat (m_endAddr b1) + 1 = unat (m_startAddr b2) \<or> unat (m_endAddr b2) + 1 = unat (m_startAddr b1)"

definition mergeBlocks :: "code_block \<Rightarrow> code_block \<Rightarrow> code_block" where
  "mergeBlocks b1 b2 =
    (if unat (m_endAddr b1) + 1 = unat (m_startAddr b2)
     then CodeBlock (m_code b1 @ m_code b2) (m_startAddr b1) (m_endAddr b2)
     else CodeBlock (m_code b2 @ m_code b1) (m_startAddr b2) (m_endAddr b1))"

text \<open>The loop of \<open>addCodeBlock\<close>: \<open>seen\<close> are the blocks before the iterator.\<close>

fun addCodeBlock_loop :: "code_block \<Rightarrow> code_block list \<Rightarrow> code_block list \<Rightarrow> code_block list" where
  "addCodeBlock_loop block seen [] = seen @ [block]"
| "addCodeBlock_loop block seen (itr # rest) =
    (if adjacentBlocks itr block then seen @ rest @ [mergeBlocks block itr]
     else addCodeBlock_loop block (seen @ [itr]) rest)"

definition addCodeBlock :: "code_block \<Rightarrow> code_block list \<Rightarrow> code_block list" where
  "addCodeBlock block blocks = addCodeBlock_loop block [] blocks"

subsection \<open>Records\<close>

text \<open>
  The loop that takes every second byte has an 8 bit index compared with the length of the data,
  which may be 255.
\<close>

partial_function (option) ee_loop :: "bytes \<Rightarrow> u8 \<Rightarrow> bytes \<Rightarrow> bytes option" where
  "ee_loop data i eeData =
    (if unat i < length data then ee_loop data (i + 2) (eeData @ [data ! unat i]) else Some eeData)"

text \<open>The block of a data record (record type 0), if it lies in the requested memory.\<close>

definition data_block :: "ihp_lib \<Rightarrow> u8 \<Rightarrow> MemoryType \<Rightarrow> u32 \<Rightarrow> bytes \<Rightarrow> code_block option option" where
  "data_block lib mcu type startAddr data =
    (let endAddr = startAddr + word_of_nat (length data) - 1;
         realStartAddr = drop_bit 1 startAddr;
         realEndAddr = drop_bit 1 endAddr in
     if type = flash then
       (let mainAddrMax = (if mcu = PIC16LF18877 lib then IQRF_MAIN_MEM_MAX_ADR_G
                           else IQRF_MAIN_MEM_MAX_ADR_D) in
        Some (if realEndAddr \<le> mainAddrMax then Some (CodeBlock data (ucast startAddr) (ucast endAddr))
              else None))
     else
       (case ee_loop data 0 [] of
          None \<Rightarrow> None
        | Some eeData \<Rightarrow>
            if type = eeprom then
              Some (if realStartAddr \<ge> INTERNAL_EEPROM_BOTTOM \<and> realEndAddr \<le> INTERNAL_EEPROM_TOP
                    then Some (CodeBlock eeData (ucast (realStartAddr - INTERNAL_EEPROM_BOTTOM))
                                 (ucast (realEndAddr - INTERNAL_EEPROM_BOTTOM)))
                    else None)
            else
              Some (if realStartAddr \<ge> SERIAL_EEPROM_BOTTOM \<and> realEndAddr \<le> SERIAL_EEPROM_TOP
                    then Some (CodeBlock eeData (ucast (realStartAddr - SERIAL_EEPROM_BOTTOM))
                                 (ucast (realEndAddr - SERIAL_EEPROM_BOTTOM)))
                    else None)))"

text \<open>
  The body of the loop of \<open>parse\<close> for one record: the new offset and the block to add, if any.
  \<open>Inl\<close> is an exception of \<open>hexStringToByte\<close>, \<open>None\<close> the loop that does not end.
\<close>

definition decode_record ::
    "ihp_lib \<Rightarrow> u8 \<Rightarrow> MemoryType \<Rightarrow> u32 \<Rightarrow> string \<Rightarrow> (u32 \<times> code_block option) result option" where
  "decode_record lib mcu type offset rec =
    (case map_r (hexStringToByte lib rec) [1, 3, 5, 7] of
       Inl e \<Rightarrow> Some (Inl e)
     | Inr hdr \<Rightarrow>
         (let byteCount = hdr ! 0; addrHi = hdr ! 1; addrLo = hdr ! 2; recordType = hdr ! 3 in
          if recordType = 0 then
            (let startAddr = offset + push_bit 8 (ucast addrHi) + ucast addrLo in
             if startAddr = IDENTIFICATION_HEADER_ADDRESS lib then Some (Inr (offset, None))
             else
               (case map_r (\<lambda>i. hexStringToByte lib rec (i * 2 + 9)) [0..<unat byteCount] of
                  Inl e \<Rightarrow> Some (Inl e)
                | Inr data \<Rightarrow>
                    (case data_block lib mcu type startAddr data of
                       None \<Rightarrow> None
                     | Some block \<Rightarrow> Some (Inr (offset, block)))))
          else if recordType = 2 \<or> recordType = 4 then
            Some (bind_r (map_r (hexStringToByte lib rec) [9, 11]) (\<lambda>bs.
              Inr ((push_bit 8 (ucast (bs ! 0)) + ucast (bs ! 1)) * (if recordType = 2 then 16 else 65536),
                   None)))
          else Some (Inr (offset, None))))"

fun hex_parse_loop ::
    "ihp_lib \<Rightarrow> u8 \<Rightarrow> MemoryType \<Rightarrow> string list \<Rightarrow> u32 \<Rightarrow> code_block list \<Rightarrow> code_block list result option" where
  "hex_parse_loop lib mcu type [] offset blocks = Some (Inr blocks)"
| "hex_parse_loop lib mcu type (rec # rest) offset blocks =
    (case decode_record lib mcu type offset rec of
       None \<Rightarrow> None
     | Some (Inl e) \<Rightarrow> Some (Inl e)
     | Some (Inr (offset', block)) \<Rightarrow>
         hex_parse_loop lib mcu type rest offset'
           (case block of None \<Rightarrow> blocks | Some b \<Rightarrow> addCodeBlock b blocks))"

definition parse_hex :: "ihp_lib \<Rightarrow> hex_parser \<Rightarrow> MemoryType \<Rightarrow> code_block list result option" where
  "parse_hex lib p type = hex_parse_loop lib (h_mcu p) type (h_contents p) 0 []"

definition hexGetFlashData :: "ihp_lib \<Rightarrow> hex_parser \<Rightarrow> code_block list result option" where
  "hexGetFlashData lib p = parse_hex lib p flash"

definition hexGetEepromData :: "ihp_lib \<Rightarrow> hex_parser \<Rightarrow> code_block list result option" where
  "hexGetEepromData lib p = parse_hex lib p eeprom"

definition hexGetEeepromData :: "ihp_lib \<Rightarrow> hex_parser \<Rightarrow> code_block list result option" where
  "hexGetEeepromData lib p = parse_hex lib p eeeprom"

text \<open>\<open>getHeaderModuleInfo\<close>: OS major and minor digit, MCU type and TR series.\<close>

definition hexGetHeaderModuleInfo :: "hex_parser \<Rightarrow> u8 \<times> u8 \<times> u8 \<times> u8" where
  "hexGetHeaderModuleInfo p = (h_os p div 10 mod 10, h_os p mod 10, h_mcu p, h_tr p)"

section \<open>IQRF plugins\<close>

record iqrf_parser =
  q_contents :: "string list"
  q_mcu :: u8
  q_tr :: u8
  q_os :: "string list"

definition iqrf_record :: "ihp_lib \<Rightarrow> nat \<Rightarrow> string \<Rightarrow> iqrf_parser \<Rightarrow> iqrf_parser result" where
  "iqrf_record lib linenum rec p =
    (if linenum \<le> 5 \<and> \<not> startsWith rec ''#''
     then Inl (LogicError ''IQRF plugins should start with 5 header records.'')
     else if startsWith rec ''#'' then
       (if linenum = 1 then
          bind_r (parseMcuHeader lib rec) (\<lambda>(mcu, tr). Inr (p\<lparr>q_mcu := mcu, q_tr := tr\<rparr>))
        else if linenum = 2 then bind_r (parseOsHeader lib rec) (\<lambda>os. Inr (p\<lparr>q_os := os\<rparr>))
        else if linenum = 3 then Inr p
        else if linenum = 4 then
          (if validPluginHeaderOs lib rec
           then Inl (LogicError ''Regular ChangeOS plugin cannot be uploaded via OTA upload service.'')
           else Inr p)
        else if \<not> isSeparator lib rec
        then Inl (LogicError ''IQRF plugins should have only 4 programming headers and separator.'')
        else Inr p)
     else bind_r (validateData lib rec) (\<lambda>_. Inr (p\<lparr>q_contents := q_contents p @ [rec]\<rparr>)))"

fun iqrf_lines :: "ihp_lib \<Rightarrow> string \<Rightarrow> string list \<Rightarrow> nat \<Rightarrow> iqrf_parser \<Rightarrow> iqrf_parser result" where
  "iqrf_lines lib path [] linenum p = Inr p"
| "iqrf_lines lib path (line # rest) linenum p =
    (let rec = trim line in
     if rec = [] then iqrf_lines lib path rest linenum p
     else bind_r (catch_logic path (linenum + 1) (iqrf_record lib (linenum + 1) rec p)) (\<lambda>p'.
       iqrf_lines lib path rest (linenum + 1) p'))"

definition IqrfParser ::
    "ihp_lib \<Rightarrow> (u8 \<times> u8) \<Rightarrow> string \<Rightarrow> string list option \<Rightarrow> iqrf_parser result" where
  "IqrfParser lib uninit filename file =
    (case file of
       None \<Rightarrow> Inl (LogicError (''Unable to open file '' @ base_name filename))
     | Some lines \<Rightarrow>
         iqrf_lines lib (base_name filename) lines 0
           \<lparr>q_contents = [], q_mcu = fst uninit, q_tr = snd uninit, q_os = []\<rparr>)"

text \<open>The end address is \<open>data.size() - 1\<close> cut to 16 bits.\<close>

definition parse_iqrf :: "ihp_lib \<Rightarrow> iqrf_parser \<Rightarrow> code_block result" where
  "parse_iqrf lib p =
    bind_r (map_r (\<lambda>rec. map_r (\<lambda>k. hexStringToByte lib rec (2 * k)) [0..<(LINE_LENGTH lib + 1) div 2])
              (q_contents p))
      (\<lambda>rows. Inr (CodeBlock (concat rows) 0 (word_of_nat (length (concat rows)) - 1)))"

definition iqrfGetFlashData :: "ihp_lib \<Rightarrow> iqrf_parser \<Rightarrow> code_block result" where
  "iqrfGetFlashData lib p = parse_iqrf lib p"

definition iqrfGetHeaderModuleInfo :: "iqrf_parser \<Rightarrow> u8 \<times> u8" where
  "iqrfGetHeaderModuleInfo p = (q_mcu p, q_tr p)"

section \<open>Adding blocks\<close>

text \<open>The cells of memory a block describes, as a multiset of address and byte.\<close>

definition cells :: "code_block \<Rightarrow> (nat \<times> u8) multiset" where
  "cells b = mset (zip [unat (m_startAddr b)..<unat (m_startAddr b) + length (m_code b)] (m_code b))"

definition all_cells :: "code_block list \<Rightarrow> (nat \<times> u8) multiset" where
  "all_cells bs = sum_list (map cells bs)"

lemma all_cells_simps [simp]:
  "all_cells [] = {#}" "all_cells (b # bs) = cells b + all_cells bs"
  "all_cells (bs @ cs) = all_cells bs + all_cells cs"
  by (simp_all add: all_cells_def)

lemma zip_upt_append:
  "zip [s..<s + length (xs @ ys)] (xs @ ys)
     = zip [s..<s + length xs] xs @ zip [s + length xs..<s + length xs + length ys] ys"
proof -
  have "[s..<s + length (xs @ ys)] = [s..<s + length xs] @ [s + length xs..<s + length xs + length ys]"
    using upt_add_eq_append[of s "s + length xs" "length ys"] by (simp add: add.assoc)
  then show ?thesis by (simp only: zip_append length_upt add_diff_cancel_left')
qed

lemma merge_ordered:
  assumes "wf_block b1" "wf_block b2" "unat (m_endAddr b1) + 1 = unat (m_startAddr b2)"
  shows "wf_block (CodeBlock (m_code b1 @ m_code b2) (m_startAddr b1) (m_endAddr b2))"
    and "cells (CodeBlock (m_code b1 @ m_code b2) (m_startAddr b1) (m_endAddr b2)) = cells b1 + cells b2"
proof -
  have s: "unat (m_startAddr b2) = unat (m_startAddr b1) + length (m_code b1)"
    using assms by (simp add: wf_block_def)
  then show "wf_block (CodeBlock (m_code b1 @ m_code b2) (m_startAddr b1) (m_endAddr b2))"
    using assms(2) by (simp add: wf_block_def CodeBlock_def)
  show "cells (CodeBlock (m_code b1 @ m_code b2) (m_startAddr b1) (m_endAddr b2)) = cells b1 + cells b2"
    unfolding cells_def CodeBlock_def s by (simp only: code_block.simps zip_upt_append mset_append)
qed

lemma mergeBlocks_wf_cells:
  assumes "wf_block b1" "wf_block b2" "adjacentBlocks b2 b1"
  shows "wf_block (mergeBlocks b1 b2) \<and> cells (mergeBlocks b1 b2) = cells b1 + cells b2"
proof (cases "unat (m_endAddr b1) + 1 = unat (m_startAddr b2)")
  case True
  then have "mergeBlocks b1 b2 = CodeBlock (m_code b1 @ m_code b2) (m_startAddr b1) (m_endAddr b2)"
    by (simp add: mergeBlocks_def)
  then show ?thesis using merge_ordered[OF assms(1,2) True] by simp
next
  case False
  then have "unat (m_endAddr b2) + 1 = unat (m_startAddr b1)" using assms(3)
    by (auto simp: adjacentBlocks_def)
  from merge_ordered[OF assms(2,1) this] False show ?thesis
    by (simp only: mergeBlocks_def if_False add.commute)
qed

lemma addCodeBlock_loop_inv:
  assumes "wf_block b" "list_all wf_block seen" "list_all wf_block bs"
  shows "list_all wf_block (addCodeBlock_loop b seen bs)
    \<and> all_cells (addCodeBlock_loop b seen bs) = cells b + all_cells seen + all_cells bs"
  using assms
proof (induction b seen bs rule: addCodeBlock_loop.induct)
  case (2 b seen itr rest)
  show ?case
  proof (cases "adjacentBlocks itr b")
    case True
    then show ?thesis using mergeBlocks_wf_cells[OF 2(2) _ True] 2
      by (simp add: ac_simps)
  next
    case False
    then show ?thesis using 2 by (simp add: ac_simps)
  qed
qed (simp_all add: ac_simps)

lemma addCodeBlock_inv:
  assumes "wf_block b" "list_all wf_block bs"
  shows "list_all wf_block (addCodeBlock b bs)" "all_cells (addCodeBlock b bs) = cells b + all_cells bs"
  using addCodeBlock_loop_inv[OF assms(1), of "[]" bs] assms(2) by (simp_all add: addCodeBlock_def)

section \<open>Parsing\<close>

text \<open>The blocks of the single records, before they are merged.\<close>

fun record_blocks ::
    "ihp_lib \<Rightarrow> u8 \<Rightarrow> MemoryType \<Rightarrow> string list \<Rightarrow> u32 \<Rightarrow> code_block list result option" where
  "record_blocks lib mcu type [] offset = Some (Inr [])"
| "record_blocks lib mcu type (rec # rest) offset =
    (case decode_record lib mcu type offset rec of
       None \<Rightarrow> None
     | Some (Inl e) \<Rightarrow> Some (Inl e)
     | Some (Inr (offset', block)) \<Rightarrow>
         map_option (\<lambda>r. bind_r r (\<lambda>bs. Inr (case block of None \<Rightarrow> bs | Some b \<Rightarrow> b # bs)))
           (record_blocks lib mcu type rest offset'))"

lemma hex_parse_loop_fold:
  "hex_parse_loop lib mcu type recs offset blocks
     = map_option (\<lambda>r. bind_r r (\<lambda>bs. Inr (fold addCodeBlock bs blocks)))
         (record_blocks lib mcu type recs offset)"
proof (induction recs arbitrary: offset blocks)
  case (Cons rec recs)
  show ?case
    by (auto simp: Cons.IH option.map_comp comp_def bind_r_assoc split: option.split sum.split)
qed simp

lemma fold_addCodeBlock_inv:
  assumes "list_all wf_block ds" "list_all wf_block bs"
  shows "list_all wf_block (fold addCodeBlock ds bs)
    \<and> all_cells (fold addCodeBlock ds bs) = all_cells ds + all_cells bs"
  using assms
proof (induction ds arbitrary: bs)
  case (Cons d ds)
  then show ?case using addCodeBlock_inv[of d bs] by (auto simp: ac_simps)
qed simp

text \<open>Each block starts where the one before it ends.\<close>

fun contiguous :: "nat \<Rightarrow> code_block list \<Rightarrow> bool" where
  "contiguous a [] \<longleftrightarrow> True"
| "contiguous a (b # bs) \<longleftrightarrow> unat (m_startAddr b) = a \<and> contiguous (a + length (m_code b)) bs"

lemma addCodeBlock_next:
  assumes "wf_block b" "wf_block d" "m_code b \<noteq> [] \<or> m_code d \<noteq> []"
    and "unat (m_startAddr d) = unat (m_startAddr b) + length (m_code b)"
  shows "\<exists>e. addCodeBlock d [b] = [CodeBlock (m_code b @ m_code d) (m_startAddr b) e]
    \<and> wf_block (CodeBlock (m_code b @ m_code d) (m_startAddr b) e)"
proof -
  have adj: "unat (m_endAddr b) + 1 = unat (m_startAddr d)" using assms by (simp add: wf_block_def)
  have "unat (m_endAddr d) + 1 \<noteq> unat (m_startAddr b)"
    using assms by (auto simp: wf_block_def)
  then have "mergeBlocks d b = CodeBlock (m_code b @ m_code d) (m_startAddr b) (m_endAddr d)"
    by (simp add: mergeBlocks_def)
  then show ?thesis using adj merge_ordered(1)[OF assms(1,2) adj]
    by (intro exI[of _ "m_endAddr d"]) (simp add: addCodeBlock_def adjacentBlocks_def)
qed

lemma fold_contiguous:
  assumes "wf_block b" "m_code b \<noteq> []" "list_all wf_block ds"
    and "contiguous (unat (m_startAddr b) + length (m_code b)) ds"
  shows "\<exists>e. fold addCodeBlock ds [b] = [CodeBlock (m_code b @ concat (map m_code ds)) (m_startAddr b) e]
    \<and> wf_block (CodeBlock (m_code b @ concat (map m_code ds)) (m_startAddr b) e)"
  using assms
proof (induction ds arbitrary: b)
  case Nil
  then show ?case by (intro exI[of _ "m_endAddr b"]) (simp add: CodeBlock_def wf_block_def)
next
  case (Cons d ds)
  from Cons.prems obtain e where e: "addCodeBlock d [b] = [CodeBlock (m_code b @ m_code d) (m_startAddr b) e]"
    "wf_block (CodeBlock (m_code b @ m_code d) (m_startAddr b) e)"
    using addCodeBlock_next[of b d] by auto
  show ?case using Cons.IH[OF e(2)] Cons.prems e(1) by (simp add: CodeBlock_def add.assoc)
qed

subsection \<open>Blocks of records\<close>

lemma unat_drop_1: "unat (drop_bit 1 (x :: u32)) = unat x div 2"
proof -
  have "unat (drop_bit 1 x) = drop_bit 1 (unat x)" by (rule unat_drop_bit_eq)
  then show ?thesis by (simp only: drop_bit_eq_div) simp
qed

lemma unat_ucast_u32_u16: "unat (x :: u32) < 65536 \<Longrightarrow> unat (ucast x :: u16) = unat x"
  by (simp add: unsigned_ucast_eq take_bit_nat_eq_self)

text \<open>A flash block is well formed unless the address of its record runs over 32 bits.\<close>

lemma data_block_flash_wf:
  assumes "data_block lib mcu flash a data = Some (Some b)" "0 < unat a"
    and "unat a + length data < 2 ^ 32"
  shows "wf_block b \<and> m_code b = data \<and> unat (m_startAddr b) = unat a"
proof -
  let ?e = "a + word_of_nat (length data) - 1"
  have e: "unat ?e + 1 = unat a + length data"
  proof -
    have "unat (a + word_of_nat (length data)) = unat a + length data"
      using assms(3) by (simp add: unat_word_ariths unat_of_nat take_bit_nat_eq_self)
    moreover from this have "a + word_of_nat (length data) \<noteq> 0" using assms(2) by (metis add_is_0 less_numeral_extra(3) unat_0)
    ultimately show ?thesis using assms(2) by (simp add: unat_minus_one)
  qed
  have "drop_bit 1 ?e \<le> IQRF_MAIN_MEM_MAX_ADR_G"
    using assms(1) by (auto simp: data_block_def Let_def IQRF_MAIN_MEM_MAX_ADR_G_def
        IQRF_MAIN_MEM_MAX_ADR_D_def split: if_splits elim: order_trans)
  then have "unat (drop_bit 1 ?e) \<le> 0x4FFF"
    by (simp add: word_le_nat_alt IQRF_MAIN_MEM_MAX_ADR_G_def)
  then have "unat ?e div 2 \<le> 0x4FFF" by (simp only: unat_drop_1)
  then have "unat ?e \<le> 0x9FFF" by linarith
  then have "unat a < 65536" "unat ?e < 65536" using e by linarith+
  moreover have "b = CodeBlock data (ucast a) (ucast ?e)"
    using assms(1) by (simp add: data_block_def Let_def split: if_splits)
  ultimately show ?thesis using e by (simp only: CodeBlock_def wf_block_def code_block.simps
        unat_ucast_u32_u16)
qed

lemma ee_loop_even:
  assumes "length data < 255" "2 * k \<le> length data + 1"
  shows "ee_loop data (word_of_nat (2 * k)) ee
    = Some (ee @ map (\<lambda>j. data ! (2 * j)) [k..<(length data + 1) div 2])"
  using assms(2)
proof (induction "(length data + 1) div 2 - k" arbitrary: k ee)
  case 0
  then have "\<not> 2 * k < length data" and k: "(length data + 1) div 2 = k" by linarith+
  moreover have "unat (word_of_nat (2 * k) :: u8) = 2 * k"
    using 0 assms(1) by (intro unat_of_nat_u8) linarith
  ultimately show ?case by (subst ee_loop.simps) simp
next
  case (Suc m)
  then have lt: "2 * k < length data" by linarith
  have u: "unat (word_of_nat (2 * k) :: u8) = 2 * k"
    using lt assms(1) by (intro unat_of_nat_u8) linarith
  have s: "word_of_nat (2 * k) + 2 = (word_of_nat (2 * Suc k) :: u8)" by simp
  have upt: "[k..<(length data + 1) div 2] = k # [Suc k..<(length data + 1) div 2]"
    using Suc.hyps(2) by (intro upt_conv_Cons) linarith
  have "ee_loop data (word_of_nat (2 * k)) ee
      = ee_loop data (word_of_nat (2 * Suc k)) (ee @ [data ! (2 * k)])"
    by (subst ee_loop.simps) (simp only: u lt if_True s)
  also have "\<dots> = Some ((ee @ [data ! (2 * k)]) @ map (\<lambda>j. data ! (2 * j)) [Suc k..<(length data + 1) div 2])"
    by (rule Suc.hyps(1)) (use Suc.hyps(2) lt in auto)
  finally show ?case by (simp only: upt) simp
qed

lemma ee_loop_Some_length: "ee_loop data i ee = Some r \<Longrightarrow> even (unat i) \<longrightarrow> length data < 255"
proof (erule ee_loop.raw_induct[where P = "\<lambda>data i _ _. even (unat i) \<longrightarrow> length data < 255", rotated])
  fix loop and data :: bytes and i :: u8 and ee r
  assume IH: "\<And>data i ee r. loop data i ee = Some r \<Longrightarrow> even (unat i) \<longrightarrow> length data < 255"
    and body: "(if unat i < length data then loop data (i + 2) (ee @ [data ! unat i]) else Some ee) = Some (r :: bytes)"
  show "even (unat i) \<longrightarrow> length data < 255"
  proof
    assume even: "even (unat i)"
    then have i: "unat i \<le> 254" using unat_lt_256[of i] by presburger
    have "even (unat (i + 2))"
    proof -
      have "unat (i + 2) = (unat i + 2) mod 256" by (simp add: unat_word_ariths)
      then show ?thesis using even by (simp add: dvd_mod_iff)
    qed
    then show "length data < 255" using IH body i by (auto split: if_splits)
  qed
qed

text \<open>A concrete instance of the library parameters, for evaluation on sample files.\<close>

definition sample_ihp :: ihp_lib where
  "sample_ihp = \<lparr>
     validateRecord = (\<lambda>rec. if startsWith rec '':'' then Inr () else Inl (LogicError ''record'')),
     compatibilityRecord = (\<lambda>rec. False),
     parseCompatibilityHeader = (\<lambda>rec. Inl (LogicError ''header'')),
     hexStringToByte = (\<lambda>s i.
       if i + 1 < length s then
         (case (hex_val (s ! i), hex_val (s ! (i + 1))) of
            (Some a, Some b) \<Rightarrow> Inr (word_of_nat (16 * a + b))
          | _ \<Rightarrow> Inl (InvalidArgument ''stoi''))
       else Inl (OutOfRange ''substr'')),
     END_OF_FILE = '':00000001FF'',
     IDENTIFICATION_HEADER_ADDRESS = 0x7400,
     PIC16LF18877 = 5,
     parseMcuHeader = (\<lambda>rec. Inr (4, 2)),
     parseOsHeader = (\<lambda>rec. Inr [rec]),
     validPluginHeaderOs = (\<lambda>rec. False),
     isSeparator = (\<lambda>rec. rec = ''#----''),
     validateData = (\<lambda>rec. Inr ()),
     LINE_LENGTH = 4\<rparr>"

section \<open>Properties\<close>

text \<open>
  C34: Merging loses and invents nothing: when the records of a HEX file decode to well formed blocks
  \<open>ds\<close>, \<open>parse\<close> returns blocks that are well formed again and describe exactly the same cells
  of memory (address and byte, counted with multiplicity).\<close>

theorem parse_hex_cells:
  assumes "record_blocks lib (h_mcu p) type (h_contents p) 0 = Some (Inr ds)" "list_all wf_block ds"
  shows "\<exists>bs. parse_hex lib p type = Some (Inr bs) \<and> list_all wf_block bs \<and> all_cells bs = all_cells ds"
  using fold_addCodeBlock_inv[OF assms(2), of "[]"] assms(1)
  by (simp add: parse_hex_def hex_parse_loop_fold)

theorem parse_hex_cells_witness:
  "\<exists>bs. parse_hex sample_ihp \<lparr>h_contents = ['':02744200AABB00'', '':02744000010200'', '':00000001FF''],
      h_codeBlocks = [], h_identificationRecord = False, h_mcu = 4, h_tr = 2, h_os = 46\<rparr> flash = Some (Inr bs)
    \<and> list_all wf_block bs
    \<and> all_cells bs = {# (0x7442, 0xAA), (0x7443, 0xBB), (0x7440, 1), (0x7441, 2) #}"
proof -
  let ?p = "\<lparr>h_contents = ['':02744200AABB00'', '':02744000010200'', '':00000001FF''],
      h_codeBlocks = [], h_identificationRecord = False, h_mcu = 4, h_tr = 2, h_os = 46\<rparr>"
  let ?ds = "[CodeBlock [0xAA, 0xBB] 0x7442 0x7443, CodeBlock [1, 2] 0x7440 0x7441]"
  have "record_blocks sample_ihp (h_mcu ?p) flash (h_contents ?p) 0 = Some (Inr ?ds)" by code_simp
  moreover have "list_all wf_block ?ds" by (simp add: wf_block_def CodeBlock_def)
  moreover have "all_cells ?ds = {# (0x7442, 0xAA), (0x7443, 0xBB), (0x7440, 1), (0x7441, 2) #}"
    by (simp add: all_cells_def cells_def CodeBlock_def upt_rec)
  ultimately show ?thesis using parse_hex_cells[of sample_ihp ?p flash ?ds] by simp
qed

text \<open>
  The EEPROM data of a record are its bytes at even positions: the loop ends and yields them for
  records of up to 254 bytes, but for a record of 255 bytes the 8 bit index wraps around and the
  loop never ends.\<close>

theorem ee_loop_result:
  assumes "length data \<le> 255"
  shows "ee_loop data 0 [] =
    (if length data = 255 then None
     else Some (map (\<lambda>j. data ! (2 * j)) [0..<(length data + 1) div 2]))"
proof (cases "length data = 255")
  case True
  then have "ee_loop data 0 [] \<noteq> Some r" for r using ee_loop_Some_length[of data 0 "[]" r] by auto
  then show ?thesis using True by (cases "ee_loop data 0 []") auto
next
  case False
  then show ?thesis using ee_loop_even[of data 0 "[]"] assms by simp
qed

theorem ee_loop_result_witness:
  "ee_loop [1, 2, 3, 4, 5] 0 [] = Some [1, 3, 5] \<and> ee_loop (replicate 255 7) 0 [] = None"
  using ee_loop_result[of "[1, 2, 3, 4, 5]"] ee_loop_result[of "replicate 255 7"]
  by (simp add: upt_rec)

lemma fromIqrf_data:
  assumes "b = CodeBlock code 0 (word_of_nat (length code) - 1)" "code \<noteq> []" "length code < 0xFF80"
  shows "\<exists>d. fromIqrf b False = Some (Inr d)
    \<and> concat (m_data d) = mem_image code (128 * ((length code + 127) div 128))
    \<and> unat (m_length d) = length code \<and> m_checksum d = fold (\<lambda>x s. checksum_step s x) code 3"
proof -
  have n0: "0 < length code" using assms(2) by simp
  have n: "length code < 65536" using assms(3) by simp
  have u: "unat (word_of_nat (length code) :: u16) = length code" using n by (rule unat_of_nat_u16)
  then have "(word_of_nat (length code) :: u16) \<noteq> 0" using n0 by (metis neq0_conv unat_0)
  then have e: "unat (word_of_nat (length code) - 1 :: u16) = length code - 1"
    using u by (simp add: unat_minus_one)
  have wf: "wf_block b" using n0 e by (simp add: wf_block_def assms(1) CodeBlock_def)
  have len: "unat (getLength b) = length code" using u by (simp add: getLength_def assms(1) CodeBlock_def)
  have top: "unat (m_endAddr b) < 0xFF80" using assms(3) e by (simp add: assms(1) CodeBlock_def)
  have "map (sum_byte code) [0..<length code] = code"
    by (rule nth_equalityI) (simp_all add: sum_byte_def)
  then have "checksum b (getLength b) 3 = Inr (fold (\<lambda>x s. checksum_step s x) code 3)"
    using checksum_fold[OF wf, of "getLength b" 3] n len by (simp add: assms(1) CodeBlock_def)
  then show ?thesis using prepareAsMostEffective_image[OF wf top] assms(2) len
    by (auto simp: fromIqrf_def Let_def PreparedData_def assms(1) CodeBlock_def)
qed

text \<open>
  Uploading an IQRF plugin to one node: for a plugin with data, \<open>fromIqrf\<close> of the parsed block
  returns the data padded to a multiple of 128 bytes, their length and the checksum of exactly
  these bytes. For a plugin that has headers but no data the end address is 0xFFFF and
  \<open>fromIqrf\<close> never returns.\<close>

theorem iqrf_upload:
  assumes "parse_iqrf lib p = Inr b" "length (m_code b) < 0xFF80"
  shows "if m_code b = [] then fromIqrf b False = None
    else \<exists>d. fromIqrf b False = Some (Inr d)
      \<and> concat (m_data d) = mem_image (m_code b) (128 * ((length (m_code b) + 127) div 128))
      \<and> unat (m_length d) = length (m_code b)
      \<and> m_checksum d = fold (\<lambda>x s. checksum_step s x) (m_code b) 3"
proof -
  obtain code where b: "b = CodeBlock code 0 (word_of_nat (length code) - 1)"
    using assms(1) by (auto simp: parse_iqrf_def exc_simps)
  show ?thesis
  proof (cases "code = []")
    case True
    then have "m_endAddr b = 0xFFFF" by (simp add: b CodeBlock_def)
    then have "prepareAsMostEffective b = None"
      by (simp only: prepareAsMostEffective_def mostEffective_loop_diverges)
    moreover have "checksum b (getLength b) 3 = Inr 3"
      using True by (simp add: b CodeBlock_def getLength_def checksum_def checksum_loop.simps)
    moreover have "m_code b = []" using True by (simp add: b CodeBlock_def)
    ultimately show ?thesis by (simp add: fromIqrf_def Let_def)
  next
    case False
    then show ?thesis using fromIqrf_data[OF b] assms(2) by (simp add: b CodeBlock_def)
  qed
qed

theorem iqrf_upload_witness:
  "parse_iqrf sample_ihp \<lparr>q_contents = [''0102'', ''FF34''], q_mcu = 4, q_tr = 2, q_os = []\<rparr>
     = Inr (CodeBlock [1, 2, 0xFF, 0x34] 0 3)
   \<and> (\<exists>d. fromIqrf (CodeBlock [1, 2, 0xFF, 0x34] 0 3) False = Some (Inr d)
      \<and> concat (m_data d) = mem_image [1, 2, 0xFF, 0x34] 128
      \<and> unat (m_length d) = 4)
   \<and> fromIqrf (CodeBlock [] 0 0xFFFF) False = None"
proof -
  let ?p = "\<lparr>q_contents = [''0102'', ''FF34''], q_mcu = 4, q_tr = 2, q_os = []\<rparr>"
  let ?e = "\<lparr>q_contents = [], q_mcu = 4, q_tr = 2, q_os = []\<rparr>"
  have p: "parse_iqrf sample_ihp ?p = Inr (CodeBlock [1, 2, 0xFF, 0x34] 0 3)" by code_simp
  have e: "parse_iqrf sample_ihp ?e = Inr (CodeBlock [] 0 0xFFFF)" by code_simp
  show ?thesis using iqrf_upload[OF p] iqrf_upload[OF e] p by (auto simp: CodeBlock_def)
qed

end
