(* ===== verification/Api_Token.thy ===== *)
theory Api_Token
  imports String_Utils
begin

text \<open>
  API tokens: their textual form (\<open>include/ApiTokenUtils.h\<close>, \<open>ApiTokenCtl/cli_utils.cpp\<close>), their
  lifetime (\<open>include/DateTimeUtils.h\<close>), the entity and its table (\<open>DbEntities/models/api_token.hpp\<close>,
  \<open>DbEntities/repositories/api_token_repo.hpp\<close>), the operations of the token tool
  (\<open>ApiTokenCtl/commands.cpp\<close>) and of the authentication service (\<open>AuthService/AuthService.cpp\<close>).
  Time points are integers in nanoseconds. Parameters: the OpenSSL functions behind \<open>CryptoUtils\<close>
  (record \<open>crypto\<close>), the ISO 8601 parser, the row id SQLite assigns, the exceptions SQLite throws,
  and \<open>ts\<close>, what is left of a time point after it was stored as text and read again.
\<close>

section \<open>Textual form of a token\<close>

definition isBase64Character :: "char \<Rightarrow> bool" where
  "isBase64Character c \<longleftrightarrow> isalnum c \<or> c = CHR ''+'' \<or> c = CHR ''/'' \<or> c = CHR ''=''"

definition ENCODED_SECRET_LEN :: nat where
  "ENCODED_SECRET_LEN = 44"

lemma str_find_shorter: "str_find t [c] s = Some e \<Longrightarrow> length t - Suc e < length t - s"
  using str_find_Some(1,2)[of t "[c]" s e] by auto

text \<open>The loop of \<open>parseToken\<close> that cuts the token at the semicolons.\<close>

function token_parts :: "string \<Rightarrow> nat \<Rightarrow> string list \<Rightarrow> string list" where
  "token_parts token start parts =
    (case str_find token '';'' start of
       Some e \<Rightarrow> token_parts token (e + 1) (parts @ [take (e - start) (drop start token)])
     | None \<Rightarrow> parts @ [drop start token])"
  by pat_completeness auto
termination
  by (relation "measure (\<lambda>(token, start, _). length token - start)")
     (auto dest: str_find_shorter)

declare token_parts.simps [simp del]

text \<open>\<open>std::stoul\<close> and \<open>std::stoi\<close> on a string of decimal digits (64 bit \<open>long\<close>, 32 bit \<open>int\<close>).\<close>

definition stoul_digits :: "string \<Rightarrow> nat result" where
  "stoul_digits s =
    (if s = [] then Inl (InvalidArgument ''stoul'')
     else if dec_value s < 2 ^ 64 then Inr (dec_value s) else Inl (OutOfRange ''stoul''))"

definition stoi_digits :: "string \<Rightarrow> nat result" where
  "stoi_digits s =
    (if s = [] then Inl (InvalidArgument ''stoi'')
     else if dec_value s < 2 ^ 31 then Inr (dec_value s) else Inl (OutOfRange ''stoi''))"

definition parseToken :: "string \<Rightarrow> (u32 \<times> string) result" where
  "parseToken token =
    (let parts = token_parts token 0 [] in
     if length parts \<noteq> 3 then Inl (InvalidArgument ''Invalid API token format.'')
     else if parts ! 0 \<noteq> ''iqrfgd2'' then Inl (InvalidArgument ''Unsupported API token type.'')
     else if \<not> list_all isdigit (parts ! 1)
     then Inl (InvalidArgument ''API token ID part contains non-numeric characters.'')
     else bind_r (stoul_digits (parts ! 1)) (\<lambda>n.
       if length (parts ! 2) \<noteq> ENCODED_SECRET_LEN
       then Inl (InvalidArgument ''Invalid API token secret length.'')
       else if \<not> list_all isBase64Character (parts ! 2)
       then Inl (InvalidArgument ''API token secret contains invalid characters.'')
       else Inr (word_of_nat n, parts ! 2)))"

definition construct_shareable_token :: "u32 \<Rightarrow> string \<Rightarrow> string" where
  "construct_shareable_token tid key = ''iqrfgd2;'' @ show_dec (unat tid) @ '';'' @ key"

section \<open>Expiration\<close>

definition is_time_unit :: "char \<Rightarrow> bool" where
  "is_time_unit c \<longleftrightarrow> c = CHR ''d'' \<or> c = CHR ''w'' \<or> c = CHR ''m'' \<or> c = CHR ''y''"

definition unit_hours :: "char \<Rightarrow> int" where
  "unit_hours u =
    (if u = CHR ''d'' then 24 else if u = CHR ''w'' then 24 * 7
     else if u = CHR ''m'' then 24 * 30 else if u = CHR ''y'' then 24 * 365 else 1)"

text \<open>\<open>created_at + offset\<close> in the 64 bit nanoseconds of \<open>system_clock\<close>; overflow is undefined.\<close>

definition add_hours :: "int \<Rightarrow> int \<Rightarrow> int result" where
  "add_hours t h =
    (let r = t + h * 3600 * 10 ^ 9 in if r < 2 ^ 63 then Inr r else Inl (UB ''time point overflow''))"

definition parse_expiration :: "(string \<Rightarrow> int result) \<Rightarrow> string \<Rightarrow> int \<Rightarrow> int result" where
  "parse_expiration parseISO8601 input created_at =
    (if input = [] then Inl (InvalidArgument ''Invalid expiration time argument.'')
     else
       (case parseISO8601 input of
          Inr candidate \<Rightarrow>
            if candidate \<le> created_at then Inl (InvalidArgument ''Expiration timestamp is in the past.'')
            else Inr candidate
        | Inl (InvalidArgument _) \<Rightarrow>
            (let unit = last input; num_part = butlast input in
             if num_part \<noteq> [] \<and> list_all isdigit num_part \<and> is_time_unit unit then
               bind_r (stoi_digits num_part) (\<lambda>numerical.
                 if numerical < 1 then Inl (InvalidArgument ''Unit count should be a positive integer.'')
                 else add_hours created_at (unit_hours unit * int numerical))
             else Inl (InvalidArgument ''Invalid expiration time argument.''))
        | Inl e \<Rightarrow> Inl e))"

section \<open>Token entity and table\<close>

datatype Status = Valid | Expired | Revoked

definition fromValue :: "int \<Rightarrow> Status result" where
  "fromValue v =
    (if v = 0 then Inr Valid else if v = 1 then Inr Expired else if v = 2 then Inr Revoked
     else Inl (InvalidArgument ''Unknown status value.''))"

fun status_toString :: "Status \<Rightarrow> string" where
  "status_toString Valid = ''valid''"
| "status_toString Expired = ''expired''"
| "status_toString Revoked = ''revoked''"

record api_token =
  t_id :: u32
  t_owner :: string
  t_hash :: string
  t_createdAt :: int
  t_expiresAt :: int
  t_status :: Status
  t_service :: bool
  t_invalidatedAt :: "int option"

definition getDisplayStatus :: "api_token \<Rightarrow> int \<Rightarrow> Status" where
  "getDisplayStatus t now = (if t_status t = Valid \<and> now \<ge> t_expiresAt t then Expired else t_status t)"

definition expire :: "int \<Rightarrow> api_token \<Rightarrow> api_token" where
  "expire timestamp t = t\<lparr>t_status := Expired, t_invalidatedAt := Some timestamp\<rparr>"

definition revoke :: "int \<Rightarrow> api_token \<Rightarrow> api_token" where
  "revoke timestamp t = t\<lparr>t_status := Revoked, t_invalidatedAt := Some timestamp\<rparr>"

type_synonym token_db = "u32 \<rightharpoonup> api_token"

definition repo_update :: "(int \<Rightarrow> int) \<Rightarrow> api_token \<Rightarrow> token_db \<Rightarrow> token_db" where
  "repo_update ts t db =
    (case db (t_id t) of
       None \<Rightarrow> db
     | Some row \<Rightarrow>
         db(t_id t \<mapsto> row\<lparr>t_status := t_status t, t_invalidatedAt := map_option ts (t_invalidatedAt t)\<rparr>))"

definition repo_revoke :: "(int \<Rightarrow> int) \<Rightarrow> u32 \<Rightarrow> int \<Rightarrow> token_db \<Rightarrow> token_db \<times> bool" where
  "repo_revoke ts tid now db =
    (case db tid of
       None \<Rightarrow> (db, False)
     | Some row \<Rightarrow> (db(tid \<mapsto> row\<lparr>t_status := Revoked, t_invalidatedAt := Some (ts now)\<rparr>), True))"

definition repo_insert :: "(int \<Rightarrow> int) \<Rightarrow> u32 \<Rightarrow> api_token \<Rightarrow> token_db \<Rightarrow> token_db" where
  "repo_insert ts newId t db =
    db(newId \<mapsto> t\<lparr>t_id := newId, t_createdAt := ts (t_createdAt t), t_expiresAt := ts (t_expiresAt t),
                  t_invalidatedAt := None\<rparr>)"

definition repo_list :: "token_db \<Rightarrow> u32 list \<Rightarrow> api_token list" where
  "repo_list db ids = List.map_filter db ids"

section \<open>Token tool\<close>

record crypto =
  sha256Hash :: "bytes \<Rightarrow> bytes result"
  base64Encode :: "bytes \<Rightarrow> string result"
  base64Decode :: "string \<Rightarrow> bytes result"

datatype token_error = NotFound | TokenExpired | TokenRevoked | TokenExc exc

definition new_token :: "crypto \<Rightarrow> bytes \<Rightarrow> string \<Rightarrow> int \<Rightarrow> int \<Rightarrow> bool \<Rightarrow> (api_token \<times> string) result" where
  "new_token cr key owner created_at expires_at service =
    bind_r (sha256Hash cr key) (\<lambda>hash.
    bind_r (base64Encode cr key) (\<lambda>encoded_key.
    bind_r (base64Encode cr hash) (\<lambda>encoded_hash.
      Inr (\<lparr>t_id = 0, t_owner = owner, t_hash = encoded_hash, t_createdAt = created_at,
            t_expiresAt = expires_at, t_status = Valid, t_service = service, t_invalidatedAt = None\<rparr>,
           encoded_key))))"

text \<open>The result is the new table and the token string shown to the user.\<close>

definition create_token ::
    "crypto \<Rightarrow> (string \<Rightarrow> int result) \<Rightarrow> (int \<Rightarrow> int) \<Rightarrow> bytes \<Rightarrow> u32 \<Rightarrow> int \<Rightarrow> string \<Rightarrow> string \<Rightarrow> bool \<Rightarrow>
     token_db \<Rightarrow> (token_db \<times> string) result" where
  "create_token cr parseISO8601 ts key newId now owner expiration service db =
    (if length owner > 64 then Inl (InvalidArgument ''owner value too long'')
     else
       bind_r (parse_expiration parseISO8601 expiration now) (\<lambda>expires_at.
       bind_r (new_token cr key owner now expires_at service) (\<lambda>(t, encoded_key).
         Inr (repo_insert ts newId t db, construct_shareable_token newId encoded_key))))"

text \<open>The checks common to \<open>revoke_token\<close> and \<open>rotate_token\<close>.\<close>

definition usable_token :: "token_db \<Rightarrow> u32 \<Rightarrow> int \<Rightarrow> token_error + api_token" where
  "usable_token db tid now =
    (case db tid of
       None \<Rightarrow> Inl NotFound
     | Some t \<Rightarrow>
         if t_status t = Expired then Inl TokenExpired
         else if t_status t = Revoked then Inl TokenRevoked
         else if now \<ge> t_expiresAt t then Inl TokenExpired
         else Inr t)"

definition revoke_token :: "(int \<Rightarrow> int) \<Rightarrow> u32 \<Rightarrow> int \<Rightarrow> token_db \<Rightarrow> token_error + token_db" where
  "revoke_token ts tid now db =
    (case usable_token db tid now of
       Inl e \<Rightarrow> Inl e
     | Inr t \<Rightarrow>
         (let (db', success) = repo_revoke ts tid now db in
          if success then Inr db' else Inl (TokenExc (RuntimeError ''Failed to revoke API token ID''))))"

text \<open>An exception inside the transaction rolls it back and is rethrown as \<open>runtime_error\<close>.\<close>

definition rotate_token ::
    "crypto \<Rightarrow> (int \<Rightarrow> int) \<Rightarrow> bytes \<Rightarrow> u32 \<Rightarrow> u32 \<Rightarrow> int \<Rightarrow> token_db \<Rightarrow> token_error + (token_db \<times> string)" where
  "rotate_token cr ts key newId tid now db =
    (case usable_token db tid now of
       Inl e \<Rightarrow> Inl e
     | Inr t \<Rightarrow>
         (let ttl = t_expiresAt t - t_createdAt t;
              db1 = fst (repo_revoke ts tid now db) in
          case new_token cr key (t_owner t) now (now + ttl) (t_service t) of
            Inl e \<Rightarrow> Inl (TokenExc (RuntimeError ''transaction rolled back''))
          | Inr (nt, encoded_key) \<Rightarrow>
              Inr (repo_insert ts newId nt db1, construct_shareable_token newId encoded_key)))"

section \<open>Authentication service\<close>

text \<open>
  \<open>authenticate\<close>: \<open>get_throws\<close> and \<open>update_throws\<close> tell whether the SQLite calls throw (then the
  transaction is rolled back). \<open>out\<close> are the values of the reference arguments \<open>expiration\<close> and
  \<open>service\<close>. The functions of \<open>CryptoUtils\<close> are called outside the \<open>try\<close> block.
\<close>

definition authenticate_token ::
    "crypto \<Rightarrow> (int \<Rightarrow> int) \<Rightarrow> bool \<Rightarrow> bool \<Rightarrow> int \<Rightarrow> u32 \<Rightarrow> string \<Rightarrow> int \<times> bool \<Rightarrow> token_db \<Rightarrow>
     token_db \<times> (Status option \<times> int \<times> bool) result" where
  "authenticate_token cr ts get_throws update_throws now tid secret out db =
    (if get_throws then (db, Inr (None, out))
     else case db tid of
       None \<Rightarrow> (db, Inr (None, out))
     | Some token \<Rightarrow>
         if t_status token = Expired \<or> t_status token = Revoked then
           (db, Inr (Some (t_status token), out))
         else if now \<ge> t_expiresAt token then
           (if update_throws then (db, Inr (None, out))
            else (repo_update ts (expire now token) db, Inr (Some Expired, out)))
         else
           (db,
            bind_r (base64Decode cr (t_hash token)) (\<lambda>hash.
            bind_r (base64Decode cr secret) (\<lambda>key.
            bind_r (sha256Hash cr key) (\<lambda>candidate.
              if hash \<noteq> candidate then Inr (None, out)
              else Inr (Some Valid, t_expiresAt token, t_service token))))))"

definition isRevoked :: "token_db \<Rightarrow> u32 \<Rightarrow> bool option" where
  "isRevoked db tid = map_option (\<lambda>t. t_status t = Revoked) (db tid)"

section \<open>Cutting at semicolons\<close>

lemma split_loop_token_parts: "split_loop token '';'' start parts = Some (token_parts token start parts)"
proof (induction token start parts rule: token_parts.induct)
  case (1 token start parts)
  then show ?case
    by (subst split_loop.simps, subst token_parts.simps) (simp split: option.split)
qed

lemma token_parts_join: "join '';'' (token_parts token 0 []) = token"
  using split_loop_correct[of "'';''" 0 token "[]"] by (auto simp: split_loop_token_parts)

lemma token_parts_none: "p \<in> set (token_parts token 0 []) \<Longrightarrow> \<not> occurs '';'' p"
  using split_loop_correct[of "'';''" 0 token "[]"] by (auto simp: split_loop_token_parts)

lemma find_at_char:
  assumes "c \<notin> set x"
  shows "find_at i [c] (x @ c # y) = Some (i + length x)" "find_at i [c] x = None"
proof -
  show "find_at i [c] (x @ c # y) = Some (i + length x)"
    using assms by (induction x arbitrary: i) (auto simp: find_at.simps)
  show "find_at i [c] x = None"
    using assms by (induction x arbitrary: i) (auto simp: find_at.simps)
qed

lemma not_occurs_char: "\<not> occurs [c] x \<longleftrightarrow> c \<notin> set x"
proof
  assume n: "\<not> occurs [c] x"
  show "c \<notin> set x"
  proof
    assume "c \<in> set x"
    then obtain u v where "x = u @ c # v" "c \<notin> set u" by (meson split_list_first)
    then show False using n find_at_char(1)[of c u 0 v] by (simp add: occurs_def str_find_def)
  qed
qed (simp add: occurs_def str_find_def find_at_char)

lemma token_parts_cons:
  assumes "CHR '';'' \<notin> set x"
  shows "token_parts (pre @ x @ '';'' @ y) (length pre) parts
    = token_parts (pre @ x @ '';'' @ y) (length pre + length x + 1) (parts @ [x])"
proof -
  have "str_find (pre @ x @ '';'' @ y) '';'' (length pre) = Some (length pre + length x)"
    using find_at_char(1)[OF assms] by (simp add: str_find_def)
  then show ?thesis by (subst token_parts.simps) (simp add: add.assoc)
qed

lemma token_parts_last:
  assumes "CHR '';'' \<notin> set x"
  shows "token_parts (pre @ x) (length pre) parts = parts @ [x]"
proof -
  have "str_find (pre @ x) '';'' (length pre) = None"
    using find_at_char(2)[OF assms] by (simp add: str_find_def)
  then show ?thesis by (subst token_parts.simps) simp
qed

lemma token_parts_three:
  assumes "CHR '';'' \<notin> set a" "CHR '';'' \<notin> set b" "CHR '';'' \<notin> set c"
  shows "token_parts (a @ '';'' @ b @ '';'' @ c) 0 [] = [a, b, c]"
  using token_parts_cons[OF assms(1), of "[]" "b @ '';'' @ c" "[]"]
    token_parts_cons[OF assms(2), of "a @ '';''" c "[a]"]
    token_parts_last[OF assms(3), of "a @ '';'' @ b @ '';''" "[a, b]"]
  by simp

lemma token_three_join:
  assumes "token_parts token 0 [] = parts" "length parts = 3"
  shows "token = parts ! 0 @ '';'' @ parts ! 1 @ '';'' @ parts ! 2"
proof -
  obtain a b c where p: "parts = [a, b, c]"
    using assms(2) by (auto simp: length_Suc_conv eval_nat_numeral)
  have "join '';'' [a, b, c] = token" using token_parts_join[of token] assms(1) p by simp
  then show ?thesis by (simp add: p)
qed

lemma list_all_no_semicolon:
  "list_all isdigit x \<Longrightarrow> CHR '';'' \<notin> set x" "list_all isBase64Character x \<Longrightarrow> CHR '';'' \<notin> set x"
  by (auto simp: list_all_iff isdigit_def isBase64Character_def isalnum_def isalpha_def)

text \<open>What \<open>parseToken\<close> accepts.\<close>

definition token_form :: "string \<Rightarrow> string \<Rightarrow> string \<Rightarrow> bool" where
  "token_form token ds secret \<longleftrightarrow>
     token = ''iqrfgd2;'' @ ds @ '';'' @ secret \<and> ds \<noteq> [] \<and> list_all isdigit ds \<and> dec_value ds < 2 ^ 64
     \<and> length secret = 44 \<and> list_all isBase64Character secret"

lemma parseToken_form:
  assumes "token_form token ds secret"
  shows "parseToken token = Inr (word_of_nat (dec_value ds), secret)"
proof -
  have t: "token = ''iqrfgd2'' @ '';'' @ ds @ '';'' @ secret" and a: "list_all isdigit ds" "ds \<noteq> []"
    "dec_value ds < 2 ^ 64" "length secret = 44" "list_all isBase64Character secret"
    using assms by (simp_all add: token_form_def)
  have "token_parts token 0 [] = [''iqrfgd2'', ds, secret]"
    unfolding t by (rule token_parts_three) (use a in \<open>simp_all add: list_all_no_semicolon\<close>)
  then show ?thesis using a
    by (simp add: parseToken_def Let_def stoul_digits_def ENCODED_SECRET_LEN_def numeral_2_eq_2)
qed

lemma parseToken_sound:
  assumes "parseToken token = Inr (i, secret)"
  shows "\<exists>ds. token_form token ds secret \<and> i = word_of_nat (dec_value ds)"
proof -
  define parts where "parts = token_parts token 0 []"
  have p: "length parts = 3" "parts ! 0 = ''iqrfgd2''" "list_all isdigit (parts ! 1)"
    "stoul_digits (parts ! 1) = Inr (dec_value (parts ! 1))" "length (parts ! 2) = 44"
    "list_all isBase64Character (parts ! 2)" "secret = parts ! 2"
    "i = word_of_nat (dec_value (parts ! 1))"
    using assms unfolding parseToken_def Let_def parts_def[symmetric]
    by (auto simp: exc_simps stoul_digits_def ENCODED_SECRET_LEN_def split: if_splits)
  have "token = ''iqrfgd2'' @ '';'' @ parts ! 1 @ '';'' @ parts ! 2"
    using token_three_join[of token parts] p by (simp add: parts_def)
  then show ?thesis using p
    by (intro exI[of _ "parts ! 1"]) (auto simp: token_form_def stoul_digits_def split: if_splits)
qed

lemma show_dec_digits: "list_all isdigit (show_dec n)" "show_dec n \<noteq> []"
proof -
  have "\<forall>d\<in>set (digits_base 10 n). d < 10" using digits_base_bound[of 10] by auto
  then show "list_all isdigit (show_dec n)"
    by (auto simp: list_all_iff show_dec_def isdigit_def hex_char_code simp del: digits_base.simps)
  show "show_dec n \<noteq> []" by (subst show_dec_def, subst digits_base.simps) simp
qed

lemma shareable_token_form:
  assumes "length key = 44" "list_all isBase64Character key"
  shows "token_form (construct_shareable_token tid key) (show_dec (unat tid)) key"
proof -
  have "unat tid < 2 ^ 32" using unsigned_less[of tid] by simp
  then have "unat tid < 2 ^ 64" by (rule less_trans) simp
  then show ?thesis using assms
    by (simp add: token_form_def construct_shareable_token_def dec_value_show_dec show_dec_digits)
qed

lemma parse_shareable_token:
  assumes "length key = 44" "list_all isBase64Character key"
  shows "parseToken (construct_shareable_token tid key) = Inr (tid, key)"
  using parseToken_form[OF shareable_token_form[OF assms]] by (simp add: dec_value_show_dec)

section \<open>Evolution of the token table\<close>

text \<open>
  The operations that change the table, run by the daemon and by the token tool: SQLite assigns
  a row id that is not in use to an inserted row.
\<close>

inductive token_step :: "token_db \<Rightarrow> token_db \<Rightarrow> bool" where
  create: "create_token cr iso_p ts key newId now owner expiration service db = Inr (db', shown) \<Longrightarrow>
     db newId = None \<Longrightarrow> token_step db db'"
| revoked: "revoke_token ts tid now db = Inr db' \<Longrightarrow> token_step db db'"
| rotate: "rotate_token cr ts key newId tid now db = Inr (db', shown) \<Longrightarrow> db newId = None \<Longrightarrow>
     token_step db db'"
| auth: "authenticate_token cr ts get_throws update_throws now tid secret out db = (db', res) \<Longrightarrow>
     token_step db db'"

inductive token_steps :: "token_db \<Rightarrow> token_db \<Rightarrow> bool" where
  none: "token_steps db db"
| more: "token_steps db db' \<Longrightarrow> token_step db' db'' \<Longrightarrow> token_steps db db''"

inductive_cases token_stepE: "token_step db db'"

text \<open>Row by row: a row never disappears, keeps its key data, and only leaves the status \<open>Valid\<close>.\<close>

definition row_le :: "api_token \<Rightarrow> api_token \<Rightarrow> bool" where
  "row_le t t' \<longleftrightarrow> t_hash t' = t_hash t \<and> t_expiresAt t' = t_expiresAt t \<and> t_owner t' = t_owner t
     \<and> t_service t' = t_service t \<and> (t_status t \<noteq> Valid \<longrightarrow> t_status t' = t_status t)"

lemma row_le_refl [simp]: "row_le t t"
  by (simp add: row_le_def)

lemma row_le_trans: "row_le a b \<Longrightarrow> row_le b c \<Longrightarrow> row_le a c"
  by (auto simp: row_le_def)

definition keys_ok :: "token_db \<Rightarrow> bool" where
  "keys_ok db \<longleftrightarrow> (\<forall>i t. db i = Some t \<longrightarrow> t_id t = i)"

lemma usable_token_Inr:
  "usable_token db tid now = Inr t \<longleftrightarrow> db tid = Some t \<and> t_status t = Valid \<and> now < t_expiresAt t"
proof (cases "db tid")
  case (Some u)
  then show ?thesis by (cases "t_status u") (auto simp: usable_token_def)
qed (simp add: usable_token_def)

lemma status_not_Valid: "s \<noteq> Valid \<longleftrightarrow> s = Expired \<or> s = Revoked"
  by (cases s) simp_all

lemma token_step_rows:
  assumes "token_step db db'" "keys_ok db"
  shows "keys_ok db' \<and> (\<forall>i t. db i = Some t \<longrightarrow> (\<exists>t'. db' i = Some t' \<and> row_le t t'))"
  using assms(1)
proof cases
  case (create cr iso_p ts key newId now owner expiration service shown)
  then show ?thesis using assms(2)
    by (auto simp: create_token_def exc_simps repo_insert_def keys_ok_def row_le_def split: if_splits)
next
  case (revoked ts tid now)
  then show ?thesis using assms(2)
    by (auto simp: revoke_token_def usable_token_Inr repo_revoke_def keys_ok_def row_le_def
        split: option.splits if_splits sum.splits)
next
  case (rotate cr ts key newId tid now shown)
  then show ?thesis using assms(2)
    by (auto simp: rotate_token_def usable_token_Inr repo_revoke_def repo_insert_def keys_ok_def
        row_le_def Let_def split: option.splits if_splits sum.splits prod.splits)
next
  case (auth cr ts get_throws update_throws now tid secret out res)
  then show ?thesis using assms(2)
    by (auto simp: authenticate_token_def repo_update_def expire_def keys_ok_def row_le_def
        status_not_Valid split: option.splits if_splits)
qed

lemma token_steps_rows:
  assumes "token_steps db db'" "keys_ok db"
  shows "keys_ok db' \<and> (\<forall>i t. db i = Some t \<longrightarrow> (\<exists>t'. db' i = Some t' \<and> row_le t t'))"
  using assms
proof (induction rule: token_steps.induct)
  case (more db db' db'')
  then have k: "keys_ok db'" "keys_ok db''" using token_step_rows by blast+
  have "\<exists>t''. db'' i = Some t'' \<and> row_le t t''" if i: "db i = Some t" for i t
  proof -
    obtain t' where "db' i = Some t'" "row_le t t'" using more i by blast
    moreover from this obtain t'' where "db'' i = Some t''" "row_le t' t''"
      using token_step_rows[OF more.hyps(2) k(1)] by blast
    ultimately show ?thesis using row_le_trans by blast
  qed
  then show ?case using k by blast
qed auto

lemma authenticate_Valid_iff:
  "snd (authenticate_token cr ts gt ut now tid secret out db) = Inr (Some Valid, out') \<longleftrightarrow>
     \<not> gt \<and> (\<exists>t h k. db tid = Some t \<and> t_status t = Valid \<and> now < t_expiresAt t
       \<and> base64Decode cr (t_hash t) = Inr h \<and> base64Decode cr secret = Inr k
       \<and> sha256Hash cr k = Inr h \<and> out' = (t_expiresAt t, t_service t))"
proof (cases "db tid")
  case None
  then show ?thesis by (auto simp: authenticate_token_def)
next
  case (Some t)
  show ?thesis
  proof (cases "t_status t")
    case Valid
    then show ?thesis using Some
      by (auto simp: authenticate_token_def exc_simps not_le)
  next
    case Expired
    then show ?thesis using Some by (auto simp: authenticate_token_def)
  next
    case Revoked
    then show ?thesis using Some by (auto simp: authenticate_token_def)
  qed
qed

section \<open>Properties\<close>

text \<open>
  \<open>parseToken\<close> accepts exactly the strings \<open>iqrfgd2;<digits>;<secret>\<close> with at least one digit, a
  number below 2^64 and a secret of 44 base64 characters, and returns the number cut to 32 bits
  and the secret.\<close>

theorem parseToken_iff:
  "parseToken token = Inr (i, secret)
     \<longleftrightarrow> (\<exists>ds. token_form token ds secret \<and> i = word_of_nat (dec_value ds))"
  using parseToken_sound parseToken_form by metis

text \<open>
  C19: A token that is expired or revoked stays so: whatever tokens are created, revoked, rotated or
  used afterwards, its row keeps this status, and \<open>authenticate\<close> never accepts it again.\<close>

theorem token_never_revived:
  assumes "keys_ok db" "token_steps db db'" "db tid = Some t" "t_status t \<noteq> Valid"
  shows "(\<exists>t'. db' tid = Some t' \<and> t_status t' = t_status t)
    \<and> snd (authenticate_token cr ts gt ut now tid secret out db') \<noteq> Inr (Some Valid, out')"
proof -
  obtain t' where t': "db' tid = Some t'" "row_le t t'"
    using token_steps_rows[OF assms(2,1)] assms(3) by blast
  then have "t_status t' = t_status t" using assms(4) by (simp add: row_le_def)
  then show ?thesis using t' assms(4) authenticate_Valid_iff[of cr ts gt ut now tid secret out db' out']
    by auto
qed

text \<open>A plain instance of the cryptographic parameters, for evaluation.\<close>

definition sample_crypto :: crypto where
  "sample_crypto = \<lparr>sha256Hash = (\<lambda>k. Inr (rev k)),
     base64Encode = (\<lambda>bs.
       if list_all (\<lambda>b. b = 0 \<or> b = 1) bs
       then Inr (replicate 12 CHR ''A'' @ map (\<lambda>b. if b = 0 then CHR ''A'' else CHR ''B'') bs)
       else Inl (RuntimeError ''encode'')),
     base64Decode = (\<lambda>s. Inr (map (\<lambda>c. if c = CHR ''A'' then 0 else 1) (drop 12 s)))\<rparr>"

definition sample_row :: api_token where
  "sample_row = \<lparr>t_id = 1, t_owner = ''gw'', t_hash = replicate 44 CHR ''A'', t_createdAt = 0,
     t_expiresAt = 100, t_status = Valid, t_service = False, t_invalidatedAt = None\<rparr>"

theorem token_never_revived_witness:
  "snd (authenticate_token sample_crypto id False False 60 1 (replicate 44 CHR ''A'') (0, False)
      [1 \<mapsto> sample_row\<lparr>t_status := Revoked, t_invalidatedAt := Some 50\<rparr>]) \<noteq> Inr (Some Valid, 100, False)"
proof -
  let ?db = "[1 \<mapsto> sample_row\<lparr>t_status := Revoked, t_invalidatedAt := Some 50\<rparr>]"
  have "keys_ok ?db" by (auto simp: keys_ok_def sample_row_def)
  from token_never_revived[OF this token_steps.none, of 1
      "sample_row\<lparr>t_status := Revoked, t_invalidatedAt := Some 50\<rparr>" sample_crypto id False False 60]
  show ?thesis by simp
qed


text \<open>
  A token that was just created works: with a base64 encoding that decodes back, yields 44
  characters of its alphabet for a 32 byte key, the string shown by \<open>create_token\<close> parses to the
  new id and key, and authenticating with them before the stored expiration is \<open>Valid\<close>.\<close>

theorem create_then_authenticate:
  assumes "create_token cr iso_p ts key newId now owner expiration service db = Inr (db', shown)"
    and "\<And>bs s. base64Encode cr bs = Inr s \<Longrightarrow> base64Decode cr s = Inr bs"
    and "\<And>s. base64Encode cr key = Inr s \<Longrightarrow> length s = 44 \<and> list_all isBase64Character s"
    and "parse_expiration iso_p expiration now = Inr expires_at" "later < ts expires_at"
  shows "\<exists>secret. parseToken shown = Inr (newId, secret)
    \<and> snd (authenticate_token cr ts False ut later newId secret out db')
        = Inr (Some Valid, ts expires_at, service)"
proof -
  obtain h k s where c: "sha256Hash cr key = Inr h" "base64Encode cr key = Inr k"
    "base64Encode cr h = Inr s" "shown = construct_shareable_token newId k"
    "db' newId = Some \<lparr>t_id = newId, t_owner = owner, t_hash = s, t_createdAt = ts now,
       t_expiresAt = ts expires_at, t_status = Valid, t_service = service, t_invalidatedAt = None\<rparr>"
    using assms(1,4) by (auto simp: create_token_def new_token_def repo_insert_def exc_simps split: if_splits)
  have "parseToken shown = Inr (newId, k)"
    using parse_shareable_token[of k newId] assms(3)[OF c(2)] c(4) by simp
  moreover have "base64Decode cr k = Inr key" "base64Decode cr s = Inr h"
    using assms(2) c(2,3) by blast+
  ultimately show ?thesis using c(1,5) assms(5)
    by (intro exI[of _ k]) (simp add: authenticate_token_def)
qed

lemma sample_crypto_inverse:
  assumes "base64Encode sample_crypto bs = Inr s"
  shows "base64Decode sample_crypto s = Inr bs"
proof -
  have b: "list_all (\<lambda>b. b = 0 \<or> b = 1) bs" and s: "s = replicate 12 CHR ''A'' @ map (\<lambda>b. if b = 0 then CHR ''A'' else CHR ''B'') bs"
    using assms by (auto simp: sample_crypto_def split: if_splits)
  have "map ((\<lambda>c. if c = CHR ''A'' then 0 else 1) \<circ> (\<lambda>b. if b = 0 then CHR ''A'' else CHR ''B'')) bs = bs"
    using b by (induction bs) auto
  then show ?thesis by (simp add: s sample_crypto_def)
qed

theorem create_then_authenticate_witness:
  "\<exists>db' shown secret. create_token sample_crypto (\<lambda>s. Inl (InvalidArgument ''no'')) id (replicate 32 1) 7 0 ''gw'' ''1d'' True Map.empty
      = Inr (db', shown)
    \<and> parseToken shown = Inr (7, secret)
    \<and> snd (authenticate_token sample_crypto id False False 5 7 secret (0, False) db')
        = Inr (Some Valid, 24 * 3600 * 10 ^ 9, True)"
proof -
  let ?p = "\<lambda>s. Inl (InvalidArgument ''no'') :: int result"
  have e: "parse_expiration ?p ''1d'' 0 = Inr (24 * 3600 * 10 ^ 9)"
    by (simp add: parse_expiration_def is_time_unit_def unit_hours_def add_hours_def stoi_digits_def
        dec_value_def isdigit_def)
  obtain db' shown where c: "create_token sample_crypto ?p id (replicate 32 1) 7 0 ''gw'' ''1d'' True Map.empty
      = Inr (db', shown)"
    using e by (simp add: create_token_def new_token_def sample_crypto_def list_all_iff)
  have k: "length s = 44 \<and> list_all isBase64Character s"
    if "base64Encode sample_crypto (replicate 32 1) = Inr s" for s
    using that by (auto simp: sample_crypto_def isBase64Character_def isalnum_def isalpha_def list_all_iff)
  have "(5 :: int) < id (24 * 3600 * 10 ^ 9)" by simp
  from create_then_authenticate[OF c sample_crypto_inverse k e this, of False "(0, False)"]
  show ?thesis using c by (auto simp: id_def)
qed

text \<open>
  Whatever \<open>parse_expiration\<close> returns lies in the future: an ISO 8601 timestamp not after the
  creation is rejected, and so is a relative count of zero.\<close>

theorem expiration_in_future:
  assumes "parse_expiration parseISO8601 input created_at = Inr t"
  shows "created_at < t"
proof -
  have "created_at < t" if "add_hours created_at (unit_hours u * int n) = Inr t" "1 \<le> n" "is_time_unit u" for u n
  proof -
    have "0 < unit_hours u" using that(3) by (auto simp: unit_hours_def is_time_unit_def)
    then have "0 < unit_hours u * int n" using that(2) by simp
    then show ?thesis using that(1) by (auto simp: add_hours_def Let_def split: if_splits)
  qed
  then show ?thesis using assms
    by (auto simp: parse_expiration_def Let_def exc_simps not_less split: if_splits sum.splits exc.splits)
qed

theorem expiration_in_future_witness:
  "parse_expiration (\<lambda>s. Inl (InvalidArgument ''no'')) ''30d'' 1000 = Inr (1000 + 30 * 24 * 3600 * 10 ^ 9)
   \<and> (1000 :: int) < 1000 + 30 * 24 * 3600 * 10 ^ 9"
proof -
  have e: "parse_expiration (\<lambda>s. Inl (InvalidArgument ''no'')) ''30d'' 1000 = Inr (1000 + 30 * 24 * 3600 * 10 ^ 9)"
    by (simp add: parse_expiration_def is_time_unit_def unit_hours_def add_hours_def stoi_digits_def
        dec_value_def isdigit_def)
  show ?thesis using expiration_in_future[OF e] e by simp
qed

end
