(* ===== verification/Json.thy ===== *)
theory Json
  imports Gwd_Prelude
begin

text \<open>
  JSON values and the access to their members by \<open>rapidjson::Pointer\<close>, for pointers whose tokens are
  member names. \<open>jset\<close> creates the members on its way, as \<open>Pointer::Set\<close> does, and turns what is not
  an object into one. The locale \<open>member_access\<close> is the contract of reading and writing that the users
  of documents rely on.
\<close>

datatype json = JNull | JBool bool | JNum int | JStr string | JArr "json list" | JObj "(string \<times> json) list"

fun jmember :: "string \<Rightarrow> json \<Rightarrow> json option" where
  "jmember k (JObj fs) = map_of fs k"
| "jmember k _ = None"

fun jget :: "string list \<Rightarrow> json \<Rightarrow> json option" where
  "jget [] d = Some d"
| "jget (k # ks) d = (case jmember k d of None \<Rightarrow> None | Some v \<Rightarrow> jget ks v)"

fun put_member :: "string \<Rightarrow> json \<Rightarrow> (string \<times> json) list \<Rightarrow> (string \<times> json) list" where
  "put_member k v [] = [(k, v)]"
| "put_member k v ((k', v') # fs) = (if k' = k then (k, v) # fs else (k', v') # put_member k v fs)"

fun members :: "json \<Rightarrow> (string \<times> json) list" where
  "members (JObj fs) = fs"
| "members _ = []"

fun jset :: "string list \<Rightarrow> json \<Rightarrow> json \<Rightarrow> json" where
  "jset [] v d = v"
| "jset (k # ks) v d = JObj (put_member k (jset ks v (case jmember k d of None \<Rightarrow> JNull | Some x \<Rightarrow> x)) (members d))"

text \<open>\<open>Pointer::GetWithDefault\<close> creates the member when it is missing.\<close>

definition get_with_default :: "string list \<Rightarrow> json \<Rightarrow> json \<Rightarrow> json \<times> json" where
  "get_with_default ks v d = (case jget ks d of Some x \<Rightarrow> (x, d) | None \<Rightarrow> (v, jset ks v d))"

text \<open>
  The typed accessors of rapidjson assert the type of the value. \<open>GetString\<close> gives a C string, which ends at the first
  null character.
\<close>

definition c_str :: "string \<Rightarrow> string" where
  "c_str s = takeWhile (\<lambda>c. c \<noteq> CHR 0x00) s"

definition GetString :: "json \<Rightarrow> string result" where
  "GetString v = (case v of JStr s \<Rightarrow> Inr (c_str s) | _ \<Rightarrow> Inl (UB ''RAPIDJSON_ASSERT''))"

definition FindMember :: "string \<Rightarrow> json \<Rightarrow> json option result" where
  "FindMember k v = (case v of JObj fs \<Rightarrow> Inr (map_of fs k) | _ \<Rightarrow> Inl (UB ''RAPIDJSON_ASSERT''))"

section \<open>Laws\<close>

lemma map_of_put_member [simp]: "map_of (put_member k v fs) = (map_of fs)(k \<mapsto> v)"
  by (induction k v fs rule: put_member.induct) (auto simp: fun_eq_iff)

lemma map_of_members [simp]: "map_of (members d) k = jmember k d"
  by (cases d) auto

lemma member_put [simp]: "jmember k' (JObj (put_member k v (members d))) = (if k' = k then Some v else jmember k' d)"
  by simp

lemma jget_jset_same [simp]: "jget ks (jset ks v d) = Some v"
  by (induction ks v d rule: jset.induct) auto

text \<open>Two pointers that part at some token.\<close>

fun apart :: "string list \<Rightarrow> string list \<Rightarrow> bool" where
  "apart (k # ks) (k' # ks') = (k \<noteq> k' \<or> apart ks ks')"
| "apart _ _ = False"

lemma jget_jset_apart: "apart ks ks' \<Longrightarrow> jget ks' (jset ks v d) = jget ks' d"
proof (induction ks v d arbitrary: ks' rule: jset.induct)
  case (2 k ks v d)
  then obtain k' ks'' where k': "ks' = k' # ks''" by (cases ks') auto
  show ?case
  proof (cases "k' = k")
    case True
    have "jget ks'' JNull = None" if "apart ks ks''" using that by (cases ks'') auto
    then show ?thesis using 2 k' True by (auto split: option.splits)
  next
    case False
    then show ?thesis using k' by auto
  qed
qed simp

locale member_access =
  fixes get :: "'p \<Rightarrow> 'd \<Rightarrow> 'v option" and set_at :: "'p \<Rightarrow> 'v \<Rightarrow> 'd \<Rightarrow> 'd" and disjoint :: "'p \<Rightarrow> 'p \<Rightarrow> bool"
  assumes get_set: "get p (set_at p v d) = Some v"
    and get_set_other: "disjoint p q \<Longrightarrow> get q (set_at p v d) = get q d"
begin

definition set_all :: "('p \<times> 'v) list \<Rightarrow> 'd \<Rightarrow> 'd" where
  "set_all pvs d = fold (\<lambda>(p, v). set_at p v) pvs d"

lemma set_all_other: "\<forall>(p, v)\<in>set pvs. disjoint p q \<Longrightarrow> get q (set_all pvs d) = get q d"
  by (induction pvs arbitrary: d) (auto simp: set_all_def get_set_other)

text \<open>What was written last at a pointer is read back, whatever is written at other pointers later.\<close>

lemma set_all_read:
  "\<forall>(p, v)\<in>set later. disjoint p q \<Longrightarrow> get q (set_all (earlier @ (q, x) # later) d) = Some x"
  using set_all_other[of later q] by (simp add: set_all_def get_set)

end

interpretation jdoc: member_access jget jset apart
  by unfold_locales (simp_all add: jget_jset_apart)

definition jset_all :: "(string list \<times> json) list \<Rightarrow> json \<Rightarrow> json" where
  "jset_all pvs d = fold (\<lambda>(p, v). jset p v) pvs d"

lemma jset_all_eq: "jset_all = jdoc.set_all"
  by (simp add: fun_eq_iff jset_all_def jdoc.set_all_def)

lemmas jset_all_read = jdoc.set_all_read[folded jset_all_eq]
lemmas jset_all_other = jdoc.set_all_other[folded jset_all_eq]

declare jget.simps(2) [simp del] jset.simps(2) [simp del]

end
