(* ===== verification/Ws_Session.thy ===== *)
theory Ws_Session
  imports Api_Token Json "HOL-Library.AList"
begin

text \<open>
  The WebSocket server side sessions: \<open>WebsocketServer/IWebSocketClientSession.h\<close> (class
  \<open>SessionManager\<close>), \<open>WebsocketServer/WebSocketClientSession.h\<close> and \<open>include/WebsocketServerUtils.h\<close>.
  A session is a state machine driven by Boost.Asio: the state holds the members of the class,
  the handlers it posted and the asynchronous operations it started and that have not completed
  (\<open>s_reads\<close>, \<open>s_writes\<close>, \<open>s_timer\<close>, ...). The server runs its \<open>io_context\<close> in one thread, so
  handlers run one at a time and posted handlers in the order they were posted; which pending
  operation completes next, and with which error code, is up to the environment. Ghost fields
  record what the session did: \<open>s_log\<close> the authentications and deliveries to the application,
  \<open>s_accepted\<close> the messages taken into the write queue, \<open>s_written\<close> those given to
  \<open>async_write\<close>, \<open>s_systems\<close> the number of system messages handled, \<open>s_remoteClosed\<close> that the
  connection was found closed by the client, \<open>s_undefined\<close> undefined behaviour and
  \<open>s_terminated\<close> that an exception left a handler, which ends the process.
  Parameters of a session (record \<open>ws_cfg\<close>): the JSON parser and printer, the ISO 8601 printer,
  the kind of stream and which callbacks are set.
\<close>

section \<open>Session manager\<close>

record 'p session_manager =
  sessionIdCounter :: u64
  capacity :: nat
  sessionStorage :: "(u64 \<times> 'p) list"

definition SessionManager :: "nat \<Rightarrow> 'p session_manager" where
  "SessionManager cap = \<lparr>sessionIdCounter = 0, capacity = cap, sessionStorage = []\<rparr>"

definition getNextSessionId :: "'p session_manager \<Rightarrow> u64 \<times> 'p session_manager" where
  "getNextSessionId sm =
     (sessionIdCounter sm, sm\<lparr>sessionIdCounter := sessionIdCounter sm + 1\<rparr>)"

definition registerSession :: "u64 \<Rightarrow> 'p \<Rightarrow> 'p session_manager \<Rightarrow> bool \<times> 'p session_manager" where
  "registerSession sid session sm =
    (if length (sessionStorage sm) \<ge> capacity sm then (False, sm)
     else (True, sm\<lparr>sessionStorage := AList.update sid session (sessionStorage sm)\<rparr>))"

text \<open>\<open>alive\<close> tells whether the object behind a weak pointer still exists.\<close>

definition getSession :: "('p \<Rightarrow> bool) \<Rightarrow> u64 \<Rightarrow> 'p session_manager \<Rightarrow> 'p option" where
  "getSession alive sid sm =
    (case map_of (sessionStorage sm) sid of
       None \<Rightarrow> None
     | Some p \<Rightarrow> if alive p then Some p else None)"

text \<open>The sessions the handler is applied to, and the storage without the dead ones.\<close>

definition forEachSession :: "('p \<Rightarrow> bool) \<Rightarrow> 'p session_manager \<Rightarrow> 'p list \<times> 'p session_manager" where
  "forEachSession alive sm =
    (let living = filter (\<lambda>(_, p). alive p) (sessionStorage sm) in
     (map snd living, sm\<lparr>sessionStorage := living\<rparr>))"

definition unregisterSession :: "u64 \<Rightarrow> 'p session_manager \<Rightarrow> bool \<times> 'p session_manager" where
  "unregisterSession sid sm =
    (if map_of (sessionStorage sm) sid \<noteq> None
     then (True, sm\<lparr>sessionStorage := AList.delete sid (sessionStorage sm)\<rparr>)
     else (False, sm))"

section \<open>Messages of the authentication protocol\<close>

datatype auth_error = success | no_auth | auth_timeout | auth_failed | invalid_token | expired_token | revoked_token

fun auth_error_value :: "auth_error \<Rightarrow> int" where
  "auth_error_value success = 0"
| "auth_error_value no_auth = 1"
| "auth_error_value auth_timeout = 2"
| "auth_error_value auth_failed = 3"
| "auth_error_value invalid_token = 4"
| "auth_error_value expired_token = 5"
| "auth_error_value revoked_token = 6"

fun auth_error_message :: "auth_error \<Rightarrow> string" where
  "auth_error_message success = ''Success''"
| "auth_error_message no_auth = ''Unauthenticated''"
| "auth_error_message auth_timeout = ''Authentication timeout''"
| "auth_error_message auth_failed = ''Authentication failed''"
| "auth_error_message invalid_token = ''Invalid token''"
| "auth_error_message expired_token = ''Expired token''"
| "auth_error_message revoked_token = ''Revoked token''"

fun is_auth_message :: "json \<Rightarrow> bool" where
  "is_auth_message (JObj fs) =
    (length fs = 2
     \<and> (case map_of fs ''type'' of Some (JStr s) \<Rightarrow> s = ''auth'' | _ \<Rightarrow> False)
     \<and> (case map_of fs ''token'' of Some (JStr s) \<Rightarrow> True | _ \<Rightarrow> False))"
| "is_auth_message _ = False"

definition create_auth_success_message :: "(json \<Rightarrow> string) \<Rightarrow> string \<Rightarrow> bool \<Rightarrow> string" where
  "create_auth_success_message dump expiration service =
     dump (JObj [(''type'', JStr ''auth_success''), (''expiration'', JStr expiration), (''service'', JBool service)])"

definition create_auth_error_message :: "(json \<Rightarrow> string) \<Rightarrow> auth_error \<Rightarrow> string" where
  "create_auth_error_message dump ec =
     dump (JObj [(''type'', JStr ''auth_error''), (''code'', JNum (auth_error_value ec)),
                 (''error'', JStr (auth_error_message ec))])"

section \<open>Session\<close>

datatype error_code =
    NoError | WsClosed | Eof | NotConnected | StreamTruncated | OperationAborted | MessageTooBig
  | BrokenPipe | OtherError

datatype close_code = cc_normal | cc_protocol_error | cc_policy_error | cc_too_big | cc_internal_error

text \<open>The lambdas handed to \<open>boost::asio::post\<close>.\<close>

datatype posted = PSend string | PSystem string | PClose close_code

datatype timer = TimerOff | TimerRunning | TimerCancelled

datatype event = AuthOk u32 string int | Deliver string int | Opened | Closed

record ws_cfg =
  c_parse :: "string \<Rightarrow> json option"
  c_dump :: "json \<Rightarrow> string"
  c_toISO8601 :: "int \<Rightarrow> string"
  usesTlsStream :: bool
  hasOpenCallback :: bool
  hasMessageCallback :: bool
  hasAuthCallback :: bool
  hasCloseCallback :: bool

record ws =
  sessionId :: u64
  isWriting :: bool
  writeQueue :: "string list"
  isAuthenticated :: bool
  expirationTime :: "int option"
  service :: bool
  manager :: "unit session_manager"
  s_posted :: "posted list"
  s_handshakes :: nat
  s_accepts :: nat
  s_reads :: nat
  s_writes :: nat
  s_closing :: nat
  s_tlsShutdowns :: nat
  s_timer :: timer
  s_accepted :: "string list"
  s_written :: "string list"
  s_systems :: nat
  s_remoteClosed :: bool
  s_closeCodes :: "close_code list"
  s_log :: "event list"
  s_undefined :: bool
  s_terminated :: bool

definition WebSocketClientSession :: "u64 \<Rightarrow> unit session_manager \<Rightarrow> ws" where
  "WebSocketClientSession sid sm =
    \<lparr>sessionId = sid, isWriting = False, writeQueue = [], isAuthenticated = False,
     expirationTime = None, service = False, manager = sm, s_posted = [], s_handshakes = 0,
     s_accepts = 0, s_reads = 0, s_writes = 0, s_closing = 0, s_tlsShutdowns = 0,
     s_timer = TimerOff, s_accepted = [], s_written = [], s_systems = 0,
     s_remoteClosed = False, s_closeCodes = [], s_log = [], s_undefined = False,
     s_terminated = False\<rparr>"

subsection \<open>Writing\<close>

text \<open>\<open>front()\<close> and \<open>pop_front()\<close> of an empty deque are undefined.\<close>

definition doWrite :: "ws \<Rightarrow> ws" where
  "doWrite s =
    (case writeQueue s of
       [] \<Rightarrow> s\<lparr>isWriting := True, s_writes := s_writes s + 1, s_undefined := True\<rparr>
     | msg # _ \<Rightarrow> s\<lparr>isWriting := True, s_writes := s_writes s + 1, s_written := s_written s @ [msg]\<rparr>)"

definition sendMessage :: "string \<Rightarrow> ws \<Rightarrow> ws" where
  "sendMessage message s = s\<lparr>s_posted := s_posted s @ [PSend message]\<rparr>"

definition send_system :: "string \<Rightarrow> ws \<Rightarrow> ws" where
  "send_system message s = s\<lparr>s_posted := s_posted s @ [PSystem message]\<rparr>"

definition run_send :: "string \<Rightarrow> ws \<Rightarrow> ws" where
  "run_send message s =
    (let s = s\<lparr>writeQueue := writeQueue s @ [message], s_accepted := s_accepted s @ [message]\<rparr> in
     if \<not> isWriting s then doWrite s else s)"

definition run_system :: "string \<Rightarrow> ws \<Rightarrow> ws" where
  "run_system message s =
    (let s = s\<lparr>isWriting := False, writeQueue := [], s_systems := s_systems s + 1\<rparr>;
         s = s\<lparr>writeQueue := writeQueue s @ [message]\<rparr> in
     if \<not> isWriting s then doWrite s else s)"

subsection \<open>Closing\<close>

definition resetAuthTimer :: "ws \<Rightarrow> ws" where
  "resetAuthTimer s = (if s_timer s = TimerRunning then s\<lparr>s_timer := TimerCancelled\<rparr> else s)"

definition executeServerCloseCallback :: "ws_cfg \<Rightarrow> ws \<Rightarrow> ws" where
  "executeServerCloseCallback cfg s =
    (if hasCloseCallback cfg then s\<lparr>s_log := s_log s @ [Closed]\<rparr> else s)"

definition shutdownSocket :: "ws_cfg \<Rightarrow> ws \<Rightarrow> ws" where
  "shutdownSocket cfg s =
    (if usesTlsStream cfg then s\<lparr>s_tlsShutdowns := s_tlsShutdowns s + 1\<rparr>
     else executeServerCloseCallback cfg s)"

definition closeSession :: "close_code \<Rightarrow> ws \<Rightarrow> ws" where
  "closeSession cc s =
    (let s = s\<lparr>manager := snd (unregisterSession (sessionId s) (manager s))\<rparr>;
         s = resetAuthTimer s in
     s\<lparr>s_posted := s_posted s @ [PClose cc]\<rparr>)"

definition run_close :: "close_code \<Rightarrow> ws \<Rightarrow> ws" where
  "run_close cc s = s\<lparr>s_closing := s_closing s + 1, s_closeCodes := s_closeCodes s @ [cc]\<rparr>"

definition isRemoteCloseError :: "ws_cfg \<Rightarrow> error_code \<Rightarrow> bool" where
  "isRemoteCloseError cfg ec \<longleftrightarrow>
     ec = WsClosed \<or> ec = Eof \<or> ec = NotConnected \<or> (usesTlsStream cfg \<and> ec = StreamTruncated)"

subsection \<open>Opening\<close>

definition doRead :: "ws \<Rightarrow> ws" where
  "doRead s = s\<lparr>s_reads := s_reads s + 1\<rparr>"

definition startAuthTimer :: "ws \<Rightarrow> ws" where
  "startAuthTimer s = s\<lparr>s_timer := TimerRunning\<rparr>"

definition doAccept :: "ws_cfg \<Rightarrow> ws \<Rightarrow> ws" where
  "doAccept cfg s =
    (let (ok, sm) = registerSession (sessionId s) () (manager s); s = s\<lparr>manager := sm\<rparr> in
     if \<not> ok then shutdownSocket cfg s else s\<lparr>s_accepts := s_accepts s + 1\<rparr>)"

definition startCallback :: "ws_cfg \<Rightarrow> ws \<Rightarrow> ws" where
  "startCallback cfg s =
    (if usesTlsStream cfg then s\<lparr>s_handshakes := s_handshakes s + 1\<rparr> else doAccept cfg s)"

definition handshakeCallback :: "ws_cfg \<Rightarrow> error_code \<Rightarrow> ws \<Rightarrow> ws" where
  "handshakeCallback cfg ec s = (if ec \<noteq> NoError then shutdownSocket cfg s else doAccept cfg s)"

definition acceptCallback :: "ws_cfg \<Rightarrow> error_code \<Rightarrow> ws \<Rightarrow> ws" where
  "acceptCallback cfg ec s =
    (if ec \<noteq> NoError then closeSession cc_protocol_error s
     else
       let s = (if hasOpenCallback cfg then s\<lparr>s_log := s_log s @ [Opened]\<rparr> else s);
           s = (if hasAuthCallback cfg then startAuthTimer s else s) in
       doRead s)"

subsection \<open>Reading\<close>

text \<open>
  \<open>authenticate\<close>: \<open>cb\<close> is the result of the authentication callback on a token id and a secret: an
  exception, or an error code with the expiration and the service permission.
\<close>

type_synonym auth_callback = "u32 \<Rightarrow> string \<Rightarrow> (auth_error \<times> int \<times> bool) result"

fun json_token :: "json \<Rightarrow> string" where
  "json_token (JObj fs) = (case map_of fs ''token'' of Some (JStr s) \<Rightarrow> s | _ \<Rightarrow> [])"
| "json_token _ = []"

definition authenticate :: "ws_cfg \<Rightarrow> auth_callback \<Rightarrow> string \<Rightarrow> ws \<Rightarrow> (auth_error \<times> ws) result" where
  "authenticate cfg cb message s =
    (case c_parse cfg message of
       None \<Rightarrow> Inr (auth_failed, s)
     | Some doc \<Rightarrow>
         if \<not> is_auth_message doc then Inr (no_auth, s)
         else
           (case parseToken (json_token doc) of
              Inl _ \<Rightarrow> Inr (invalid_token, s)
            | Inr (tokenId, secret) \<Rightarrow>
                bind_r (cb tokenId secret) (\<lambda>(ec, tokenExpiration, svc).
                  if ec \<noteq> success then Inr (ec, s)
                  else Inr (ec, s\<lparr>isAuthenticated := True, expirationTime := Some tokenExpiration,
                                 service := svc, s_log := s_log s @ [AuthOk tokenId secret tokenExpiration]\<rparr>))))"

text \<open>\<open>expirationTime_ < now\<close> on a \<open>std::optional\<close>: an empty one is less than any value.\<close>

definition expired :: "int option \<Rightarrow> int \<Rightarrow> bool" where
  "expired e now = (case e of None \<Rightarrow> True | Some t \<Rightarrow> t < now)"

definition deliver :: "ws_cfg \<Rightarrow> int \<Rightarrow> string \<Rightarrow> ws \<Rightarrow> ws" where
  "deliver cfg now message s =
    (if hasMessageCallback cfg then s\<lparr>s_log := s_log s @ [Deliver message now]\<rparr> else s)"

definition readCallback :: "ws_cfg \<Rightarrow> auth_callback \<Rightarrow> int \<Rightarrow> error_code \<Rightarrow> string \<Rightarrow> ws \<Rightarrow> ws" where
  "readCallback cfg cb now ec message s =
    (if isRemoteCloseError cfg ec then
       executeServerCloseCallback cfg
         (resetAuthTimer (s\<lparr>manager := snd (unregisterSession (sessionId s) (manager s)),
                           s_remoteClosed := True\<rparr>))
     else if ec = OperationAborted then s
     else if ec = MessageTooBig then closeSession cc_too_big s
     else if ec \<noteq> NoError then closeSession cc_internal_error s
     else if hasAuthCallback cfg then
       (if \<not> isAuthenticated s then
          (let s = resetAuthTimer s in
           case authenticate cfg cb message s of
             Inl _ \<Rightarrow> s\<lparr>s_terminated := True\<rparr>
           | Inr (aec, s) \<Rightarrow>
               if aec \<noteq> success then
                 closeSession cc_policy_error
                   (send_system (create_auth_error_message (c_dump cfg) aec) s)
               else
                 doRead (sendMessage
                   (create_auth_success_message (c_dump cfg) (c_toISO8601 cfg (the (expirationTime s)))
                     (service s)) s))
        else if expired (expirationTime s) now then
          closeSession cc_policy_error
            (send_system (create_auth_error_message (c_dump cfg) expired_token)
              (s\<lparr>isAuthenticated := False, expirationTime := None, service := False\<rparr>))
        else doRead (deliver cfg now message s))
     else doRead (deliver cfg now message s))"

definition authTimeoutCallback :: "ws_cfg \<Rightarrow> error_code \<Rightarrow> ws \<Rightarrow> ws" where
  "authTimeoutCallback cfg ec s =
    (if ec = OperationAborted then s
     else if \<not> isAuthenticated s then
       closeSession cc_policy_error
         (send_system (create_auth_error_message (c_dump cfg) auth_timeout) s)
     else s)"

definition writeCallback :: "ws_cfg \<Rightarrow> error_code \<Rightarrow> ws \<Rightarrow> ws" where
  "writeCallback cfg ec s =
    (if isRemoteCloseError cfg ec \<or> ec = BrokenPipe then
       (resetAuthTimer (s\<lparr>manager := snd (unregisterSession (sessionId s) (manager s)),
                         s_remoteClosed := True\<rparr>))
         \<lparr>isWriting := False, writeQueue := []\<rparr>
     else if ec = OperationAborted then s\<lparr>isWriting := False, writeQueue := []\<rparr>
     else if ec \<noteq> NoError then
       closeSession cc_internal_error (s\<lparr>isWriting := False, writeQueue := []\<rparr>)
     else
       (case writeQueue s of
          [] \<Rightarrow> s\<lparr>isWriting := False, s_undefined := True\<rparr>
        | _ # rest \<Rightarrow>
            (let s = s\<lparr>writeQueue := rest\<rparr> in
             if rest \<noteq> [] then doWrite s else s\<lparr>isWriting := False\<rparr>)))"

fun run_posted :: "posted \<Rightarrow> ws \<Rightarrow> ws" where
  "run_posted (PSend m) s = run_send m s"
| "run_posted (PSystem m) s = run_system m s"
| "run_posted (PClose cc) s = run_close cc s"

section \<open>Runs of a session\<close>

text \<open>
  \<open>Q\<close> restricts the authentication callbacks the server may install. A timer that is cancelled
  after it has expired still runs its handler without an error.
\<close>

inductive ws_step :: "ws_cfg \<Rightarrow> (auth_callback \<Rightarrow> bool) \<Rightarrow> ws \<Rightarrow> ws \<Rightarrow> bool" for cfg Q where
  handshake: "\<not> s_terminated s \<Longrightarrow> s_handshakes s = Suc n \<Longrightarrow>
    ws_step cfg Q s (handshakeCallback cfg ec (s\<lparr>s_handshakes := n\<rparr>))"
| accept: "\<not> s_terminated s \<Longrightarrow> s_accepts s = Suc n \<Longrightarrow>
    ws_step cfg Q s (acceptCallback cfg ec (s\<lparr>s_accepts := n\<rparr>))"
| read: "\<not> s_terminated s \<Longrightarrow> s_reads s = Suc n \<Longrightarrow> Q cb \<Longrightarrow>
    ws_step cfg Q s (readCallback cfg cb now ec message (s\<lparr>s_reads := n\<rparr>))"
| written: "\<not> s_terminated s \<Longrightarrow> s_writes s = Suc n \<Longrightarrow>
    ws_step cfg Q s (writeCallback cfg ec (s\<lparr>s_writes := n\<rparr>))"
| timer: "\<not> s_terminated s \<Longrightarrow> s_timer s \<noteq> TimerOff \<Longrightarrow> (s_timer s = TimerRunning \<longrightarrow> ec = NoError) \<Longrightarrow>
    ws_step cfg Q s (authTimeoutCallback cfg ec (s\<lparr>s_timer := TimerOff\<rparr>))"
| posted: "\<not> s_terminated s \<Longrightarrow> s_posted s = p # ps \<Longrightarrow>
    ws_step cfg Q s (run_posted p (s\<lparr>s_posted := ps\<rparr>))"
| closed: "\<not> s_terminated s \<Longrightarrow> s_closing s = Suc n \<Longrightarrow>
    ws_step cfg Q s (shutdownSocket cfg (s\<lparr>s_closing := n\<rparr>))"
| tls_shutdown: "\<not> s_terminated s \<Longrightarrow> s_tlsShutdowns s = Suc n \<Longrightarrow>
    ws_step cfg Q s (executeServerCloseCallback cfg (s\<lparr>s_tlsShutdowns := n\<rparr>))"
| server_send: "\<not> s_terminated s \<Longrightarrow> ws_step cfg Q s (sendMessage message s)"
| server_close: "\<not> s_terminated s \<Longrightarrow> ws_step cfg Q s (closeSession cc s)"
| others: "\<not> s_terminated s \<Longrightarrow> ws_step cfg Q s (s\<lparr>manager := sm\<rparr>)"

inductive ws_reach :: "ws_cfg \<Rightarrow> (auth_callback \<Rightarrow> bool) \<Rightarrow> u64 \<Rightarrow> unit session_manager \<Rightarrow> ws \<Rightarrow> bool"
  for cfg Q sid sm where
  start: "ws_reach cfg Q sid sm (startCallback cfg (WebSocketClientSession sid sm))"
| step: "ws_reach cfg Q sid sm s \<Longrightarrow> ws_step cfg Q s s' \<Longrightarrow> ws_reach cfg Q sid sm s'"

section \<open>What the operations leave alone\<close>

named_theorems ws_frame

lemmas ws_ops = sendMessage_def send_system_def resetAuthTimer_def closeSession_def doRead_def
  startAuthTimer_def run_close_def run_send_def run_system_def doWrite_def deliver_def
  executeServerCloseCallback_def shutdownSocket_def doAccept_def Let_def

lemma frame_auth [ws_frame]:
  "isAuthenticated (sendMessage m s) = isAuthenticated s" "isAuthenticated (send_system m s) = isAuthenticated s"
  "isAuthenticated (resetAuthTimer s) = isAuthenticated s" "isAuthenticated (closeSession cc s) = isAuthenticated s"
  "isAuthenticated (doRead s) = isAuthenticated s" "isAuthenticated (run_posted p s) = isAuthenticated s"
  "isAuthenticated (executeServerCloseCallback cfg s) = isAuthenticated s"
  "isAuthenticated (shutdownSocket cfg s) = isAuthenticated s" "isAuthenticated (doAccept cfg s) = isAuthenticated s"
  "isAuthenticated (deliver cfg now m s) = isAuthenticated s"
  by (cases p; auto simp: ws_ops split: list.split prod.split)+

lemma frame_exp [ws_frame]:
  "expirationTime (sendMessage m s) = expirationTime s" "expirationTime (send_system m s) = expirationTime s"
  "expirationTime (resetAuthTimer s) = expirationTime s" "expirationTime (closeSession cc s) = expirationTime s"
  "expirationTime (doRead s) = expirationTime s" "expirationTime (run_posted p s) = expirationTime s"
  "expirationTime (executeServerCloseCallback cfg s) = expirationTime s"
  "expirationTime (shutdownSocket cfg s) = expirationTime s" "expirationTime (doAccept cfg s) = expirationTime s"
  "expirationTime (deliver cfg now m s) = expirationTime s"
  by (cases p; auto simp: ws_ops split: list.split prod.split)+

lemma frame_log [ws_frame]:
  "s_log (sendMessage m s) = s_log s" "s_log (send_system m s) = s_log s"
  "s_log (resetAuthTimer s) = s_log s" "s_log (closeSession cc s) = s_log s"
  "s_log (doRead s) = s_log s" "s_log (run_posted p s) = s_log s"
  "s_log (deliver cfg now m s) = s_log s @ (if hasMessageCallback cfg then [Deliver m now] else [])"
  by (cases p; auto simp: ws_ops split: list.split prod.split)+

lemma frame_log_close [ws_frame]:
  "s_log (executeServerCloseCallback cfg s) = s_log s @ (if hasCloseCallback cfg then [Closed] else [])"
  "\<exists>n. s_log (shutdownSocket cfg s) = s_log s @ replicate n Closed"
  "\<exists>n. s_log (doAccept cfg s) = s_log s @ replicate n Closed"
proof -
  show e: "s_log (executeServerCloseCallback cfg s) = s_log s @ (if hasCloseCallback cfg then [Closed] else [])" for s
    by (simp add: executeServerCloseCallback_def)
  show sh: "\<exists>n. s_log (shutdownSocket cfg s) = s_log s @ replicate n Closed" for s
  proof (cases "usesTlsStream cfg \<or> \<not> hasCloseCallback cfg")
    case True
    then show ?thesis by (intro exI[of _ 0]) (auto simp: shutdownSocket_def e)
  next
    case False
    then show ?thesis by (intro exI[of _ 1]) (simp add: shutdownSocket_def e)
  qed
  show "\<exists>n. s_log (doAccept cfg s) = s_log s @ replicate n Closed"
  proof -
    obtain ok sm where r: "registerSession (sessionId s) () (manager s) = (ok, sm)"
      by (cases "registerSession (sessionId s) () (manager s)")
    show ?thesis
    proof (cases ok)
      case True
      then show ?thesis by (intro exI[of _ 0]) (simp add: doAccept_def r)
    next
      case False
      then show ?thesis using sh[of "s\<lparr>manager := sm\<rparr>"] by (simp add: doAccept_def r)
    qed
  qed
qed

section \<open>Authentication before delivery\<close>

fun last_auth :: "int option \<Rightarrow> event list \<Rightarrow> int option" where
  "last_auth a [] = a"
| "last_auth a (AuthOk _ _ e # l) = last_auth (Some e) l"
| "last_auth a (_ # l) = last_auth a l"

text \<open>Every delivery comes after an authentication that has not expired at its time.\<close>

fun log_ok :: "int option \<Rightarrow> event list \<Rightarrow> bool" where
  "log_ok a [] = True"
| "log_ok a (AuthOk _ _ e # l) = log_ok (Some e) l"
| "log_ok a (Deliver m t # l) = ((case a of None \<Rightarrow> False | Some e \<Rightarrow> t \<le> e) \<and> log_ok a l)"
| "log_ok a (_ # l) = log_ok a l"

lemma last_auth_append [simp]: "last_auth a (xs @ ys) = last_auth (last_auth a xs) ys"
  by (induction a xs rule: last_auth.induct) simp_all

lemma log_ok_append [simp]: "log_ok a (xs @ ys) \<longleftrightarrow> log_ok a xs \<and> log_ok (last_auth a xs) ys"
  by (induction a xs rule: log_ok.induct) auto

lemma replicate_Closed [simp]: "last_auth a (replicate n Closed) = a" "log_ok a (replicate n Closed)"
  by (induction n) simp_all

lemma last_auth_mem: "last_auth None xs = Some e \<Longrightarrow> \<exists>i k. AuthOk i k e \<in> set xs"
proof -
  have "last_auth a xs = Some e \<Longrightarrow> a = Some e \<or> (\<exists>i k. AuthOk i k e \<in> set xs)" for a
    by (induction a xs rule: last_auth.induct) auto
  then show "last_auth None xs = Some e \<Longrightarrow> \<exists>i k. AuthOk i k e \<in> set xs" by blast
qed

definition auth_inv :: "ws_cfg \<Rightarrow> (auth_callback \<Rightarrow> bool) \<Rightarrow> ws \<Rightarrow> bool" where
  "auth_inv cfg Q s \<longleftrightarrow>
     (hasAuthCallback cfg \<longrightarrow> log_ok None (s_log s))
     \<and> (isAuthenticated s \<longrightarrow> expirationTime s \<noteq> None \<and> last_auth None (s_log s) = expirationTime s)
     \<and> (\<forall>i k e. AuthOk i k e \<in> set (s_log s) \<longrightarrow> (\<exists>cb svc. Q cb \<and> cb i k = Inr (success, e, svc)))"

lemma auth_inv_frame:
  assumes "auth_inv cfg Q s" "isAuthenticated s' = isAuthenticated s" "expirationTime s' = expirationTime s"
    and "s_log s' = s_log s @ evs" "set evs \<subseteq> {Closed, Opened}"
  shows "auth_inv cfg Q s'"
proof -
  have "last_auth a evs = a \<and> log_ok a evs" for a
    using assms(5) by (induction evs) auto
  then show ?thesis using assms by (auto simp: auth_inv_def)
qed

lemma authenticate_result:
  assumes "authenticate cfg cb message s = Inr (ec, s')"
  shows "(ec \<noteq> success \<and> s' = s) \<or> (ec = success \<and> (\<exists>i k e svc. cb i k = Inr (success, e, svc)
    \<and> s' = s\<lparr>isAuthenticated := True, expirationTime := Some e, service := svc,
              s_log := s_log s @ [AuthOk i k e]\<rparr>))"
proof (cases "ec = success")
  case True
  obtain doc where doc: "c_parse cfg message = Some doc" "is_auth_message doc"
    using assms True by (auto simp: authenticate_def split: option.splits if_splits)
  obtain i k where t: "parseToken (json_token doc) = Inr (i, k)"
    using assms True doc by (auto simp: authenticate_def split: sum.splits)
  obtain ec' e svc where cb: "cb i k = Inr (ec', e, svc)"
    using assms doc t by (auto simp: authenticate_def bind_r_eq_Inr)
  then show ?thesis using assms True doc t
    by (intro disjI2 conjI exI[of _ i] exI[of _ k] exI[of _ e] exI[of _ svc])
      (auto simp: authenticate_def split: if_splits)
next
  case False
  then show ?thesis using assms
    by (auto simp: authenticate_def bind_r_eq_Inr split: option.splits if_splits sum.splits prod.splits)
qed

lemma authenticate_inv:
  assumes "auth_inv cfg Q s" "Q cb" "authenticate cfg cb message s = Inr (ec, s')"
  shows "auth_inv cfg Q s'"
proof -
  consider "s' = s" | i k e svc where "cb i k = Inr (success, e, svc)"
    "s' = s\<lparr>isAuthenticated := True, expirationTime := Some e, service := svc,
            s_log := s_log s @ [AuthOk i k e]\<rparr>"
    using authenticate_result[OF assms(3)] by blast
  then show ?thesis
  proof cases
    case 2
    then have "\<exists>cb svc. Q cb \<and> cb i k = Inr (success, e, svc)" using assms(2) by blast
    then show ?thesis using assms(1) 2(2) by (auto simp: auth_inv_def)
  qed (simp add: assms(1))
qed

lemma auth_inv_closed:
  assumes "auth_inv cfg Q s"
  shows "auth_inv cfg Q (shutdownSocket cfg s)" "auth_inv cfg Q (doAccept cfg s)"
    "auth_inv cfg Q (executeServerCloseCallback cfg s)"
proof -
  obtain n m where l: "s_log (shutdownSocket cfg s) = s_log s @ replicate n Closed"
    "s_log (doAccept cfg s) = s_log s @ replicate m Closed"
    using frame_log_close(2,3)[of cfg s] by blast
  show "auth_inv cfg Q (shutdownSocket cfg s)"
    by (rule auth_inv_frame[OF assms _ _ l(1)]) (auto simp: ws_frame)
  show "auth_inv cfg Q (doAccept cfg s)"
    by (rule auth_inv_frame[OF assms _ _ l(2)]) (auto simp: ws_frame)
  show "auth_inv cfg Q (executeServerCloseCallback cfg s)"
    by (rule auth_inv_frame[OF assms _ _ frame_log_close(1)]) (auto simp: ws_frame)
qed

lemma auth_inv_fields [simp]:
  "auth_inv cfg Q (s\<lparr>s_handshakes := n\<rparr>) = auth_inv cfg Q s" "auth_inv cfg Q (s\<lparr>s_accepts := n\<rparr>) = auth_inv cfg Q s"
  "auth_inv cfg Q (s\<lparr>s_reads := n\<rparr>) = auth_inv cfg Q s" "auth_inv cfg Q (s\<lparr>s_writes := n\<rparr>) = auth_inv cfg Q s"
  "auth_inv cfg Q (s\<lparr>s_timer := t\<rparr>) = auth_inv cfg Q s" "auth_inv cfg Q (s\<lparr>s_posted := ps\<rparr>) = auth_inv cfg Q s"
  "auth_inv cfg Q (s\<lparr>s_closing := n\<rparr>) = auth_inv cfg Q s" "auth_inv cfg Q (s\<lparr>s_tlsShutdowns := n\<rparr>) = auth_inv cfg Q s"
  "auth_inv cfg Q (s\<lparr>manager := sm\<rparr>) = auth_inv cfg Q s" "auth_inv cfg Q (s\<lparr>s_terminated := b\<rparr>) = auth_inv cfg Q s"
  "auth_inv cfg Q (s\<lparr>s_remoteClosed := b\<rparr>) = auth_inv cfg Q s" "auth_inv cfg Q (s\<lparr>isWriting := b\<rparr>) = auth_inv cfg Q s"
  "auth_inv cfg Q (s\<lparr>writeQueue := q\<rparr>) = auth_inv cfg Q s" "auth_inv cfg Q (s\<lparr>s_undefined := b\<rparr>) = auth_inv cfg Q s"
  "auth_inv cfg Q (s\<lparr>s_written := q\<rparr>) = auth_inv cfg Q s"
  by (simp_all add: auth_inv_def)

lemma auth_inv_opened [simp]:
  "l = s_log s \<Longrightarrow> auth_inv cfg Q (s\<lparr>s_log := l @ [Opened]\<rparr>) = auth_inv cfg Q s"
  by (auto simp: auth_inv_def)

lemma auth_inv_more [simp]:
  "auth_inv cfg Q (sendMessage m s) = auth_inv cfg Q s" "auth_inv cfg Q (send_system m s) = auth_inv cfg Q s"
  "auth_inv cfg Q (resetAuthTimer s) = auth_inv cfg Q s" "auth_inv cfg Q (closeSession cc s) = auth_inv cfg Q s"
  "auth_inv cfg Q (doRead s) = auth_inv cfg Q s" "auth_inv cfg Q (run_posted p s) = auth_inv cfg Q s"
  by (simp_all add: auth_inv_def ws_frame)

lemma auth_inv_deliver:
  assumes "auth_inv cfg Q s" "hasAuthCallback cfg \<longrightarrow> isAuthenticated s \<and> \<not> expired (expirationTime s) now"
  shows "auth_inv cfg Q (deliver cfg now m s)"
  using assms by (auto simp: auth_inv_def ws_frame expired_def split: option.splits)

lemma auth_inv_logout:
  "auth_inv cfg Q s \<Longrightarrow> auth_inv cfg Q (s\<lparr>isAuthenticated := False, expirationTime := None, service := False\<rparr>)"
  by (simp add: auth_inv_def)

lemma readCallback_inv:
  assumes "auth_inv cfg Q s" "Q cb"
  shows "auth_inv cfg Q (readCallback cfg cb now ec message s)"
proof -
  have r: "auth_inv cfg Q (resetAuthTimer s)" using assms(1) by simp
  have close: "auth_inv cfg Q (executeServerCloseCallback cfg
      (resetAuthTimer (s\<lparr>manager := x, s_remoteClosed := True\<rparr>)))" for x
    by (rule auth_inv_closed(3)) (use assms(1) in simp)
  show ?thesis
  proof (cases "authenticate cfg cb message (resetAuthTimer s)")
    case (Inl e)
    then show ?thesis using assms(1) r close
      by (auto simp: readCallback_def Let_def auth_inv_logout auth_inv_deliver)
  next
    case (Inr as)
    obtain aec s' where as: "as = (aec, s')" by (cases as)
    then have "auth_inv cfg Q s'" using authenticate_inv[OF r assms(2)] Inr by blast
    then show ?thesis using assms(1) close Inr as
      by (auto simp: readCallback_def Let_def auth_inv_logout auth_inv_deliver)
  qed
qed

lemma ws_step_auth_inv: "ws_step cfg Q s s' \<Longrightarrow> auth_inv cfg Q s \<Longrightarrow> auth_inv cfg Q s'"
proof (induction rule: ws_step.induct)
  case (read s n cb now ec message)
  then show ?case by (intro readCallback_inv) simp_all
next
  case (accept s n ec)
  then show ?case
    by (simp add: acceptCallback_def Let_def startAuthTimer_def)
next
  case (handshake s n ec)
  then show ?case by (simp add: handshakeCallback_def auth_inv_closed)
next
  case (written s n ec)
  then show ?case
    by (auto simp: writeCallback_def Let_def doWrite_def split: list.split)
next
  case (timer s ec)
  then show ?case by (simp add: authTimeoutCallback_def)
next
  case (closed s n)
  then show ?case by (simp add: auth_inv_closed)
next
  case (tls_shutdown s n)
  then show ?case by (simp add: auth_inv_closed)
qed simp_all

lemma ws_reach_auth_inv: "ws_reach cfg Q sid sm s \<Longrightarrow> auth_inv cfg Q s"
proof (induction rule: ws_reach.induct)
  case start
  have "auth_inv cfg Q (WebSocketClientSession sid sm)"
    by (simp add: auth_inv_def WebSocketClientSession_def)
  then show ?case by (simp add: startCallback_def auth_inv_closed)
qed (rule ws_step_auth_inv)

section \<open>One write at a time\<close>

definition write_inv :: "ws \<Rightarrow> bool" where
  "write_inv s \<longleftrightarrow> (s_systems s = 0 \<longrightarrow>
     s_writes s = (if isWriting s then 1 else 0) \<and> (isWriting s \<longleftrightarrow> writeQueue s \<noteq> [])
     \<and> \<not> s_undefined s \<and> subseq (s_written s @ drop 1 (writeQueue s)) (s_accepted s))"

lemma write_inv_fields [simp]:
  "write_inv (s\<lparr>s_handshakes := n\<rparr>) = write_inv s" "write_inv (s\<lparr>s_accepts := n\<rparr>) = write_inv s"
  "write_inv (s\<lparr>s_reads := n\<rparr>) = write_inv s" "write_inv (s\<lparr>s_timer := t\<rparr>) = write_inv s"
  "write_inv (s\<lparr>s_posted := ps\<rparr>) = write_inv s" "write_inv (s\<lparr>s_closing := n\<rparr>) = write_inv s"
  "write_inv (s\<lparr>s_tlsShutdowns := n\<rparr>) = write_inv s" "write_inv (s\<lparr>manager := sm\<rparr>) = write_inv s"
  "write_inv (s\<lparr>s_terminated := b\<rparr>) = write_inv s" "write_inv (s\<lparr>s_remoteClosed := b\<rparr>) = write_inv s"
  "write_inv (s\<lparr>s_log := l\<rparr>) = write_inv s" "write_inv (s\<lparr>isAuthenticated := b\<rparr>) = write_inv s"
  "write_inv (s\<lparr>expirationTime := e\<rparr>) = write_inv s" "write_inv (s\<lparr>service := b\<rparr>) = write_inv s"
  "write_inv (s\<lparr>s_closeCodes := c\<rparr>) = write_inv s"
  by (simp_all add: write_inv_def)

lemma write_inv_more [simp]:
  "write_inv (sendMessage m s) = write_inv s" "write_inv (send_system m s) = write_inv s"
  "write_inv (resetAuthTimer s) = write_inv s" "write_inv (closeSession cc s) = write_inv s"
  "write_inv (doRead s) = write_inv s" "write_inv (executeServerCloseCallback cfg s) = write_inv s"
  "write_inv (shutdownSocket cfg s) = write_inv s" "write_inv (doAccept cfg s) = write_inv s"
  "write_inv (deliver cfg now m s) = write_inv s" "write_inv (startAuthTimer s) = write_inv s"
  "write_inv (run_close cc s) = write_inv s"
  by (simp_all add: sendMessage_def send_system_def resetAuthTimer_def closeSession_def doRead_def
      startAuthTimer_def run_close_def deliver_def executeServerCloseCallback_def shutdownSocket_def
      doAccept_def Let_def split: prod.split)

lemma authenticate_write_inv:
  "authenticate cfg cb message s = Inr (ec, s') \<Longrightarrow> write_inv s' = write_inv s"
  using authenticate_result[of cfg cb message s ec s'] by auto

lemma readCallback_write_inv [simp]: "write_inv (readCallback cfg cb now ec message s) = write_inv s"
proof (cases "authenticate cfg cb message (resetAuthTimer s)")
  case (Inl e)
  then show ?thesis by (simp add: readCallback_def Let_def)
next
  case (Inr as)
  then obtain aec s' where "as = (aec, s')" "write_inv s' = write_inv s"
    using authenticate_write_inv by (cases as) fastforce
  then show ?thesis using Inr by (simp add: readCallback_def Let_def)
qed

lemma run_posted_write_inv: "write_inv s \<Longrightarrow> write_inv (run_posted p s)"
proof (cases p)
  case (PSend m)
  assume "write_inv s"
  then show ?thesis
    by (cases "writeQueue s")
      (auto simp: PSend write_inv_def run_send_def doWrite_def Let_def simp flip: append_assoc)
next
  case (PSystem m)
  then show ?thesis by (simp add: write_inv_def run_system_def doWrite_def Let_def)
qed simp

lemma subseq_cut: "subseq (xs @ ys) zs \<Longrightarrow> subseq xs zs"
  using list_emb_prefix[of "(=)" xs xs ys] subseq_order.trans by blast

lemma clear_write_inv:
  assumes "write_inv s" "s_writes s = Suc n" "s_writes x = n" "s_systems x = s_systems s"
    and "s_undefined x = s_undefined s" "s_written x = s_written s" "s_accepted x = s_accepted s"
  shows "write_inv (x\<lparr>isWriting := False, writeQueue := []\<rparr>)"
  using assms by (auto simp: write_inv_def dest: subseq_cut split: if_splits)

lemma popped_write_inv:
  assumes "write_inv s" "s_writes s = Suc n" "writeQueue s = q # rest"
  shows "write_inv (let s = s\<lparr>s_writes := n, writeQueue := rest\<rparr> in
    if rest \<noteq> [] then doWrite s else s\<lparr>isWriting := False\<rparr>)"
  using assms by (cases rest) (auto simp: write_inv_def doWrite_def split: if_splits)

lemma writeCallback_write_inv:
  assumes "write_inv s" "s_writes s = Suc n"
  shows "write_inv (writeCallback cfg ec (s\<lparr>s_writes := n\<rparr>))"
proof -
  consider (remote) "isRemoteCloseError cfg ec \<or> ec = BrokenPipe"
    | (aborted) "\<not> (isRemoteCloseError cfg ec \<or> ec = BrokenPipe)" "ec = OperationAborted"
    | (error) "\<not> (isRemoteCloseError cfg ec \<or> ec = BrokenPipe)" "ec \<noteq> OperationAborted" "ec \<noteq> NoError"
    | (ok) "\<not> (isRemoteCloseError cfg ec \<or> ec = BrokenPipe)" "ec = NoError"
    by blast
  then show ?thesis
  proof cases
    case remote
    then show ?thesis unfolding writeCallback_def if_P[OF remote]
      by (intro clear_write_inv[OF assms]) (simp_all add: resetAuthTimer_def)
  next
    case aborted
    then show ?thesis unfolding writeCallback_def if_not_P[OF aborted(1)] if_P[OF aborted(2)]
      by (intro clear_write_inv[OF assms]) simp_all
  next
    case error
    have "write_inv (s\<lparr>s_writes := n\<rparr>\<lparr>isWriting := False, writeQueue := []\<rparr>)"
      by (rule clear_write_inv[OF assms]) simp_all
    then show ?thesis using error by (simp add: writeCallback_def)
  next
    case ok
    show ?thesis
    proof (cases "writeQueue s")
      case Nil
      then show ?thesis using ok assms by (auto simp: writeCallback_def write_inv_def split: if_splits)
    next
      case (Cons q rest)
      then show ?thesis using ok popped_write_inv[OF assms Cons] by (simp add: writeCallback_def)
    qed
  qed
qed

lemma ws_step_write_inv: "ws_step cfg Q s s' \<Longrightarrow> write_inv s \<Longrightarrow> write_inv s'"
proof (induction rule: ws_step.induct)
  case (written s n ec)
  then show ?case by (intro writeCallback_write_inv)
qed (simp_all add: handshakeCallback_def acceptCallback_def authTimeoutCallback_def Let_def
    run_posted_write_inv)

lemma ws_reach_write_inv: "ws_reach cfg Q sid sm s \<Longrightarrow> write_inv s"
proof (induction rule: ws_reach.induct)
  case start
  have "write_inv (WebSocketClientSession sid sm)"
    by (simp add: write_inv_def WebSocketClientSession_def)
  then show ?case by (simp add: startCallback_def)
qed (rule ws_step_write_inv)

section \<open>Unauthenticated sessions do not linger\<close>

text \<open>The authentication timer runs, or the session is being closed, or is closed by the client.\<close>

definition watched :: "ws \<Rightarrow> bool" where
  "watched s \<longleftrightarrow> s_timer s = TimerRunning \<or> list_ex (\<lambda>p. case p of PClose _ \<Rightarrow> True | _ \<Rightarrow> False) (s_posted s)
     \<or> s_closeCodes s \<noteq> [] \<or> s_remoteClosed s"

definition watch_inv :: "ws_cfg \<Rightarrow> ws \<Rightarrow> bool" where
  "watch_inv cfg s \<longleftrightarrow> s_handshakes s + s_accepts s + s_reads s \<le> 1
     \<and> (hasAuthCallback cfg \<and> s_reads s > 0 \<and> \<not> isAuthenticated s \<longrightarrow> watched s)"

lemma closeSession_watched [simp]: "watched (closeSession cc s)"
  by (simp add: watched_def closeSession_def Let_def)

lemma watch_pending [simp]:
  "s_handshakes (closeSession cc s) = s_handshakes s" "s_accepts (closeSession cc s) = s_accepts s"
  "s_reads (closeSession cc s) = s_reads s"
  "s_handshakes (send_system m s) = s_handshakes s" "s_accepts (send_system m s) = s_accepts s"
  "s_reads (send_system m s) = s_reads s"
  "s_handshakes (resetAuthTimer s) = s_handshakes s" "s_accepts (resetAuthTimer s) = s_accepts s"
  "s_reads (resetAuthTimer s) = s_reads s"
  "s_handshakes (executeServerCloseCallback cfg s) = s_handshakes s"
  "s_accepts (executeServerCloseCallback cfg s) = s_accepts s"
  "s_reads (executeServerCloseCallback cfg s) = s_reads s"
  "s_handshakes (run_posted p s) = s_handshakes s" "s_accepts (run_posted p s) = s_accepts s"
  "s_reads (run_posted p s) = s_reads s"
  "s_handshakes (shutdownSocket cfg s) = s_handshakes s" "s_accepts (shutdownSocket cfg s) = s_accepts s"
  "s_reads (shutdownSocket cfg s) = s_reads s"
  by (cases p; auto simp: ws_ops split: list.split)+

lemma watched_more [simp]:
  "watched (executeServerCloseCallback cfg s) = watched s" "watched (shutdownSocket cfg s) = watched s"
  "watched s \<Longrightarrow> watched (run_posted p s)"
  "s_remoteClosed s \<Longrightarrow> watched (resetAuthTimer s)"
  by (cases p; auto simp: ws_ops watched_def split: list.split)+

lemma watched_posted:
  "s_posted s = p # ps \<Longrightarrow> watched s \<Longrightarrow> watched (run_posted p (s\<lparr>s_posted := ps\<rparr>))"
  by (cases p) (auto simp: ws_ops watched_def split: list.split)

lemma readCallback_watch:
  assumes "s_handshakes s + s_accepts s = 0" "s_reads s = 0"
  shows "watch_inv cfg (readCallback cfg cb now ec message s)"
proof -
  consider (err) "ec \<noteq> NoError" | (plain) "ec = NoError" "\<not> hasAuthCallback cfg"
    | (auth) "ec = NoError" "hasAuthCallback cfg" "isAuthenticated s"
    | (unauth) "ec = NoError" "hasAuthCallback cfg" "\<not> isAuthenticated s" by blast
  then show ?thesis
  proof cases
    case err
    then show ?thesis using assms by (auto simp: readCallback_def watch_inv_def)
  next
    case plain
    then show ?thesis using assms
      by (auto simp: readCallback_def watch_inv_def doRead_def deliver_def isRemoteCloseError_def)
  next
    case auth
    then show ?thesis using assms
      by (auto simp: readCallback_def watch_inv_def doRead_def deliver_def isRemoteCloseError_def)
  next
    case unauth
    show ?thesis
    proof (cases "authenticate cfg cb message (resetAuthTimer s)")
      case (Inl e)
      then show ?thesis using unauth assms
        by (auto simp: readCallback_def watch_inv_def isRemoteCloseError_def Let_def)
    next
      case (Inr as)
      obtain aec s' where as: "as = (aec, s')" by (cases as)
      note r = authenticate_result[OF Inr[unfolded as]]
      show ?thesis
      proof (cases "aec = success")
        case True
        then have "isAuthenticated s'" "s_handshakes s' + s_accepts s' = 0" "s_reads s' = 0"
          using r assms by auto
        then show ?thesis using True Inr as unauth
          by (simp add: readCallback_def watch_inv_def isRemoteCloseError_def Let_def doRead_def sendMessage_def)
      next
        case False
        then have "s' = resetAuthTimer s" using r by blast
        then show ?thesis using False Inr as unauth assms
          by (simp add: readCallback_def watch_inv_def isRemoteCloseError_def Let_def)
      qed
    qed
  qed
qed

lemma writeCallback_watch:
  assumes "watch_inv cfg s"
  shows "watch_inv cfg (writeCallback cfg ec s)"
proof (cases "isRemoteCloseError cfg ec \<or> ec = BrokenPipe")
  case True
  then show ?thesis using assms
    by (simp add: writeCallback_def watch_inv_def watched_def resetAuthTimer_def)
next
  case False
  then show ?thesis using assms
    by (auto simp: writeCallback_def watch_inv_def watched_def closeSession_def resetAuthTimer_def
        doWrite_def Let_def split: list.split)
qed

lemma doAccept_watch:
  "s_handshakes s + s_accepts s + s_reads s = 0 \<Longrightarrow> watch_inv cfg (doAccept cfg s)"
  by (auto simp: doAccept_def watch_inv_def Let_def split: prod.split)

lemma ws_step_watch_inv: "ws_step cfg Q s s' \<Longrightarrow> watch_inv cfg s \<Longrightarrow> watch_inv cfg s'"
proof (induction rule: ws_step.induct)
  case (handshake s n ec)
  then have "s_handshakes (s\<lparr>s_handshakes := n\<rparr>) + s_accepts (s\<lparr>s_handshakes := n\<rparr>)
      + s_reads (s\<lparr>s_handshakes := n\<rparr>) = 0" by (simp add: watch_inv_def)
  from doAccept_watch[OF this] handshake show ?case
    by (auto simp: handshakeCallback_def watch_inv_def)
next
  case (accept s n ec)
  then show ?case
    by (auto simp: acceptCallback_def watch_inv_def watched_def startAuthTimer_def doRead_def Let_def)
next
  case (read s n cb now ec message)
  then show ?case by (intro readCallback_watch) (simp_all add: watch_inv_def)
next
  case (written s n ec)
  then show ?case by (intro writeCallback_watch) (simp add: watch_inv_def watched_def)
next
  case (timer s ec)
  show ?case
  proof (cases "ec = OperationAborted \<or> isAuthenticated s")
    case True
    then show ?thesis using timer
      by (auto simp: authTimeoutCallback_def watch_inv_def watched_def)
  next
    case False
    then show ?thesis using timer by (simp add: authTimeoutCallback_def watch_inv_def)
  qed
next
  case (posted s p ps)
  then show ?case using watched_posted[of s p ps] by (auto simp: watch_inv_def ws_frame)
next
  case (closed s n)
  then show ?case by (simp add: watch_inv_def ws_frame) (simp add: watched_def)
next
  case (tls_shutdown s n)
  then show ?case by (simp add: watch_inv_def ws_frame) (simp add: watched_def)
next
  case (server_send s message)
  then show ?case by (simp add: watch_inv_def watched_def sendMessage_def)
next
  case (server_close s cc)
  then show ?case by (simp add: watch_inv_def ws_frame)
next
  case (others s sm)
  then show ?case by (simp add: watch_inv_def watched_def)
qed

lemma ws_reach_watch_inv: "ws_reach cfg Q sid sm s \<Longrightarrow> watch_inv cfg s"
proof (induction rule: ws_reach.induct)
  case start
  show ?case by (simp add: startCallback_def doAccept_watch WebSocketClientSession_def)
      (simp add: watch_inv_def)
qed (rule ws_step_watch_inv)

section \<open>Registry with a capacity\<close>

datatype ('k, 'p) reg_op = Reg 'k 'p | Unreg 'k

definition reg_apply ::
    "('k \<Rightarrow> 'p \<Rightarrow> 'm \<Rightarrow> bool \<times> 'm) \<Rightarrow> ('k \<Rightarrow> 'm \<Rightarrow> bool \<times> 'm) \<Rightarrow> ('k, 'p) reg_op \<Rightarrow> 'm \<Rightarrow> 'm" where
  "reg_apply register unregister op m =
    (case op of Reg k p \<Rightarrow> snd (register k p m) | Unreg k \<Rightarrow> snd (unregister k m))"

text \<open>
  What the sessions and the server rely on: a registry that refuses an entry when it is full and
  otherwise finds it under its key until it is unregistered.
\<close>

locale bounded_registry =
  fixes register :: "'k \<Rightarrow> 'p \<Rightarrow> 'm \<Rightarrow> bool \<times> 'm"
    and unregister :: "'k \<Rightarrow> 'm \<Rightarrow> bool \<times> 'm"
    and lookup :: "'k \<Rightarrow> 'm \<Rightarrow> 'p option"
    and entries :: "'m \<Rightarrow> nat"
    and cap :: "'m \<Rightarrow> nat"
    and wf_reg :: "'m \<Rightarrow> bool"
  assumes register_full: "cap m \<le> entries m \<Longrightarrow> register k p m = (False, m)"
    and register_room: "wf_reg m \<Longrightarrow> entries m < cap m \<Longrightarrow>
      fst (register k p m) \<and> wf_reg (snd (register k p m)) \<and> cap (snd (register k p m)) = cap m
      \<and> entries (snd (register k p m)) \<le> Suc (entries m)
      \<and> lookup k' (snd (register k p m)) = (if k' = k then Some p else lookup k' m)"
    and unregister_law: "wf_reg m \<Longrightarrow>
      wf_reg (snd (unregister k m)) \<and> cap (snd (unregister k m)) = cap m
      \<and> entries (snd (unregister k m)) \<le> entries m
      \<and> fst (unregister k m) = (lookup k m \<noteq> None)
      \<and> lookup k' (snd (unregister k m)) = (if k' = k then None else lookup k' m)"
begin

lemma apply_keeps:
  assumes "wf_reg m" "entries m \<le> cap m"
  shows "wf_reg (reg_apply register unregister op m) \<and> cap (reg_apply register unregister op m) = cap m
    \<and> entries (reg_apply register unregister op m) \<le> cap m"
proof (cases op)
  case (Reg k p)
  show ?thesis
  proof (cases "entries m < cap m")
    case True
    then show ?thesis using register_room[OF assms(1) True, of k p k] by (auto simp: Reg reg_apply_def)
  next
    case False
    then show ?thesis using register_full[of m k p] assms by (simp add: Reg reg_apply_def)
  qed
next
  case (Unreg k)
  then show ?thesis using unregister_law[OF assms(1), of k k] assms(2) by (auto simp: reg_apply_def)
qed

lemma run_keeps:
  assumes "wf_reg m" "entries m \<le> cap m"
  shows "wf_reg (fold (reg_apply register unregister) ops m)
    \<and> cap (fold (reg_apply register unregister) ops m) = cap m
    \<and> entries (fold (reg_apply register unregister) ops m) \<le> cap m"
  using assms
proof (induction ops arbitrary: m)
  case (Cons op ops)
  then show ?case using apply_keeps[OF Cons.prems, of op]
      Cons.IH[of "reg_apply register unregister op m"] by auto
qed simp

lemma lookup_after:
  assumes "wf_reg m"
  shows "fst (register k p m) = (entries m < cap m)"
    and "entries m < cap m \<Longrightarrow> lookup k (snd (register k p m)) = Some p"
    and "lookup k (snd (unregister k m)) = None"
proof -
  show "fst (register k p m) = (entries m < cap m)"
    using register_full[of m k p] register_room[OF assms, of k p k] by (cases "entries m < cap m") auto
  show "entries m < cap m \<Longrightarrow> lookup k (snd (register k p m)) = Some p"
    using register_room[OF assms, of k p k] by simp
  show "lookup k (snd (unregister k m)) = None"
    using unregister_law[OF assms, of k k] by simp
qed

end

lemma length_update_le: "length (AList.update k v al) \<le> Suc (length al)"
  by (induction al) auto

interpretation sess_reg: bounded_registry registerSession unregisterSession "getSession (\<lambda>_. True)"
  "\<lambda>sm. length (sessionStorage sm)" capacity "\<lambda>sm. distinct (map fst (sessionStorage sm))"
proof
  fix m :: "'p session_manager" and k k' :: u64 and p :: 'p
  show "capacity m \<le> length (sessionStorage m) \<Longrightarrow> registerSession k p m = (False, m)"
    by (simp add: registerSession_def)
  assume d: "distinct (map fst (sessionStorage m))"
  show "length (sessionStorage m) < capacity m \<Longrightarrow>
      fst (registerSession k p m) \<and> distinct (map fst (sessionStorage (snd (registerSession k p m))))
      \<and> capacity (snd (registerSession k p m)) = capacity m
      \<and> length (sessionStorage (snd (registerSession k p m))) \<le> Suc (length (sessionStorage m))
      \<and> getSession (\<lambda>_. True) k' (snd (registerSession k p m))
          = (if k' = k then Some p else getSession (\<lambda>_. True) k' m)"
    using d length_update_le[of k p "sessionStorage m"]
    by (auto simp: registerSession_def getSession_def AList.distinct_update AList.update_conv'
        split: option.split)
  show "distinct (map fst (sessionStorage (snd (unregisterSession k m))))
      \<and> capacity (snd (unregisterSession k m)) = capacity m
      \<and> length (sessionStorage (snd (unregisterSession k m))) \<le> length (sessionStorage m)
      \<and> fst (unregisterSession k m) = (getSession (\<lambda>_. True) k m \<noteq> None)
      \<and> getSession (\<lambda>_. True) k' (snd (unregisterSession k m))
          = (if k' = k then None else getSession (\<lambda>_. True) k' m)"
    using d by (auto simp: unregisterSession_def getSession_def AList.distinct_delete AList.delete_conv'
        AList.length_delete_le split: option.split)
qed

section \<open>A sample run\<close>

text \<open>
  A plain stream, all callbacks set; the message \<open>A\<close> is an authentication message with a well
  formed token, and the callback accepts it until time 10.
\<close>

definition sample_token :: string where
  "sample_token = ''iqrfgd2;1;'' @ replicate 44 CHR ''A''"

definition sample_cfg :: ws_cfg where
  "sample_cfg = \<lparr>
     c_parse = (\<lambda>m. if m = ''A'' then Some (JObj [(''type'', JStr ''auth''), (''token'', JStr sample_token)]) else None),
     c_dump = (\<lambda>j. case j of JObj ((_, JStr t) # _) \<Rightarrow> t | _ \<Rightarrow> []),
     c_toISO8601 = (\<lambda>t. []), usesTlsStream = False, hasOpenCallback = False,
     hasMessageCallback = True, hasAuthCallback = True, hasCloseCallback = False\<rparr>"

lemma sample_cfg_fields [simp]:
  "\<not> usesTlsStream sample_cfg" "\<not> hasOpenCallback sample_cfg" "hasMessageCallback sample_cfg"
  "hasAuthCallback sample_cfg" "\<not> hasCloseCallback sample_cfg"
  "c_dump sample_cfg (JObj ((k, JStr t) # fs)) = t"
  by (simp_all add: sample_cfg_def)

definition sample_cb :: auth_callback where
  "sample_cb tid secret = Inr (success, 10, False)"

abbreviation sample_sm :: "unit session_manager" where
  "sample_sm \<equiv> \<lparr>sessionIdCounter = 1, capacity = 1, sessionStorage = [(0, ())]\<rparr>"

text \<open>The session after it authenticated and its success message is being written.\<close>

definition sample_auth :: ws where
  "sample_auth = \<lparr>sessionId = 0, isWriting = True, writeQueue = [''auth_success''], isAuthenticated = True,
     expirationTime = Some 10, service = False, manager = sample_sm, s_posted = [], s_handshakes = 0,
     s_accepts = 0, s_reads = 1, s_writes = 1, s_closing = 0, s_tlsShutdowns = 0,
     s_timer = TimerCancelled, s_accepted = [''auth_success''], s_written = [''auth_success''],
     s_systems = 0, s_remoteClosed = False, s_closeCodes = [],
     s_log = [AuthOk 1 (replicate 44 CHR ''A'') 10], s_undefined = False, s_terminated = False\<rparr>"

lemma sample_authenticate:
  assumes "cb 1 (replicate 44 CHR ''A'') = Inr (success, 10, False)"
  shows "authenticate sample_cfg cb ''A'' s = Inr (success,
     s\<lparr>isAuthenticated := True, expirationTime := Some 10, service := False,
       s_log := s_log s @ [AuthOk 1 (replicate 44 CHR ''A'') 10]\<rparr>)"
proof -
  have "token_form sample_token ''1'' (replicate 44 CHR ''A'')"
    by (simp add: token_form_def sample_token_def isdigit_def dec_value_def isBase64Character_def
        isalnum_def isalpha_def list_all_iff)
  then have "parseToken sample_token = Inr (1, replicate 44 CHR ''A'')"
    using parseToken_form by (fastforce simp: dec_value_def)
  then show ?thesis using assms by (simp add: authenticate_def sample_cfg_def)
qed

lemmas sample_simps = startCallback_def doAccept_def registerSession_def acceptCallback_def
  startAuthTimer_def doRead_def readCallback_def isRemoteCloseError_def resetAuthTimer_def
  sendMessage_def run_send_def doWrite_def WebSocketClientSession_def SessionManager_def Let_def

lemma sample_accepted:
  "ws_reach sample_cfg Q 0 (sample_sm\<lparr>sessionStorage := []\<rparr>)
     ((WebSocketClientSession 0 sample_sm)\<lparr>s_reads := 1, s_timer := TimerRunning\<rparr>)"
  using ws_reach.step[OF ws_reach.start ws_step.accept,
      of sample_cfg 0 "sample_sm\<lparr>sessionStorage := []\<rparr>" 0 Q NoError]
  by (simp add: sample_simps)

lemma sample_auth_reachable:
  assumes "Q cb" "cb 1 (replicate 44 CHR ''A'') = Inr (success, 10, False)"
  shows "ws_reach sample_cfg Q 0 (sample_sm\<lparr>sessionStorage := []\<rparr>) sample_auth"
proof -
  note r1 = ws_reach.step[OF sample_accepted ws_step.read, of 0 Q cb 0 NoError "''A''"]
  have r2: "ws_reach sample_cfg Q 0 (sample_sm\<lparr>sessionStorage := []\<rparr>)
      (sample_auth\<lparr>isWriting := False, writeQueue := [], s_writes := 0, s_accepted := [], s_written := [],
         s_posted := [PSend ''auth_success'']\<rparr>)"
    using r1 assms(1)
    by (simp add: sample_simps sample_authenticate[of cb, OF assms(2)] create_auth_success_message_def sample_auth_def)
  show ?thesis
    using ws_reach.step[OF r2 ws_step.posted, of "PSend ''auth_success''" "[]"]
    by (simp add: sample_simps sample_auth_def)
qed

lemma sample_delivered:
  assumes "Q cb" "cb 1 (replicate 44 CHR ''A'') = Inr (success, 10, False)"
  shows "ws_reach sample_cfg Q 0 (sample_sm\<lparr>sessionStorage := []\<rparr>)
     (sample_auth\<lparr>s_log := s_log sample_auth @ [Deliver ''x'' 5]\<rparr>)"
  using ws_reach.step[OF sample_auth_reachable[of Q cb, OF assms] ws_step.read, of 0 cb 5 NoError "''x''"] assms(1)
  by (simp add: sample_auth_def readCallback_def isRemoteCloseError_def expired_def deliver_def doRead_def)

lemma sample_cb_accepts: "sample_cb 1 (replicate 44 CHR ''A'') = Inr (success, 10, False)"
  by (simp add: sample_cb_def)

lemmas sample_cb_reachable = sample_auth_reachable[of "\<lambda>cb. cb = sample_cb" sample_cb, OF refl sample_cb_accepts]

lemma delivery_authenticated:
  assumes "ws_reach cfg Q sid sm s" "hasAuthCallback cfg" "s_log s = xs @ Deliver m t # ys"
  shows "\<exists>i k e cb svc. AuthOk i k e \<in> set xs \<and> t \<le> e \<and> Q cb \<and> cb i k = Inr (success, e, svc)"
proof -
  have inv: "auth_inv cfg Q s" using ws_reach_auth_inv[OF assms(1)] .
  then have "log_ok None (xs @ Deliver m t # ys)" using assms(2,3) by (simp add: auth_inv_def)
  then obtain e where e: "last_auth None xs = Some e" "t \<le> e" by (auto split: option.splits)
  then obtain i k where "AuthOk i k e \<in> set xs" using last_auth_mem by blast
  then show ?thesis using inv assms(3) e(2) by (fastforce simp: auth_inv_def)
qed

section \<open>Properties\<close>

text \<open>
  C2: On a server with an authentication callback, every message handed to the application was
  received after the session had authenticated with a token the callback accepted, and not
  after the expiration time the callback returned for it. This holds in every state the session
  can reach, whatever the client sends and whichever operations fail.\<close>

theorem auth_before_delivery:
  assumes "ws_reach cfg Q sid sm s" "hasAuthCallback cfg" "s_log s = xs @ Deliver m t # ys"
  shows "\<exists>i k e cb svc. AuthOk i k e \<in> set xs \<and> t \<le> e \<and> Q cb \<and> cb i k = Inr (success, e, svc)"
  using delivery_authenticated[OF assms] .

theorem auth_before_delivery_witness:
  "\<exists>i k e cb svc. AuthOk i k e \<in> set (s_log sample_auth) \<and> 5 \<le> e \<and> cb = sample_cb \<and> cb i k = Inr (success, e, svc)"
  using auth_before_delivery[OF sample_delivered[of "\<lambda>cb. cb = sample_cb" sample_cb, OF refl sample_cb_accepts], of "s_log sample_auth" "''x''" 5 "[]"]
  by (simp add: sample_auth_def)

text \<open>
  C32: As long as no system message was sent, at most one \<open>async_write\<close> is outstanding, exactly while
  \<open>isWriting_\<close> is set and the queue is not empty, the deque is never accessed while empty, and the
  messages are written in the order in which they were queued.\<close>

theorem writes_serialised:
  assumes "ws_reach cfg Q sid sm s" "s_systems s = 0"
  shows "s_writes s = (if isWriting s then 1 else 0) \<and> isWriting s = (writeQueue s \<noteq> [])
    \<and> \<not> s_undefined s \<and> subseq (s_written s) (s_accepted s)"
  using ws_reach_write_inv[OF assms(1)] assms(2) by (auto simp: write_inv_def dest: subseq_cut)

theorem writes_serialised_witness:
  "s_writes sample_auth = 1 \<and> \<not> s_undefined sample_auth \<and> subseq (s_written sample_auth) (s_accepted sample_auth)"
  using writes_serialised[OF sample_cb_reachable] by (simp add: sample_auth_def)

text \<open>
  A system message breaks this: \<open>send_system\<close> clears \<open>isWriting_\<close> and the queue while a write may be
  outstanding. A session that authenticates and whose token expires before its success message
  is written reaches a state with two outstanding writes (which Boost.Beast forbids), and, when
  both complete, pops from an empty queue (undefined behaviour).\<close>

theorem system_message_double_write:
  "(\<exists>s. ws_reach sample_cfg (\<lambda>cb. cb = sample_cb) 0 (sample_sm\<lparr>sessionStorage := []\<rparr>) s \<and> s_writes s = 2)
   \<and> (\<exists>s. ws_reach sample_cfg (\<lambda>cb. cb = sample_cb) 0 (sample_sm\<lparr>sessionStorage := []\<rparr>) s \<and> s_undefined s)"
proof -
  let ?R = "ws_reach sample_cfg (\<lambda>cb. cb = sample_cb) 0 (sample_sm\<lparr>sessionStorage := []\<rparr>)"
  let ?e = "sample_auth\<lparr>isAuthenticated := False, expirationTime := None, s_reads := 0,
      manager := sample_sm\<lparr>sessionStorage := []\<rparr>\<rparr>"
  have r1: "?R (?e\<lparr>s_posted := [PSystem ''auth_error'', PClose cc_policy_error]\<rparr>)"
    using ws_reach.step[OF sample_cb_reachable ws_step.read, of 0 sample_cb 20 NoError "''x''"]
    by (simp add: sample_auth_def readCallback_def isRemoteCloseError_def expired_def closeSession_def
        send_system_def resetAuthTimer_def unregisterSession_def create_auth_error_message_def Let_def)
  let ?w = "?e\<lparr>s_posted := [PClose cc_policy_error], writeQueue := [''auth_error''], s_writes := 2,
      s_written := [''auth_success'', ''auth_error''], s_systems := 1\<rparr>"
  have r2: "?R ?w"
    using ws_reach.step[OF r1 ws_step.posted, of "PSystem ''auth_error''" "[PClose cc_policy_error]"]
    by (simp add: sample_auth_def run_system_def doWrite_def Let_def numeral_2_eq_2)
  have r3: "?R (?w\<lparr>writeQueue := [], s_writes := 1, isWriting := False\<rparr>)"
    using ws_reach.step[OF r2 ws_step.written, of 1 NoError]
    by (simp add: sample_auth_def writeCallback_def isRemoteCloseError_def Let_def)
  have r4: "?R (?w\<lparr>writeQueue := [], s_writes := 0, isWriting := False, s_undefined := True\<rparr>)"
    using ws_reach.step[OF r3 ws_step.written, of 0 NoError]
    by (simp add: sample_auth_def writeCallback_def isRemoteCloseError_def)
  have "s_writes ?w = 2" "s_undefined (?w\<lparr>writeQueue := [], s_writes := 0, isWriting := False, s_undefined := True\<rparr>)"
    by simp_all
  then show ?thesis using r2 r4 by blast
qed

text \<open>
  A session that must authenticate and has not done so never waits for messages unobserved: its
  authentication timer is running, or it is being closed, or the client has closed the
  connection; and at most one read is outstanding.\<close>

theorem unauthenticated_watched:
  assumes "ws_reach cfg Q sid sm s" "hasAuthCallback cfg" "s_reads s > 0" "\<not> isAuthenticated s"
  shows "s_reads s = 1 \<and> watched s"
  using ws_reach_watch_inv[OF assms(1)] assms(2-) by (simp add: watch_inv_def)

theorem unauthenticated_watched_witness:
  "watched ((WebSocketClientSession 0 sample_sm)\<lparr>s_reads := 1, s_timer := TimerRunning\<rparr>)"
  using unauthenticated_watched[OF sample_accepted] by (simp add: WebSocketClientSession_def)

text \<open>
  The session manager never holds more sessions than its capacity, whatever sequence of
  registrations and unregistrations runs; a session is accepted exactly when there is room, is
  then found under its id, and is not found after it was unregistered.\<close>

theorem session_capacity:
  fixes cap :: nat
  defines "sm \<equiv> \<lambda>ops. fold (reg_apply registerSession unregisterSession) ops (SessionManager cap :: 'p session_manager)"
  shows "length (sessionStorage (sm ops)) \<le> cap
    \<and> fst (registerSession k p (sm ops)) = (length (sessionStorage (sm ops)) < cap)
    \<and> getSession (\<lambda>_. True) k (snd (registerSession k p (sm ops)))
        = (if length (sessionStorage (sm ops)) < cap then Some p else getSession (\<lambda>_. True) k (sm ops))
    \<and> getSession (\<lambda>_. True) k (snd (unregisterSession k (sm ops))) = None"
proof -
  have init: "distinct (map fst (sessionStorage (SessionManager cap :: 'p session_manager)))"
    "length (sessionStorage (SessionManager cap :: 'p session_manager)) \<le> capacity (SessionManager cap :: 'p session_manager)"
    "capacity (SessionManager cap :: 'p session_manager) = cap"
    by (simp_all add: SessionManager_def)
  note k = sess_reg.run_keeps[OF init(1,2), of ops]
  have d: "distinct (map fst (sessionStorage (sm ops)))" "capacity (sm ops) = cap"
    "length (sessionStorage (sm ops)) \<le> cap"
    using k init(3) by (simp_all add: sm_def)
  show ?thesis
    using sess_reg.lookup_after(1,2)[OF d(1), of k p] sess_reg.lookup_after(3)[OF d(1), of k] d
      sess_reg.register_full[of "sm ops" k p]
    by (auto simp: not_less)
qed

end
