(* ===== verification/Ws_Messaging.thy ===== *)
theory Ws_Messaging
  imports Ws_Session
begin

text \<open>
  \<open>WebsocketMessaging/WebsocketMessaging.cpp\<close>: the glue between the sessions and the authentication
  service, and the worker that closes the sessions of tokens that were revoked or deleted. The
  map \<open>m_sessionTokenMap\<close> from session ids to token ids is an association list in the order in
  which its iterator visits it.
\<close>

type_synonym session_tokens = "(u64 \<times> u32) list"

text \<open>
  \<open>handleWebsocketSessionAuth\<close>: the token table and the session map change; an exception of the
  authentication service passes through.
\<close>

definition handleWebsocketSessionAuth ::
    "crypto \<Rightarrow> (int \<Rightarrow> int) \<Rightarrow> bool \<Rightarrow> bool \<Rightarrow> int \<Rightarrow> u64 \<Rightarrow> u32 \<Rightarrow> string \<Rightarrow> int \<times> bool \<Rightarrow>
     token_db \<times> session_tokens \<Rightarrow> (token_db \<times> session_tokens) \<times> (auth_error \<times> int \<times> bool) result" where
  "handleWebsocketSessionAuth cr ts gt ut now sid tid secret out st =
    (let (db, tokens) = st;
         (db', r) = authenticate_token cr ts gt ut now tid secret out db in
     case r of
       Inl e \<Rightarrow> ((db', tokens), Inl e)
     | Inr (None, o') \<Rightarrow> ((db', tokens), Inr (invalid_token, o'))
     | Inr (Some Revoked, o') \<Rightarrow> ((db', tokens), Inr (revoked_token, o'))
     | Inr (Some Expired, o') \<Rightarrow> ((db', tokens), Inr (expired_token, o'))
     | Inr (Some Valid, o') \<Rightarrow> ((db', AList.update sid tid tokens), Inr (success, o')))"

definition handleSessionClosed :: "u64 \<Rightarrow> session_tokens \<Rightarrow> session_tokens" where
  "handleSessionClosed sid tokens = AList.delete sid tokens"

text \<open>
  One round of \<open>tokenCheckWorker\<close>: \<open>cache\<close> is \<open>tokenMap\<close>, \<open>acts\<close> the sessions that were sent an
  error message and closed with a close code, and the result the map without them.
\<close>

fun check_tokens ::
    "(u32 \<Rightarrow> bool option) \<Rightarrow> (u32 \<times> bool) list \<Rightarrow> session_tokens \<Rightarrow>
     session_tokens \<times> (u64 \<times> auth_error \<times> close_code) list" where
  "check_tokens isRev cache [] = ([], [])"
| "check_tokens isRev cache ((sid, tid) # rest) =
    (case map_of cache tid of
       Some revoked \<Rightarrow>
         (if revoked then
            (let (kept, acts) = check_tokens isRev cache rest in
             (kept, (sid, revoked_token, cc_policy_error) # acts))
          else
            (let (kept, acts) = check_tokens isRev cache rest in ((sid, tid) # kept, acts)))
     | None \<Rightarrow>
         (case isRev tid of
            None \<Rightarrow>
              (let (kept, acts) = check_tokens isRev cache rest in
               (kept, (sid, invalid_token, cc_internal_error) # acts))
          | Some revoked \<Rightarrow>
              (let (kept, acts) = check_tokens isRev ((tid, revoked) # cache) rest in
               if revoked then (kept, (sid, revoked_token, cc_policy_error) # acts)
               else ((sid, tid) # kept, acts))))"

definition token_check_round :: "token_db \<Rightarrow> session_tokens \<Rightarrow> session_tokens \<times> (u64 \<times> auth_error \<times> close_code) list" where
  "token_check_round db tokens = check_tokens (isRevoked db) [] tokens"

section \<open>Token check\<close>

lemma check_tokens_spec:
  assumes "\<forall>t r. map_of cache t = Some r \<longrightarrow> isRev t = Some r"
  shows "check_tokens isRev cache tokens =
    (filter (\<lambda>(_, t). isRev t = Some False) tokens,
     map (\<lambda>(sid, t). if isRev t = None then (sid, invalid_token, cc_internal_error)
                      else (sid, revoked_token, cc_policy_error))
       (filter (\<lambda>(_, t). isRev t \<noteq> Some False) tokens))"
  using assms
proof (induction isRev cache tokens rule: check_tokens.induct)
  case (2 isRev cache sid tid rest)
  show ?case
  proof (cases "map_of cache tid")
    case None
    then show ?thesis using 2 by (cases "isRev tid") (auto split: prod.split if_splits)
  next
    case (Some r)
    then have "isRev tid = Some r" using "2.prems" by blast
    then show ?thesis using 2 Some by (cases r) (auto split: prod.split)
  qed
qed simp

section \<open>Properties\<close>

text \<open>
  A round of the token check closes exactly the sessions whose token is gone (with
  \<open>internal_error\<close>) or revoked (with \<open>policy_error\<close>), each with its error message, and keeps
  exactly the other sessions, in order: after a round no session is left with a revoked or
  deleted token.\<close>

theorem token_check_correct:
  "token_check_round db tokens =
    (filter (\<lambda>(_, t). case db t of None \<Rightarrow> False | Some row \<Rightarrow> t_status row \<noteq> Revoked) tokens,
     map (\<lambda>(sid, t). if db t = None then (sid, invalid_token, cc_internal_error)
                      else (sid, revoked_token, cc_policy_error))
       (filter (\<lambda>(_, t). case db t of None \<Rightarrow> True | Some row \<Rightarrow> t_status row = Revoked) tokens))"
proof -
  have "isRevoked db t = Some False \<longleftrightarrow> (case db t of None \<Rightarrow> False | Some row \<Rightarrow> t_status row \<noteq> Revoked)"
    "isRevoked db t \<noteq> Some False \<longleftrightarrow> (case db t of None \<Rightarrow> True | Some row \<Rightarrow> t_status row = Revoked)"
    "isRevoked db t = None \<longleftrightarrow> db t = None" for t
    by (auto simp: isRevoked_def split: option.split)
  then show ?thesis unfolding token_check_round_def
    by (subst check_tokens_spec) (simp_all only: simp_thms map_of.simps option.distinct)
qed

end
