(* ===== verification/Crc_Ccitt.thy ===== *)
theory Crc_Ccitt
  imports Gwd_Prelude
begin

text \<open>
  \<open>IdeCounterpart/crc.h\<close>: the table driven CRC of the UDP packets exchanged with the IQRF IDE. The
  reference is the shift register of the polynomial, one bit at a time; the table driven routine equals
  it, and it detects every change of a single byte.
\<close>

section \<open>The code\<close>

definition P_CCITT :: u16 where
  "P_CCITT = 0x1021"

text \<open>The inner loop of \<open>InitTabCRC_CCITT\<close>: \<open>j\<close> rounds left.\<close>

fun tab_loop :: "nat \<Rightarrow> u16 \<Rightarrow> u16 \<Rightarrow> u16" where
  "tab_loop 0 crc c = crc"
| "tab_loop (Suc j) crc c =
     tab_loop j
       (if (crc XOR c) AND 0x8000 \<noteq> 0 then push_bit 1 crc XOR P_CCITT else push_bit 1 crc)
       (push_bit 1 c)"

definition InitTabCRC_CCITT :: "u16 list" where
  "InitTabCRC_CCITT = map (\<lambda>i. tab_loop 8 0 (push_bit 8 (word_of_nat i))) [0..<256]"

definition UpdateCRC_CCITT :: "u16 list \<Rightarrow> u16 \<Rightarrow> u8 \<Rightarrow> u16" where
  "UpdateCRC_CCITT tab crc c =
     (let short_c = 0x00ff AND ucast c;
          tmp = drop_bit 8 crc XOR short_c
      in push_bit 8 crc XOR tab ! unat tmp)"

text \<open>The loop of \<open>GetCRC_CCITT\<close> over \<open>uint16_t i < len\<close>.\<close>

definition GetCRC_CCITT :: "bytes \<Rightarrow> u16 \<Rightarrow> u16 result" where
  "GetCRC_CCITT buf len =
     (if unat len \<le> length buf
      then Inr (foldl (UpdateCRC_CCITT InitTabCRC_CCITT) 0 (take (unat len) buf))
      else Inl (UB ''buffer overrun''))"

section \<open>The reference\<close>

text \<open>One shift of the register, and a byte entered at its upper end.\<close>

definition crc_shift :: "u16 \<Rightarrow> u16" where
  "crc_shift x = (if bit x 15 then push_bit 1 x XOR P_CCITT else push_bit 1 x)"

definition crc_byte :: "u16 \<Rightarrow> u8 \<Rightarrow> u16" where
  "crc_byte crc c = (crc_shift ^^ 8) (crc XOR push_bit 8 (ucast c))"

definition crc_bitwise :: "bytes \<Rightarrow> u16" where
  "crc_bitwise bs = foldl crc_byte 0 bs"

lemma and_8000: "(x :: u16) AND 0x8000 \<noteq> 0 \<longleftrightarrow> bit x 15"
proof -
  have "(0x8000 :: u16) = push_bit 15 1" by (simp add: push_bit_eq_mult)
  then have "bit (x AND 0x8000) n \<longleftrightarrow> bit x 15 \<and> n = 15" for n
    by (cases "n = 15") (auto simp only: bit_and_iff bit_push_bit_iff bit_1_iff, auto)
  then show ?thesis by (simp add: bit_eq_iff[of _ 0])
qed

lemma crc_shift_xor: "crc_shift (x XOR y) = crc_shift x XOR crc_shift y"
  by (auto simp: crc_shift_def bit_xor_iff push_bit_xor ac_simps xor.left_commute)

lemma crc_shifts_xor: "(crc_shift ^^ n) (x XOR y) = (crc_shift ^^ n) x XOR (crc_shift ^^ n) y"
  by (induction n) (simp_all add: crc_shift_xor)

lemma crc_shift_0 [simp]: "crc_shift 0 = 0"
  by (simp add: crc_shift_def)

text \<open>The register does not forget: the constant term of the polynomial is one.\<close>

lemma crc_shift_eq_0: "crc_shift x = 0 \<longleftrightarrow> x = 0"
proof
  assume z: "crc_shift x = 0"
  have b0: "bit (push_bit 1 x XOR P_CCITT) 0"
    unfolding bit_xor_iff bit_push_bit_iff P_CCITT_def by simp
  have hi: "\<not> bit x 15" using z b0 by (auto simp: crc_shift_def)
  then have "push_bit 1 x = 0" using z by (simp add: crc_shift_def)
  then have "bit x n = False" if "n < 15" for n
    using that bit_push_bit_iff[of 1 x "Suc n"] by simp
  moreover have "n < 16 \<longleftrightarrow> n < 15 \<or> n = 15" for n :: nat by auto
  ultimately show "x = 0"
    using hi by (intro bit_word_eqI) auto
qed simp

lemma crc_shifts_inj: "(crc_shift ^^ n) x = (crc_shift ^^ n) y \<longleftrightarrow> x = y"
proof -
  have "(crc_shift ^^ n) z = 0 \<longleftrightarrow> z = 0" for z
    by (induction n) (simp_all add: crc_shift_eq_0)
  moreover have "a = b \<longleftrightarrow> a XOR b = 0" for a b :: u16
    unfolding bit_eq_iff bit_xor_iff by auto
  ultimately show ?thesis using crc_shifts_xor[of n x y] by metis
qed

section \<open>The table\<close>

text \<open>The loop keeps \<open>crc XOR c\<close> equal to the shifted register; after eight rounds \<open>c\<close> is shifted out.\<close>

lemma tab_loop_shifts:
  "tab_loop j crc c = (crc_shift ^^ j) (crc XOR c) XOR push_bit j c"
proof (induction j arbitrary: crc c)
  case (Suc j)
  have "(if (crc XOR c) AND 0x8000 \<noteq> 0 then push_bit 1 crc XOR P_CCITT else push_bit 1 crc) XOR push_bit 1 c
      = crc_shift (crc XOR c)"
    unfolding and_8000 crc_shift_def by (auto simp: push_bit_xor ac_simps)
  then show ?case
    unfolding tab_loop.simps Suc.IH by (simp add: funpow_swap1 push_bit_push_bit)
qed (simp add: xor.assoc)

lemma push_16: "push_bit 16 (x :: u16) = 0"
  by (intro bit_word_eqI) (simp add: bit_push_bit_iff)

lemma tab_entry:
  assumes "i < 256"
  shows "InitTabCRC_CCITT ! i = (crc_shift ^^ 8) (push_bit 8 (word_of_nat i))"
proof -
  have "InitTabCRC_CCITT ! i = tab_loop 8 0 (push_bit 8 (word_of_nat i))"
    using assms by (simp add: InitTabCRC_CCITT_def del: tab_loop.simps)
  also have "\<dots> = (crc_shift ^^ 8) (push_bit 8 (word_of_nat i)) XOR push_bit 16 (word_of_nat i)"
    unfolding tab_loop_shifts by (simp add: push_bit_push_bit)
  finally show ?thesis by (simp add: push_16 del: push_bit_numeral)
qed

text \<open>While no bit reaches the top, shifting is plain shifting.\<close>

lemma low_shifts:
  assumes "\<forall>n\<ge>8. \<not> bit x n" "j \<le> 8"
  shows "(crc_shift ^^ j) x = push_bit j x"
  using assms(2)
proof (induction j)
  case (Suc j)
  then have "\<not> bit (push_bit j x) 15"
    using assms(1) by (auto simp: bit_push_bit_iff)
  with Suc show ?case by (simp add: crc_shift_def push_bit_push_bit)
qed simp

lemma update_is_byte: "UpdateCRC_CCITT InitTabCRC_CCITT crc c = crc_byte crc c"
proof -
  define t where "t = drop_bit 8 crc XOR (0x00ff AND ucast c)"
  have mask: "0x00ff AND ucast c = (ucast c :: u16)"
    by (intro bit_word_eqI)
      (auto simp: bit_and_iff bit_ucast_iff and.commute and_ff_take_bit bit_take_bit_iff dest: bit_imp_le_length)
  have tmp: "bit t n \<longleftrightarrow> n < 8 \<and> (bit crc (n + 8) \<noteq> bit c n)" for n
    unfolding t_def mask by (cases "n < 8") (auto simp: bit_xor_iff bit_drop_bit_eq bit_ucast_iff add.commute
        dest: bit_imp_le_length)
  have "t AND 255 = t"
    unfolding and_ff_take_bit by (intro bit_word_eqI) (simp only: bit_take_bit_iff tmp, blast)
  then have lt: "unat t < 256"
    using unat_and_ff[of t] by (metis mod_less_divisor zero_less_numeral)
  have "push_bit 8 t XOR take_bit 8 crc = crc XOR push_bit 8 (ucast c)"
  proof (intro bit_word_eqI)
    fix n assume "n < LENGTH(16)"
    then show "bit (push_bit 8 t XOR take_bit 8 crc) n = bit (crc XOR push_bit 8 (ucast c)) n"
      unfolding bit_xor_iff bit_push_bit_iff bit_take_bit_iff tmp bit_ucast_iff
      by (cases "n < 8") auto
  qed
  then have "crc_byte crc c = (crc_shift ^^ 8) (push_bit 8 t) XOR (crc_shift ^^ 8) (take_bit 8 crc)"
    unfolding crc_byte_def by (metis crc_shifts_xor)
  also have "(crc_shift ^^ 8) (take_bit 8 crc) = push_bit 8 crc"
  proof -
    have "(crc_shift ^^ 8) (take_bit 8 crc) = push_bit 8 (take_bit 8 crc)"
      by (rule low_shifts) (simp_all add: bit_take_bit_iff)
    also have "\<dots> = push_bit 8 crc"
      by (intro bit_word_eqI) (auto simp: bit_push_bit_iff bit_take_bit_iff)
    finally show ?thesis .
  qed
  finally show ?thesis
    unfolding UpdateCRC_CCITT_def Let_def t_def[symmetric] tab_entry[OF lt] by (simp add: xor.commute del: push_bit_numeral)
qed

section \<open>What the CRC detects\<close>

lemma xor_cancel:
  "x XOR z = y XOR z \<longleftrightarrow> (x :: u16) = y" "z XOR x = z XOR y \<longleftrightarrow> x = y"
  unfolding bit_eq_iff bit_xor_iff by auto

lemma crc_byte_inj: "crc_byte crc a = crc_byte crc' a \<longleftrightarrow> crc = crc'"
    "crc_byte crc a = crc_byte crc b \<longleftrightarrow> a = b"
proof -
  show "crc_byte crc a = crc_byte crc' a \<longleftrightarrow> crc = crc'"
    unfolding crc_byte_def crc_shifts_inj xor_cancel by simp
  have "push_bit 8 (ucast a) = (push_bit 8 (ucast b) :: u16) \<longleftrightarrow> a = b"
  proof
    assume e: "push_bit 8 (ucast a) = (push_bit 8 (ucast b) :: u16)"
    show "a = b"
    proof (intro bit_word_eqI)
      fix n assume "n < LENGTH(8)"
      then have "bit (push_bit 8 (ucast x) :: u16) (n + 8) = bit x n" for x :: u8
        by (simp add: bit_push_bit_iff bit_ucast_iff)
      from this[of a] this[of b] show "bit a n = bit b n" using e by simp
    qed
  qed simp
  then show "crc_byte crc a = crc_byte crc b \<longleftrightarrow> a = b"
    unfolding crc_byte_def crc_shifts_inj xor_cancel by simp
qed

lemma crc_foldl_inj: "foldl crc_byte crc bs = foldl crc_byte crc' bs \<longleftrightarrow> crc = crc'"
  by (induction bs arbitrary: crc crc') (simp_all add: crc_byte_inj)

lemma crc_one_byte:
  assumes "i < length bs" "b \<noteq> bs ! i"
  shows "crc_bitwise (bs[i := b]) \<noteq> crc_bitwise bs"
  using assms unfolding crc_bitwise_def
  by (subst id_take_nth_drop[OF assms(1)], subst upd_conv_take_nth_drop[OF assms(1)])
    (simp add: crc_foldl_inj crc_byte_inj)

lemma GetCRC_bitwise:
  "unat len \<le> length buf \<Longrightarrow> GetCRC_CCITT buf len = Inr (crc_bitwise (take (unat len) buf))"
  by (simp add: GetCRC_CCITT_def crc_bitwise_def update_is_byte[abs_def])

text \<open>A register that equals the next two bytes is emptied by them.\<close>

lemma crc_residue: "crc_bitwise (bs @ [ucast (drop_bit 8 (crc_bitwise bs)), ucast (crc_bitwise bs)]) = 0"
proof -
  define c where "c = crc_bitwise bs"
  have "c XOR push_bit 8 (ucast (ucast (drop_bit 8 c) :: u8)) = take_bit 8 c"
    by (intro bit_word_eqI)
      (auto simp: bit_xor_iff bit_push_bit_iff bit_take_bit_iff bit_ucast_iff bit_drop_bit_eq)
  then have 1: "crc_byte c (ucast (drop_bit 8 c)) = push_bit 8 c"
    using low_shifts[of "take_bit 8 c" 8]
    by (simp add: crc_byte_def bit_take_bit_iff del: push_bit_numeral)
      (intro bit_word_eqI, auto simp: bit_push_bit_iff bit_take_bit_iff)
  have "push_bit 8 c = (push_bit 8 (ucast (ucast c :: u8)) :: u16)"
    by (intro bit_word_eqI) (auto simp: bit_push_bit_iff bit_ucast_iff)
  then have "crc_byte (push_bit 8 c) (ucast c) = (crc_shift ^^ 8) 0"
    by (simp add: crc_byte_def)
  also have "(crc_shift ^^ n) 0 = 0" for n by (induction n) simp_all
  finally show ?thesis using 1 by (simp add: crc_bitwise_def c_def)
qed

section \<open>Properties\<close>

text \<open>
  C39: for every buffer and every length within it the table driven CRC equals the bit by bit CRC of the
  polynomial 0x1021; no table access is out of range. Two buffers that differ in one byte have different
  CRCs, and a message followed by its own CRC, high byte first, has CRC zero.
\<close>

theorem crc_table_correct:
  assumes "unat len \<le> length buf"
  shows "GetCRC_CCITT buf len = Inr (crc_bitwise (take (unat len) buf)) \<and>
    (\<forall>i<unat len. \<forall>b. b \<noteq> buf ! i \<longrightarrow> GetCRC_CCITT (buf[i := b]) len \<noteq> GetCRC_CCITT buf len) \<and>
    crc_bitwise (buf @ [ucast (drop_bit 8 (crc_bitwise buf)), ucast (crc_bitwise buf)]) = 0"
proof (intro conjI allI impI)
  fix i b assume "i < unat len" "b \<noteq> buf ! i"
  then show "GetCRC_CCITT (buf[i := b]) len \<noteq> GetCRC_CCITT buf len"
    using assms crc_one_byte[of i "take (unat len) buf" b]
    by (simp add: GetCRC_bitwise take_update_swap)
qed (simp_all add: GetCRC_bitwise[OF assms] crc_residue)

theorem crc_table_correct_witness:
  "GetCRC_CCITT [0x31, 0x32] 2 = Inr (crc_bitwise [0x31, 0x32])"
  using crc_table_correct[of 2 "[0x31, 0x32]"] by simp

end
