(* ===== verification/Ide_Counterpart.thy ===== *)
theory Ide_Counterpart
  imports Crc_Ccitt Cpp_Std Access_Control
begin

text \<open>
  The UDP protocol of the IQRF IDE, \<open>IdeCounterpart\<close>: the packets and commands of
  \<open>IdeCounterpart/Commands/*.h\<close> and the component of \<open>IdeCounterpart.cpp\<close> that validates a packet,
  answers it, passes writes to the transceiver while it holds the exclusive access of
  \<open>AccessControl.h\<close>, and switches between the operational, service and forwarding modes.

  A \<open>std::basic_string<unsigned char>\<close> is a list of bytes. Reading one past its end gives zero, as the
  standard says; reading further gives an unspecified byte, the parameter \<open>junk\<close>.
\<close>

section \<open>Packets\<close>

datatype PacketHeader = GW_ADDR | CMD | SUBCMD | RES0 | RES1 | PACID_H | PACID_L | DLEN_H | DLEN_L

primrec header_index :: "PacketHeader \<Rightarrow> nat" where
  "header_index GW_ADDR = 0"
| "header_index CMD = 1"
| "header_index SUBCMD = 2"
| "header_index RES0 = 3"
| "header_index RES1 = 4"
| "header_index PACID_H = 5"
| "header_index PACID_L = 6"
| "header_index DLEN_H = 7"
| "header_index DLEN_L = 8"

datatype UdpCommands = GW_IDENTIFICATION | GW_STATUS | TR_WRITE | SEND_TR_DATA | TR_INFO | TR_RESET

primrec command_code :: "UdpCommands \<Rightarrow> u8" where
  "command_code GW_IDENTIFICATION = 0x01"
| "command_code GW_STATUS = 0x02"
| "command_code TR_WRITE = 0x03"
| "command_code SEND_TR_DATA = 0x04"
| "command_code TR_INFO = 0x11"
| "command_code TR_RESET = 0x13"

definition HEADER_SIZE :: nat where "HEADER_SIZE = 9"
definition DATA_MAX_SIZE :: nat where "DATA_MAX_SIZE = 497"
definition CRC_SIZE :: nat where "CRC_SIZE = 2"
definition PACKET_OK :: u8 where "PACKET_OK = 0x50"
definition PACKET_ERROR :: u8 where "PACKET_ERROR = 0x60"
definition PACKET_RESPONSE_CODE :: u8 where "PACKET_RESPONSE_CODE = 0x80"

lemmas packet_sizes = HEADER_SIZE_def DATA_MAX_SIZE_def CRC_SIZE_def

text \<open>Operations of \<open>std::basic_string\<close>: \<open>operator[]\<close>, \<open>resize\<close>, \<open>insert\<close>, \<open>substr\<close>.\<close>

definition str_at :: "(nat \<Rightarrow> u8) \<Rightarrow> bytes \<Rightarrow> nat \<Rightarrow> u8" where
  "str_at junk s i = (if i < length s then s ! i else if i = length s then 0 else junk i)"

definition str_resize :: "nat \<Rightarrow> bytes \<Rightarrow> bytes" where
  "str_resize n s = take n s @ replicate (n - length s) 0"

definition str_insert :: "nat \<Rightarrow> bytes \<Rightarrow> bytes \<Rightarrow> bytes" where
  "str_insert i t s = take i s @ t @ drop i s"

definition str_substr :: "nat \<Rightarrow> nat \<Rightarrow> bytes \<Rightarrow> bytes" where
  "str_substr i n s = take n (drop i s)"

section \<open>BaseCommand\<close>

record command =
  m_header :: bytes
  m_data :: bytes
  m_response :: bytes
  m_trWrite :: bool

definition BaseCommand0 :: command where
  "BaseCommand0 = \<lparr>m_header = [], m_data = [], m_response = [], m_trWrite = False\<rparr>"

definition BaseCommand :: "bytes \<Rightarrow> command" where
  "BaseCommand message = BaseCommand0\<lparr>m_header := str_substr 0 HEADER_SIZE message\<rparr>"

text \<open>The common tail of the two encoders: data length, data and CRC. \<open>len\<close> is narrowed to 16 bits.\<close>

definition finish_packet :: "bytes \<Rightarrow> bytes \<Rightarrow> bytes result" where
  "finish_packet data r =
     (let dataLen = length data;
          r = r[header_index DLEN_H := word_of_nat (dataLen div 256)];
          r = r[header_index DLEN_L := word_of_nat dataLen];
          r = (if dataLen > 0 then str_insert HEADER_SIZE data r else r)
      in bind_r (GetCRC_CCITT r (word_of_nat (HEADER_SIZE + dataLen)))
           (\<lambda>crc. let r = r[HEADER_SIZE + dataLen := ucast (drop_bit 8 crc AND 0xFF)]
                  in Inr (r[HEADER_SIZE + dataLen + 1 := ucast (crc AND 0xFF)])))"

text \<open>
  \<open>encodeResponse\<close> looks at the command byte of \<open>m_response\<close> before it fills it: only the writing
  commands have stored a header there.
\<close>

definition encodeResponse :: "(nat \<Rightarrow> u8) \<Rightarrow> command \<Rightarrow> command result" where
  "encodeResponse junk c =
     (let write = (str_at junk (m_response c) (header_index CMD) = command_code TR_WRITE);
          subcmd = (if write then str_at junk (m_response c) (header_index SUBCMD) else 0);
          r = str_resize (HEADER_SIZE + CRC_SIZE) (m_header c);
          r = r[header_index CMD := r ! header_index CMD OR PACKET_RESPONSE_CODE];
          r = (if write then r[header_index SUBCMD := subcmd] else r)
      in bind_r (finish_packet (m_data c) r) (\<lambda>r. Inr (c\<lparr>m_response := r\<rparr>)))"

section \<open>Commands\<close>

record GwIdentParams =
  mode :: u8
  name :: string
  ipStack :: string
  netBios :: string
  publicIp :: string
  IP :: string
  MAC :: string

record coordinator_params =
  osVersion :: string
  osBuild :: string
  mid :: u32
  osVersionByte :: u8
  trMcuType :: u8
  osBuildWord :: u16

record tm =
  tm_sec :: int
  tm_min :: int
  tm_hour :: int
  tm_wday :: int
  tm_mday :: int
  tm_mon :: int
  tm_year :: int

definition str_bytes :: "string \<Rightarrow> bytes" where
  "str_bytes s = map (\<lambda>c. word_of_nat (char_code c)) s"

definition crlf :: string where
  "crlf = [CHR 0x0D, CHR 0x0A]"

definition ident_string :: "string \<Rightarrow> coordinator_params \<Rightarrow> GwIdentParams \<Rightarrow> string" where
  "ident_string version cp p =
     crlf @ name p @ crlf @ version @ crlf @ MAC p @ crlf @ ipStack p @ crlf @ IP p @ crlf @
     netBios p @ crlf @ osVersion cp @ ''('' @ osBuild cp @ '')'' @ crlf @ publicIp p @ crlf"

definition GatewayIdentification_buildResponse ::
    "(nat \<Rightarrow> u8) \<Rightarrow> string \<Rightarrow> coordinator_params \<Rightarrow> GwIdentParams \<Rightarrow> command \<Rightarrow> command result" where
  "GatewayIdentification_buildResponse junk version cp p c =
     encodeResponse junk (c\<lparr>m_data := str_bytes (ident_string version cp p)\<rparr>)"

datatype StatusData = TR_STATUS | UNUSED2 | SUPPLY_EXT | SECONDS | MINUTES | HOURS | WEEK_DAY
  | MONTH_DAY | MONTH | YEAR | UNUSED11 | UNUSED12

primrec status_index :: "StatusData \<Rightarrow> nat" where
  "status_index TR_STATUS = 0"
| "status_index UNUSED2 = 1"
| "status_index SUPPLY_EXT = 2"
| "status_index SECONDS = 3"
| "status_index MINUTES = 4"
| "status_index HOURS = 5"
| "status_index WEEK_DAY = 6"
| "status_index MONTH_DAY = 7"
| "status_index MONTH = 8"
| "status_index YEAR = 9"
| "status_index UNUSED11 = 10"
| "status_index UNUSED12 = 11"

definition SPI_READY :: u8 where "SPI_READY = 0x80"
definition SPI_INACTIVE :: u8 where "SPI_INACTIVE = 0xFF"
definition SUPPLY_EXT_VALUE :: u8 where "SUPPLY_EXT_VALUE = 0x01"

text \<open>The remainder \<open>%\<close> of C++ has the sign of the dividend.\<close>

definition crem :: "int \<Rightarrow> int \<Rightarrow> int" where
  "crem a b = sgn a * (\<bar>a\<bar> mod \<bar>b\<bar>)"

definition GatewayStatus_buildResponse :: "(nat \<Rightarrow> u8) \<Rightarrow> tm \<Rightarrow> bool \<Rightarrow> command \<Rightarrow> command result" where
  "GatewayStatus_buildResponse junk time exclusiveAccess c =
     (let d = str_resize 12 (m_data c);
          d = d[status_index TR_STATUS := if exclusiveAccess then SPI_READY else SPI_INACTIVE];
          d = d[status_index SUPPLY_EXT := SUPPLY_EXT_VALUE];
          d = d[status_index SECONDS := word_of_int (tm_sec time)];
          d = d[status_index MINUTES := word_of_int (tm_min time)];
          d = d[status_index HOURS := word_of_int (tm_hour time)];
          d = d[status_index WEEK_DAY := word_of_int (tm_wday time)];
          d = d[status_index MONTH_DAY := word_of_int (tm_mday time)];
          d = d[status_index MONTH := word_of_int (tm_mon time)];
          d = d[status_index YEAR := word_of_int (crem (tm_year time) 100)]
      in encodeResponse junk (c\<lparr>m_data := d\<rparr>))"

definition TrInfo_buildResponse :: "(nat \<Rightarrow> u8) \<Rightarrow> coordinator_params \<Rightarrow> command \<Rightarrow> command result" where
  "TrInfo_buildResponse junk cp c =
     (let d = str_resize 8 (m_data c);
          d = d[0 := ucast (drop_bit 24 (mid cp) AND 0xFF)];
          d = d[1 := ucast (drop_bit 16 (mid cp) AND 0xFF)];
          d = d[2 := ucast (drop_bit 8 (mid cp) AND 0xFF)];
          d = d[3 := ucast (mid cp AND 0xFF)];
          d = d[4 := osVersionByte cp];
          d = d[5 := trMcuType cp];
          d = d[6 := ucast (osBuildWord cp AND 0xFF)];
          d = d[7 := ucast (drop_bit 8 (osBuildWord cp) AND 0xFF)]
      in encodeResponse junk (c\<lparr>m_data := d\<rparr>))"

definition TrReset :: "bytes \<Rightarrow> command" where
  "TrReset message = (BaseCommand message)\<lparr>m_trWrite := True\<rparr>"

definition TrReset_getDpaRequest :: bytes where
  "TrReset_getDpaRequest = [0x00, 0x00, 0x02, 0x01, 0xff, 0xff]"

definition TrReset_buildResponse :: "(nat \<Rightarrow> u8) \<Rightarrow> bool \<Rightarrow> command \<Rightarrow> command result" where
  "TrReset_buildResponse junk exclusiveAccess c =
     encodeResponse junk (c\<lparr>m_response :=
       (m_header c)[header_index SUBCMD := if exclusiveAccess then PACKET_OK else PACKET_ERROR]\<rparr>)"

datatype TrWriteResult = OK | ERROR_LEN | ERROR_BUSY | ERROR_CRC | ERROR_SERVICE

primrec TrWriteResult_code :: "TrWriteResult \<Rightarrow> u8" where
  "TrWriteResult_code OK = 0x50"
| "TrWriteResult_code ERROR_LEN = 0x60"
| "TrWriteResult_code ERROR_BUSY = 0x61"
| "TrWriteResult_code ERROR_CRC = 0x62"
| "TrWriteResult_code ERROR_SERVICE = 0x63"

definition TrWrite :: "bytes \<Rightarrow> command" where
  "TrWrite message = (BaseCommand message)\<lparr>m_trWrite := True\<rparr>"

definition TrWrite_buildResponse :: "(nat \<Rightarrow> u8) \<Rightarrow> bool \<Rightarrow> command \<Rightarrow> command result" where
  "TrWrite_buildResponse junk exclusiveAccess c =
     encodeResponse junk (c\<lparr>m_response :=
       (m_header c)[header_index SUBCMD := TrWriteResult_code (if exclusiveAccess then OK else ERROR_SERVICE)]\<rparr>)"

definition UnknownCommand_buildResponse :: "(nat \<Rightarrow> u8) \<Rightarrow> command \<Rightarrow> command result" where
  "UnknownCommand_buildResponse junk c =
     (let h = m_header c;
          h = h[header_index CMD := h ! header_index CMD OR PACKET_RESPONSE_CODE];
          h = h[header_index SUBCMD := PACKET_ERROR]
      in encodeResponse junk (c\<lparr>m_header := h\<rparr>))"

text \<open>\<open>SendTrData\<close> has an encoder of its own: it has no request to copy the header from.\<close>

definition SendTrData_buildResponse :: "u8 \<Rightarrow> command \<Rightarrow> command result" where
  "SendTrData_buildResponse m c =
     (let r = str_resize (HEADER_SIZE + CRC_SIZE) (m_response c);
          r = r[header_index GW_ADDR := m];
          r = r[header_index CMD := command_code SEND_TR_DATA]
      in bind_r (finish_packet (m_data c) r) (\<lambda>r. Inr (c\<lparr>m_response := r\<rparr>)))"

section \<open>IdeCounterpart\<close>

text \<open>
  The environment of the component: the addresses of the UDP messaging, the coordinator parameters of
  the DPA service, the local time, the version of the build, and the outcome of sending a UDP message,
  which may throw.
\<close>

record ide_env =
  listeningIp :: string
  listeningMac :: string
  coordinatorParameters :: coordinator_params
  localtime :: tm
  DAEMON_VERSION :: string
  udp_send :: "bytes \<Rightarrow> unit result"

datatype Mode = Unknown | Operational | Service | Forwarding

record 'g ide =
  m_params :: GwIdentParams
  m_mode :: Mode
  m_exclusiveAcessor :: "accessor option"
  m_snifferAcessor :: "accessor option"
  m_setModeCallbacks :: "(string \<times> 'g option) list"

datatype 'f ide_event = UdpSent bytes | OnChannel "'f ac_event"

definition validateMsg :: "'g ide \<Rightarrow> bytes \<Rightarrow> unit result" where
  "validateMsg ide message =
     (let messageLen = length message in
      if messageLen < HEADER_SIZE + CRC_SIZE then Inl (LogicError ''Message too short: '')
      else if messageLen > HEADER_SIZE + DATA_MAX_SIZE + CRC_SIZE then Inl (LogicError ''Message too long: '')
      else if message ! header_index GW_ADDR \<noteq> mode (m_params ide) then Inl (LogicError ''GW_ADDR mismatch: '')
      else
        let dataLen = unat (message ! header_index DLEN_H) * 256 + unat (message ! header_index DLEN_L) in
        if messageLen \<noteq> HEADER_SIZE + dataLen + CRC_SIZE
        then Inl (LogicError ''Message length does not match specified data length.'')
        else
          let crc = word_of_nat (unat (message ! (HEADER_SIZE + dataLen)) * 256 +
                                 unat (message ! (HEADER_SIZE + dataLen + 1))) in
          bind_r (GetCRC_CCITT message (word_of_nat (HEADER_SIZE + dataLen)))
            (\<lambda>c. if crc \<noteq> c then Inl (LogicError ''Invalid message CRC.'') else Inr ()))"

text \<open>The switch of \<open>handleMsg\<close>: the answered command and the data for the transceiver.\<close>

definition dispatch ::
    "(nat \<Rightarrow> u8) \<Rightarrow> ide_env \<Rightarrow> 'g ide \<Rightarrow> bytes \<Rightarrow> command result \<times> bytes" where
  "dispatch junk env ide message =
     (let dataLen = unat (message ! header_index DLEN_H) * 256 + unat (message ! header_index DLEN_L);
          data = str_substr HEADER_SIZE dataLen message;
          cmd = message ! header_index CMD;
          excl = (m_exclusiveAcessor ide \<noteq> None)
      in if cmd = command_code GW_IDENTIFICATION then
           (GatewayIdentification_buildResponse junk (DAEMON_VERSION env) (coordinatorParameters env)
              ((m_params ide)\<lparr>IP := listeningIp env, MAC := listeningMac env\<rparr>) (BaseCommand message), data)
         else if cmd = command_code GW_STATUS then
           (GatewayStatus_buildResponse junk (localtime env) (excl \<or> m_snifferAcessor ide \<noteq> None)
              (BaseCommand message), data)
         else if cmd = command_code TR_WRITE then
           (TrWrite_buildResponse junk excl (TrWrite message), data)
         else if cmd = command_code TR_INFO then
           (TrInfo_buildResponse junk (coordinatorParameters env) (BaseCommand message), data)
         else if cmd = command_code TR_RESET then
           (TrReset_buildResponse junk excl (TrReset message), TrReset_getDpaRequest)
         else (UnknownCommand_buildResponse junk (BaseCommand message), data))"

definition handleMsg ::
    "(nat \<Rightarrow> u8) \<Rightarrow> ide_env \<Rightarrow> 'f access_control \<Rightarrow> 'g ide \<Rightarrow> bytes \<Rightarrow> int \<times> 'f ide_event list" where
  "handleMsg junk env ac ide message =
     (case validateMsg ide message of
        Inl _ \<Rightarrow> (- 1, [])
      | Inr _ \<Rightarrow>
          case dispatch junk env ide message of
            (Inl _, data) \<Rightarrow> (- 1, [])
          | (Inr handler, data) \<Rightarrow>
              case udp_send env (m_response handler) of
                Inl _ \<Rightarrow> (- 1, [])
              | Inr _ \<Rightarrow>
                  let sent = [UdpSent (m_response handler)] in
                  case m_exclusiveAcessor ide of
                    None \<Rightarrow> (0, sent)
                  | Some a \<Rightarrow>
                      if m_trWrite handler then
                        case accessor_send ac a data of
                          Inl _ \<Rightarrow> (- 1, sent)
                        | Inr es \<Rightarrow> (0, sent @ map OnChannel es)
                      else (0, sent))"

definition sendMessageToIde :: "ide_env \<Rightarrow> 'g ide \<Rightarrow> bytes \<Rightarrow> (int \<times> 'f ide_event list) result" where
  "sendMessageToIde env ide message =
     bind_r (SendTrData_buildResponse (mode (m_params ide)) (BaseCommand0\<lparr>m_data := message\<rparr>))
       (\<lambda>c. bind_r (udp_send env (m_response c)) (\<lambda>_. Inr (0, [UdpSent (m_response c)])))"

subsection \<open>Modes\<close>

text \<open>\<open>unique_ptr::reset\<close> runs the destructor of the accessor, which gives the access back.\<close>

definition reset_acessor :: "'f access_control \<Rightarrow> accessor option \<Rightarrow> 'f access_control" where
  "reset_acessor ac a = (case a of None \<Rightarrow> ac | Some a \<Rightarrow> accessor_destroy ac a)"

text \<open>
  \<open>setMode\<close> with \<open>toIde\<close> the callback it registers. The result: the access control, the component, the
  mode callbacks that ran, and the outcome. The assignment of a \<open>unique_ptr\<close> destroys the old accessor
  after the new one was obtained.
\<close>

definition setMode ::
    "'f \<Rightarrow> 'f access_control \<Rightarrow> 'g ide \<Rightarrow> Mode \<Rightarrow> 'f access_control \<times> 'g ide \<times> 'g list \<times> unit result" where
  "setMode toIde ac ide md =
     (let finish = (\<lambda>ac ide. (ac, ide\<lparr>m_mode := md\<rparr>,
                              List.map_filter snd (m_setModeCallbacks ide), Inr ()))
      in case md of
           Operational \<Rightarrow>
             (let ac = reset_acessor ac (m_exclusiveAcessor ide);
                  ac = reset_acessor ac (m_snifferAcessor ide)
              in finish ac (ide\<lparr>m_exclusiveAcessor := None, m_snifferAcessor := None\<rparr>))
         | Forwarding \<Rightarrow>
             (let ac = reset_acessor ac (m_exclusiveAcessor ide);
                  ide = ide\<lparr>m_exclusiveAcessor := None\<rparr>
              in case getAccess ac (Some toIde) Sniffer of
                   Inl e \<Rightarrow> (ac, ide, [], Inl e)
                 | Inr (ac, a) \<Rightarrow>
                     finish (reset_acessor ac (m_snifferAcessor ide)) (ide\<lparr>m_snifferAcessor := Some a\<rparr>))
         | Service \<Rightarrow>
             (let ac = reset_acessor ac (m_snifferAcessor ide);
                  ide = ide\<lparr>m_snifferAcessor := None\<rparr>
              in case getAccess ac (Some toIde) Exclusive of
                   Inl e \<Rightarrow> (ac, ide, [], Inl e)
                 | Inr (ac, a) \<Rightarrow>
                     finish (reset_acessor ac (m_exclusiveAcessor ide)) (ide\<lparr>m_exclusiveAcessor := Some a\<rparr>))
         | Unknown \<Rightarrow> (ac, ide, [], Inr ()))"

text \<open>\<open>std::map\<close> as a list of pairs in key order: \<open>insert_or_assign\<close> and \<open>erase\<close>.\<close>

definition str_less :: "string \<Rightarrow> string \<Rightarrow> bool" where
  "str_less s t = ord_class.lexordp (map char_code s) (map char_code t)"

fun map_assign :: "string \<Rightarrow> 'v \<Rightarrow> (string \<times> 'v) list \<Rightarrow> (string \<times> 'v) list" where
  "map_assign k v [] = [(k, v)]"
| "map_assign k v ((k', v') # xs) =
     (if k = k' then (k, v) # xs else if str_less k k' then (k, v) # (k', v') # xs
      else (k', v') # map_assign k v xs)"

definition registerModeSetCallback :: "string \<Rightarrow> 'g option \<Rightarrow> 'g ide \<Rightarrow> 'g ide" where
  "registerModeSetCallback instanceId callback ide =
     ide\<lparr>m_setModeCallbacks := map_assign instanceId callback (m_setModeCallbacks ide)\<rparr>"

definition unregisterModeSetCallback :: "string \<Rightarrow> 'g ide \<Rightarrow> 'g ide" where
  "unregisterModeSetCallback instanceId ide =
     ide\<lparr>m_setModeCallbacks := filter (\<lambda>(k, _). k \<noteq> instanceId) (m_setModeCallbacks ide)\<rparr>"

text \<open>The configuration document: a member that is missing or has another type is \<open>None\<close>.\<close>

record ide_config =
  gwIdentModeByte :: "u32 option"
  gwIdentName :: "string option"
  gwIdentIpStack :: "string option"
  gwIdentNetBios :: "string option"
  gwIdentPublicIp :: "string option"
  operMode :: "string option"

definition modify ::
    "(string \<Rightarrow> Mode) \<Rightarrow> 'f \<Rightarrow> ide_config \<Rightarrow> 'f access_control \<Rightarrow> 'g ide \<Rightarrow>
     'f access_control \<times> 'g ide \<times> 'g list \<times> unit result" where
  "modify str2enum toIde doc ac ide =
     (let p = m_params ide;
          p = (case gwIdentModeByte doc of None \<Rightarrow> p | Some v \<Rightarrow> p\<lparr>mode := ucast v\<rparr>);
          p = (case gwIdentName doc of None \<Rightarrow> p | Some v \<Rightarrow> p\<lparr>name := v\<rparr>);
          p = (case gwIdentIpStack doc of None \<Rightarrow> p | Some v \<Rightarrow> p\<lparr>ipStack := v\<rparr>);
          p = (case gwIdentNetBios doc of None \<Rightarrow> p | Some v \<Rightarrow> p\<lparr>netBios := v\<rparr>);
          p = (case gwIdentPublicIp doc of None \<Rightarrow> p | Some v \<Rightarrow> p\<lparr>publicIp := v\<rparr>);
          startupMode = (case operMode doc of None \<Rightarrow> Operational | Some v \<Rightarrow> str2enum v)
      in setMode toIde ac (ide\<lparr>m_params := p\<rparr>) startupMode)"

section \<open>The packet format\<close>

text \<open>A packet is a header, its data and the CRC of both, high byte first.\<close>

definition crc_bytes :: "bytes \<Rightarrow> bytes" where
  "crc_bytes bs = [ucast (drop_bit 8 (crc_bitwise bs)), ucast (crc_bitwise bs)]"

definition packet :: "bytes \<Rightarrow> bytes \<Rightarrow> bytes" where
  "packet h data = h @ data @ crc_bytes (h @ data)"

definition dlen :: "bytes \<Rightarrow> nat" where
  "dlen h = unat (h ! header_index DLEN_H) * 256 + unat (h ! header_index DLEN_L)"

definition set_dlen :: "nat \<Rightarrow> bytes \<Rightarrow> bytes" where
  "set_dlen n h = h[header_index DLEN_H := word_of_nat (n div 256), header_index DLEN_L := word_of_nat n]"

lemma length_set_dlen [simp]: "length (set_dlen n h) = length h"
  by (simp add: set_dlen_def)

lemma set_dlen_nth [simp]: "i < 7 \<Longrightarrow> set_dlen n h ! i = h ! i"
  by (simp add: set_dlen_def)

lemma dlen_set_dlen: "length h = 9 \<Longrightarrow> n < 65536 \<Longrightarrow> dlen (set_dlen n h) = n"
  by (simp add: dlen_def set_dlen_def unat_of_nat unat_word_ariths take_bit_eq_mod less_mult_imp_div_less)

lemma hi_lo_crc: "ucast (drop_bit 8 crc AND 0xFF) = (ucast (drop_bit 8 (crc :: u16)) :: u8)"
    "ucast (crc AND 0xFF) = (ucast crc :: u8)"
  unfolding and_ff_take_bit
  by (intro bit_word_eqI; simp add: bit_ucast_iff bit_take_bit_iff)+

lemma unat_ucast_u16_u8: "unat (ucast (w :: u16) :: u8) = unat w mod 256"
  by (simp only: unsigned_ucast_eq take_bit_eq_mod) simp

lemma crc_recomposed:
  "word_of_nat (unat (ucast (drop_bit 8 crc) :: u8) * 256 + unat (ucast crc :: u8)) = (crc :: u16)"
proof -
  have "unat crc div 256 mod 256 = unat crc div 256"
    using unat_lt_65536[of crc] by (simp add: less_mult_imp_div_less)
  then have "unat (ucast (drop_bit 8 crc) :: u8) * 256 + unat (ucast crc :: u8) = unat crc"
    by (simp add: unat_ucast_u16_u8 unat_drop_8)
  then show ?thesis by (metis word_of_nat_unat)
qed

lemma u16_bytes_unique:
  assumes "word_of_nat (unat (a :: u8) * 256 + unat (b :: u8)) = (crc :: u16)"
  shows "a = ucast (drop_bit 8 crc)" "b = ucast crc"
proof -
  have "unat a * 256 + unat b < 65536" using unat_lt_256[of a] unat_lt_256[of b] by linarith
  then have e: "unat crc = unat a * 256 + unat b"
    using assms unat_of_nat_u16 by metis
  have "unat a = unat (ucast (drop_bit 8 crc) :: u8)" "unat b = unat (ucast crc :: u8)"
    using unat_lt_256[of a] unat_lt_256[of b] by (simp_all add: unat_ucast_u16_u8 unat_drop_8 e)
  then show "a = ucast (drop_bit 8 crc)" "b = ucast crc" by (simp_all add: word_unat_eq_iff)
qed

lemma finish_packet_eq:
  assumes "length r = 11" "9 + length data < 65536"
  shows "finish_packet data r = Inr (packet (set_dlen (length data) (take 9 r)) data)"
proof -
  obtain h a b where r: "r = h @ [a, b]" and h: "length h = 9"
  proof -
    have "r = take 9 r @ drop 9 r" "length (drop 9 r) = 2" using assms(1) by simp_all
    then obtain a b where "drop 9 r = [a, b]"
      by (metis (no_types) One_nat_def Suc_1 length_0_conv length_Suc_conv)
    then show ?thesis using that[of "take 9 r" a b] assms(1) by (metis append_take_drop_id length_take min.absorb2 numeral_le_iff semiring_norm(68) Num.le_num_simps)
  qed
  let ?h = "set_dlen (length data) h"
  have len: "unat (word_of_nat (9 + length data) :: u16) = 9 + length data"
    using assms(2) by (simp only: unat_of_nat_u16)
  have ins: "(if 0 < length data then str_insert 9 data (?h @ [a, b]) else ?h @ [a, b]) = (?h @ data) @ [a, b]"
    using h by (auto simp: str_insert_def)
  have crc: "GetCRC_CCITT ((?h @ data) @ [a, b]) (word_of_nat (9 + length data)) = Inr (crc_bitwise (?h @ data))"
    using GetCRC_bitwise[of "word_of_nat (9 + length data)" "(?h @ data) @ [a, b]"] h len by simp
  have upd: "((?h @ data) @ [a, b])[9 + length data := x, 9 + length data + 1 := y] = (?h @ data) @ [x, y]" for x y
    using h by (simp add: list_update_append)
  have dl: "set_dlen n r = set_dlen n h @ [a, b]" for n
    using h by (simp add: r set_dlen_def list_update_append)
  show ?thesis
    unfolding finish_packet_def Let_def HEADER_SIZE_def set_dlen_def[symmetric] dl ins crc bind_r_Inr upd
    using h by (simp add: packet_def crc_bytes_def hi_lo_crc r)
qed

text \<open>The packets the component accepts.\<close>

definition valid_parts :: "'g ide \<Rightarrow> bytes \<Rightarrow> bytes \<Rightarrow> bool" where
  "valid_parts ide h data \<longleftrightarrow>
     length h = 9 \<and> length data \<le> 497 \<and> dlen h = length data \<and> h ! header_index GW_ADDR = mode (m_params ide)"

lemma packet_parts:
  assumes "length h = 9" "dlen h = length data"
  shows "dlen (packet h data) = length data" "take 9 (packet h data) = h"
    "str_substr 9 (length data) (packet h data) = data" "length (packet h data) = 11 + length data"
    "i < 9 \<Longrightarrow> packet h data ! i = h ! i"
  using assms by (simp_all add: packet_def dlen_def nth_append str_substr_def crc_bytes_def)

lemma validate_packet: "valid_parts ide h data \<Longrightarrow> validateMsg ide (packet h data) = Inr ()"
proof -
  assume v: "valid_parts ide h data"
  then have h: "length h = 9" and d: "dlen h = length data" "length data \<le> 497"
    by (simp_all add: valid_parts_def)
  have len: "unat (word_of_nat (9 + length data) :: u16) = 9 + length data"
    using d by (intro unat_of_nat_u16) linarith
  have crc: "GetCRC_CCITT (packet h data) (word_of_nat (9 + length data)) = Inr (crc_bitwise (h @ data))"
    using GetCRC_bitwise[of "word_of_nat (9 + length data)" "packet h data"] h len
    by (simp add: packet_parts d) (simp add: packet_def)
  have tail: "packet h data ! (9 + length data) = ucast (drop_bit 8 (crc_bitwise (h @ data)))"
    "packet h data ! (9 + length data + 1) = ucast (crc_bitwise (h @ data))"
    using h by (simp_all add: packet_def nth_append crc_bytes_def)
  show ?thesis
    unfolding validateMsg_def Let_def packet_sizes dlen_def[symmetric] packet_parts[OF h d(1)] crc tail
      crc_recomposed
    using v d by (simp add: valid_parts_def packet_parts)
qed

lemma validate_Inr:
  assumes "validateMsg ide m = Inr ()"
  shows "\<exists>h data. valid_parts ide h data \<and> m = packet h data"
proof -
  have len: "11 \<le> length m" "length m \<le> 508" "m ! header_index GW_ADDR = mode (m_params ide)"
      "length m = 11 + dlen m"
    using assms by (auto simp: validateMsg_def Let_def packet_sizes dlen_def split: if_splits)
  let ?n = "9 + dlen m"
  have n: "unat (word_of_nat ?n :: u16) = ?n" using len by (intro unat_of_nat_u16) linarith
  have "GetCRC_CCITT m (word_of_nat ?n) = Inr (crc_bitwise (take ?n m))"
    using GetCRC_bitwise[of "word_of_nat ?n" m] len n by simp
  then have "word_of_nat (unat (m ! ?n) * 256 + unat (m ! (?n + 1))) = crc_bitwise (take ?n m)"
    using assms unfolding validateMsg_def Let_def packet_sizes dlen_def[symmetric]
    by (simp split: if_splits del: of_nat_add of_nat_mult)
  note crc = u16_bytes_unique[OF this]
  have "drop ?n m = [m ! ?n, m ! (?n + 1)]"
    using len by (simp add: list_eq_iff_nth_eq nth_Cons less_Suc_eq split: nat.split)
  then have "drop ?n m = crc_bytes (take ?n m)" by (simp only: crc crc_bytes_def)
  then have "m = take ?n m @ crc_bytes (take ?n m)"
    using append_take_drop_id[of ?n m] by simp
  moreover have "take ?n m = take 9 m @ take (dlen m) (drop 9 m)" by (simp add: take_add)
  ultimately have "m = packet (take 9 m) (take (dlen m) (drop 9 m))" by (simp add: packet_def)
  moreover have "valid_parts ide (take 9 m) (take (dlen m) (drop 9 m))"
    using len by (simp add: valid_parts_def dlen_def)
  ultimately show ?thesis by blast
qed

lemma corrupted_invalid:
  assumes "validateMsg ide m = Inr ()" "i < length m" "b \<noteq> m ! i"
  shows "validateMsg ide (m[i := b]) \<noteq> Inr ()"
proof
  assume "validateMsg ide (m[i := b]) = Inr ()"
  then obtain h' d' where v': "valid_parts ide h' d'" and m': "m[i := b] = packet h' d'"
    using validate_Inr by blast
  obtain h d where v: "valid_parts ide h d" and m: "m = packet h d"
    using validate_Inr[OF assms(1)] by blast
  have z: "crc_bitwise (packet h d) = 0" "crc_bitwise (packet h' d') = 0"
    using crc_residue[of "h @ d"] crc_residue[of "h' @ d'"] by (simp_all add: packet_def crc_bytes_def)
  then show False
    using crc_one_byte[OF assms(2,3)] m m' by simp
qed

text \<open>What the commands answer: the copied header with the response flag, their status and their data.\<close>

definition answer :: "u8 option \<Rightarrow> bytes \<Rightarrow> bytes \<Rightarrow> bytes" where
  "answer status data h =
     packet (set_dlen (length data)
       (let r = h[header_index CMD := h ! header_index CMD OR PACKET_RESPONSE_CODE]
        in case status of None \<Rightarrow> r | Some v \<Rightarrow> r[header_index SUBCMD := v])) data"

lemma encode_no_status:
  assumes "length (m_header c) = 9" "9 + length (m_data c) < 65536"
    "str_at junk (m_response c) 1 \<noteq> 3"
  shows "encodeResponse junk c = Inr (c\<lparr>m_response := answer None (m_data c) (m_header c)\<rparr>)"
  using assms finish_packet_eq[of "(str_resize 11 (m_header c))[1 := str_resize 11 (m_header c) ! 1 OR 0x80]" "m_data c"]
  by (simp add: encodeResponse_def packet_sizes answer_def PACKET_RESPONSE_CODE_def str_resize_def
      list_update_append nth_append Let_def)

lemma encode_status:
  assumes "length (m_header c) = 9" "9 + length (m_data c) < 65536"
    "m_response c = (m_header c)[2 := v]" "m_header c ! 1 = 3"
  shows "encodeResponse junk c = Inr (c\<lparr>m_response := answer (Some v) (m_data c) (m_header c)\<rparr>)"
  using assms finish_packet_eq[of "(str_resize 11 (m_header c))[1 := str_resize 11 (m_header c) ! 1 OR 0x80, 2 := v]" "m_data c"]
  by (simp add: encodeResponse_def packet_sizes answer_def PACKET_RESPONSE_CODE_def str_resize_def str_at_def
      list_update_append nth_append Let_def)

text \<open>The specified reply to a packet: its status byte, if it has one, and its data.\<close>

definition status_data :: "ide_env \<Rightarrow> 'g ide \<Rightarrow> bytes" where
  "status_data env ide =
     [if m_exclusiveAcessor ide \<noteq> None \<or> m_snifferAcessor ide \<noteq> None then SPI_READY else SPI_INACTIVE,
      0, SUPPLY_EXT_VALUE, word_of_int (tm_sec (localtime env)), word_of_int (tm_min (localtime env)),
      word_of_int (tm_hour (localtime env)), word_of_int (tm_wday (localtime env)),
      word_of_int (tm_mday (localtime env)), word_of_int (tm_mon (localtime env)),
      word_of_int (crem (tm_year (localtime env)) 100), 0, 0]"

definition info_data :: "coordinator_params \<Rightarrow> bytes" where
  "info_data cp =
     [ucast (drop_bit 24 (mid cp)), ucast (drop_bit 16 (mid cp)), ucast (drop_bit 8 (mid cp)), ucast (mid cp),
      osVersionByte cp, trMcuType cp, ucast (osBuildWord cp), ucast (drop_bit 8 (osBuildWord cp))]"

definition ident_data :: "ide_env \<Rightarrow> 'g ide \<Rightarrow> bytes" where
  "ident_data env ide = str_bytes (ident_string (DAEMON_VERSION env) (coordinatorParameters env)
     ((m_params ide)\<lparr>IP := listeningIp env, MAC := listeningMac env\<rparr>))"

definition ide_reply :: "ide_env \<Rightarrow> 'g ide \<Rightarrow> u8 \<Rightarrow> u8 option \<times> bytes" where
  "ide_reply env ide cmd =
     (if cmd = command_code GW_IDENTIFICATION then (None, ident_data env ide)
      else if cmd = command_code GW_STATUS then (None, status_data env ide)
      else if cmd = command_code TR_WRITE then
        (Some (TrWriteResult_code (if m_exclusiveAcessor ide \<noteq> None then OK else ERROR_SERVICE)), [])
      else if cmd = command_code TR_INFO then (None, info_data (coordinatorParameters env))
      else if cmd = command_code TR_RESET then (None, [])
      else (Some PACKET_ERROR, []))"

text \<open>What goes to the transceiver.\<close>

definition tr_request :: "u8 \<Rightarrow> bytes \<Rightarrow> bytes option" where
  "tr_request cmd data =
     (if cmd = command_code TR_WRITE then Some data
      else if cmd = command_code TR_RESET then Some TrReset_getDpaRequest else None)"

lemma and_ff_ucast: "ucast ((x :: 'a::len word) AND 0xFF) = (ucast x :: u8)"
  unfolding and_ff_take_bit by (intro bit_word_eqI) (auto simp: bit_ucast_iff bit_take_bit_iff)

lemma resize_nil: "str_resize n [] = replicate n 0"
  by (simp add: str_resize_def)

lemma header_of_packet: "length h = 9 \<Longrightarrow> str_substr 0 9 (packet h data) = h"
  by (simp add: str_substr_def packet_def)

lemma answer_unknown:
  "length h = 9 \<Longrightarrow>
   answer None [] (h[1 := h ! 1 OR 0x80, 2 := v]) = answer (Some v) [] h"
  by (simp add: answer_def PACKET_RESPONSE_CODE_def Let_def list_update_swap or.assoc)

lemma zeros_8: "replicate 8 (0 :: u8) = [0, 0, 0, 0, 0, 0, 0, 0]"
  by (simp add: numeral_eq_Suc)

lemma zeros_12: "replicate 12 (0 :: u8) = [0, 0, 0, 0, 0, 0, 0, 0, 0, 0, 0, 0]"
  by (simp add: numeral_eq_Suc)

lemma status_built:
  "str_at junk (m_response c) 1 \<noteq> 3 \<Longrightarrow> length (m_header c) = 9 \<Longrightarrow> m_data c = [] \<Longrightarrow>
   GatewayStatus_buildResponse junk (localtime env)
     (m_exclusiveAcessor ide \<noteq> None \<or> m_snifferAcessor ide \<noteq> None) c =
   Inr (c\<lparr>m_data := status_data env ide, m_response := answer None (status_data env ide) (m_header c)\<rparr>)"
  using encode_no_status[of "c\<lparr>m_data := status_data env ide\<rparr>" junk]
  by (simp add: GatewayStatus_buildResponse_def status_data_def resize_nil zeros_12 Let_def)

lemma info_built:
  "str_at junk (m_response c) 1 \<noteq> 3 \<Longrightarrow> length (m_header c) = 9 \<Longrightarrow> m_data c = [] \<Longrightarrow>
   TrInfo_buildResponse junk cp c =
   Inr (c\<lparr>m_data := info_data cp, m_response := answer None (info_data cp) (m_header c)\<rparr>)"
  using encode_no_status[of "c\<lparr>m_data := info_data cp\<rparr>" junk]
  unfolding TrInfo_buildResponse_def info_data_def and_ff_ucast Let_def
  by (simp add: resize_nil zeros_8)

lemma reset_built:
  "length (m_header c) = 9 \<Longrightarrow> m_header c ! 1 = 0x13 \<Longrightarrow> m_data c = [] \<Longrightarrow>
   TrReset_buildResponse junk excl c =
   Inr (c\<lparr>m_response := answer None [] (m_header c)\<rparr>)"
  using encode_no_status[of "c\<lparr>m_response := (m_header c)[2 := if excl then PACKET_OK else PACKET_ERROR]\<rparr>" junk]
  by (simp add: TrReset_buildResponse_def str_at_def)

lemma write_built:
  "length (m_header c) = 9 \<Longrightarrow> m_header c ! 1 = 3 \<Longrightarrow> m_data c = [] \<Longrightarrow>
   TrWrite_buildResponse junk excl c =
   Inr (c\<lparr>m_response := answer (Some (TrWriteResult_code (if excl then OK else ERROR_SERVICE))) [] (m_header c)\<rparr>)"
  using encode_status[of "c\<lparr>m_response := (m_header c)[2 := TrWriteResult_code (if excl then OK else ERROR_SERVICE)]\<rparr>"
      "TrWriteResult_code (if excl then OK else ERROR_SERVICE)" junk]
  by (simp add: TrWrite_buildResponse_def)

lemma unknown_built:
  "str_at junk (m_response c) 1 \<noteq> 3 \<Longrightarrow> length (m_header c) = 9 \<Longrightarrow> m_data c = [] \<Longrightarrow>
   map_sum id m_response (UnknownCommand_buildResponse junk c) = Inr (answer (Some PACKET_ERROR) [] (m_header c)) \<and>
   map_sum id m_trWrite (UnknownCommand_buildResponse junk c) = Inr (m_trWrite c)"
  using encode_no_status[of "c\<lparr>m_header := (m_header c)[1 := m_header c ! 1 OR 0x80, 2 := PACKET_ERROR]\<rparr>" junk]
    answer_unknown[of "m_header c" PACKET_ERROR]
  by (simp add: UnknownCommand_buildResponse_def PACKET_RESPONSE_CODE_def Let_def)

lemmas built_defs = BaseCommand_def BaseCommand0_def TrReset_def TrWrite_def HEADER_SIZE_def ide_reply_def
  tr_request_def

lemma dispatch_reply:
  assumes "valid_parts ide h data" "junk 1 \<noteq> 3" "length (ident_data env ide) < 65527"
  shows "\<exists>c. dispatch junk env ide (packet h data) =
      (Inr c, (case tr_request (h ! 1) data of Some d \<Rightarrow> d | None \<Rightarrow> data)) \<and>
    m_response c = (case ide_reply env ide (h ! 1) of (st, d) \<Rightarrow> answer st d h) \<and>
    m_trWrite c = (tr_request (h ! 1) data \<noteq> None)"
proof -
  have h: "length h = 9" "dlen h = length data" using assms(1) by (simp_all add: valid_parts_def)
  have dl: "unat (h ! 7) * 256 + unat (h ! 8) = length data" using h(2) by (simp add: dlen_def)
  note parts = packet_parts[OF h] header_of_packet[OF h(1)] dl
  have e: "str_at junk [] 1 \<noteq> 3" using assms(2) by (simp add: str_at_def)
  consider "h ! 1 = 1" | "h ! 1 = 2" | "h ! 1 = 3" | "h ! 1 = 0x11" | "h ! 1 = 0x13"
    | "h ! 1 \<notin> {1, 2, 3, 0x11, 0x13}" by auto
  then show ?thesis
  proof cases
    case 1
    then show ?thesis
      using encode_no_status[of "(BaseCommand (packet h data))\<lparr>m_data := ident_data env ide\<rparr>" junk] h(1) assms(3) e
      by (simp add: dispatch_def Let_def parts built_defs GatewayIdentification_buildResponse_def
          flip: ident_data_def)
  next
    case 2
    then show ?thesis
      using status_built[of junk "BaseCommand (packet h data)" env ide] h(1) e
      by (simp add: dispatch_def Let_def parts built_defs)
  next
    case 6
    then show ?thesis
      using unknown_built[of junk "BaseCommand (packet h data)"] h(1) e
      by (cases "UnknownCommand_buildResponse junk (BaseCommand (packet h data))")
        (simp_all add: dispatch_def Let_def parts built_defs)
  qed (use h(1) e in \<open>simp_all add: dispatch_def Let_def parts built_defs info_built reset_built
      write_built\<close>)
qed

lemma answer_valid:
  assumes "length h = 9" "h ! 0 = mode (m_params ide)" "length d \<le> 497"
  shows "validateMsg ide (answer st d h) = Inr ()"
  unfolding answer_def
  by (rule validate_packet) (use assms in \<open>auto simp: valid_parts_def dlen_set_dlen Let_def split: option.split\<close>)

section \<open>Properties of the protocol\<close>

text \<open>
  A UDP message is accepted exactly when it consists of a nine byte header, at most 497 data bytes
  whose number the header states and the CRC of both, and is addressed to the configured gateway byte.
  A message that differs from an accepted one in a single byte, wherever it is, is refused.
\<close>

theorem ide_validate_iff:
  "(validateMsg ide m = Inr () \<longleftrightarrow> (\<exists>h data. valid_parts ide h data \<and> m = packet h data)) \<and>
   (validateMsg ide m = Inr () \<longrightarrow> (\<forall>i<length m. \<forall>b. b \<noteq> m ! i \<longrightarrow> validateMsg ide (m[i := b]) \<noteq> Inr ()))"
  using validate_Inr[of ide m] validate_packet corrupted_invalid by blast

definition sample_ide :: "unit ide" where
  "sample_ide = \<lparr>m_params = \<lparr>mode = 0x22, name = ''gw'', ipStack = [], netBios = [], publicIp = [], IP = [], MAC = []\<rparr>,
     m_mode = Service, m_exclusiveAcessor = Some \<lparr>m_type = Exclusive\<rparr>, m_snifferAcessor = None,
     m_setModeCallbacks = []\<rparr>"

definition sample_header :: bytes where
  "sample_header = [0x22, 3, 0, 0, 0, 0, 1, 0, 2]"

lemma sample_parts: "valid_parts sample_ide sample_header [0xAA, 0x55]"
  by (simp add: valid_parts_def sample_ide_def sample_header_def dlen_def)

theorem ide_validate_iff_witness:
  "validateMsg sample_ide ((packet sample_header [0xAA, 0x55])[9 := 0xAB]) \<noteq> Inr ()"
proof -
  have l: "9 < length (packet sample_header [0xAA, 0x55])" "packet sample_header [0xAA, 0x55] ! 9 = 0xAA"
    by (simp_all add: packet_def sample_header_def)
  have "(0xAB :: u8) \<noteq> 0xAA" by simp
  then show ?thesis
    using ide_validate_iff[of sample_ide "packet sample_header [0xAA, 0x55]"] sample_parts l by metis
qed

text \<open>
  C15: an accepted message is answered by exactly one UDP packet, the specified reply to its command, which
  is itself an acceptable packet whenever its data fit; the data of a write, or the reset request of a
  reset, go to the channel exactly when the component holds the exclusive access, after the reply. A
  refused message has no effect. (The byte past the end of the empty response string is assumed not to
  be the code of a write; the identification string is assumed shorter than a UDP packet.)
\<close>

theorem ide_handles_message:
  assumes "junk 1 \<noteq> 3" "length (ident_data env ide) < 65527" "\<forall>p. udp_send env p = Inr ()"
    "\<forall>a. m_exclusiveAcessor ide = Some a \<longrightarrow> m_type a = Exclusive"
  shows "(validateMsg ide m \<noteq> Inr () \<longrightarrow> handleMsg junk env ac ide m = (- 1, [])) \<and>
    (\<forall>h data. valid_parts ide h data \<longrightarrow> m = packet h data \<longrightarrow>
      (\<exists>st d. ide_reply env ide (h ! 1) = (st, d) \<and>
        (length d \<le> 497 \<longrightarrow> validateMsg ide (answer st d h) = Inr ()) \<and>
        handleMsg junk env ac ide m =
          (0, UdpSent (answer st d h) #
              (case tr_request (h ! 1) data of
                 None \<Rightarrow> []
               | Some r \<Rightarrow> if m_exclusiveAcessor ide \<noteq> None then [OnChannel (ChannelSend r)] else []))))"
proof (intro conjI allI impI)
  assume "validateMsg ide m \<noteq> Inr ()"
  then show "handleMsg junk env ac ide m = (- 1, [])"
    by (cases "validateMsg ide m") (simp_all add: handleMsg_def)
next
  fix h data assume v: "valid_parts ide h data" and m: "m = packet h data"
  obtain st d where r: "ide_reply env ide (h ! 1) = (st, d)" by fastforce
  obtain c where c: "dispatch junk env ide (packet h data) =
      (Inr c, (case tr_request (h ! 1) data of Some d \<Rightarrow> d | None \<Rightarrow> data))"
      "m_response c = answer st d h" "m_trWrite c = (tr_request (h ! 1) data \<noteq> None)"
    using dispatch_reply[of ide h data junk env, OF v assms(1,2)] r by auto
  have "length d \<le> 497 \<Longrightarrow> validateMsg ide (answer st d h) = Inr ()"
    using v by (intro answer_valid) (simp_all add: valid_parts_def)
  moreover have "handleMsg junk env ac ide m =
      (0, UdpSent (answer st d h) #
          (case tr_request (h ! 1) data of
             None \<Rightarrow> []
           | Some r \<Rightarrow> if m_exclusiveAcessor ide \<noteq> None then [OnChannel (ChannelSend r)] else []))"
    using assms(3,4) validate_packet[OF v] c
    by (cases "m_exclusiveAcessor ide"; cases "tr_request (h ! 1) data")
      (simp_all add: handleMsg_def m accessor_send_def sendTo_def)
  ultimately show "\<exists>st d. ide_reply env ide (h ! 1) = (st, d) \<and>
        (length d \<le> 497 \<longrightarrow> validateMsg ide (answer st d h) = Inr ()) \<and>
        handleMsg junk env ac ide m =
          (0, UdpSent (answer st d h) #
              (case tr_request (h ! 1) data of
                 None \<Rightarrow> []
               | Some r \<Rightarrow> if m_exclusiveAcessor ide \<noteq> None then [OnChannel (ChannelSend r)] else []))"
    using r by blast
qed

definition sample_env :: ide_env where
  "sample_env = \<lparr>listeningIp = ''10.0.0.2'', listeningMac = [],
     coordinatorParameters = \<lparr>osVersion = ''4.06D'', osBuild = ''08D8'', mid = 0x8100A1B2, osVersionByte = 0x46,
       trMcuType = 0x24, osBuildWord = 0x08D8\<rparr>,
     localtime = \<lparr>tm_sec = 1, tm_min = 2, tm_hour = 3, tm_wday = 4, tm_mday = 5, tm_mon = 6, tm_year = 126\<rparr>,
     DAEMON_VERSION = ''v3'', udp_send = (\<lambda>_. Inr ())\<rparr>"

theorem ide_handles_message_witness:
  "handleMsg (\<lambda>_. 0) sample_env (new_AccessControl :: unit access_control) sample_ide
     (packet sample_header [0xAA, 0x55]) =
   (0, [UdpSent (answer (Some 0x50) [] sample_header), OnChannel (ChannelSend [0xAA, 0x55])])"
proof -
  have "sample_header ! 1 = 3" by (simp add: sample_header_def)
  moreover have "ide_reply sample_env sample_ide 3 = (Some 0x50, [])" "tr_request 3 [0xAA, 0x55] = Some [0xAA, 0x55]"
      "m_exclusiveAcessor sample_ide = Some \<lparr>m_type = Exclusive\<rparr>"
    by (simp_all add: ide_reply_def tr_request_def sample_ide_def)
  moreover have "length (ident_data sample_env sample_ide) < 65527"
    by (simp add: ident_data_def str_bytes_def ident_string_def sample_env_def sample_ide_def crlf_def)
  moreover have "\<forall>p. udp_send sample_env p = Inr ()" by (simp add: sample_env_def)
  ultimately show ?thesis
    using ide_handles_message[of "\<lambda>_. 0" sample_env sample_ide "packet sample_header [0xAA, 0x55]"
        "new_AccessControl :: unit access_control"] sample_parts
    by fastforce
qed

lemma answer_nth: "i < 9 \<Longrightarrow> length h = 9 \<Longrightarrow> answer st d h ! i =
    (set_dlen (length d) (let r = h[1 := h ! 1 OR 0x80] in case st of None \<Rightarrow> r | Some v \<Rightarrow> r[2 := v])) ! i"
  by (auto simp: answer_def packet_def nth_append PACKET_RESPONSE_CODE_def Let_def split: option.split)

text \<open>
  The status byte a reset command computes never reaches its reply: whether the exclusive access is
  held or not, the packet is the same, with the sub-command byte of the request.
\<close>

theorem reset_status_lost:
  assumes "length (m_header c) = 9" "m_header c ! 1 = command_code TR_RESET" "m_data c = []"
  shows "TrReset_buildResponse junk True c = TrReset_buildResponse junk False c \<and>
    (\<exists>c'. TrReset_buildResponse junk True c = Inr c' \<and>
      m_response c' ! header_index SUBCMD = m_header c ! header_index SUBCMD)"
  using assms reset_built[of c junk True] reset_built[of c junk False]
  by (simp add: answer_nth)

theorem reset_status_lost_witness:
  "\<exists>c'. TrReset_buildResponse (\<lambda>_. 0) True (TrReset [0x22, 0x13, 0x55, 0, 0, 0, 1, 0, 0]) = Inr c' \<and>
     m_response c' ! 2 = 0x55"
proof -
  let ?c = "TrReset [0x22, 0x13, 0x55, 0, 0, 0, 1, 0, 0]"
  have "length (m_header ?c) = 9" "m_header ?c ! 1 = command_code TR_RESET" "m_data ?c = []"
      "m_header ?c ! 2 = 0x55"
    by (simp_all add: TrReset_def BaseCommand_def BaseCommand0_def str_substr_def HEADER_SIZE_def)
  then show ?thesis using reset_status_lost[of ?c "\<lambda>_. 0", THEN conjunct2] by simp
qed

text \<open>
  A data packet the component sends on its own, for bytes received from the transceiver while it
  holds an access, is an acceptable packet with the same bytes as its data, provided they fit.
\<close>

theorem ide_forward_roundtrip:
  assumes "length bs \<le> 497" "\<forall>p. udp_send env p = Inr ()"
  shows "\<exists>p. sendMessageToIde env ide bs = Inr (0, [UdpSent p]) \<and> validateMsg ide p = Inr () \<and>
    str_substr HEADER_SIZE (dlen p) p = bs \<and> p ! header_index CMD = command_code SEND_TR_DATA"
proof -
  let ?h = "set_dlen (length bs) [mode (m_params ide), 4, 0, 0, 0, 0, 0, 0, 0]"
  have z: "replicate 11 (0 :: u8) = [0, 0, 0, 0, 0, 0, 0, 0, 0, 0, 0]" by (simp add: numeral_eq_Suc)
  have "finish_packet bs [mode (m_params ide), 4, 0, 0, 0, 0, 0, 0, 0, 0, 0] = Inr (packet ?h bs)"
    using finish_packet_eq[of "[mode (m_params ide), 4, 0, 0, 0, 0, 0, 0, 0, 0, 0]" bs] assms(1) by simp
  then have "sendMessageToIde env ide bs = Inr (0, [UdpSent (packet ?h bs)])"
    using assms(2)
    by (simp add: sendMessageToIde_def SendTrData_buildResponse_def BaseCommand0_def resize_nil packet_sizes z Let_def)
  moreover have h: "length ?h = 9" "dlen ?h = length bs" using assms(1) by (simp_all add: dlen_set_dlen)
  moreover have "valid_parts ide ?h bs" using h assms(1) by (simp add: valid_parts_def)
  moreover have "packet ?h bs ! 1 = 4" using packet_parts(5)[OF h, of 1] by simp
  ultimately show ?thesis
    using validate_packet[of ide ?h bs] packet_parts(1,3)[OF h]
    by (intro exI[of _ "packet ?h bs"]) (simp add: HEADER_SIZE_def)
qed

theorem ide_forward_roundtrip_witness:
  "\<exists>p. sendMessageToIde sample_env sample_ide [1, 2, 3] = Inr (0, [UdpSent p]) \<and>
     validateMsg sample_ide p = Inr ()"
proof -
  have "length [1, 2, 3 :: u8] \<le> 497" "\<forall>p. udp_send sample_env p = Inr ()" by (simp_all add: sample_env_def)
  from ide_forward_roundtrip[OF this, of sample_ide] show ?thesis by blast
qed

section \<open>Properties of the modes\<close>

text \<open>
  The component and the access control agree: the handles have the types they are named after, and a held
  handle of the exclusive access is the registered one.
\<close>

definition handles_ok :: "'f access_control \<Rightarrow> 'g ide \<Rightarrow> bool" where
  "handles_ok ac ide \<longleftrightarrow>
     (\<forall>a. m_exclusiveAcessor ide = Some a \<longrightarrow> m_type a = Exclusive \<and> hasExclusiveAccess ac) \<and>
     (\<forall>a. m_snifferAcessor ide = Some a \<longrightarrow> m_type a = Sniffer)"

lemma reset_handles:
  assumes "handles_ok ac ide"
  shows "reset_acessor x (m_exclusiveAcessor ide) =
      (if m_exclusiveAcessor ide = None then x else x\<lparr>m_exclusiveReceiveFromFunc := None\<rparr>)"
    "reset_acessor x (m_snifferAcessor ide) =
      (if m_snifferAcessor ide = None then x else x\<lparr>m_snifferReceiveFromFunc := None\<rparr>)"
  using assms
  by (auto simp: reset_acessor_def accessor_destroy_def resetAccess_def handles_ok_def split: option.split)

text \<open>
  Switching the mode. To operational: both accesses are given back. To service: it succeeds
  exactly when nobody holds the exclusive access, and the IDE then is its holder; otherwise it
  throws, the mode stays, but the monitoring access is gone. To forwarding: the exclusive access is given back,
  and received messages are forwarded to the IDE exactly if it was not monitoring before: switching to
  forwarding while forwarding ends the forwarding. Handles and access control agree after every switch.
\<close>

theorem mode_switch_correct:
  assumes ok: "handles_ok ac ide" and "setMode toIde ac ide md = (ac', ide', cbs, r)"
  shows "handles_ok ac' ide' \<and>
    (md = Operational \<longrightarrow> r = Inr () \<and> m_mode ide' = Operational \<and>
       m_exclusiveAcessor ide' = None \<and> m_snifferAcessor ide' = None \<and>
       (m_exclusiveAcessor ide \<noteq> None \<longrightarrow> \<not> hasExclusiveAccess ac')) \<and>
    (md = Service \<longrightarrow> (ok_r r \<longleftrightarrow> \<not> hasExclusiveAccess ac) \<and> m_snifferAcessor ide' = None \<and>
       (ok_r r \<longrightarrow> m_mode ide' = Service \<and> m_exclusiveAcessor ide' \<noteq> None \<and>
                   m_exclusiveReceiveFromFunc ac' = Some toIde) \<and>
       (\<not> ok_r r \<longrightarrow> m_mode ide' = m_mode ide \<and> m_exclusiveAcessor ide' = m_exclusiveAcessor ide)) \<and>
    (md = Forwarding \<longrightarrow> r = Inr () \<and> m_mode ide' = Forwarding \<and> m_exclusiveAcessor ide' = None \<and>
       m_snifferReceiveFromFunc ac' = (if m_snifferAcessor ide = None then Some toIde else None)) \<and>
    (md = Unknown \<longrightarrow> ac' = ac \<and> ide' = ide)"
proof (cases md)
  case Operational
  then show ?thesis
    using assms by (simp add: setMode_def reset_handles[OF ok] handles_ok_def hasExclusiveAccess_def Let_def) auto
next
  case Service
  then show ?thesis
    using assms
    by (cases "m_exclusiveReceiveFromFunc ac"; cases "m_exclusiveAcessor ide"; cases "m_snifferAcessor ide")
      (simp_all add: setMode_def reset_handles[OF ok] getAccess_def handles_ok_def hasExclusiveAccess_def
         Let_def reset_acessor_def accessor_destroy_def resetAccess_def, auto)
next
  case Forwarding
  then show ?thesis
    using assms
    by (cases "m_exclusiveAcessor ide"; cases "m_snifferAcessor ide")
      (simp_all add: setMode_def getAccess_def handles_ok_def hasExclusiveAccess_def
         Let_def reset_acessor_def accessor_destroy_def resetAccess_def, auto)
qed (use assms in \<open>auto simp: setMode_def\<close>)

theorem mode_switch_correct_witness:
  "\<exists>ac ide cbs. setMode ''cb'' (new_AccessControl\<lparr>m_exclusiveReceiveFromFunc := Some ''cb''\<rparr>) sample_ide Operational
      = (ac, ide, cbs, Inr ()) \<and> \<not> hasExclusiveAccess ac \<and> m_mode ide = Operational"
proof -
  let ?ac = "new_AccessControl\<lparr>m_exclusiveReceiveFromFunc := Some ''cb''\<rparr>"
  obtain ac ide cbs r where s: "setMode ''cb'' ?ac sample_ide Operational = (ac, ide, cbs, r)"
    by (metis prod_cases4)
  have "handles_ok ?ac sample_ide"
    by (simp add: handles_ok_def sample_ide_def hasExclusiveAccess_def)
  from mode_switch_correct[OF this s] s show ?thesis by (simp add: sample_ide_def)
qed

end
