(* ===== verification/Device_Info.thy ===== *)
theory Device_Info
  imports Gwd_Prelude Cpp_Std
begin

text \<open>
  \<open>include/Common.h\<close>: the textual forms of the identification, operating system and DPA version of a
  device, as they appear in the database and in the API messages.
\<close>

section \<open>Definitions\<close>

definition mcuTypeMask :: u8 where
  "mcuTypeMask = 0x07"

definition trSeriesD :: "(u8 \<times> string) list" where
  "trSeriesD = [(0, ''52Dx''), (1, ''58_RJx''), (2, ''72Dx''), (3, ''53Dx''), (4, ''78Dx''), (8, ''54Dx''),
     (9, ''55Dx''), (10, ''56Dx''), (11, ''76Dx''), (12, ''77Dx''), (13, ''75Dx'')]"

definition trSeriesG :: "(u8 \<times> string) list" where
  "trSeriesG = [(2, ''72Gx''), (11, ''76Gx'')]"

definition PIC16LF1938 :: u8 where "PIC16LF1938 = 4"
definition PIC16LF18877 :: u8 where "PIC16LF18877 = 5"

text \<open>\<open>setfill\<close> and \<open>setw\<close> before a number in upper or lower case hexadecimal form.\<close>

definition midString :: "u32 \<Rightarrow> string" where
  "midString mid = pad_left 8 (CHR ''0'') (show_hex_upper (unat mid))"

definition series_name :: "(u8 \<times> string) list \<Rightarrow> u8 \<Rightarrow> string" where
  "series_name tab trSeries = (case map_of tab trSeries of Some n \<Rightarrow> n | None \<Rightarrow> ''???'')"

definition trSeriesString :: "u8 \<Rightarrow> string" where
  "trSeriesString trMcu =
     (let mcuType = trMcu AND mcuTypeMask; trSeries = drop_bit 4 trMcu in
      ''(DC)TR-'' @
      (if mcuType = PIC16LF1938 then series_name trSeriesD trSeries
       else if mcuType = PIC16LF18877 then series_name trSeriesG trSeries
       else ''???''))"

definition mcuTypeString :: "u8 \<Rightarrow> string" where
  "mcuTypeString trMcu =
     (if trMcu AND mcuTypeMask = PIC16LF1938 then ''PIC16LF1938''
      else if trMcu AND mcuTypeMask = PIC16LF18877 then ''PIC16LF18877''
      else ''unknown'')"

definition osBuildString :: "u16 \<Rightarrow> string" where
  "osBuildString osBuild = pad_left 4 (CHR ''0'') (show_hex_upper (unat osBuild))"

definition osVersionString :: "u8 \<Rightarrow> u8 \<Rightarrow> string" where
  "osVersionString osVersion trMcu =
     show_hex (unat (drop_bit 4 osVersion)) @ ''.'' @
     pad_left 2 (CHR ''0'') (show_hex (unat (osVersion AND 0xf))) @
     (if trMcu AND mcuTypeMask = PIC16LF1938 then ''D''
      else if trMcu AND mcuTypeMask = PIC16LF18877 then ''G'' else [])"

definition dpaVersionMajor :: "u16 \<Rightarrow> u8" where
  "dpaVersionMajor dpaVersion = ucast (drop_bit 8 dpaVersion AND 0xFF)"

definition dpaVersionMinor :: "u16 \<Rightarrow> u8" where
  "dpaVersionMinor dpaVersion = ucast (dpaVersion AND 0xFF)"

text \<open>No \<open>setfill\<close> here: the default fill character is a blank.\<close>

definition dpaVersionString :: "u16 \<Rightarrow> string" where
  "dpaVersionString dpaVersion =
     pad_left 1 (CHR '' '') (show_hex_upper (unat (drop_bit 8 (dpaVersion AND 0x3FFF)))) @ ''.'' @
     pad_left 2 (CHR '' '') (show_hex_upper (unat (dpaVersion AND 0xFF)))"

definition dpaVersionHexaString :: "u16 \<Rightarrow> string" where
  "dpaVersionHexaString dpaVersion = pad_left 4 (CHR ''0'') (show_hex_upper (unat dpaVersion))"

definition demoFlag :: "u16 \<Rightarrow> bool" where
  "demoFlag dpaVersion \<longleftrightarrow> dpaVersion AND 0x8000 \<noteq> 0"

definition stdModeSupported :: "u8 \<Rightarrow> bool" where
  "stdModeSupported flags \<longleftrightarrow> flags AND 0x01 \<noteq> 0"

definition stdLpNetwork :: "u8 \<Rightarrow> bool" where
  "stdLpNetwork flags \<longleftrightarrow> flags AND 0x04 \<noteq> 0"

section \<open>Fixed width hexadecimal forms\<close>

lemma unat_u32_lt: "unat (w :: u32) < 16 ^ 8"
proof -
  have "unat w < 2 ^ LENGTH(32)" by (rule unsigned_less)
  then show ?thesis by simp
qed

lemma midString_digits: "midString mid = map hex_char_upper (fixed_digits 8 (unat mid))"
  unfolding midString_def by (rule pad_show_hex(2)[OF _ unat_u32_lt]) simp

lemma word_digits: "pad_left 4 (CHR ''0'') (show_hex_upper (unat (w :: u16))) = map hex_char_upper (fixed_digits 4 (unat w))"
  using unat_lt_65536[of w] by (intro pad_show_hex(2)) simp_all

lemma inj_hex_char_upper: "inj_on hex_char_upper {d. d < 16}"
  by (rule inj_onI) (metis hex_val_hex_char_upper mem_Collect_eq option.inject)

lemma hex_digits_inj:
  assumes "m < 16 ^ k" "n < 16 ^ k"
    "map hex_char_upper (fixed_digits k m) = map hex_char_upper (fixed_digits k n)"
  shows "m = n"
proof -
  have "inj_on hex_char_upper (set (fixed_digits k m) \<union> set (fixed_digits k n))"
    using fixed_digits_bound by (intro inj_on_subset[OF inj_hex_char_upper]) auto
  then have "fixed_digits k m = fixed_digits k n"
    using assms(3) by (simp add: inj_on_map_eq_map)
  then show ?thesis using fixed_digits_inj assms(1,2) by blast
qed

section \<open>Properties\<close>

text \<open>
  Module identifiers, OS builds and hexadecimal DPA versions are printed with a fixed number of digits
  and without loss: equal texts come from equal numbers, so the texts can serve as keys.
\<close>

theorem device_texts_unique:
  "length (midString a) = 8 \<and> (midString a = midString b \<longleftrightarrow> a = b) \<and>
   length (osBuildString u) = 4 \<and> (osBuildString u = osBuildString v \<longleftrightarrow> u = v) \<and>
   length (dpaVersionHexaString u) = 4 \<and> (dpaVersionHexaString u = dpaVersionHexaString v \<longleftrightarrow> u = v)"
proof -
  have "midString a = midString b \<longleftrightarrow> a = b"
    using hex_digits_inj[OF unat_u32_lt unat_u32_lt, of a b] by (auto simp: midString_digits word_unat_eq_iff)
  moreover have "map hex_char_upper (fixed_digits 4 (unat u)) = map hex_char_upper (fixed_digits 4 (unat v)) \<longleftrightarrow> u = v"
    using hex_digits_inj[of "unat u" 4 "unat v"] unat_lt_65536[of u] unat_lt_65536[of v]
    by (auto simp: word_unat_eq_iff)
  ultimately show ?thesis
    by (simp add: midString_digits osBuildString_def dpaVersionHexaString_def word_digits)
qed

text \<open>
  The readable DPA version has a blank where the leading zero of the minor version belongs: exactly
  for minor versions below 16 the text contains a blank, so version 4.03 reads \<open>4. 3\<close>.
\<close>

theorem dpa_version_blank:
  "CHR '' '' \<in> set (dpaVersionString v) \<longleftrightarrow> unat (dpaVersionMinor v) < 16"
proof -
  have nb: "CHR '' '' \<notin> set (show_hex_upper n)" for n
  proof
    assume "CHR '' '' \<in> set (show_hex_upper n)"
    then obtain d where d: "d \<in> set (digits_base 16 n)" "CHR '' '' = hex_char_upper d"
      by (auto simp: show_hex_upper_def)
    then have "hex_val (CHR '' '') = Some d" using digits_base_bound[of 16 d n] by simp
    then show False by (simp add: hex_val_def split: if_splits)
  qed
  have two: "length (show_hex_upper n) < 2 \<longleftrightarrow> n < 16" for n
  proof (cases "n < 16")
    case False
    have "digits_base 16 (n div 16) \<noteq> []" by (subst digits_base.simps) simp
    with False show ?thesis by (simp add: show_hex_upper_def) (subst digits_base.simps, simp)
  qed (simp add: show_hex_upper_def digits_base_hd_lt)
  have one: "1 - length (show_hex_upper n) = 0" for n
    by (simp add: show_hex_upper_def Suc_le_eq) (subst digits_base.simps, simp)
  have minor: "unat (dpaVersionMinor v) = unat (v AND 0xFF)"
    by (simp add: dpaVersionMinor_def unsigned_ucast_eq unat_and_ff take_bit_eq_mod)
  have "CHR '' '' \<in> set (pad_left 2 (CHR '' '') (show_hex_upper n)) \<longleftrightarrow> n < 16" for n
    using nb[of n] two[of n] by (auto simp: pad_left_def set_replicate_conv_if)
  then show ?thesis
    using nb one by (simp add: dpaVersionString_def minor pad_left_def)
qed

end
