(* ===== verification/Dpa_Solver.thy ===== *)
theory Dpa_Solver
  imports Hex_String
begin

text \<open>
  The typed DPA commands of \<open>DpaParser/DpaCommandSolver.h\<close>: an object that builds the request of one
  DPA command, checks that a response belongs to it and hands the response to the parser of the
  derived class. Derived here: the asynchronous response of \<open>RawAny.h\<close> and the coordinator commands of
  \<open>RawDpaEmbedCoordinator.h\<close> with the accessors of \<open>EmbedCoordinator.h\<close>.

  The packet layout (\<open>DpaMessage\<close>, \<open>DPA.h\<close>) belongs to a library outside the repository. It is the
  parameter \<open>dpa_lib\<close>: the accessors of a message of an abstract type and the constants the code names.
\<close>

section \<open>The DPA library as a parameter\<close>

record 'm dpa_lib =
  sizeof_TDpaIFaceHeader :: nat
  DPA_MAX_DATA_LENGTH :: nat
  STATUS_ASYNC_RESPONSE :: u8
  COORDINATOR_ADDRESS :: u16
  PNUM_COORDINATOR :: u8
  CMD_COORDINATOR_BONDED_DEVICES :: u8
  CMD_COORDINATOR_DISCOVERED_DEVICES :: u8
  DpaMessage :: 'm
  GetLength :: "'m \<Rightarrow> nat"
  NADR :: "'m \<Rightarrow> u16"
  PNUM :: "'m \<Rightarrow> u8"
  PCMD :: "'m \<Rightarrow> u8"
  HWPID :: "'m \<Rightarrow> u16"
  ResponseCode :: "'m \<Rightarrow> u8"
  DpaValue :: "'m \<Rightarrow> u8"
  PData :: "'m \<Rightarrow> bytes"
  set_NADR :: "u16 \<Rightarrow> 'm \<Rightarrow> 'm"
  set_PNUM :: "u8 \<Rightarrow> 'm \<Rightarrow> 'm"
  set_PCMD :: "u8 \<Rightarrow> 'm \<Rightarrow> 'm"
  set_HWPID :: "u16 \<Rightarrow> 'm \<Rightarrow> 'm"
  SetLength :: "nat \<Rightarrow> 'm \<Rightarrow> 'm"

text \<open>What the code relies on: fields are stored independently of each other, and the data field has its full
  length whatever the length of the message.\<close>

definition dpa_lib_ok :: "('m, 'z) dpa_lib_scheme \<Rightarrow> bool" where
  "dpa_lib_ok L \<longleftrightarrow>
     (\<forall>m v. NADR L (set_NADR L v m) = v \<and> PNUM L (set_NADR L v m) = PNUM L m \<and>
            PCMD L (set_NADR L v m) = PCMD L m \<and> HWPID L (set_NADR L v m) = HWPID L m) \<and>
     (\<forall>m v. PNUM L (set_PNUM L v m) = v \<and> NADR L (set_PNUM L v m) = NADR L m \<and>
            PCMD L (set_PNUM L v m) = PCMD L m \<and> HWPID L (set_PNUM L v m) = HWPID L m \<and>
            GetLength L (set_PNUM L v m) = GetLength L m \<and> set_PNUM L (PNUM L m) m = m) \<and>
     (\<forall>m v. PCMD L (set_PCMD L v m) = v \<and> NADR L (set_PCMD L v m) = NADR L m \<and>
            PNUM L (set_PCMD L v m) = PNUM L m \<and> HWPID L (set_PCMD L v m) = HWPID L m) \<and>
     (\<forall>m v. HWPID L (set_HWPID L v m) = v \<and> NADR L (set_HWPID L v m) = NADR L m \<and>
            PNUM L (set_HWPID L v m) = PNUM L m \<and> PCMD L (set_HWPID L v m) = PCMD L m) \<and>
     (\<forall>m n. GetLength L (SetLength L n m) = n \<and> NADR L (SetLength L n m) = NADR L m \<and>
            PNUM L (SetLength L n m) = PNUM L m \<and> PCMD L (SetLength L n m) = PCMD L m \<and>
            HWPID L (SetLength L n m) = HWPID L m) \<and>
     (\<forall>m. length (PData L m) = DPA_MAX_DATA_LENGTH L)"

text \<open>The interface of a finished transaction, \<open>IDpaTransactionResult2\<close>.\<close>

record 'm transaction_result =
  isResponded :: bool
  getErrorCode :: int
  getResponse_of :: 'm

section \<open>DpaCommandSolver\<close>

text \<open>
  The object: the members of \<open>DpaCommandSolver\<close> and, in \<open>derived\<close>, the members the derived class adds.
\<close>

record ('m, 'd) solver =
  m_nadr :: u16
  m_pnum :: u8
  m_pcmd :: u8
  m_hwpid :: u16
  m_rcode :: u8
  m_dpaval :: u8
  m_asyncResponse :: bool
  m_rdata :: bytes
  m_dpaTransactionResult2 :: "'m transaction_result option"
  m_dpaResponse :: 'm
  derived :: 'd

definition getRequestHeaderLen :: "('m, 'z) dpa_lib_scheme \<Rightarrow> nat" where
  "getRequestHeaderLen L = sizeof_TDpaIFaceHeader L"

definition getResponseHeaderLen :: "('m, 'z) dpa_lib_scheme \<Rightarrow> nat" where
  "getResponseHeaderLen L = sizeof_TDpaIFaceHeader L + 2"

definition len_invalid :: "('m, 'z) dpa_lib_scheme \<Rightarrow> nat \<Rightarrow> bool" where
  "len_invalid L len \<longleftrightarrow>
     len < getResponseHeaderLen L \<or> len > getResponseHeaderLen L + DPA_MAX_DATA_LENGTH L"

text \<open>The bytes \<open>PData .. PData + len - sizeof(TDpaIFaceHeader) - 2\<close>.\<close>

definition response_data :: "('m, 'z) dpa_lib_scheme \<Rightarrow> 'm \<Rightarrow> bytes" where
  "response_data L m = take (GetLength L m - sizeof_TDpaIFaceHeader L - 2) (PData L m)"

text \<open>The constructor with every request field, of which the three shorter ones are instances.\<close>

definition DpaCommandSolver4 ::
    "('m, 'z) dpa_lib_scheme \<Rightarrow> u16 \<Rightarrow> u8 \<Rightarrow> u8 \<Rightarrow> u16 \<Rightarrow> 'd \<Rightarrow> ('m, 'd) solver" where
  "DpaCommandSolver4 L nadr pnum pcmd hwpid d =
     \<lparr>m_nadr = nadr, m_pnum = pnum, m_pcmd = pcmd, m_hwpid = hwpid, m_rcode = 0, m_dpaval = 0,
      m_asyncResponse = False, m_rdata = [], m_dpaTransactionResult2 = None,
      m_dpaResponse = DpaMessage L, derived = d\<rparr>"

definition DpaCommandSolver3 :: "('m, 'z) dpa_lib_scheme \<Rightarrow> u16 \<Rightarrow> u8 \<Rightarrow> u8 \<Rightarrow> 'd \<Rightarrow> ('m, 'd) solver" where
  "DpaCommandSolver3 L nadr pnum pcmd d = DpaCommandSolver4 L nadr pnum pcmd 0xFFFF d"

definition DpaCommandSolver2 :: "('m, 'z) dpa_lib_scheme \<Rightarrow> u16 \<Rightarrow> u16 \<Rightarrow> 'd \<Rightarrow> ('m, 'd) solver" where
  "DpaCommandSolver2 L nadr hwpid d = DpaCommandSolver4 L nadr 0 0 hwpid d"

definition DpaCommandSolver1 :: "('m, 'z) dpa_lib_scheme \<Rightarrow> u16 \<Rightarrow> 'd \<Rightarrow> ('m, 'd) solver" where
  "DpaCommandSolver1 L nadr d = DpaCommandSolver4 L nadr 0 0 0xFFFF d"

text \<open>The constructor from an asynchronous response takes every field from the message.\<close>

definition DpaCommandSolver_async :: "('m, 'z) dpa_lib_scheme \<Rightarrow> 'm \<Rightarrow> 'd \<Rightarrow> ('m, 'd) solver result" where
  "DpaCommandSolver_async L dpaResponse d =
     (let s = (DpaCommandSolver4 L (- 1) 0 0 0xFFFF d)\<lparr>m_dpaResponse := dpaResponse\<rparr>;
          len = GetLength L dpaResponse
      in if len_invalid L len then Inl (LogicError ''Invalid dpaResponse length: '')
         else
           let rcode = ResponseCode L dpaResponse;
               s = s\<lparr>m_nadr := NADR L dpaResponse, m_pnum := PNUM L dpaResponse,
                     m_pcmd := PCMD L dpaResponse AND 0x7F, m_hwpid := HWPID L dpaResponse,
                     m_asyncResponse := rcode AND STATUS_ASYNC_RESPONSE L \<noteq> 0,
                     m_rcode := rcode AND 0x7F, m_dpaval := DpaValue L dpaResponse\<rparr>
           in Inr (if len > sizeof_TDpaIFaceHeader L + 2
                   then s\<lparr>m_rdata := response_data L dpaResponse\<rparr> else s))"

definition isAsyncRcode :: "('m, 'd) solver \<Rightarrow> bool" where
  "isAsyncRcode s = m_asyncResponse s"

definition getResultMove :: "('m, 'd) solver \<Rightarrow> ('m, 'd) solver \<times> 'm transaction_result option" where
  "getResultMove s = (s\<lparr>m_dpaTransactionResult2 := None\<rparr>, m_dpaTransactionResult2 s)"

text \<open>The virtual \<open>encodeRequest\<close> and \<open>parseResponse\<close> of the derived class are arguments.\<close>

definition getRequest ::
    "('m, 'z) dpa_lib_scheme \<Rightarrow> (('m, 'd) solver \<Rightarrow> 'm \<Rightarrow> 'm) \<Rightarrow> ('m, 'd) solver \<Rightarrow> 'm" where
  "getRequest L encodeRequest s =
     (let r = DpaMessage L;
          r = set_NADR L (m_nadr s) r;
          r = set_PNUM L (m_pnum s) r;
          r = set_PCMD L (m_pcmd s) r;
          r = set_HWPID L (m_hwpid s) r;
          r = SetLength L (sizeof_TDpaIFaceHeader L) r
      in encodeRequest s r)"

text \<open>
  A member function that may throw returns the object as the exception leaves it and the outcome: the caller can
  still read \<open>m_rcode\<close> and the other members after a throw.
\<close>

type_synonym ('m, 'd) solver_call = "('m, 'd) solver \<Rightarrow> ('m, 'd) solver \<times> unit result"

definition processResponse ::
    "('m, 'z) dpa_lib_scheme \<Rightarrow> ('m \<Rightarrow> ('m, 'd) solver_call) \<Rightarrow> ('m, 'd) solver_call" where
  "processResponse L parseResponse s =
     (let rp = m_dpaResponse s; len = GetLength L rp in
      if len_invalid L len then (s, Inl (LogicError ''Invalid dpaResponse length: ''))
      else if NADR L rp \<noteq> m_nadr s then (s, Inl (LogicError ''Invalid nadr:''))
      else if PNUM L rp \<noteq> m_pnum s then (s, Inl (LogicError ''Invalid pnum:''))
      else if PCMD L rp AND 0x7F \<noteq> m_pcmd s then (s, Inl (LogicError ''Invalid pnum:''))
      else
        let rcode = ResponseCode L rp;
            s = s\<lparr>m_hwpid := HWPID L rp, m_asyncResponse := rcode AND STATUS_ASYNC_RESPONSE L \<noteq> 0,
                  m_rcode := rcode AND 0x7F, m_dpaval := DpaValue L rp\<rparr>
        in if m_rcode s \<noteq> 0 then (s, Inl (LogicError ''Bad response: ''))
           else
             let s = (if len > sizeof_TDpaIFaceHeader L + 2 then s\<lparr>m_rdata := response_data L rp\<rparr> else s)
             in parseResponse rp s)"

definition processAsyncResponse ::
    "('m, 'z) dpa_lib_scheme \<Rightarrow> ('m \<Rightarrow> ('m, 'd) solver_call) \<Rightarrow> 'm \<Rightarrow> ('m, 'd) solver_call" where
  "processAsyncResponse L parseResponse dpaResponse s =
     (case processResponse L parseResponse (s\<lparr>m_dpaResponse := dpaResponse\<rparr>) of
        (s, Inl e) \<Rightarrow> (s, Inl e)
      | (s, Inr ()) \<Rightarrow> if \<not> isAsyncRcode s then (s, Inl (LogicError ''Invalid async response code:''))
                      else (s, Inr ()))"

definition processDpaTransactionResult ::
    "('m, 'z) dpa_lib_scheme \<Rightarrow> ('m \<Rightarrow> ('m, 'd) solver_call) \<Rightarrow> 'm transaction_result \<Rightarrow> ('m, 'd) solver_call" where
  "processDpaTransactionResult L parseResponse res s =
     (let s = s\<lparr>m_dpaTransactionResult2 := Some res\<rparr> in
      if \<not> isResponded res then (s, Inl (LogicError ''No response ''))
      else processResponse L parseResponse (s\<lparr>m_dpaResponse := getResponse_of res\<rparr>))"

section \<open>Derived classes\<close>

subsection \<open>AnyAsyncResponse\<close>

definition no_encode :: "('m, 'd) solver \<Rightarrow> 'm \<Rightarrow> 'm" where
  "no_encode s r = r"

definition no_parse :: "'m \<Rightarrow> ('m, 'd) solver_call" where
  "no_parse m s = (s, Inr ())"

definition AnyAsyncResponse :: "('m, 'z) dpa_lib_scheme \<Rightarrow> 'm \<Rightarrow> ('m, unit) solver result" where
  "AnyAsyncResponse L dpaMessage =
     bind_r (DpaCommandSolver_async L dpaMessage ())
       (\<lambda>s. if \<not> isAsyncRcode s then Inl (LogicError ''Invalid async response code:'') else Inr s)"

subsection \<open>Bonded and discovered devices\<close>

definition RawDpaBondedDevices :: "('m, 'z) dpa_lib_scheme \<Rightarrow> ('m, int set) solver" where
  "RawDpaBondedDevices L =
     DpaCommandSolver3 L (COORDINATOR_ADDRESS L) (PNUM_COORDINATOR L) (CMD_COORDINATOR_BONDED_DEVICES L) {}"

definition RawDpaDiscoveredDevices :: "('m, 'z) dpa_lib_scheme \<Rightarrow> ('m, int set) solver" where
  "RawDpaDiscoveredDevices L =
     DpaCommandSolver3 L (COORDINATOR_ADDRESS L) (PNUM_COORDINATOR L) (CMD_COORDINATOR_DISCOVERED_DEVICES L) {}"

text \<open>Both parsers read thirty bytes of the data field, whatever the length of the response.\<close>

definition BondedDevices_parse :: "('m, 'z) dpa_lib_scheme \<Rightarrow> 'm \<Rightarrow> ('m, int set) solver_call" where
  "BondedDevices_parse L dpaResponse s =
     (case bitmapToIndexes (PData L dpaResponse) 0 29 0 of
        Inl e \<Rightarrow> (s, Inl e) | Inr bonded \<Rightarrow> (s\<lparr>derived := bonded\<rparr>, Inr ()))"

definition DiscoveredDevices_parse :: "('m, 'z) dpa_lib_scheme \<Rightarrow> 'm \<Rightarrow> ('m, int set) solver_call" where
  "DiscoveredDevices_parse L dpaResponse s =
     (case bitmapToIndexes (PData L dpaResponse) 0 29 0 of
        Inl e \<Rightarrow> (s, Inl e) | Inr discovered \<Rightarrow> (s\<lparr>derived := discovered\<rparr>, Inr ()))"

definition isBonded :: "('m, int set) solver \<Rightarrow> u16 \<Rightarrow> bool" where
  "isBonded s nadr \<longleftrightarrow> uint nadr \<in> derived s"

definition isDiscovered :: "('m, int set) solver \<Rightarrow> u16 \<Rightarrow> bool" where
  "isDiscovered s nadr \<longleftrightarrow> uint nadr \<in> derived s"

section \<open>The check of a response\<close>

text \<open>A response that answers a request: the echoed header, no error code, a possible length.\<close>

definition answers :: "('m, 'z) dpa_lib_scheme \<Rightarrow> 'm \<Rightarrow> 'm \<Rightarrow> bool" where
  "answers L req m \<longleftrightarrow>
     NADR L m = NADR L req \<and> PNUM L m = PNUM L req \<and> PCMD L m AND 0x7F = PCMD L req \<and>
     ResponseCode L m AND 0x7F = 0 \<and>
     sizeof_TDpaIFaceHeader L + 2 \<le> GetLength L m \<and>
     GetLength L m \<le> sizeof_TDpaIFaceHeader L + 2 + DPA_MAX_DATA_LENGTH L"

text \<open>The object handed to the parser of the derived class.\<close>

definition received :: "('m, 'z) dpa_lib_scheme \<Rightarrow> 'm transaction_result \<Rightarrow> ('m, 'd) solver \<Rightarrow> ('m, 'd) solver" where
  "received L res s =
     (let m = getResponse_of res in
      s\<lparr>m_dpaTransactionResult2 := Some res, m_dpaResponse := m, m_hwpid := HWPID L m,
        m_asyncResponse := ResponseCode L m AND STATUS_ASYNC_RESPONSE L \<noteq> 0, m_rcode := 0,
        m_dpaval := DpaValue L m,
        m_rdata := if GetLength L m > sizeof_TDpaIFaceHeader L + 2 then response_data L m else m_rdata s\<rparr>)"

lemma request_fields:
  assumes "dpa_lib_ok L"
  shows "NADR L (getRequest L no_encode s) = m_nadr s" "PNUM L (getRequest L no_encode s) = m_pnum s"
    "PCMD L (getRequest L no_encode s) = m_pcmd s" "HWPID L (getRequest L no_encode s) = m_hwpid s"
    "GetLength L (getRequest L no_encode s) = sizeof_TDpaIFaceHeader L"
  using assms by (simp_all add: getRequest_def no_encode_def dpa_lib_ok_def Let_def)

lemma answers_request:
  assumes "dpa_lib_ok L"
  shows "answers L (getRequest L no_encode s) m \<longleftrightarrow>
     NADR L m = m_nadr s \<and> PNUM L m = m_pnum s \<and> PCMD L m AND 0x7F = m_pcmd s \<and>
     ResponseCode L m AND 0x7F = 0 \<and> \<not> len_invalid L (GetLength L m)"
  unfolding answers_def request_fields[OF assms] len_invalid_def getResponseHeaderLen_def not_less
  by auto

lemma transaction_accepted:
  assumes "dpa_lib_ok L" "isResponded res" "answers L (getRequest L no_encode s) (getResponse_of res)"
  shows "processDpaTransactionResult L parse res s = parse (getResponse_of res) (received L res s)"
  using assms(2) answers_request[OF assms(1), THEN iffD1, OF assms(3)]
  by (simp add: processDpaTransactionResult_def processResponse_def received_def Let_def)

lemma transaction_refused:
  assumes "dpa_lib_ok L"
    "\<not> (isResponded res \<and> answers L (getRequest L no_encode s) (getResponse_of res))"
  shows "\<exists>s' e. processDpaTransactionResult L parse res s = (s', Inl (LogicError e)) \<and>
     derived s' = derived s \<and> m_rdata s' = m_rdata s"
  using assms(2) answers_request[OF assms(1), of s "getResponse_of res"]
  by (auto simp: processDpaTransactionResult_def processResponse_def Let_def)

lemma response_data_length:
  assumes "dpa_lib_ok L" "answers L req m"
  shows "length (response_data L m) = GetLength L m - sizeof_TDpaIFaceHeader L - 2"
proof -
  have "length (PData L m) = DPA_MAX_DATA_LENGTH L"
    using assms(1) unfolding dpa_lib_ok_def by blast
  then show ?thesis using assms(2) by (auto simp: response_data_def answers_def)
qed

text \<open>
  The contract of a derived class: its \<open>encodeRequest\<close> leaves the header the base class wrote, its
  \<open>parseResponse\<close> does not touch the members the base class has read from the response header, the
  HWPID excepted, which the enumeration replaces. \<open>inv\<close> is an invariant of the members of the derived
  class; \<open>fits\<close> is what its parser needs to know of the length of the data.
\<close>

locale dpa_command =
  fixes L :: "('m, 'z) dpa_lib_scheme"
    and encode :: "('m, 'd) solver \<Rightarrow> 'm \<Rightarrow> 'm"
    and parse :: "'m \<Rightarrow> ('m, 'd) solver_call"
    and inv :: "('m, 'd) solver \<Rightarrow> bool"
    and fits :: "'m \<Rightarrow> bool"
  assumes encode_header: "dpa_lib_ok L \<Longrightarrow> inv s \<Longrightarrow> getRequest L encode s = getRequest L no_encode s"
    and parse_total: "fits m \<Longrightarrow> snd (parse m s) = Inr ()"
    and parse_frame: "m_nadr (fst (parse m s)) = m_nadr s" "m_pnum (fst (parse m s)) = m_pnum s"
      "m_pcmd (fst (parse m s)) = m_pcmd s" "m_rdata (fst (parse m s)) = m_rdata s"
      "m_rcode (fst (parse m s)) = m_rcode s"
begin

lemma exchange_ok:
  assumes lib: "dpa_lib_ok L" and "inv s" "isResponded res" "answers L (getRequest L encode s) (getResponse_of res)"
    "fits (getResponse_of res)"
  shows "processDpaTransactionResult L parse res s =
           (fst (parse (getResponse_of res) (received L res s)), Inr ())"
  using transaction_accepted[OF lib assms(3), of s parse] assms(2,4,5) encode_header[OF lib, of s]
    parse_total[of "getResponse_of res" "received L res s"]
  by (simp add: prod_eq_iff)

lemma exchange_iff:
  assumes lib: "dpa_lib_ok L" and "inv s" "fits (getResponse_of res)"
  shows "snd (processDpaTransactionResult L parse res s) = Inr () \<longleftrightarrow>
           isResponded res \<and> answers L (getRequest L encode s) (getResponse_of res)"
  using exchange_ok[OF lib assms(2), of res] transaction_refused[OF lib, of res s parse] assms(2,3)
    encode_header[OF lib, of s]
  by fastforce

lemma exchange_data:
  assumes lib: "dpa_lib_ok L" and "inv s" "isResponded res" "answers L (getRequest L encode s) (getResponse_of res)"
    "fits (getResponse_of res)" "GetLength L (getResponse_of res) > sizeof_TDpaIFaceHeader L + 2"
  shows "m_rdata (fst (processDpaTransactionResult L parse res s)) = response_data L (getResponse_of res)"
  using exchange_ok[OF assms(1-5)] assms(6) parse_frame(4) by (simp add: received_def Let_def)

lemma exchange_header_kept:
  "m_nadr (fst (processDpaTransactionResult L parse res s)) = m_nadr s"
  "m_pnum (fst (processDpaTransactionResult L parse res s)) = m_pnum s"
  "m_pcmd (fst (processDpaTransactionResult L parse res s)) = m_pcmd s"
  by (simp_all add: processDpaTransactionResult_def processResponse_def Let_def parse_frame)

end

interpretation any: dpa_command L no_encode no_parse "\<lambda>_. True" "\<lambda>_. True"
  by unfold_locales (simp_all add: no_parse_def)

lemma bitmap_30: "30 \<le> length bm \<Longrightarrow> bitmapToIndexes bm 0 29 0 = Inr (bitmap_bits (take 30 bm))"
  by (simp add: bitmapToIndexes_def bitmap_loop_bits image_def)

interpretation bonded: dpa_command L no_encode "BondedDevices_parse L" "\<lambda>_. True"
    "\<lambda>m. 30 \<le> length (PData L m)"
  by unfold_locales (simp_all add: BondedDevices_parse_def bitmap_30 split: sum.split)

interpretation discovered: dpa_command L no_encode "DiscoveredDevices_parse L" "\<lambda>_. True"
    "\<lambda>m. 30 \<le> length (PData L m)"
  by unfold_locales (simp_all add: DiscoveredDevices_parse_def bitmap_30 split: sum.split)

text \<open>The bit of an address in the data of a response with at least thirty bytes.\<close>

lemma addr_in_bitmap:
  assumes "30 \<le> n" "n \<le> length bm"
  shows "uint (a :: u16) \<in> bitmap_bits (take 30 bm) \<longleftrightarrow>
     unat a < 240 \<and> bit (take n bm ! (unat a div 8)) (unat a mod 8)"
proof -
  have "uint a \<in> bitmap_bits (take 30 bm) \<longleftrightarrow> int (unat a) \<in> bitmap_bits (take 30 bm)"
    by simp
  then show ?thesis using assms unfolding bitmap_bits_iff by auto
qed

section \<open>A library the laws hold of\<close>

record sample_msg =
  s_len :: nat
  s_nadr :: u16
  s_pnum :: u8
  s_pcmd :: u8
  s_hwpid :: u16
  s_rcode :: u8
  s_dpaval :: u8
  s_data :: "u8 \<Rightarrow> u8"

definition sample_dpa :: "sample_msg dpa_lib" where
  "sample_dpa =
     \<lparr>sizeof_TDpaIFaceHeader = 6, DPA_MAX_DATA_LENGTH = 56, STATUS_ASYNC_RESPONSE = 0x80,
      COORDINATOR_ADDRESS = 0, PNUM_COORDINATOR = 0, CMD_COORDINATOR_BONDED_DEVICES = 2,
      CMD_COORDINATOR_DISCOVERED_DEVICES = 1,
      DpaMessage = \<lparr>s_len = 0, s_nadr = 0, s_pnum = 0, s_pcmd = 0, s_hwpid = 0, s_rcode = 0,
                    s_dpaval = 0, s_data = (\<lambda>_. 0)\<rparr>,
      GetLength = s_len, NADR = s_nadr, PNUM = s_pnum, PCMD = s_pcmd, HWPID = s_hwpid,
      ResponseCode = s_rcode, DpaValue = s_dpaval,
      PData = (\<lambda>m. map (\<lambda>i. s_data m (word_of_nat i)) [0..<56]),
      set_NADR = (\<lambda>v m. m\<lparr>s_nadr := v\<rparr>), set_PNUM = (\<lambda>v m. m\<lparr>s_pnum := v\<rparr>),
      set_PCMD = (\<lambda>v m. m\<lparr>s_pcmd := v\<rparr>), set_HWPID = (\<lambda>v m. m\<lparr>s_hwpid := v\<rparr>),
      SetLength = (\<lambda>n m. m\<lparr>s_len := n\<rparr>)\<rparr>"

definition sample_response :: "sample_msg transaction_result" where
  "sample_response =
     \<lparr>isResponded = True, getErrorCode = 0,
      getResponse_of = \<lparr>s_len = 40, s_nadr = 0, s_pnum = 0, s_pcmd = 0x82, s_hwpid = 0x1234, s_rcode = 0,
                        s_dpaval = 70, s_data = (\<lambda>i. if i = 0 then 0x0A else 0)\<rparr>\<rparr>"

lemma sample_dpa_ok: "dpa_lib_ok sample_dpa"
  by (simp add: dpa_lib_ok_def sample_dpa_def)

section \<open>Properties\<close>

text \<open>
  C16: the object of a DPA command hands a response to the parser of its class exactly when the
  transaction was answered, the response echoes the address, the peripheral and the command of the
  request the object builds, carries no error code and has a possible length. The parser then sees the
  header fields and the data of this response. In every other case the call
  throws \<open>std::logic_error\<close>, and neither the parsed members nor the response data change.
\<close>

theorem response_must_answer:
  fixes L :: "('m, 'z) dpa_lib_scheme" and s :: "('m, 'd) solver"
  assumes "dpa_lib_ok L"
  shows "(isResponded res \<and> answers L (getRequest L no_encode s) (getResponse_of res) \<longrightarrow>
      processDpaTransactionResult L parse res s = parse (getResponse_of res) (received L res s)) \<and>
    (\<not> (isResponded res \<and> answers L (getRequest L no_encode s) (getResponse_of res)) \<longrightarrow>
      (\<exists>s' e. processDpaTransactionResult L parse res s = (s', Inl (LogicError e)) \<and>
                  derived s' = derived s \<and> m_rdata s' = m_rdata s))"
  using transaction_accepted[OF assms] transaction_refused[OF assms] by blast

theorem response_must_answer_witness:
  "processDpaTransactionResult sample_dpa no_parse sample_response (RawDpaBondedDevices sample_dpa) =
     (received sample_dpa sample_response (RawDpaBondedDevices sample_dpa), Inr ())"
proof -
  have "answers sample_dpa (getRequest sample_dpa no_encode (RawDpaBondedDevices sample_dpa))
     (getResponse_of sample_response)"
    by (simp add: answers_def sample_dpa_def sample_response_def getRequest_def no_encode_def
        RawDpaBondedDevices_def DpaCommandSolver3_def DpaCommandSolver4_def Let_def)
  moreover have "isResponded sample_response" by (simp add: sample_response_def)
  ultimately show ?thesis
    using response_must_answer[OF sample_dpa_ok, of sample_response "RawDpaBondedDevices sample_dpa" no_parse]
    by (simp add: no_parse_def)
qed

text \<open>
  After a bonded devices exchange whose response answers the request and carries at least thirty
  data bytes, the call has succeeded and \<open>isBonded\<close> holds of exactly the addresses below 240 whose bit is
  set in the response data; the same of discovered devices.
\<close>

theorem coordinator_devices_read:
  fixes L :: "('m, 'z) dpa_lib_scheme"
  assumes "dpa_lib_ok L" "isResponded res"
    "sizeof_TDpaIFaceHeader L + 32 \<le> GetLength L (getResponse_of res)"
  shows "(answers L (getRequest L no_encode (RawDpaBondedDevices L)) (getResponse_of res) \<longrightarrow>
      (\<exists>s. processDpaTransactionResult L (BondedDevices_parse L) res (RawDpaBondedDevices L) = (s, Inr ()) \<and>
        (\<forall>a. isBonded s a \<longleftrightarrow> unat a < 240 \<and> bit (m_rdata s ! (unat a div 8)) (unat a mod 8)))) \<and>
    (answers L (getRequest L no_encode (RawDpaDiscoveredDevices L)) (getResponse_of res) \<longrightarrow>
      (\<exists>s. processDpaTransactionResult L (DiscoveredDevices_parse L) res (RawDpaDiscoveredDevices L) = (s, Inr ()) \<and>
        (\<forall>a. isDiscovered s a \<longleftrightarrow> unat a < 240 \<and> bit (m_rdata s ! (unat a div 8)) (unat a mod 8))))"
proof -
  let ?m = "getResponse_of res"
  have len: "length (PData L ?m) = DPA_MAX_DATA_LENGTH L"
    using assms(1) unfolding dpa_lib_ok_def by blast
  have fit: "30 \<le> length (PData L ?m)" if "answers L req ?m" for req
    using that assms(3) len unfolding answers_def by linarith
  have n: "30 \<le> GetLength L ?m - sizeof_TDpaIFaceHeader L - 2"
      "GetLength L ?m - sizeof_TDpaIFaceHeader L - 2 \<le> length (PData L ?m)" if "answers L req ?m" for req
    using that assms(3) len unfolding answers_def by linarith+
  show ?thesis
    using bonded.exchange_ok[OF assms(1) TrueI assms(2), of "RawDpaBondedDevices L"]
      discovered.exchange_ok[OF assms(1) TrueI assms(2), of "RawDpaDiscoveredDevices L"] fit assms(3) addr_in_bitmap[OF n]
    by (auto simp: BondedDevices_parse_def DiscoveredDevices_parse_def bitmap_30 isBonded_def
        isDiscovered_def received_def response_data_def Let_def)
qed

theorem coordinator_devices_read_witness:
  "\<exists>s. processDpaTransactionResult sample_dpa (BondedDevices_parse sample_dpa) sample_response
        (RawDpaBondedDevices sample_dpa) = (s, Inr ()) \<and> (isBonded s 3 \<longleftrightarrow> bit (m_rdata s ! 0) 3)"
proof -
  have a: "answers sample_dpa (getRequest sample_dpa no_encode (RawDpaBondedDevices sample_dpa))
     (getResponse_of sample_response)"
    by (simp add: answers_def sample_dpa_def sample_response_def getRequest_def no_encode_def
        RawDpaBondedDevices_def DpaCommandSolver3_def DpaCommandSolver4_def Let_def)
  have r: "isResponded sample_response"
      "sizeof_TDpaIFaceHeader sample_dpa + 32 \<le> GetLength sample_dpa (getResponse_of sample_response)"
    by (simp_all add: sample_response_def sample_dpa_def)
  obtain s where "processDpaTransactionResult sample_dpa (BondedDevices_parse sample_dpa) sample_response
        (RawDpaBondedDevices sample_dpa) = (s, Inr ())"
      "\<forall>a. isBonded s a \<longleftrightarrow> unat a < 240 \<and> bit (m_rdata s ! (unat a div 8)) (unat a mod 8)"
    using coordinator_devices_read[OF sample_dpa_ok r] a by blast
  then show ?thesis by (intro exI[of _ s]) simp
qed

text \<open>
  An object for an asynchronous response is built exactly from the messages of a possible length
  whose response code has the asynchronous flag; it then holds the address, peripheral, masked command and
  code of the message and exactly the data bytes its length announces.
\<close>

theorem async_response_iff:
  fixes L :: "('m, 'z) dpa_lib_scheme"
  assumes "dpa_lib_ok L"
  shows "(ok_r (AnyAsyncResponse L m) \<longleftrightarrow>
      ResponseCode L m AND STATUS_ASYNC_RESPONSE L \<noteq> 0 \<and>
      getResponseHeaderLen L \<le> GetLength L m \<and>
      GetLength L m \<le> getResponseHeaderLen L + DPA_MAX_DATA_LENGTH L) \<and>
    (AnyAsyncResponse L m = Inr s \<longrightarrow>
      m_nadr s = NADR L m \<and> m_pnum s = PNUM L m \<and> m_pcmd s = PCMD L m AND 0x7F \<and>
      m_rcode s = ResponseCode L m AND 0x7F \<and> isAsyncRcode s \<and>
      length (m_rdata s) = GetLength L m - getResponseHeaderLen L \<and>
      m_rdata s = take (length (m_rdata s)) (PData L m))"
proof -
  have "length (PData L m) = DPA_MAX_DATA_LENGTH L"
    using assms unfolding dpa_lib_ok_def by blast
  then show ?thesis
    by (auto simp: AnyAsyncResponse_def DpaCommandSolver_async_def DpaCommandSolver4_def len_invalid_def
        isAsyncRcode_def response_data_def getResponseHeaderLen_def Let_def ok_r_def not_less
        split: if_splits)
qed

theorem async_response_iff_witness:
  "ok_r (AnyAsyncResponse sample_dpa ((getResponse_of sample_response)\<lparr>s_rcode := 0x80\<rparr>))"
  using async_response_iff[OF sample_dpa_ok, of "(getResponse_of sample_response)\<lparr>s_rcode := 0x80\<rparr>"]
  by (simp add: sample_dpa_def sample_response_def getResponseHeaderLen_def)

end
