(* ===== verification/Dpa_Os.thy ===== *)
theory Dpa_Os
  imports Dpa_Solver Device_Info
begin

text \<open>
  The operating system commands: the parsed OS read response and its accessors (\<open>DpaParser/EmbedOS.h\<close>)
  and the command objects \<open>RawDpaRead\<close>, \<open>RawDpaReadCfg\<close> and \<open>RawDpaRestart\<close> of \<open>RawDpaEmbedOS.h\<close>.
  The response structures belong to the DPA library: their fields, as the code reads them, extend
  the parameter \<open>dpa_lib\<close>.
\<close>

section \<open>Response structures of the library\<close>

record TPerOSRead_Response =
  MID :: bytes
  OsVersion :: u8
  McuType :: u8
  OsBuild :: u16
  Rssi :: u8
  SupplyVoltage :: u8
  Flags :: u8
  SlotLimits :: u8
  IBK :: bytes
  DpaVersion :: u16
  UserPerNr :: u8
  EmbeddedPers :: bytes
  OS_HWPID :: u16
  HWPIDver :: u16
  UserPer :: bytes

record TPerOSReadCfg_Response =
  Checksum :: u8
  Configuration :: bytes
  RFPGM :: u8
  Undocumented :: bytes

record 'm os_lib = "'m dpa_lib" +
  PNUM_OS :: u8
  CMD_OS_READ :: u8
  CMD_OS_READ_CFG :: u8
  CMD_OS_RESTART :: u8
  PerOSRead_Response :: "'m \<Rightarrow> TPerOSRead_Response"
  PerOSReadCfg_Response :: "'m \<Rightarrow> TPerOSReadCfg_Response"

text \<open>The array members have the lengths of their declarations.\<close>

definition os_lib_ok :: "('m, 'z) os_lib_scheme \<Rightarrow> bool" where
  "os_lib_ok L \<longleftrightarrow> dpa_lib_ok L \<and>
     (\<forall>m. length (MID (PerOSRead_Response L m)) = 4 \<and> length (IBK (PerOSRead_Response L m)) = 16 \<and>
          length (EmbeddedPers (PerOSRead_Response L m)) = 4 \<and> length (UserPer (PerOSRead_Response L m)) = 12 \<and>
          length (Configuration (PerOSReadCfg_Response L m)) = 31)"

section \<open>The parsed OS read response\<close>

text \<open>
  The supply voltage \<open>261.12 / (127 - v)\<close> as an exact quotient of hundredths of a volt; the divisor zero gives
  the infinity of the floating point division. Rounding to \<open>double\<close> is left out.
\<close>

datatype voltage = Quotient int int | Infinite

record Read =
  m_mid :: u32
  m_trMcuType :: u8
  m_trSeries :: u8
  m_mcuType :: u8
  m_osVersion :: int
  m_osBuild :: int
  m_rssi :: int
  m_supplyVoltage :: voltage
  m_flags :: int
  m_slotLimits :: int
  m_is303Compliant :: bool
  m_ibk :: bytes
  m_is410Compliant :: bool
  m_dpaVer :: int
  m_perNr :: int
  m_embedPer :: "int set"
  m_hwpidValEnum :: int
  m_hwpidVer :: int
  m_flagsEnum :: int
  m_userPer :: "int set"

definition Read0 :: Read where
  "Read0 = \<lparr>m_mid = 0, m_trMcuType = 0, m_trSeries = 0, m_mcuType = 0, m_osVersion = 0, m_osBuild = 0,
     m_rssi = 0, m_supplyVoltage = Quotient 0 1, m_flags = 0, m_slotLimits = 0, m_is303Compliant = False,
     m_ibk = [], m_is410Compliant = False, m_dpaVer = 0, m_perNr = 0, m_embedPer = {}, m_hwpidValEnum = 0,
     m_hwpidVer = 0, m_flagsEnum = 0, m_userPer = {}\<rparr>"

definition MCU_PIC16LF1938 :: u8 where "MCU_PIC16LF1938 = 4"
definition MCU_PIC16LF18877 :: u8 where "MCU_PIC16LF18877 = 5"

datatype TrFamily = UNKNOWN | TR_5xD | TR_7xD | TR_7xG | TR_8xG

datatype TrSeriesD = TR_52D | TR_58D | TR_72D | TR_53D | TR_78D | TR_54D | TR_55D | TR_56D | TR_76D
  | TR_77D | TR_75D

primrec TrSeriesD_value :: "TrSeriesD \<Rightarrow> u8" where
  "TrSeriesD_value TR_52D = 0"
| "TrSeriesD_value TR_58D = 1"
| "TrSeriesD_value TR_72D = 2"
| "TrSeriesD_value TR_53D = 3"
| "TrSeriesD_value TR_78D = 4"
| "TrSeriesD_value TR_54D = 8"
| "TrSeriesD_value TR_55D = 9"
| "TrSeriesD_value TR_56D = 10"
| "TrSeriesD_value TR_76D = 11"
| "TrSeriesD_value TR_77D = 12"
| "TrSeriesD_value TR_75D = 13"

datatype TrSeriesG = TR_72G | TR_75G | TR_76G | TR_82G | TR_85G | TR_86G

primrec TrSeriesG_value :: "TrSeriesG \<Rightarrow> u8" where
  "TrSeriesG_value TR_72G = 2"
| "TrSeriesG_value TR_75G = 13"
| "TrSeriesG_value TR_76G = 11"
| "TrSeriesG_value TR_82G = 0"
| "TrSeriesG_value TR_85G = 9"
| "TrSeriesG_value TR_86G = 10"

subsection \<open>Texts\<close>

definition hex2 :: "nat \<Rightarrow> string" where
  "hex2 n = pad_left 2 (CHR ''0'') (show_hex_upper n)"

definition getMidAsString :: "Read \<Rightarrow> string" where
  "getMidAsString r =
     hex2 (unat (0xFF AND drop_bit 24 (m_mid r))) @ hex2 (unat (0xFF AND drop_bit 16 (m_mid r))) @
     hex2 (unat (0xFF AND drop_bit 8 (m_mid r))) @ hex2 (unat (0xFF AND m_mid r))"

text \<open>An \<open>int\<close> printed in hexadecimal form shows its 32 bit two's complement.\<close>

definition show_hex_int :: "int \<Rightarrow> string" where
  "show_hex_int i = show_hex (nat (take_bit 32 i))"

definition show_hex_int_upper :: "int \<Rightarrow> string" where
  "show_hex_int_upper i = show_hex_upper (nat (take_bit 32 i))"

definition getOsVersionAsString_of :: "int \<Rightarrow> u8 \<Rightarrow> string" where
  "getOsVersionAsString_of osVersion mcuType =
     show_hex_int (drop_bit 4 osVersion) @ ''.'' @
     pad_left 2 (CHR ''0'') (show_hex_int (osVersion AND 0xf)) @
     (if mcuType = MCU_PIC16LF1938 then ''D'' else ''G'')"

definition getOsVersionAsString :: "Read \<Rightarrow> string" where
  "getOsVersionAsString r = getOsVersionAsString_of (m_osVersion r) (m_mcuType r)"

definition getTrTypeAsString :: "Read \<Rightarrow> string" where
  "getTrTypeAsString r =
     ''(DC)TR-'' @
     (let s = m_trSeries r in
      if m_mcuType r = MCU_PIC16LF1938 then
        (if s = TrSeriesD_value TR_72D then ''72D''
         else if s = TrSeriesD_value TR_78D then ''78D''
         else if s = TrSeriesD_value TR_76D then ''76D''
         else if s = TrSeriesD_value TR_77D then ''77D''
         else if s = TrSeriesD_value TR_75D then ''75D''
         else ''??D'')
      else if m_mcuType r = MCU_PIC16LF18877 then
        (if s = TrSeriesG_value TR_82G then ''82G''
         else if s = TrSeriesG_value TR_72G then ''72G''
         else if s = TrSeriesG_value TR_85G then ''85G''
         else if s = TrSeriesG_value TR_86G then ''86G''
         else if s = TrSeriesG_value TR_76G then ''76G''
         else if s = TrSeriesG_value TR_75G then ''75G''
         else ''??G'')
      else [])"

definition getTrFamily :: "Read \<Rightarrow> TrFamily" where
  "getTrFamily r =
     (let s = m_trSeries r in
      if m_mcuType r = MCU_PIC16LF1938 then
        (if s \<in> TrSeriesD_value ` {TR_52D, TR_53D, TR_54D, TR_55D, TR_56D, TR_58D} then TR_5xD
         else if s \<in> TrSeriesD_value ` {TR_72D, TR_75D, TR_76D, TR_77D, TR_78D} then TR_7xD
         else UNKNOWN)
      else if m_mcuType r = MCU_PIC16LF18877 then
        (if s \<in> TrSeriesG_value ` {TR_72G, TR_75G, TR_76G} then TR_7xG
         else if s \<in> TrSeriesG_value ` {TR_82G, TR_85G, TR_86G} then TR_8xG
         else UNKNOWN)
      else UNKNOWN)"

definition isFccCertified :: "Read \<Rightarrow> bool" where
  "isFccCertified r \<longleftrightarrow> m_trMcuType r AND 0x08 \<noteq> 0"

definition getTrMcuTypeAsString :: "Read \<Rightarrow> string" where
  "getTrMcuTypeAsString r =
     (if m_mcuType r = 4 then ''PIC16LF1938'' else if m_mcuType r = 5 then ''PIC16LF18877'' else ''UNKNOWN'')"

definition getOsBuildAsString :: "int \<Rightarrow> string" where
  "getOsBuildAsString osBuild = pad_left 4 (CHR ''0'') (show_hex_int_upper osBuild)"

definition getRssiComputed :: "Read \<Rightarrow> int" where
  "getRssiComputed r = m_rssi r - 130"

definition getRssiAsString :: "Read \<Rightarrow> string" where
  "getRssiAsString r = show_int (getRssiComputed r) @ '' dBm''"

subsection \<open>Flags and slots\<close>

definition isInsufficientOs :: "Read \<Rightarrow> bool" where "isInsufficientOs r \<longleftrightarrow> m_flags r AND 0x01 \<noteq> 0"
definition getInterface :: "Read \<Rightarrow> bool" where "getInterface r \<longleftrightarrow> m_flags r AND 0x02 \<noteq> 0"
definition getInterfaceAsString :: "Read \<Rightarrow> string" where
  "getInterfaceAsString r = (if m_flags r AND 0x02 \<noteq> 0 then ''UART'' else ''SPI'')"
definition isDpaHandlerDetected :: "Read \<Rightarrow> bool" where "isDpaHandlerDetected r \<longleftrightarrow> m_flags r AND 0x04 \<noteq> 0"
definition isDpaHandlerNotDetectedButEnabled :: "Read \<Rightarrow> bool" where
  "isDpaHandlerNotDetectedButEnabled r \<longleftrightarrow> m_flags r AND 0x08 \<noteq> 0"
definition isNoInterfaceSupported :: "Read \<Rightarrow> bool" where "isNoInterfaceSupported r \<longleftrightarrow> m_flags r AND 0x10 \<noteq> 0"
definition isIqrfOsChanges :: "Read \<Rightarrow> bool" where "isIqrfOsChanges r \<longleftrightarrow> m_flags r AND 0x20 \<noteq> 0"
definition isFrcAggregationEnabled :: "Read \<Rightarrow> bool" where "isFrcAggregationEnabled r \<longleftrightarrow> m_flags r AND 0x40 \<noteq> 0"

definition getShortestTimeSlot :: "Read \<Rightarrow> int" where
  "getShortestTimeSlot r = ((m_slotLimits r AND 0x0f) + 3) * 10"

definition getShortestTimeSlotAsString :: "Read \<Rightarrow> string" where
  "getShortestTimeSlotAsString r = show_int (getShortestTimeSlot r) @ '' ms''"

definition getLongestTimeSlot :: "Read \<Rightarrow> int" where
  "getLongestTimeSlot r = ((drop_bit 4 (m_slotLimits r) AND 0x0f) + 3) * 10"

definition getLongestTimeSlotAsString :: "Read \<Rightarrow> string" where
  "getLongestTimeSlotAsString r = show_int (getLongestTimeSlot r) @ '' ms''"

subsection \<open>Members of DPA 4.10 and later\<close>

definition Read_getDpaVer :: "Read \<Rightarrow> int" where
  "Read_getDpaVer r = m_dpaVer r AND 0x3fff"

definition Read_getDpaVerAsString :: "int \<Rightarrow> string" where
  "Read_getDpaVerAsString dpaVer =
     pad_left 1 (CHR '' '') (show_hex_int (drop_bit 8 (dpaVer AND 0x3fff))) @ ''.'' @
     pad_left 2 (CHR '' '') (show_hex_int (dpaVer AND 0xff))"

definition Read_getDpaVerAsHexaString :: "int \<Rightarrow> string" where
  "Read_getDpaVerAsHexaString dpaVer = pad_left 4 (CHR ''0'') (show_hex_int dpaVer)"

definition Read_getDemoFlag :: "Read \<Rightarrow> bool" where "Read_getDemoFlag r \<longleftrightarrow> m_dpaVer r AND 0x8000 \<noteq> 0"
definition Read_getModeStd :: "Read \<Rightarrow> int" where "Read_getModeStd r = (if m_flagsEnum r AND 1 \<noteq> 0 then 1 else 0)"
definition Read_isModeStd :: "Read \<Rightarrow> bool" where "Read_isModeStd r \<longleftrightarrow> m_flagsEnum r AND 1 \<noteq> 0"
definition Read_isModeLp :: "Read \<Rightarrow> bool" where "Read_isModeLp r \<longleftrightarrow> m_flagsEnum r AND 1 = 0"
definition Read_getStdAndLpSupport :: "Read \<Rightarrow> int" where
  "Read_getStdAndLpSupport r = (if m_flagsEnum r AND 4 \<noteq> 0 then 1 else 0)"
definition Read_isStdAndLpSupport :: "Read \<Rightarrow> bool" where "Read_isStdAndLpSupport r \<longleftrightarrow> m_flagsEnum r AND 4 \<noteq> 0"

section \<open>The commands\<close>

definition RawDpaRead :: "('m, 'z) os_lib_scheme \<Rightarrow> u16 \<Rightarrow> ('m, Read) solver" where
  "RawDpaRead L nadr = DpaCommandSolver3 L nadr (PNUM_OS L) (CMD_OS_READ L) Read0"

definition supply_voltage :: "u8 \<Rightarrow> voltage" where
  "supply_voltage v = (let d = 127 - uint v in if d = 0 then Infinite else Quotient 26112 (100 * d))"

text \<open>The members read from every response, from one with the IBK, and from one with the enumeration.\<close>

definition read_base :: "TPerOSRead_Response \<Rightarrow> Read \<Rightarrow> Read" where
  "read_base resp r =
     (let m = ucast (MID resp ! 0) + push_bit 8 (ucast (MID resp ! 1)) + push_bit 16 (ucast (MID resp ! 2)) +
              push_bit 24 (ucast (MID resp ! 3))
      in r\<lparr>m_mid := m, m_osVersion := uint (OsVersion resp), m_trMcuType := McuType resp,
           m_trSeries := drop_bit 4 (McuType resp), m_mcuType := McuType resp AND 0x07,
           m_osBuild := uint (OsBuild resp), m_rssi := uint (Rssi resp),
           m_supplyVoltage := supply_voltage (SupplyVoltage resp), m_flags := uint (Flags resp),
           m_slotLimits := uint (SlotLimits resp)\<rparr>)"

definition read_ibk :: "TPerOSRead_Response \<Rightarrow> Read \<Rightarrow> Read" where
  "read_ibk resp r = r\<lparr>m_ibk := take 16 (IBK resp), m_is303Compliant := True\<rparr>"

definition read_enum :: "TPerOSRead_Response \<Rightarrow> Read \<Rightarrow> Read \<times> unit result" where
  "read_enum resp r =
     (let r = r\<lparr>m_dpaVer := uint (DpaVersion resp), m_perNr := uint (UserPerNr resp)\<rparr> in
      case bitmapToIndexes (EmbeddedPers resp) 0 3 0 of
        Inl e \<Rightarrow> (r, Inl e)
      | Inr emb \<Rightarrow>
          let r = r\<lparr>m_embedPer := emb, m_hwpidValEnum := uint (OS_HWPID resp),
                    m_hwpidVer := uint (HWPIDver resp), m_flags := uint (Flags resp)\<rparr> in
          case bitmapToIndexes (UserPer resp) 0 11 0x20 of
            Inl e \<Rightarrow> (r, Inl e)
          | Inr user \<Rightarrow> (r\<lparr>m_userPer := user, m_is410Compliant := True\<rparr>, Inr ()))"

definition RawDpaRead_parse :: "('m, 'z) os_lib_scheme \<Rightarrow> 'm \<Rightarrow> ('m, Read) solver_call" where
  "RawDpaRead_parse L dpaResponse s =
     (let resp = PerOSRead_Response L dpaResponse;
          r = read_base resp (derived s);
          r = (if length (m_rdata s) > 12 + 16 then read_ibk resp r else r);
          (r, res) = (if length (m_rdata s) > 28 + 11 then read_enum resp r else (r, Inr ()))
      in (s\<lparr>derived := r\<rparr>, res))"

record ReadCfg =
  m_checkum :: u32
  m_configuration :: bytes
  m_rfpgm :: int
  m_undocumented :: int

definition ReadCfg0 :: ReadCfg where
  "ReadCfg0 = \<lparr>m_checkum = 0, m_configuration = [], m_rfpgm = 0, m_undocumented = 0\<rparr>"

definition RawDpaReadCfg :: "('m, 'z) os_lib_scheme \<Rightarrow> u16 \<Rightarrow> ('m, ReadCfg) solver" where
  "RawDpaReadCfg L nadr = DpaCommandSolver3 L nadr (PNUM_OS L) (CMD_OS_READ_CFG L) ReadCfg0"

definition RawDpaReadCfg_parse :: "('m, 'z) os_lib_scheme \<Rightarrow> 'm \<Rightarrow> ('m, ReadCfg) solver_call" where
  "RawDpaReadCfg_parse L dpaResponse s =
     (let resp = PerOSReadCfg_Response L dpaResponse in
      (s\<lparr>derived := \<lparr>m_checkum = ucast (Checksum resp), m_configuration = take 31 (Configuration resp),
                     m_rfpgm = uint (RFPGM resp), m_undocumented = uint (Undocumented resp ! 0)\<rparr>\<rparr>, Inr ()))"

definition RawDpaRestart :: "('m, 'z) os_lib_scheme \<Rightarrow> u16 \<Rightarrow> ('m, ReadCfg) solver" where
  "RawDpaRestart L nadr = DpaCommandSolver3 L nadr (PNUM_OS L) (CMD_OS_RESTART L) ReadCfg0"

section \<open>Lemmas\<close>

lemma ucast_u8_u32: "(ucast (b :: u8) :: u32) = word_of_nat (unat b)"
  by (simp add: unsigned_of_nat)

lemma mid_value:
  "unat (ucast (a :: u8) + push_bit 8 (ucast (b :: u8)) + push_bit 16 (ucast (c :: u8)) +
     push_bit 24 (ucast (d :: u8)) :: u32) =
   unat a + 256 * unat b + 65536 * unat c + 16777216 * unat d"
proof -
  have "ucast a + push_bit 8 (ucast b) + push_bit 16 (ucast c) + push_bit 24 (ucast d) =
      (word_of_nat (unat a + 256 * unat b + 65536 * unat c + 16777216 * unat d) :: u32)"
    by (simp add: push_bit_eq_mult)
  moreover have "unat a + 256 * unat b + 65536 * unat c + 16777216 * unat d < 4294967296"
    using unat_lt_256[of a] unat_lt_256[of b] unat_lt_256[of c] unat_lt_256[of d] by linarith
  then have "unat (word_of_nat (unat a + 256 * unat b + 65536 * unat c + 16777216 * unat d) :: u32) =
      unat a + 256 * unat b + 65536 * unat c + 16777216 * unat d"
    by (simp only: unsigned_of_nat) (simp add: take_bit_nat_eq_self del: of_nat_add of_nat_mult)
  ultimately show ?thesis by (simp only:)
qed

lemma hex2_digits: "n < 256 \<Longrightarrow> hex2 n = map hex_char_upper (fixed_digits 2 n)"
  unfolding hex2_def by (rule pad_show_hex(2)) simp_all

lemma unat_byte: "unat (0xFF AND drop_bit k (w :: u32)) = unat w div 2 ^ k mod 256"
proof -
  have "unat (drop_bit k w) = unat w div 2 ^ k"
    unfolding unat_drop_bit_eq by (simp add: drop_bit_eq_div)
  then show ?thesis by (simp only: and.commute[of "0xFF"] unat_and_ff)
qed

lemma digits_by_bytes:
  assumes "n < 16 ^ 8"
  shows "fixed_digits 8 n = fixed_digits 2 (n div 16777216 mod 256) @ fixed_digits 2 (n div 65536 mod 256) @
    fixed_digits 2 (n div 256 mod 256) @ fixed_digits 2 (n mod 256)"
proof -
  have "n div 16777216 < 256" using assms by (simp add: less_mult_imp_div_less)
  then show ?thesis
    using fixed_digits_add[of 6 2 n] fixed_digits_add[of 4 2 "n div 256"] fixed_digits_add[of 2 2 "n div 65536"]
    by (simp add: div_mult2_eq[symmetric] del: fixed_digits.simps)
qed

lemma mid_strings_agree: "getMidAsString r = midString (m_mid r)"
  using unat_byte[of 24 "m_mid r"] unat_byte[of 16 "m_mid r"] unat_byte[of 8 "m_mid r"] unat_byte[of 0 "m_mid r"]
  by (simp add: getMidAsString_def hex2_digits midString_digits digits_by_bytes[OF unat_u32_lt] del: fixed_digits.simps)

lemma read_enum_ok:
  assumes "length (EmbeddedPers resp) = 4" "length (UserPer resp) = 12"
  shows "read_enum resp r = (r\<lparr>m_dpaVer := uint (DpaVersion resp), m_perNr := uint (UserPerNr resp),
      m_embedPer := bitmap_bits (EmbeddedPers resp), m_hwpidValEnum := uint (OS_HWPID resp),
      m_hwpidVer := uint (HWPIDver resp), m_flags := uint (Flags resp),
      m_userPer := (\<lambda>i. 32 + i) ` bitmap_bits (UserPer resp), m_is410Compliant := True\<rparr>, Inr ())"
  using bitmapToIndexes_whole[of "EmbeddedPers resp" 0] bitmapToIndexes_whole[of "UserPer resp" "0x20"] assms
  by (simp add: read_enum_def Let_def)

interpretation os_read: dpa_command L no_encode "RawDpaRead_parse L" "\<lambda>_. True"
    "\<lambda>m. length (EmbeddedPers (PerOSRead_Response L m)) = 4 \<and> length (UserPer (PerOSRead_Response L m)) = 12"
  by unfold_locales (simp_all add: RawDpaRead_parse_def read_enum_ok Let_def split: prod.split)

interpretation os_read_cfg: dpa_command L no_encode "RawDpaReadCfg_parse L" "\<lambda>_. True" "\<lambda>_. True"
  by unfold_locales (simp_all add: RawDpaReadCfg_parse_def Let_def)

section \<open>Properties\<close>

text \<open>
  An OS read exchange whose response answers the request succeeds. The module identifier is the
  little endian number of its four bytes and \<open>getMidAsString\<close> prints it as \<open>midString\<close> does; the IBK
  is taken exactly from responses of more than 28 data bytes, the enumeration data exactly from those of more
  than 39, and the peripheral sets then are the set bits of the two bitmaps, user peripherals from 32 on. The flags of the
  enumeration are never stored: \<open>isModeLp\<close> holds whatever the device reports.
\<close>

theorem os_read_decoded:
  fixes L :: "('m, 'z) os_lib_scheme"
  assumes "os_lib_ok L" "isResponded res" "m = getResponse_of res" "resp = PerOSRead_Response L m"
    "answers L (getRequest L no_encode (RawDpaRead L nadr)) m"
    "n = GetLength L m - sizeof_TDpaIFaceHeader L - 2"
  shows "\<exists>s. processDpaTransactionResult L (RawDpaRead_parse L) res (RawDpaRead L nadr) = (s, Inr ()) \<and>
    unat (m_mid (derived s)) = unat (MID resp ! 0) + 256 * unat (MID resp ! 1) +
      65536 * unat (MID resp ! 2) + 16777216 * unat (MID resp ! 3) \<and>
    getMidAsString (derived s) = midString (m_mid (derived s)) \<and>
    m_is303Compliant (derived s) = (28 < n) \<and> m_ibk (derived s) = (if 28 < n then IBK resp else []) \<and>
    m_is410Compliant (derived s) = (39 < n) \<and>
    m_embedPer (derived s) = (if 39 < n then bitmap_bits (EmbeddedPers resp) else {}) \<and>
    m_userPer (derived s) = (if 39 < n then (\<lambda>i. 32 + i) ` bitmap_bits (UserPer resp) else {}) \<and>
    Read_isModeLp (derived s)"
proof -
  have ok: "dpa_lib_ok L" "length (IBK resp) = 16" "length (EmbeddedPers resp) = 4" "length (UserPer resp) = 12"
    using assms(1,4) by (auto simp: os_lib_ok_def)
  have rd: "length (m_rdata (received L res (RawDpaRead L nadr))) = n"
    using response_data_length[OF ok(1) assms(5)] assms(3,5,6)
    by (auto simp: received_def RawDpaRead_def DpaCommandSolver3_def DpaCommandSolver4_def answers_def Let_def)
  have d: "derived (received L res (RawDpaRead L nadr)) = Read0"
    by (simp add: received_def RawDpaRead_def DpaCommandSolver3_def DpaCommandSolver4_def Let_def)
  show ?thesis
    using os_read.exchange_ok[OF ok(1) TrueI assms(2), of "RawDpaRead L nadr"] assms(3-5) ok
    by (simp add: RawDpaRead_parse_def rd d Let_def read_enum_ok read_ibk_def read_base_def mid_value
        mid_strings_agree Read0_def Read_isModeLp_def del: push_bit_numeral)
qed

definition sample_os :: "sample_msg os_lib" where
  "sample_os = dpa_lib.extend sample_dpa
     (os_lib.fields 2 0 2 1
       (\<lambda>_. \<lparr>MID = [0xB2, 0xA1, 0x00, 0x81], OsVersion = 0x46, McuType = 0x24, OsBuild = 0x08D8, Rssi = 60,
             SupplyVoltage = 48, Flags = 0, SlotLimits = 0x31, IBK = replicate 16 7, DpaVersion = 0x0417,
             UserPerNr = 0, EmbeddedPers = [1, 0, 0, 0], OS_HWPID = 0, HWPIDver = 0, UserPer = replicate 12 0\<rparr>)
       (\<lambda>_. \<lparr>Checksum = 0, Configuration = replicate 31 0, RFPGM = 0, Undocumented = [0]\<rparr>))"

lemma sample_os_ok: "os_lib_ok sample_os"
  by (simp add: os_lib_ok_def dpa_lib_ok_def sample_os_def sample_dpa_def dpa_lib.extend_def os_lib.fields_def)

definition sample_os_response :: "sample_msg transaction_result" where
  "sample_os_response = sample_response\<lparr>getResponse_of :=
     (getResponse_of sample_response)\<lparr>s_nadr := 1, s_pnum := 2, s_pcmd := 0x80, s_len := 60\<rparr>\<rparr>"

theorem os_read_decoded_witness:
  "\<exists>s. processDpaTransactionResult sample_os (RawDpaRead_parse sample_os) sample_os_response
        (RawDpaRead sample_os 1) = (s, Inr ()) \<and> unat (m_mid (derived s)) = 0x8100A1B2 \<and> m_is410Compliant (derived s)"
proof -
  let ?m = "getResponse_of sample_os_response"
  have a: "answers sample_os (getRequest sample_os no_encode (RawDpaRead sample_os 1)) ?m"
    by (simp add: answers_def sample_os_def sample_dpa_def dpa_lib.extend_def os_lib.fields_def
        sample_os_response_def sample_response_def getRequest_def no_encode_def RawDpaRead_def
        DpaCommandSolver3_def DpaCommandSolver4_def Let_def)
  have r: "isResponded sample_os_response" by (simp add: sample_os_response_def sample_response_def)
  have n: "GetLength sample_os ?m - sizeof_TDpaIFaceHeader sample_os - 2 = 52"
      "MID (PerOSRead_Response sample_os ?m) = [0xB2, 0xA1, 0x00, 0x81]"
    by (simp_all add: sample_os_def sample_dpa_def dpa_lib.extend_def os_lib.fields_def
        sample_os_response_def sample_response_def)
  show ?thesis
    using os_read_decoded[OF sample_os_ok r refl refl a refl] unfolding n by fastforce
qed

end
