(* ===== verification/Dpa_Explore.thy ===== *)
theory Dpa_Explore
  imports Dpa_Solver Device_Info
begin

text \<open>
  The peripheral enumeration: the parsed responses and their accessors (\<open>DpaParser/EmbedExplore.h\<close>) and the
  command objects of \<open>RawDpaEmbedExplore.h\<close>. As for the OS commands the response structures are
  fields of the DPA library, a parameter.
\<close>

section \<open>Response structures of the library\<close>

record TEnumPeripheralsAnswer =
  DpaVersion :: u16
  UserPerNr :: u8
  EmbeddedPers :: bytes
  EnumHWPID :: u16
  HWPIDver :: u16
  Flags :: u8

record TPeripheralInfoAnswer =
  PerTE :: u8
  PerT :: u8
  Par1 :: u8
  Par2 :: u8

record 'm explore_lib = "'m dpa_lib" +
  PNUM_ENUMERATION :: u8
  CMD_GET_PER_INFO :: u8
  PERIPHERAL_TYPE_DUMMY :: int
  EnumPeripheralsAnswer :: "'m \<Rightarrow> TEnumPeripheralsAnswer"
  PeripheralInfoAnswer :: "'m \<Rightarrow> TPeripheralInfoAnswer"

definition explore_lib_ok :: "('m, 'z) explore_lib_scheme \<Rightarrow> bool" where
  "explore_lib_ok L \<longleftrightarrow> dpa_lib_ok L \<and> (\<forall>m. length (EmbeddedPers (EnumPeripheralsAnswer L m)) = 4)"

section \<open>Enumerate\<close>

record Enumerate =
  m_dpaVer :: int
  m_perNr :: int
  m_embedPer :: "int set"
  m_hwpidEnm :: int
  m_hwpidVer :: int
  m_flags :: int
  m_userPer :: "int set"

definition Enumerate0 :: Enumerate where
  "Enumerate0 = \<lparr>m_dpaVer = 0, m_perNr = 0, m_embedPer = {}, m_hwpidEnm = 0, m_hwpidVer = 0, m_flags = 0,
     m_userPer = {}\<rparr>"

definition Enumerate_getDpaVer :: "Enumerate \<Rightarrow> int" where
  "Enumerate_getDpaVer e = m_dpaVer e AND 0x3fff"

definition Enumerate_getDpaVerAsString :: "int \<Rightarrow> string" where
  "Enumerate_getDpaVerAsString dpaVer =
     pad_left 1 (CHR '' '') (show_hex (nat (take_bit 32 (drop_bit 8 (dpaVer AND 0x3fff))))) @ ''.'' @
     pad_left 2 (CHR '' '') (show_hex (nat (take_bit 32 (dpaVer AND 0xff))))"

definition Enumerate_getDpaVerAsHexaString :: "int \<Rightarrow> string" where
  "Enumerate_getDpaVerAsHexaString dpaVer = pad_left 4 (CHR ''0'') (show_hex (nat (take_bit 32 dpaVer)))"

definition getDpaVerMajor :: "Enumerate \<Rightarrow> int" where "getDpaVerMajor e = drop_bit 8 (m_dpaVer e) AND 0xFF"
definition getDpaVerMinor :: "Enumerate \<Rightarrow> int" where "getDpaVerMinor e = m_dpaVer e AND 0xFF"
definition getDemoFlag :: "Enumerate \<Rightarrow> bool" where "getDemoFlag e \<longleftrightarrow> m_dpaVer e AND 0x8000 \<noteq> 0"
definition getModeStd :: "Enumerate \<Rightarrow> int" where "getModeStd e = (if m_flags e AND 1 \<noteq> 0 then 1 else 0)"
definition isModeStd :: "Enumerate \<Rightarrow> bool" where "isModeStd e \<longleftrightarrow> m_flags e AND 1 \<noteq> 0"
definition isModeLp :: "Enumerate \<Rightarrow> bool" where "isModeLp e \<longleftrightarrow> m_flags e AND 1 = 0"
definition getStdAndLpSupport :: "Enumerate \<Rightarrow> int" where
  "getStdAndLpSupport e = (if m_flags e AND 4 \<noteq> 0 then 1 else 0)"
definition isStdAndLpSupport :: "Enumerate \<Rightarrow> bool" where "isStdAndLpSupport e \<longleftrightarrow> m_flags e AND 4 \<noteq> 0"

definition RawDpaEnumerate :: "('m, 'z) explore_lib_scheme \<Rightarrow> u16 \<Rightarrow> ('m, Enumerate) solver" where
  "RawDpaEnumerate L nadr = DpaCommandSolver3 L nadr (PNUM_ENUMERATION L) (CMD_GET_PER_INFO L) Enumerate0"

text \<open>The user peripherals are taken from the received data, from the twelfth byte to their end.\<close>

definition RawDpaEnumerate_parse :: "('m, 'z) explore_lib_scheme \<Rightarrow> 'm \<Rightarrow> ('m, Enumerate) solver_call" where
  "RawDpaEnumerate_parse L dpaResponse s =
     (let resp = EnumPeripheralsAnswer L dpaResponse;
          e = (derived s)\<lparr>m_dpaVer := uint (DpaVersion resp), m_perNr := uint (UserPerNr resp)\<rparr>
      in case bitmapToIndexes (EmbeddedPers resp) 0 3 0 of
           Inl x \<Rightarrow> (s\<lparr>derived := e\<rparr>, Inl x)
         | Inr emb \<Rightarrow>
             let e = e\<lparr>m_embedPer := emb, m_hwpidEnm := uint (EnumHWPID resp),
                       m_hwpidVer := uint (HWPIDver resp), m_flags := uint (Flags resp)\<rparr>;
                 s = s\<lparr>m_hwpid := EnumHWPID resp\<rparr>
             in case bitmapToIndexes (m_rdata s) 12 (int (length (m_rdata s)) - 1) 0x20 of
                  Inl x \<Rightarrow> (s\<lparr>derived := e\<rparr>, Inl x)
                | Inr user \<Rightarrow> (s\<lparr>derived := e\<lparr>m_userPer := user\<rparr>\<rparr>, Inr ()))"

section \<open>Peripheral information\<close>

record PeripheralInformation =
  m_per :: int
  m_perTe :: int
  m_perT :: int
  m_par1 :: int
  m_par2 :: int

definition RawDpaPeripheralInformation ::
    "('m, 'z) explore_lib_scheme \<Rightarrow> u16 \<Rightarrow> int \<Rightarrow> ('m, PeripheralInformation) solver" where
  "RawDpaPeripheralInformation L nadr per =
     DpaCommandSolver3 L nadr (word_of_int per) (CMD_GET_PER_INFO L)
       \<lparr>m_per = per, m_perTe = 0, m_perT = 0, m_par1 = 0, m_par2 = 0\<rparr>"

definition PeripheralInformation_encode ::
    "('m, 'z) explore_lib_scheme \<Rightarrow> ('m, PeripheralInformation) solver \<Rightarrow> 'm \<Rightarrow> 'm" where
  "PeripheralInformation_encode L s dpaRequest = set_PNUM L (word_of_int (m_per (derived s))) dpaRequest"

definition PeripheralInformation_parse ::
    "('m, 'z) explore_lib_scheme \<Rightarrow> 'm \<Rightarrow> ('m, PeripheralInformation) solver_call" where
  "PeripheralInformation_parse L dpaResponse s =
     (let resp = PeripheralInfoAnswer L dpaResponse in
      (s\<lparr>derived := (derived s)\<lparr>m_perTe := uint (PerTE resp), m_perT := uint (PerT resp),
                                m_par1 := uint (Par1 resp), m_par2 := uint (Par2 resp)\<rparr>\<rparr>, Inr ()))"

record Param =
  perTe :: int
  perT :: int
  par1 :: int
  par2 :: int

record MorePeripheralInformation =
  mm_per :: int
  m_params :: "Param list"

definition RawDpaMorePeripheralInformation ::
    "('m, 'z) explore_lib_scheme \<Rightarrow> u16 \<Rightarrow> int \<Rightarrow> ('m, MorePeripheralInformation) solver" where
  "RawDpaMorePeripheralInformation L nadr per =
     DpaCommandSolver3 L nadr 0xFF (word_of_int per) \<lparr>mm_per = per, m_params = []\<rparr>"

text \<open>The loop \<open>for (i = 3; i < len; i += 4)\<close>: one parameter per four bytes, a shorter rest is ignored.\<close>

fun params_loop :: "bytes \<Rightarrow> Param list" where
  "params_loop (a # b # c # d # r) =
     \<lparr>perTe = uint a, perT = uint b, par1 = uint c, par2 = uint d\<rparr> # params_loop r"
| "params_loop _ = []"

definition MorePeripheralInformation_parse :: "'m \<Rightarrow> ('m, MorePeripheralInformation) solver_call" where
  "MorePeripheralInformation_parse dpaResponse s =
     (s\<lparr>derived := (derived s)\<lparr>m_params := m_params (derived s) @ params_loop (m_rdata s)\<rparr>\<rparr>, Inr ())"

text \<open>\<open>getPerParamsMap\<close>: the loop from index \<open>i\<close> on; \<open>insert\<close> does not replace an existing key.\<close>

fun per_params_loop :: "int \<Rightarrow> int \<Rightarrow> int \<Rightarrow> Param list \<Rightarrow> (int \<rightharpoonup> Param) \<Rightarrow> (int \<rightharpoonup> Param)" where
  "per_params_loop dummy per i [] m = m"
| "per_params_loop dummy per i (p # ps) m =
     per_params_loop dummy per (i + 1) ps
       (if perTe p \<noteq> dummy \<and> m (i + per) = None then m(i + per \<mapsto> p) else m)"

definition getPerParamsMap :: "('m, 'z) explore_lib_scheme \<Rightarrow> MorePeripheralInformation \<Rightarrow> (int \<rightharpoonup> Param)" where
  "getPerParamsMap L x = per_params_loop (PERIPHERAL_TYPE_DUMMY L) (mm_per x) 0 (m_params x) Map.empty"

section \<open>Lemmas\<close>

lemma user_bitmap:
  "bitmapToIndexes rd 12 (int (length rd) - 1) off = Inr ((\<lambda>i. off + i) ` bitmap_bits (drop 12 rd))"
  by (auto simp: bitmapToIndexes_def bitmap_loop_bits bitmap_bits_def)

lemma embed_bitmap: "length bm = 4 \<Longrightarrow> bitmapToIndexes bm 0 3 0 = Inr (bitmap_bits bm)"
  using bitmapToIndexes_whole[of bm 0] by simp

interpretation enumerate: dpa_command L no_encode "RawDpaEnumerate_parse L" "\<lambda>_. True"
    "\<lambda>m. length (EmbeddedPers (EnumPeripheralsAnswer L m)) = 4"
  by unfold_locales
    (simp_all add: RawDpaEnumerate_parse_def embed_bitmap user_bitmap Let_def split: sum.split)

text \<open>The object of a peripheral information asks for its own peripheral.\<close>

interpretation per_info: dpa_command L "PeripheralInformation_encode L" "PeripheralInformation_parse L"
    "\<lambda>s. m_pnum s = word_of_int (m_per (derived s))" "\<lambda>_. True"
proof unfold_locales
  fix s :: "('a, PeripheralInformation) solver"
  assume lib: "dpa_lib_ok L" and pn: "m_pnum s = word_of_int (m_per (derived s))"
  have "set_PNUM L (PNUM L r) r = r" for r using lib unfolding dpa_lib_ok_def by blast
  then show "getRequest L (PeripheralInformation_encode L) s = getRequest L no_encode s"
    using request_fields(2)[OF lib, of s]
    unfolding getRequest_def PeripheralInformation_encode_def no_encode_def Let_def pn by metis
qed (simp_all add: PeripheralInformation_parse_def Let_def)

interpretation more_info: dpa_command L no_encode MorePeripheralInformation_parse "\<lambda>_. True" "\<lambda>_. True"
  by unfold_locales (simp_all add: MorePeripheralInformation_parse_def)

lemma params_loop_nth:
  "length (params_loop bs) = length bs div 4 \<and>
   (\<forall>i<length bs div 4. params_loop bs ! i =
      \<lparr>perTe = uint (bs ! (4 * i)), perT = uint (bs ! (4 * i + 1)), par1 = uint (bs ! (4 * i + 2)),
       par2 = uint (bs ! (4 * i + 3))\<rparr>)"
proof (induction bs rule: params_loop.induct)
  case (1 a b c d r)
  have "Suc (Suc (Suc (Suc (length r)))) div 4 = Suc (length r div 4)" by simp
  with 1 show ?case
    by (auto simp: nth_Cons' less_Suc_eq_0_disj add.commute)
qed auto

lemma per_params_map:
  "per_params_loop dummy per i ps m k =
     (case m k of Some p \<Rightarrow> Some p
      | None \<Rightarrow> if i + per \<le> k \<and> k < i + per + int (length ps) \<and> perTe (ps ! nat (k - i - per)) \<noteq> dummy
               then Some (ps ! nat (k - i - per)) else None)"
proof (induction ps arbitrary: i m)
  case (Cons p ps)
  have "k \<noteq> i + per \<Longrightarrow> i + per \<le> k \<Longrightarrow> nat (k - i - per) = Suc (nat (k - (i + 1) - per))" by linarith
  then show ?case
    unfolding per_params_loop.simps Cons.IH by (cases "k = i + per") (auto split: option.split)
qed (simp split: option.split)

lemma fresh_data:
  assumes "dpa_lib_ok L" "answers L req (getResponse_of res)" "m_rdata s = []"
  shows "m_rdata (received L res s) = response_data L (getResponse_of res)"
  using response_data_length[OF assms(1,2)] assms(2,3)
  by (auto simp: received_def answers_def Let_def response_data_def)

lemma high_command_refused:
  assumes "128 \<le> per" "per < 256"
  shows "(x :: u8) AND 0x7F \<noteq> word_of_int per"
proof
  assume e: "x AND 0x7F = word_of_int per"
  have "x AND 0x7F = take_bit 7 x"
    using take_bit_eq_mask[of 7 x] by (simp add: mask_numeral)
  then have "unat (x AND 0x7F) = take_bit 7 (unat x)" by (simp only: unsigned_take_bit_eq)
  then have lt: "unat (x AND 0x7F) < 128" using take_bit_nat_less_exp[of 7 "unat x"] by simp
  have "uint (word_of_int per :: u8) = per" using assms by (simp add: take_bit_int_eq_self unsigned_of_int)
  moreover have "int (unat (x AND 0x7F)) = uint (x AND 0x7F)" by simp
  ultimately have "int (unat (x AND 0x7F)) = per" unfolding e by metis
  with lt assms show False by linarith
qed

section \<open>Properties\<close>

text \<open>
  A peripheral enumeration whose response answers the request succeeds: the embedded peripherals are
  the set bits of the embedded bitmap, the user peripherals those of the data after the twelfth byte counted from 32,
  and the HWPID of the object becomes the one of the enumeration.
\<close>

theorem enumeration_decoded:
  fixes L :: "('m, 'z) explore_lib_scheme"
  assumes "explore_lib_ok L" "isResponded res" "m = getResponse_of res"
    "answers L (getRequest L no_encode (RawDpaEnumerate L nadr)) m"
  shows "\<exists>s. processDpaTransactionResult L (RawDpaEnumerate_parse L) res (RawDpaEnumerate L nadr) = (s, Inr ()) \<and>
    m_embedPer (derived s) = bitmap_bits (EmbeddedPers (EnumPeripheralsAnswer L m)) \<and>
    m_userPer (derived s) = (\<lambda>i. 32 + i) ` bitmap_bits (drop 12 (response_data L m)) \<and>
    m_hwpid s = EnumHWPID (EnumPeripheralsAnswer L m) \<and>
    (isModeStd (derived s) \<longleftrightarrow> odd (uint (Flags (EnumPeripheralsAnswer L m))))"
proof -
  have ok: "dpa_lib_ok L" "length (EmbeddedPers (EnumPeripheralsAnswer L m)) = 4"
    using assms(1) by (auto simp: explore_lib_ok_def)
  have "m_rdata (RawDpaEnumerate L nadr) = []"
    by (simp add: RawDpaEnumerate_def DpaCommandSolver3_def DpaCommandSolver4_def)
  note rd = fresh_data[OF ok(1) assms(4)[unfolded assms(3)] this]
  show ?thesis
    using enumerate.exchange_ok[OF ok(1) TrueI assms(2), of "RawDpaEnumerate L nadr"] assms(3,4) ok(2) rd
    by (simp add: RawDpaEnumerate_parse_def embed_bitmap user_bitmap Let_def isModeStd_def and_one_eq mod2_eq_if)
qed

definition sample_explore :: "sample_msg explore_lib" where
  "sample_explore = dpa_lib.extend sample_dpa
     (explore_lib.fields 0xFF 0x3F 0
       (\<lambda>_. \<lparr>DpaVersion = 0x0417, UserPerNr = 0, EmbeddedPers = [0x0F, 0, 0, 0], EnumHWPID = 0x1234, HWPIDver = 1,
             Flags = 1\<rparr>)
       (\<lambda>_. \<lparr>PerTE = 1, PerT = 1, Par1 = 0, Par2 = 0\<rparr>))"

lemma sample_explore_ok: "explore_lib_ok sample_explore"
  by (simp add: explore_lib_ok_def dpa_lib_ok_def sample_explore_def sample_dpa_def dpa_lib.extend_def
      explore_lib.fields_def)

definition sample_enum_response :: "u8 \<Rightarrow> sample_msg transaction_result" where
  "sample_enum_response pcmd = sample_response\<lparr>getResponse_of :=
     (getResponse_of sample_response)\<lparr>s_nadr := 1, s_pnum := 0xFF, s_pcmd := 0x80 OR pcmd, s_len := 24\<rparr>\<rparr>"

theorem enumeration_decoded_witness:
  "\<exists>s. processDpaTransactionResult sample_explore (RawDpaEnumerate_parse sample_explore)
        (sample_enum_response 0x3F) (RawDpaEnumerate sample_explore 1) = (s, Inr ()) \<and> m_hwpid s = 0x1234"
proof -
  let ?m = "getResponse_of (sample_enum_response 0x3F)"
  have a: "answers sample_explore (getRequest sample_explore no_encode (RawDpaEnumerate sample_explore 1)) ?m"
    by (simp add: answers_def sample_explore_def sample_dpa_def dpa_lib.extend_def explore_lib.fields_def
        sample_enum_response_def sample_response_def getRequest_def no_encode_def RawDpaEnumerate_def
        DpaCommandSolver3_def DpaCommandSolver4_def Let_def)
  have r: "isResponded (sample_enum_response 0x3F)" by (simp add: sample_enum_response_def sample_response_def)
  have "EnumHWPID (EnumPeripheralsAnswer sample_explore ?m) = 0x1234"
    by (simp add: sample_explore_def dpa_lib.extend_def explore_lib.fields_def sample_dpa_def)
  then show ?thesis using enumeration_decoded[OF sample_explore_ok r refl a] by auto
qed

text \<open>
  Asking for the peripherals from number \<open>per\<close> on, a response that answers the request gives, under each
  peripheral number, the four bytes at its place unless its type is the dummy type, for as many
  peripherals as complete groups were received. For \<open>per\<close> from 128 on every response is refused: the
  number is the command byte, whose top bit is masked out of the response.
\<close>

theorem more_peripherals_decoded:
  fixes L :: "('m, 'z) explore_lib_scheme"
  assumes "dpa_lib_ok L" "isResponded res" "r = response_data L (getResponse_of res)"
  shows "(answers L (getRequest L no_encode (RawDpaMorePeripheralInformation L nadr per)) (getResponse_of res) \<longrightarrow>
     (\<exists>s. processDpaTransactionResult L MorePeripheralInformation_parse res
            (RawDpaMorePeripheralInformation L nadr per) = (s, Inr ()) \<and>
       (\<forall>k < length r div 4. getPerParamsMap L (derived s) (per + int k) =
          (if uint (r ! (4 * k)) = PERIPHERAL_TYPE_DUMMY L then None
           else Some \<lparr>perTe = uint (r ! (4 * k)), perT = uint (r ! (4 * k + 1)),
                      par1 = uint (r ! (4 * k + 2)), par2 = uint (r ! (4 * k + 3))\<rparr>)) \<and>
       (\<forall>k. k < per \<or> per + int (length r div 4) \<le> k \<longrightarrow> getPerParamsMap L (derived s) k = None))) \<and>
    (128 \<le> per \<and> per < 256 \<longrightarrow>
      \<not> ok_r (snd (processDpaTransactionResult L MorePeripheralInformation_parse res
                 (RawDpaMorePeripheralInformation L nadr per))))"
    (is "(?ans \<longrightarrow> ?decoded) \<and> (?high \<longrightarrow> ?refused)")
proof (intro conjI impI)
  let ?s = "RawDpaMorePeripheralInformation L nadr per"
  have s: "m_rdata ?s = []" "derived ?s = \<lparr>mm_per = per, m_params = []\<rparr>" "m_pcmd ?s = word_of_int per"
    by (simp_all add: RawDpaMorePeripheralInformation_def DpaCommandSolver3_def DpaCommandSolver4_def)
  show ?decoded if a: ?ans
  proof (intro exI conjI)
    let ?s' = "fst (MorePeripheralInformation_parse (getResponse_of res) (received L res ?s))"
    show "processDpaTransactionResult L MorePeripheralInformation_parse res ?s = (?s', Inr ())"
      using more_info.exchange_ok[OF assms(1) TrueI assms(2) a TrueI] by simp
    have d: "derived ?s' = \<lparr>mm_per = per, m_params = params_loop r\<rparr>"
      using fresh_data[OF assms(1) a s(1)] s(2)
      by (simp add: MorePeripheralInformation_parse_def assms(3)) (simp add: received_def Let_def)
    show "\<forall>k < length r div 4. getPerParamsMap L (derived ?s') (per + int k) =
          (if uint (r ! (4 * k)) = PERIPHERAL_TYPE_DUMMY L then None
           else Some \<lparr>perTe = uint (r ! (4 * k)), perT = uint (r ! (4 * k + 1)),
                      par1 = uint (r ! (4 * k + 2)), par2 = uint (r ! (4 * k + 3))\<rparr>)"
      using params_loop_nth[of r] by (auto simp: getPerParamsMap_def d per_params_map)
    show "\<forall>k. k < per \<or> per + int (length r div 4) \<le> k \<longrightarrow> getPerParamsMap L (derived ?s') k = None"
      using params_loop_nth[of r] by (auto simp: getPerParamsMap_def d per_params_map)
  qed
  show ?refused if ?high
  proof -
    have "\<not> answers L (getRequest L no_encode ?s) (getResponse_of res)"
      using high_command_refused that by (auto simp: answers_request[OF assms(1)] s(3))
    then show ?thesis
      using transaction_refused[OF assms(1), of res ?s MorePeripheralInformation_parse] by auto
  qed
qed

theorem more_peripherals_decoded_witness:
  "ok_r (snd (processDpaTransactionResult sample_explore MorePeripheralInformation_parse
     (sample_enum_response 0) (RawDpaMorePeripheralInformation sample_explore 1 0)))"
proof -
  have a: "answers sample_explore (getRequest sample_explore no_encode
      (RawDpaMorePeripheralInformation sample_explore 1 0)) (getResponse_of (sample_enum_response 0))"
    by (simp add: answers_def sample_explore_def sample_dpa_def dpa_lib.extend_def explore_lib.fields_def
        sample_enum_response_def sample_response_def getRequest_def no_encode_def
        RawDpaMorePeripheralInformation_def DpaCommandSolver3_def DpaCommandSolver4_def Let_def)
  have r: "isResponded (sample_enum_response 0)" by (simp add: sample_enum_response_def sample_response_def)
  have "dpa_lib_ok sample_explore" using sample_explore_ok by (simp add: explore_lib_ok_def)
  from more_peripherals_decoded[OF this r refl, of 1 0] a show ?thesis by auto
qed

end
