(* ===== verification/Write_TrConf.thy ===== *)
theory Write_TrConf
  imports Gwd_Prelude Cpp_Std "HOL-Library.Sublist"
begin

text \<open>
  Writing the TR configuration: the request parser of
  \<open>IqmeshServices/WriteTrConfService/ComMngIqmeshWriteConfig.h\<close> and, from \<open>WriteTrConfService.cpp\<close>, the
  computation of the configuration bytes with their masks, their packing into broadcast requests and the
  restart flag. The exchange of the requests with the network is not part of this theory.

  The request is a JSON document that its schema has validated: a member at a JSON pointer is
  missing or has the type the code reads. The constants of \<open>DPA.h\<close> are the parameter \<open>cfg_lib\<close>.
\<close>

section \<open>Parameters\<close>

record json_doc =
  jint :: "string \<Rightarrow> int option"
  jbool :: "string \<Rightarrow> bool option"
  jstr :: "string \<Rightarrow> string option"

datatype emb_per = Coordinator | Node | Os | Eeprom | Eeeprom | Ram | Ledr | Ledg | Spi | Io | Thermometer
  | Pwm | Uart | Frc

record cfg_lib =
  pnum :: "emb_per \<Rightarrow> nat"
  HWPID_DoNotCheck :: u16
  PNUM_OS :: u8
  CMD_OS_WRITE_CFG_BYTE :: u8
  CMD_OS_SET_SECURITY :: u8
  COORDINATOR_ADDRESS :: u16
  BROADCAST_ADDRESS :: u16
  sizeof_TPerOSWriteCfgByteTriplet :: u8
  CFGIND_DPA_PERIPHERALS :: u8
  CFGIND_DPA_FLAGS0 :: u8
  CFGIND_CHANNEL_2ND_A :: u8
  CFGIND_CHANNEL_2ND_B :: u8
  CFGIND_TXPOWER :: u8
  CFGIND_RXFILTER :: u8
  CFGIND_DPA_LP_TOUTRF :: u8
  CFGIND_DPA_UART_IFACE_SPEED :: u8
  CFGIND_ALTERNATE_DSM_CHANNEL :: u8
  CFGIND_CHANNEL_A :: u8
  CFGIND_CHANNEL_B :: u8

text \<open>
  The addresses of the configuration bytes in the order in which the code writes them. They are
  different, the embedded peripherals have different numbers below \<open>PNUM_USER\<close>, 32, and a triplet is
  three bytes.
\<close>

definition addresses :: "cfg_lib \<Rightarrow> u8 list" where
  "addresses L =
     map (\<lambda>i. CFGIND_DPA_PERIPHERALS L + word_of_nat i) [0..<4] @
     [CFGIND_DPA_FLAGS0 L, 0x0d, CFGIND_CHANNEL_2ND_A L, CFGIND_CHANNEL_2ND_B L, CFGIND_TXPOWER L,
      CFGIND_RXFILTER L, CFGIND_DPA_LP_TOUTRF L, CFGIND_DPA_UART_IFACE_SPEED L,
      CFGIND_ALTERNATE_DSM_CHANNEL L, CFGIND_CHANNEL_A L, CFGIND_CHANNEL_B L, 0x20]"

definition cfg_lib_ok :: "cfg_lib \<Rightarrow> bool" where
  "cfg_lib_ok L \<longleftrightarrow> distinct (addresses L) \<and> inj (pnum L) \<and> (\<forall>e. pnum L e < 32) \<and> sizeof_TPerOSWriteCfgByteTriplet L = 3"

section \<open>Input parameters\<close>

text \<open>
  The structure without the booleans of the single configuration bits, which are read nowhere else.
\<close>

record TWriteTrConfInputParams =
  embPers_set :: "emb_per \<Rightarrow> bool"
  embPers_mask :: u32
  embPers_value :: u32
  dpaPeerToPeer :: bool
  dpaPeerToPeerIsSet :: bool
  nodeDpaInterface :: bool
  nodeDpaInterfaceIsSet :: bool
  bits0_mask :: u8
  bits0_value :: u8
  bits1_mask :: u8
  bits1_value :: u8
  RFPGM_mask :: u8
  RFPGM_value :: u8
  rfChannelA :: int
  rfChannelB :: int
  rfSubChannelA :: int
  rfSubChannelB :: int
  txPower :: int
  rxFilter :: int
  lpRxTimeout :: int
  rfAltDsmChannel :: int
  accessPassword :: bytes
  userKey :: bytes
  repeat :: int
  deviceAddress :: u16
  hwpId :: u16
  uartBaudRate :: int
  restartNeeded :: bool

text \<open>The constructor does not set \<open>deviceAddress\<close>: the argument is what the memory held.\<close>

definition TWriteTrConfInputParams0 :: "cfg_lib \<Rightarrow> u16 \<Rightarrow> TWriteTrConfInputParams" where
  "TWriteTrConfInputParams0 L addr =
     \<lparr>embPers_set = (\<lambda>_. False), embPers_mask = 0, embPers_value = 0, dpaPeerToPeer = False,
      dpaPeerToPeerIsSet = False, nodeDpaInterface = False, nodeDpaInterfaceIsSet = False, bits0_mask = 0,
      bits0_value = 0, bits1_mask = 0, bits1_value = 0, RFPGM_mask = 0, RFPGM_value = 0, rfChannelA = - 1,
      rfChannelB = - 1, rfSubChannelA = - 1, rfSubChannelB = - 1, txPower = - 1, rxFilter = - 1,
      lpRxTimeout = - 1, rfAltDsmChannel = - 1, accessPassword = [], userKey = [], repeat = 1,
      deviceAddress = addr, hwpId = HWPID_DoNotCheck L, uartBaudRate = - 1, restartNeeded = False\<rparr>"

section \<open>Parsing\<close>

definition emb_pers :: "emb_per list" where
  "emb_pers = [Coordinator, Node, Os, Eeprom, Eeeprom, Ram, Ledr, Ledg, Spi, Io, Thermometer, Pwm, Uart, Frc]"

primrec emb_name :: "emb_per \<Rightarrow> string" where
  "emb_name Coordinator = ''coordinator''"
| "emb_name Node = ''node''"
| "emb_name Os = ''os''"
| "emb_name Eeprom = ''eeprom''"
| "emb_name Eeeprom = ''eeeprom''"
| "emb_name Ram = ''ram''"
| "emb_name Ledr = ''ledr''"
| "emb_name Ledg = ''ledg''"
| "emb_name Spi = ''spi''"
| "emb_name Io = ''io''"
| "emb_name Thermometer = ''thermometer''"
| "emb_name Pwm = ''pwm''"
| "emb_name Uart = ''uart''"
| "emb_name Frc = ''frc''"

definition emb_path :: "emb_per \<Rightarrow> string" where
  "emb_path e = ''/data/req/embPers/'' @ emb_name e"

definition parse_embPer :: "cfg_lib \<Rightarrow> json_doc \<Rightarrow> emb_per \<Rightarrow> TWriteTrConfInputParams \<Rightarrow> TWriteTrConfInputParams" where
  "parse_embPer L doc e p =
     (case jbool doc (emb_path e) of
        None \<Rightarrow> p
      | Some b \<Rightarrow>
          p\<lparr>embPers_set := (embPers_set p)(e := b),
            embPers_value := if b then embPers_value p OR push_bit (pnum L e) 1 else embPers_value p,
            embPers_mask := embPers_mask p OR push_bit (pnum L e) 1\<rparr>)"

text \<open>A member that sets bits of a byte and of its mask.\<close>

definition flag_bits :: "json_doc \<Rightarrow> string \<Rightarrow> u8 \<Rightarrow> u8 \<times> u8 \<Rightarrow> u8 \<times> u8" where
  "flag_bits doc path bits vm =
     (case (vm, jbool doc path) of
        ((v, m), None) \<Rightarrow> (v, m)
      | ((v, m), Some b) \<Rightarrow> (if b then v OR bits else v, m OR bits))"

definition bits0_flags :: "(string \<times> u8) list" where
  "bits0_flags = [(''/data/req/customDpaHandler'', 0x01), (''/data/req/dpaAutoexec'', 0x04),
     (''/data/req/routingOff'', 0x08), (''/data/req/ioSetup'', 0x10), (''/data/req/peerToPeer'', 0x20),
     (''/data/req/neverSleep'', 0x40), (''/data/req/stdAndLpNetwork'', 0x80)]"

definition RFPGM_flags :: "(string \<times> u8) list" where
  "RFPGM_flags = [(''/data/req/rfPgmDualChannel'', 0x03), (''/data/req/rfPgmLpMode'', 0x04),
     (''/data/req/rfPgmEnableAfterReset'', 0x10), (''/data/req/rfPgmTerminateAfter1Min'', 0x40),
     (''/data/req/rfPgmTerminateMcuPin'', 0x80)]"

definition parse_flags :: "json_doc \<Rightarrow> (string \<times> u8) list \<Rightarrow> u8 \<times> u8 \<Rightarrow> u8 \<times> u8" where
  "parse_flags doc fs vm = fold (\<lambda>(path, bits). flag_bits doc path bits) fs vm"

text \<open>The switch over the baud rates.\<close>

definition baud_code :: "int \<Rightarrow> int" where
  "baud_code r =
     (if r = 1200 then 0 else if r = 2400 then 1 else if r = 4800 then 2 else if r = 9600 then 3
      else if r = 19200 then 4 else if r = 38400 then 5 else if r = 57600 then 6 else if r = 115200 then 7
      else if r = 230400 then 8 else - 1)"

text \<open>A password or key: sixteen zero bytes are appended, then the first bytes are overwritten by the text.\<close>

definition parse_key :: "string \<Rightarrow> bytes \<Rightarrow> bytes" where
  "parse_key s key =
     (let key = key @ replicate 16 0; len = min 16 (length s)
      in map (\<lambda>c. word_of_nat (char_code c)) (take len s) @ drop len key)"

definition opt_int :: "json_doc \<Rightarrow> string \<Rightarrow> (int \<Rightarrow> 'p \<Rightarrow> 'p) \<Rightarrow> 'p \<Rightarrow> 'p" where
  "opt_int doc path f p = (case jint doc path of None \<Rightarrow> p | Some v \<Rightarrow> f v p)"

definition parse_general :: "json_doc \<Rightarrow> TWriteTrConfInputParams \<Rightarrow> TWriteTrConfInputParams" where
  "parse_general doc p =
     (let p = opt_int doc ''/data/repeat'' (\<lambda>v p. p\<lparr>repeat := v\<rparr>) p;
          p = opt_int doc ''/data/req/deviceAddr'' (\<lambda>v p. p\<lparr>deviceAddress := word_of_int v\<rparr>) p
      in opt_int doc ''/data/req/hwpId'' (\<lambda>v p. p\<lparr>hwpId := word_of_int v\<rparr>) p)"

definition parse_rf :: "json_doc \<Rightarrow> TWriteTrConfInputParams \<Rightarrow> TWriteTrConfInputParams" where
  "parse_rf doc p =
     (let p = opt_int doc ''/data/req/rfChannelA'' (\<lambda>v p. p\<lparr>rfChannelA := v\<rparr>) p;
          p = opt_int doc ''/data/req/rfChannelB'' (\<lambda>v p. p\<lparr>rfChannelB := v\<rparr>) p;
          p = opt_int doc ''/data/req/rfSubChannelA'' (\<lambda>v p. p\<lparr>rfSubChannelA := v\<rparr>) p;
          p = opt_int doc ''/data/req/rfSubChannelB'' (\<lambda>v p. p\<lparr>rfSubChannelB := v\<rparr>) p;
          p = opt_int doc ''/data/req/txPower'' (\<lambda>v p. p\<lparr>txPower := if v > 7 then 7 else v\<rparr>) p;
          p = opt_int doc ''/data/req/rxFilter'' (\<lambda>v p. if 0 \<le> v \<and> v \<le> 64 then p\<lparr>rxFilter := v\<rparr> else p) p;
          p = opt_int doc ''/data/req/lpRxTimeout''
                (\<lambda>v p. if 1 \<le> v \<and> v \<le> 255 then p\<lparr>lpRxTimeout := v\<rparr> else p) p
      in opt_int doc ''/data/req/rfAltDsmChannel'' (\<lambda>v p. p\<lparr>rfAltDsmChannel := v\<rparr>) p)"

definition parse_bits :: "json_doc \<Rightarrow> TWriteTrConfInputParams \<Rightarrow> TWriteTrConfInputParams" where
  "parse_bits doc p =
     (let p = (case jbool doc ''/data/req/localFrcReception'' of
                 None \<Rightarrow> p
               | Some b \<Rightarrow> p\<lparr>bits1_value := if b then 0x01 else bits1_value p, bits1_mask := 0x01\<rparr>);
          p = opt_int doc ''/data/req/uartBaudrate'' (\<lambda>v p. p\<lparr>uartBaudRate := baud_code v\<rparr>) p;
          (v0, m0) = parse_flags doc bits0_flags (bits0_value p, bits0_mask p);
          p = p\<lparr>bits0_value := v0, bits0_mask := m0\<rparr>;
          p = (case jbool doc ''/data/req/nodeDpaInterface'' of
                 None \<Rightarrow> p | Some b \<Rightarrow> p\<lparr>nodeDpaInterface := b, nodeDpaInterfaceIsSet := True\<rparr>);
          p = (case jbool doc ''/data/req/dpaPeerToPeer'' of
                 None \<Rightarrow> p | Some b \<Rightarrow> p\<lparr>dpaPeerToPeer := b, dpaPeerToPeerIsSet := True\<rparr>);
          (v, m) = parse_flags doc RFPGM_flags (RFPGM_value p, RFPGM_mask p)
      in p\<lparr>RFPGM_value := v, RFPGM_mask := m\<rparr>)"

definition parse_security :: "json_doc \<Rightarrow> TWriteTrConfInputParams \<Rightarrow> TWriteTrConfInputParams" where
  "parse_security doc p =
     (let p = (case jstr doc ''/data/req/accessPassword'' of
                 None \<Rightarrow> p | Some s \<Rightarrow> p\<lparr>accessPassword := parse_key s (accessPassword p)\<rparr>)
      in case jstr doc ''/data/req/securityUserKey'' of
           None \<Rightarrow> p | Some s \<Rightarrow> p\<lparr>userKey := parse_key s (userKey p)\<rparr>)"

definition parse :: "cfg_lib \<Rightarrow> json_doc \<Rightarrow> TWriteTrConfInputParams \<Rightarrow> TWriteTrConfInputParams" where
  "parse L doc p = parse_security doc (parse_bits doc (parse_rf doc
     (fold (parse_embPer L doc) emb_pers (parse_general doc p))))"

definition ComMngIqmeshWriteConfig :: "cfg_lib \<Rightarrow> u16 \<Rightarrow> json_doc \<Rightarrow> TWriteTrConfInputParams" where
  "ComMngIqmeshWriteConfig L addr doc = parse L doc (TWriteTrConfInputParams0 L addr)"

section \<open>Configuration bytes\<close>

record TrConfigByte =
  address :: u8
  cb_value :: u8
  cb_mask :: u8

abbreviation cfg_byte :: "u8 \<Rightarrow> u8 \<Rightarrow> u8 \<Rightarrow> TrConfigByte" where
  "cfg_byte a v m \<equiv> \<lparr>address = a, cb_value = v, cb_mask = m\<rparr>"

text \<open>The union of the peripheral mask with its bytes, the least significant first.\<close>

definition union_byte :: "u32 \<Rightarrow> nat \<Rightarrow> u8" where
  "union_byte w i = ucast (drop_bit (8 * i) w)"

definition emb_bytes :: "cfg_lib \<Rightarrow> TWriteTrConfInputParams \<Rightarrow> TrConfigByte list" where
  "emb_bytes L p =
     concat (map (\<lambda>i. if union_byte (embPers_mask p) i \<noteq> 0
                      then [cfg_byte (CFGIND_DPA_PERIPHERALS L + word_of_nat i)
                              (union_byte (embPers_value p) i) (union_byte (embPers_mask p) i)]
                      else []) [0..<4])"

text \<open>The bits whose meaning depends on the DPA version of the device.\<close>

definition set_bit1 :: "bool \<Rightarrow> TWriteTrConfInputParams \<Rightarrow> TWriteTrConfInputParams" where
  "set_bit1 b p = p\<lparr>bits0_value := if b then bits0_value p OR 0x02 else bits0_value p AND NOT 0x02,
                    bits0_mask := bits0_mask p OR 0x02\<rparr>"

definition version_bits :: "u16 \<Rightarrow> TWriteTrConfInputParams \<Rightarrow> TWriteTrConfInputParams" where
  "version_bits dpaVersion p =
     (let p = (if dpaVersion < 0x0400 then
                 let p = (if nodeDpaInterfaceIsSet p then set_bit1 (nodeDpaInterface p) p else p);
                     p = p\<lparr>bits0_value := bits0_value p AND NOT 0x80, bits0_mask := bits0_mask p AND NOT 0x80\<rparr>
                 in if dpaVersion < 0x0303
                    then p\<lparr>bits0_value := bits0_value p AND NOT 0x40, bits0_mask := bits0_mask p AND NOT 0x40\<rparr>
                    else p
               else p)
      in if dpaVersion \<ge> 0x0410 then
           (if dpaPeerToPeerIsSet p then set_bit1 (dpaPeerToPeer p) p else p)
         else p)"

definition int_byte :: "u8 \<Rightarrow> int \<Rightarrow> u8 \<Rightarrow> TrConfigByte list" where
  "int_byte a v m = (if v \<noteq> - 1 then [cfg_byte a (word_of_int v) m] else [])"

definition config_bytes ::
    "cfg_lib \<Rightarrow> u16 \<Rightarrow> TWriteTrConfInputParams \<Rightarrow> TWriteTrConfInputParams \<times> TrConfigByte list" where
  "config_bytes L dpaVersion p =
     (let emb = emb_bytes L p;
          any0 = (bits0_mask p \<noteq> 0 \<or> nodeDpaInterfaceIsSet p \<or> dpaPeerToPeerIsSet p);
          p = (if any0 then version_bits dpaVersion p else p);
          b0 = (if any0 then [cfg_byte (CFGIND_DPA_FLAGS0 L) (bits0_value p) (bits0_mask p)] else []);
          b1 = (if dpaVersion > 0x0414 \<and> deviceAddress p \<noteq> COORDINATOR_ADDRESS L \<and> bits1_mask p = 0x01
                then [cfg_byte 0x0d (bits1_value p) (bits1_mask p)] else []);
          sub = (if dpaVersion = 0x0303 \<or> dpaVersion = 0x0304
                 then int_byte (CFGIND_CHANNEL_2ND_A L) (rfSubChannelA p) 0xff @
                      int_byte (CFGIND_CHANNEL_2ND_B L) (rfSubChannelB p) 0xff
                 else []);
          rest = int_byte (CFGIND_TXPOWER L) (txPower p) 0x07 @ int_byte (CFGIND_RXFILTER L) (rxFilter p) 0xff @
                 int_byte (CFGIND_DPA_LP_TOUTRF L) (lpRxTimeout p) 0xff @
                 int_byte (CFGIND_DPA_UART_IFACE_SPEED L) (uartBaudRate p) 0xff @
                 int_byte (CFGIND_ALTERNATE_DSM_CHANNEL L) (rfAltDsmChannel p) 0xff @
                 int_byte (CFGIND_CHANNEL_A L) (rfChannelA p) 0xff @
                 int_byte (CFGIND_CHANNEL_B L) (rfChannelB p) 0xff;
          pgm = (if RFPGM_mask p \<noteq> 0 then [cfg_byte 0x20 (RFPGM_value p) (RFPGM_mask p)] else [])
      in (p, emb @ b0 @ b1 @ sub @ rest @ pgm))"

section \<open>Broadcast requests\<close>

text \<open>
  The inner do-while loop: at least one triplet, then more while \<open>++confBytesIndex < 8\<close>; the index is a
  byte and lives across the packets. The result: the packet, the bytes left, the index.
\<close>

fun fill_packet :: "u8 \<Rightarrow> bytes \<Rightarrow> TrConfigByte list \<Rightarrow> u8 \<Rightarrow> bytes \<times> TrConfigByte list \<times> u8" where
  "fill_packet sz d [] i = (d, [], i)"
| "fill_packet sz d (b # bs) i =
     (let d = (d @ [address b, cb_value b, cb_mask b])[0 := d ! 0 + sz];
          i = i + 1
      in if i < 8 \<and> bs \<noteq> [] then fill_packet sz d bs i else (d, bs, i))"

lemma fill_packet_length: "bs \<noteq> [] \<Longrightarrow> length (fst (snd (fill_packet sz d bs i))) < length bs"
  by (induction sz d bs i rule: fill_packet.induct) (auto simp: Let_def less_SucI)

lemma fill_packet_shorter: "(d', rest, j) = fill_packet sz d bs i \<Longrightarrow> bs \<noteq> [] \<Longrightarrow> length rest < length bs"
  using fill_packet_length[of bs sz d i] by (metis fst_conv snd_conv)

definition packet_head :: "cfg_lib \<Rightarrow> TWriteTrConfInputParams \<Rightarrow> bytes" where
  "packet_head L p = [0x05, PNUM_OS L, CMD_OS_WRITE_CFG_BYTE L, ucast (hwpId p AND 0xff), ucast (drop_bit 8 (hwpId p))]"

function broadcast_loop ::
    "cfg_lib \<Rightarrow> TWriteTrConfInputParams \<Rightarrow> TrConfigByte list \<Rightarrow> u8 \<Rightarrow> bytes list" where
  "broadcast_loop L p bs i =
     (if bs = [] then []
      else case fill_packet (sizeof_TPerOSWriteCfgByteTriplet L) (packet_head L p) bs i of
             (d, rest, j) \<Rightarrow> d # broadcast_loop L p rest j)"
  by pat_completeness auto
termination
  by (relation "measure (\<lambda>(L, p, bs, i). length bs)") (auto dest: fill_packet_shorter)

declare broadcast_loop.simps [simp del]

text \<open>The security requests; both take the length of the access password.\<close>

definition security_packet :: "cfg_lib \<Rightarrow> TWriteTrConfInputParams \<Rightarrow> u8 \<Rightarrow> bytes \<Rightarrow> bytes" where
  "security_packet L p ty key =
     [0x06 + word_of_nat (length (accessPassword p)), PNUM_OS L, CMD_OS_SET_SECURITY L,
      ucast (hwpId p AND 0xff), ucast (drop_bit 8 (hwpId p)), ty] @ key"

definition broadcast_requests :: "cfg_lib \<Rightarrow> TWriteTrConfInputParams \<Rightarrow> TrConfigByte list \<Rightarrow> bytes list" where
  "broadcast_requests L p bs =
     broadcast_loop L p bs 0 @
     (if accessPassword p \<noteq> [] then [security_packet L p 0x00 (accessPassword p)] else []) @
     (if userKey p \<noteq> [] then [security_packet L p 0x01 (userKey p)] else [])"

section \<open>The restart flag\<close>

definition evaluate_restart :: "cfg_lib \<Rightarrow> u16 \<Rightarrow> TWriteTrConfInputParams \<Rightarrow> TWriteTrConfInputParams" where
  "evaluate_restart L dpaVersion p =
     p\<lparr>restartNeeded := restartNeeded p \<or>
        embPers_mask p AND (push_bit (pnum L Spi) 1 OR push_bit (pnum L Uart) 1) \<noteq> 0 \<or>
        bits0_mask p \<noteq> 0 \<or>
        lpRxTimeout p \<noteq> - 1 \<or> uartBaudRate p \<noteq> - 1 \<or>
        (dpaVersion < 0x0412 \<and> rxFilter p \<noteq> - 1) \<or>
        ((dpaVersion = 0x0300 \<or> dpaVersion = 0x0301) \<and> (rfChannelA p \<noteq> - 1 \<or> txPower p \<noteq> - 1))\<rparr>"

section \<open>What a device does with the bytes\<close>

text \<open>A triplet replaces the masked bits of the configuration byte at its address.\<close>

definition write_byte :: "TrConfigByte \<Rightarrow> (u8 \<Rightarrow> u8) \<Rightarrow> (u8 \<Rightarrow> u8)" where
  "write_byte b cfg = cfg(address b := (cfg (address b) AND NOT (cb_mask b)) OR (cb_value b AND cb_mask b))"

definition write_bytes :: "TrConfigByte list \<Rightarrow> (u8 \<Rightarrow> u8) \<Rightarrow> (u8 \<Rightarrow> u8)" where
  "write_bytes bs cfg = fold write_byte bs cfg"

lemma write_bytes_other: "a \<notin> address ` set bs \<Longrightarrow> write_bytes bs cfg a = cfg a"
  by (induction bs arbitrary: cfg) (auto simp: write_bytes_def write_byte_def)

lemma write_bytes_at:
  assumes "distinct (map address bs)" "b \<in> set bs"
  shows "write_bytes bs cfg (address b) = (cfg (address b) AND NOT (cb_mask b)) OR (cb_value b AND cb_mask b)"
  using assms
proof (induction bs arbitrary: cfg)
  case (Cons c bs)
  show ?case
  proof (cases "b = c")
    case True
    then show ?thesis
      using Cons.prems write_bytes_other[of "address c" bs "write_byte c cfg"]
      by (simp add: write_bytes_def) (simp add: write_byte_def)
  next
    case False
    then have "b \<in> set bs" "address c \<noteq> address b" using Cons.prems by auto
    then show ?thesis
      using Cons.IH[of "write_byte c cfg"] Cons.prems by (simp add: write_bytes_def) (simp add: write_byte_def)
  qed
qed simp

lemma bit_write_bytes_at:
  assumes "distinct (map address bs)" "b \<in> set bs" "n < 8"
  shows "bit (write_bytes bs cfg (address b)) n =
    (if bit (cb_mask b) n then bit (cb_value b) n else bit (cfg (address b)) n)"
  unfolding write_bytes_at[OF assms(1,2)] using assms(3)
  by (auto simp: bit_or_iff bit_and_iff bit_not_iff)

text \<open>The written addresses are among the known ones, in their order.\<close>

lemma subseq_int_byte: "subseq (map address (int_byte a v m)) [a]"
  by (simp add: int_byte_def)

lemma subseq_emb: "subseq (map address (emb_bytes L p)) (map (\<lambda>i. CFGIND_DPA_PERIPHERALS L + word_of_nat i) [0..<4])"
  by (simp add: emb_bytes_def upt_rec)

lemma config_bytes_addresses:
  assumes "config_bytes L v p = (p', bs)"
  shows "subseq (map address bs) (addresses L)"
proof -
  have one: "subseq (map address (if c then [cfg_byte a x y] else [])) [a]" for c a x y by simp
  have two: "subseq (map address (if c then int_byte a x 0xff @ int_byte b y 0xff else [])) ([a] @ [b])" for c a b x y
    using list_emb_append_mono[OF subseq_int_byte[of a x "0xff"] subseq_int_byte[of b y "0xff"]] by simp
  have app: "addresses L = map (\<lambda>i. CFGIND_DPA_PERIPHERALS L + word_of_nat i) [0..<4] @
     [CFGIND_DPA_FLAGS0 L] @ [0x0d] @ ([CFGIND_CHANNEL_2ND_A L] @ [CFGIND_CHANNEL_2ND_B L]) @
     ([CFGIND_TXPOWER L] @ [CFGIND_RXFILTER L] @ [CFGIND_DPA_LP_TOUTRF L] @ [CFGIND_DPA_UART_IFACE_SPEED L] @
      [CFGIND_ALTERNATE_DSM_CHANNEL L] @ [CFGIND_CHANNEL_A L] @ [CFGIND_CHANNEL_B L]) @ [0x20]"
    by (simp add: addresses_def)
  have "bs = snd (config_bytes L v p)" using assms by simp
  then show ?thesis
    unfolding config_bytes_def Let_def app snd_conv
    by (simp only: map_append) (intro list_emb_append_mono one two subseq_emb subseq_int_byte)
qed

section \<open>Masks and values after parsing\<close>

lemma bit_push_1: "k < 32 \<Longrightarrow> bit (2 ^ k :: u32) n \<longleftrightarrow> n = k"
  by (auto simp: bit_exp_iff possible_bit_def)

lemma fold_embPer:
  assumes "\<forall>e. pnum L e < 32"
  shows "bit (embPers_mask (fold (parse_embPer L doc) es p)) n \<longleftrightarrow>
      bit (embPers_mask p) n \<or> (\<exists>e\<in>set es. pnum L e = n \<and> jbool doc (emb_path e) \<noteq> None)"
    "bit (embPers_value (fold (parse_embPer L doc) es p)) n \<longleftrightarrow>
      bit (embPers_value p) n \<or> (\<exists>e\<in>set es. pnum L e = n \<and> jbool doc (emb_path e) = Some True)"
  using assms
  by (induction es arbitrary: p)
    (auto simp: parse_embPer_def bit_or_iff bit_push_1 split: option.splits if_splits)

lemma fold_embPer_frame:
  "bits0_mask (fold (parse_embPer L doc) es p) = bits0_mask p"
  "bits0_value (fold (parse_embPer L doc) es p) = bits0_value p"
  "dpaPeerToPeerIsSet (fold (parse_embPer L doc) es p) = dpaPeerToPeerIsSet p"
  by (induction es arbitrary: p) (auto simp: parse_embPer_def split: option.splits)

lemma parse_flags_bits:
  "bit (snd (parse_flags doc fs vm)) n \<longleftrightarrow>
      bit (snd vm) n \<or> (\<exists>(path, b)\<in>set fs. bit b n \<and> jbool doc path \<noteq> None)"
  "bit (fst (parse_flags doc fs vm)) n \<longleftrightarrow>
      bit (fst vm) n \<or> (\<exists>(path, b)\<in>set fs. bit b n \<and> jbool doc path = Some True)"
  by (induction fs arbitrary: vm)
    (auto simp: parse_flags_def flag_bits_def bit_or_iff split: option.splits prod.splits)

lemma opt_int_frame: "(\<And>v q. g (f v q) = g q) \<Longrightarrow> g (opt_int doc path f p) = g p"
  by (simp add: opt_int_def split: option.split)

lemmas opt_int_frames = opt_int_frame[where g = embPers_mask] opt_int_frame[where g = embPers_value]
  opt_int_frame[where g = bits0_mask] opt_int_frame[where g = bits0_value]
  opt_int_frame[where g = dpaPeerToPeerIsSet]

lemma rf_frame:
  "embPers_mask (parse_rf doc p) = embPers_mask p" "embPers_value (parse_rf doc p) = embPers_value p"
  "bits0_mask (parse_rf doc p) = bits0_mask p" "bits0_value (parse_rf doc p) = bits0_value p"
  "dpaPeerToPeerIsSet (parse_rf doc p) = dpaPeerToPeerIsSet p"
  by (simp_all add: parse_rf_def Let_def opt_int_frames)

lemma general_frame:
  "embPers_mask (parse_general doc p) = embPers_mask p" "embPers_value (parse_general doc p) = embPers_value p"
  "bits0_mask (parse_general doc p) = bits0_mask p" "bits0_value (parse_general doc p) = bits0_value p"
  "dpaPeerToPeerIsSet (parse_general doc p) = dpaPeerToPeerIsSet p"
  by (simp_all add: parse_general_def Let_def opt_int_frames)

lemma security_frame:
  "embPers_mask (parse_security doc p) = embPers_mask p" "embPers_value (parse_security doc p) = embPers_value p"
  "bits0_mask (parse_security doc p) = bits0_mask p" "bits0_value (parse_security doc p) = bits0_value p"
  "dpaPeerToPeerIsSet (parse_security doc p) = dpaPeerToPeerIsSet p"
  "dpaPeerToPeer (parse_security doc p) = dpaPeerToPeer p"
  by (simp_all add: parse_security_def Let_def split: option.split)

lemma bits_frame:
  "embPers_mask (parse_bits doc p) = embPers_mask p" "embPers_value (parse_bits doc p) = embPers_value p"
  by (simp_all add: parse_bits_def opt_int_def Let_def split: option.split prod.split)

lemma bits_parsed:
  "bits0_mask (parse_bits doc p) = snd (parse_flags doc bits0_flags (bits0_value p, bits0_mask p))"
  "bits0_value (parse_bits doc p) = fst (parse_flags doc bits0_flags (bits0_value p, bits0_mask p))"
  "dpaPeerToPeerIsSet (parse_bits doc p) \<longleftrightarrow> dpaPeerToPeerIsSet p \<or> jbool doc ''/data/req/dpaPeerToPeer'' \<noteq> None"
  "jbool doc ''/data/req/dpaPeerToPeer'' = Some b \<Longrightarrow> dpaPeerToPeer (parse_bits doc p) = b"
  by (simp_all add: parse_bits_def opt_int_def Let_def split: option.split prod.split)

lemmas frames = fold_embPer_frame rf_frame general_frame security_frame bits_frame

lemma all_emb_pers: "set emb_pers = UNIV"
proof -
  have "e \<in> set emb_pers" for e by (cases e) (simp_all add: emb_pers_def)
  then show ?thesis by blast
qed

lemma request_emb_bits:
  assumes "cfg_lib_ok L"
  shows "bit (embPers_mask (ComMngIqmeshWriteConfig L addr doc)) (pnum L e) \<longleftrightarrow> jbool doc (emb_path e) \<noteq> None"
    "bit (embPers_value (ComMngIqmeshWriteConfig L addr doc)) (pnum L e) \<longleftrightarrow> jbool doc (emb_path e) = Some True"
proof -
  have lt: "\<forall>e. pnum L e < 32" and inj: "pnum L e' = pnum L e \<longleftrightarrow> e' = e" for e e'
    using assms by (auto simp: cfg_lib_ok_def inj_def)
  show "bit (embPers_mask (ComMngIqmeshWriteConfig L addr doc)) (pnum L e) \<longleftrightarrow> jbool doc (emb_path e) \<noteq> None"
    "bit (embPers_value (ComMngIqmeshWriteConfig L addr doc)) (pnum L e) \<longleftrightarrow> jbool doc (emb_path e) = Some True"
    by (auto simp: ComMngIqmeshWriteConfig_def parse_def frames fold_embPer[OF lt] all_emb_pers inj
        TWriteTrConfInputParams0_def)
qed

lemma request_flag_bits:
  "bit (bits0_mask (ComMngIqmeshWriteConfig L addr doc)) n \<longleftrightarrow>
     (\<exists>(path, b)\<in>set bits0_flags. bit b n \<and> jbool doc path \<noteq> None)"
  "bit (bits0_value (ComMngIqmeshWriteConfig L addr doc)) n \<longleftrightarrow>
     (\<exists>(path, b)\<in>set bits0_flags. bit b n \<and> jbool doc path = Some True)"
  by (simp_all add: ComMngIqmeshWriteConfig_def parse_def frames bits_parsed parse_flags_bits
      TWriteTrConfInputParams0_def)

lemma request_peer:
  "dpaPeerToPeerIsSet (ComMngIqmeshWriteConfig L addr doc) \<longleftrightarrow> jbool doc ''/data/req/dpaPeerToPeer'' \<noteq> None"
  "jbool doc ''/data/req/dpaPeerToPeer'' = Some b \<Longrightarrow> dpaPeerToPeer (ComMngIqmeshWriteConfig L addr doc) = b"
  by (simp_all add: ComMngIqmeshWriteConfig_def parse_def frames bits_parsed TWriteTrConfInputParams0_def)

section \<open>Properties\<close>

lemma bit_union_byte: "n < 8 \<Longrightarrow> bit (union_byte w i) n \<longleftrightarrow> bit w (8 * i + n)"
  by (simp add: union_byte_def bit_ucast_iff bit_drop_bit_eq)

lemma emb_byte_in:
  assumes "i < 4" "union_byte (embPers_mask p) i \<noteq> 0"
  shows "cfg_byte (CFGIND_DPA_PERIPHERALS L + word_of_nat i) (union_byte (embPers_value p) i)
    (union_byte (embPers_mask p) i) \<in> set (emb_bytes L p)"
  using assms by (auto simp: emb_bytes_def intro!: bexI[of _ i])

lemma emb_address:
  assumes "a \<in> address ` set (emb_bytes L p)"
  shows "\<exists>i<4. a = CFGIND_DPA_PERIPHERALS L + word_of_nat i \<and> union_byte (embPers_mask p) i \<noteq> 0"
  using assms by (auto simp: emb_bytes_def split: if_splits)

definition any_bits0 :: "TWriteTrConfInputParams \<Rightarrow> bool" where
  "any_bits0 p \<longleftrightarrow> bits0_mask p \<noteq> 0 \<or> nodeDpaInterfaceIsSet p \<or> dpaPeerToPeerIsSet p"

lemma int_byte_address: "b \<in> set (int_byte a v m) \<Longrightarrow> address b = a"
  by (auto simp: int_byte_def split: if_splits)

lemma config_bytes_split:
  assumes "config_bytes L v p = (p', bs)"
  shows "p' = (if any_bits0 p then version_bits v p else p)"
    "\<exists>rest. bs = emb_bytes L p @
       (if any_bits0 p then [cfg_byte (CFGIND_DPA_FLAGS0 L) (bits0_value p') (bits0_mask p')] else []) @ rest \<and>
     address ` set rest \<subseteq> set (drop 5 (addresses L))"
proof -
  show p': "p' = (if any_bits0 p then version_bits v p else p)"
    using assms by (simp add: config_bytes_def any_bits0_def Let_def)
  have "bs = snd (config_bytes L v p)" using assms by simp
  then show "\<exists>rest. bs = emb_bytes L p @
       (if any_bits0 p then [cfg_byte (CFGIND_DPA_FLAGS0 L) (bits0_value p') (bits0_mask p')] else []) @ rest \<and>
     address ` set rest \<subseteq> set (drop 5 (addresses L))"
    unfolding config_bytes_def Let_def any_bits0_def[symmetric] p'[symmetric] snd_conv
    by (intro exI conjI, assumption) (auto simp: addresses_def upt_rec dest: int_byte_address split: if_splits)
qed

lemma addresses_apart:
  assumes "cfg_lib_ok L" "i < 4"
  shows "CFGIND_DPA_PERIPHERALS L + word_of_nat i \<noteq> CFGIND_DPA_FLAGS0 L"
    "CFGIND_DPA_PERIPHERALS L + word_of_nat i \<notin> set (drop 5 (addresses L))"
    "CFGIND_DPA_FLAGS0 L \<notin> set (drop 5 (addresses L))"
    "j < 4 \<Longrightarrow> CFGIND_DPA_PERIPHERALS L + word_of_nat i = CFGIND_DPA_PERIPHERALS L + word_of_nat j \<longleftrightarrow> i = j"
proof -
  have d: "distinct (addresses L)" using assms(1) by (simp add: cfg_lib_ok_def)
  have n: "k < 4 \<Longrightarrow> addresses L ! k = CFGIND_DPA_PERIPHERALS L + word_of_nat k" for k
    by (simp add: addresses_def nth_append)
  have l: "length (addresses L) = 16" "addresses L ! 4 = CFGIND_DPA_FLAGS0 L"
    by (simp_all add: addresses_def nth_append)
  have dr: "k < 5 \<Longrightarrow> addresses L ! k \<notin> set (drop 5 (addresses L))" for k
    using d l by (auto simp: in_set_conv_nth nth_eq_iff_index_eq)
  show "CFGIND_DPA_PERIPHERALS L + word_of_nat i \<noteq> CFGIND_DPA_FLAGS0 L"
    using d l n[OF assms(2)] nth_eq_iff_index_eq[of "addresses L" i 4] assms(2) by simp
  show "CFGIND_DPA_PERIPHERALS L + word_of_nat i \<notin> set (drop 5 (addresses L))"
    using dr[of i] n[OF assms(2)] assms(2) by simp
  show "CFGIND_DPA_FLAGS0 L \<notin> set (drop 5 (addresses L))" using dr[of 4] l by simp
  show "j < 4 \<Longrightarrow> CFGIND_DPA_PERIPHERALS L + word_of_nat i = CFGIND_DPA_PERIPHERALS L + word_of_nat j \<longleftrightarrow> i = j"
    using d l n[of i] n[of j] nth_eq_iff_index_eq[of "addresses L" i j] assms(2) by simp
qed

lemma subseq_imp_distinct: "subseq xs ys \<Longrightarrow> distinct ys \<Longrightarrow> distinct xs"
  by (induction rule: list_emb.induct) (auto dest: list_emb_set)

lemma config_bytes_distinct:
  assumes "config_bytes L v p = (p', bs)" "cfg_lib_ok L"
  shows "distinct (map address bs)"
  using config_bytes_addresses[OF assms(1)] assms(2) by (auto simp: cfg_lib_ok_def dest: subseq_imp_distinct)

lemma emb_effect:
  assumes "config_bytes L v p = (p', bs)" "cfg_lib_ok L" "k < 32"
  shows "bit (write_bytes bs cfg (CFGIND_DPA_PERIPHERALS L + word_of_nat (k div 8))) (k mod 8) =
    (if bit (embPers_mask p) k then bit (embPers_value p) k
     else bit (cfg (CFGIND_DPA_PERIPHERALS L + word_of_nat (k div 8))) (k mod 8))"
proof -
  let ?i = "k div 8" and ?a = "CFGIND_DPA_PERIPHERALS L + word_of_nat (k div 8)"
  have i: "?i < 4" using assms(3) by simp
  obtain rest where bs: "bs = emb_bytes L p @
       (if any_bits0 p then [cfg_byte (CFGIND_DPA_FLAGS0 L) (bits0_value p') (bits0_mask p')] else []) @ rest"
      "address ` set rest \<subseteq> set (drop 5 (addresses L))"
    using config_bytes_split(2)[OF assms(1)] by blast
  have bits: "bit (union_byte w ?i) (k mod 8) = bit w k" for w by (simp add: bit_union_byte)
  show ?thesis
  proof (cases "union_byte (embPers_mask p) ?i = 0")
    case True
    have "?a \<notin> address ` set bs"
      using emb_address[of ?a L p] addresses_apart[OF assms(2) i] bs True
      by (auto simp: image_Un split: if_splits)
    moreover have "\<not> bit (embPers_mask p) k" using bits[of "embPers_mask p"] True by simp
    ultimately show ?thesis by (simp add: write_bytes_other)
  next
    case False
    have "cfg_byte ?a (union_byte (embPers_value p) ?i) (union_byte (embPers_mask p) ?i) \<in> set bs"
      using emb_byte_in[OF i False] bs(1) by simp
    from bit_write_bytes_at[OF config_bytes_distinct[OF assms(1,2)] this, of "k mod 8" cfg]
    show ?thesis by (simp add: bits)
  qed
qed

lemma flags_effect:
  assumes "config_bytes L v p = (p', bs)" "cfg_lib_ok L" "any_bits0 p" "n < 8"
  shows "bit (write_bytes bs cfg (CFGIND_DPA_FLAGS0 L)) n =
    (if bit (bits0_mask (version_bits v p)) n then bit (bits0_value (version_bits v p)) n
     else bit (cfg (CFGIND_DPA_FLAGS0 L)) n)"
proof -
  have "cfg_byte (CFGIND_DPA_FLAGS0 L) (bits0_value p') (bits0_mask p') \<in> set bs"
    using config_bytes_split(2)[OF assms(1)] assms(3) by auto
  from bit_write_bytes_at[OF config_bytes_distinct[OF assms(1,2)] this assms(4), of cfg]
  show ?thesis using config_bytes_split(1)[OF assms(1)] assms(3) by simp
qed

lemma bit_2: "bit (2 :: u8) n \<longleftrightarrow> n = 1"
  using bit_exp_iff[where ?'a = "8 word", of 1 n] by (auto simp: possible_bit_def)

lemma set_bit1_bits:
  "bit (bits0_mask (set_bit1 b p)) n \<longleftrightarrow> bit (bits0_mask p) n \<or> n = 1"
  "bit (bits0_value (set_bit1 b p)) n \<longleftrightarrow> (if n = 1 then b else bit (bits0_value p) n)"
proof -
  have v: "bits0_value (set_bit1 b p) = (if b then bits0_value p OR 0x02 else bits0_value p AND NOT 0x02)"
    and m: "bits0_mask (set_bit1 b p) = bits0_mask p OR 0x02"
    by (simp_all add: set_bit1_def)
  show "bit (bits0_mask (set_bit1 b p)) n \<longleftrightarrow> bit (bits0_mask p) n \<or> n = 1"
    unfolding m bit_or_iff bit_2 ..
  have "bit (bits0_value p) n \<Longrightarrow> n < 8" using bit_imp_le_length[of "bits0_value p" n] by simp
  then show "bit (bits0_value (set_bit1 b p)) n \<longleftrightarrow> (if n = 1 then b else bit (bits0_value p) n)"
    unfolding v by (cases b)
      (simp_all only: if_True if_False bit_or_iff bit_and_iff bit_not_iff bit_2 possible_bit_word, auto)
qed

lemma version_bits_new:
  assumes "dpaVersion \<ge> 0x0410"
  shows "version_bits dpaVersion p = (if dpaPeerToPeerIsSet p then set_bit1 (dpaPeerToPeer p) p else p)"
proof -
  have "\<not> dpaVersion < 0x0400" using assms by (simp add: word_less_nat_alt word_le_nat_alt)
  then show ?thesis using assms by (simp add: version_bits_def)
qed

lemma flags_result:
  assumes "config_bytes L v p = (p', bs)" "cfg_lib_ok L" "v \<ge> 0x0410" "n < 8"
  shows "bit (write_bytes bs cfg (CFGIND_DPA_FLAGS0 L)) n =
    (if n = 1 \<and> dpaPeerToPeerIsSet p then dpaPeerToPeer p
     else if bit (bits0_mask p) n then bit (bits0_value p) n else bit (cfg (CFGIND_DPA_FLAGS0 L)) n)"
proof (cases "any_bits0 p")
  case True
  show ?thesis
    using flags_effect[OF assms(1,2) True assms(4), of cfg] by (simp add: version_bits_new[OF assms(3)] set_bit1_bits)
next
  case False
  obtain rest where "bs = emb_bytes L p @ rest" "address ` set rest \<subseteq> set (drop 5 (addresses L))"
    using config_bytes_split(2)[OF assms(1)] False by auto
  moreover have "CFGIND_DPA_FLAGS0 L \<notin> address ` set (emb_bytes L p)"
  proof
    assume "CFGIND_DPA_FLAGS0 L \<in> address ` set (emb_bytes L p)"
    then obtain i where "i < 4" "CFGIND_DPA_FLAGS0 L = CFGIND_DPA_PERIPHERALS L + word_of_nat i"
      using emb_address by blast
    then show False using addresses_apart(1)[OF assms(2)] by metis
  qed
  ultimately have "CFGIND_DPA_FLAGS0 L \<notin> address ` set bs"
    using addresses_apart(3)[OF assms(2), of 0] by (auto simp: image_Un)
  then show ?thesis using False by (simp add: write_bytes_other any_bits0_def)
qed

lemma config_bytes_known:
  assumes "config_bytes L v p = (p', bs)"
  shows "address ` set bs \<subseteq> set (addresses L)"
proof -
  obtain ns where "map address bs = nths (addresses L) ns"
    using config_bytes_addresses[OF assms] subseq_conv_nths by blast
  then have "set (map address bs) \<subseteq> set (addresses L)" by (metis set_nths_subset)
  then show ?thesis by simp
qed

lemma flag_bit_unique:
  assumes "(path, b) \<in> set bits0_flags" "bit b n" "(path', b') \<in> set bits0_flags" "bit b' n"
  shows "path' = path"
proof -
  have disj: "\<forall>(p1, b1)\<in>set bits0_flags. \<forall>(p2, b2)\<in>set bits0_flags. p1 = p2 \<or> b1 AND b2 = 0"
    by (simp add: bits0_flags_def)
  have "bit (b AND b') n" using assms(2,4) by (simp add: bit_and_iff)
  then have "b AND b' \<noteq> 0" by auto
  then show ?thesis using disj assms(1,3) by fastforce
qed


definition sample_cfg :: cfg_lib where
  "sample_cfg = \<lparr>pnum = (\<lambda>e. case e of Coordinator \<Rightarrow> 0 | Node \<Rightarrow> 1 | Os \<Rightarrow> 2 | Eeprom \<Rightarrow> 3 | Eeeprom \<Rightarrow> 4 | Ram \<Rightarrow> 5
       | Ledr \<Rightarrow> 6 | Ledg \<Rightarrow> 7 | Spi \<Rightarrow> 8 | Io \<Rightarrow> 9 | Thermometer \<Rightarrow> 10 | Pwm \<Rightarrow> 11 | Uart \<Rightarrow> 12 | Frc \<Rightarrow> 13),
     HWPID_DoNotCheck = 0xFFFF, PNUM_OS = 2, CMD_OS_WRITE_CFG_BYTE = 9, CMD_OS_SET_SECURITY = 6,
     COORDINATOR_ADDRESS = 0, BROADCAST_ADDRESS = 0xFF, sizeof_TPerOSWriteCfgByteTriplet = 3,
     CFGIND_DPA_PERIPHERALS = 1, CFGIND_DPA_FLAGS0 = 5, CFGIND_CHANNEL_2ND_A = 6, CFGIND_CHANNEL_2ND_B = 7,
     CFGIND_TXPOWER = 8, CFGIND_RXFILTER = 9, CFGIND_DPA_LP_TOUTRF = 0x0a, CFGIND_DPA_UART_IFACE_SPEED = 0x0b,
     CFGIND_ALTERNATE_DSM_CHANNEL = 0x0c, CFGIND_CHANNEL_A = 0x11, CFGIND_CHANNEL_B = 0x12\<rparr>"

lemma sample_cfg_ok: "cfg_lib_ok sample_cfg"
proof -
  have "inj (pnum sample_cfg)"
  proof (rule injI)
    fix x y assume "pnum sample_cfg x = pnum sample_cfg y"
    then show "x = y" by (cases x; cases y) (simp_all add: sample_cfg_def)
  qed
  moreover have "pnum sample_cfg e < 32" for e by (cases e) (simp_all add: sample_cfg_def)
  ultimately show ?thesis
    by (simp add: cfg_lib_ok_def) (simp add: addresses_def sample_cfg_def upt_rec)
qed

definition sample_doc :: json_doc where
  "sample_doc = \<lparr>jint = (\<lambda>_. None), jbool = (\<lambda>s. if s = emb_path Spi then Some True else None), jstr = (\<lambda>_. None)\<rparr>"


lemma fill_packet_correct:
  assumes "fill_packet sz d bs i = (d', rest, j)" "d \<noteq> []" "bs \<noteq> []"
  shows "\<exists>k. 0 < k \<and> k \<le> length bs \<and> rest = drop k bs \<and> j = i + word_of_nat k \<and>
    d' = (d ! 0 + word_of_nat k * sz) # tl d @ concat (map (\<lambda>b. [address b, cb_value b, cb_mask b]) (take k bs)) \<and>
    k \<le> (if i < 8 then 8 - unat i else if i = 255 then 9 else 1)"
  using assms
proof (induction sz d bs i arbitrary: d' rest j rule: fill_packet.induct)
  case (2 sz d b bs i)
  let ?d = "(d @ [address b, cb_value b, cb_mask b])[0 := d ! 0 + sz]"
  have d: "?d = (d ! 0 + sz) # tl d @ [address b, cb_value b, cb_mask b]"
    using "2.prems"(2) by (cases d) simp_all
  show ?case
  proof (cases "i + 1 < 8 \<and> bs \<noteq> []")
    case False
    then show ?thesis
      using "2.prems"(1) by (intro exI[of _ 1]) (auto simp: Let_def d word_less_nat_alt)
  next
    case True
    then have "fill_packet sz ?d bs (i + 1) = (d', rest, j)" using "2.prems"(1) by (auto simp: Let_def)
    from "2.IH"[OF refl refl True this _] True obtain k where
      k: "0 < k" "k \<le> length bs" "rest = drop k bs" "j = i + 1 + word_of_nat k"
        "d' = (?d ! 0 + word_of_nat k * sz) # tl ?d @ concat (map (\<lambda>b. [address b, cb_value b, cb_mask b]) (take k bs))"
        "k \<le> (if i + 1 < 8 then 8 - unat (i + 1) else if i + 1 = 255 then 9 else 1)"
      by (auto simp: d)
    have lt: "unat (i + 1) < 8" using True by (simp add: word_less_nat_alt)
    have "k \<le> 8 - unat (i + 1)" using k(6) True by simp
    moreover have "unat (i + 1) = (unat i + 1) mod 256" by (simp add: unat_word_ariths)
    ultimately have "Suc k \<le> (if i < 8 then 8 - unat i else if i = 255 then 9 else 1)"
      using lt unat_lt_256[of i]
      by (cases "unat i = 255") (auto simp: word_less_nat_alt word_unat_eq_iff)
    then show ?thesis
      using k(1-4) k(5)[unfolded d] by (intro exI[of _ "Suc k"]) (auto simp: algebra_simps)
  qed
qed simp

definition triplets :: "TrConfigByte list \<Rightarrow> bytes" where
  "triplets bs = concat (map (\<lambda>b. [address b, cb_value b, cb_mask b]) bs)"

lemma length_triplets: "length (triplets bs) = 3 * length bs"
  by (induction bs) (simp_all add: triplets_def)

lemma broadcast_loop_chunks:
  assumes "sizeof_TPerOSWriteCfgByteTriplet L = 3"
  shows "\<exists>cs. broadcast_loop L p bs i = map (\<lambda>c. word_of_nat (5 + 3 * length c) # tl (packet_head L p) @ triplets c) cs \<and>
    concat cs = bs \<and> list_all (\<lambda>c. 0 < length c \<and> length c \<le> 9) cs"
  using assms
proof (induction L p bs i rule: broadcast_loop.induct)
  case (1 L p bs i)
  show ?case
  proof (cases "bs = []")
    case False
    obtain d rest j where f: "fill_packet (sizeof_TPerOSWriteCfgByteTriplet L) (packet_head L p) bs i = (d, rest, j)"
      by (metis prod_cases3)
    have "packet_head L p \<noteq> []" by (simp add: packet_head_def)
    from fill_packet_correct[OF f this False] obtain k where k: "0 < k" "k \<le> length bs" "rest = drop k bs"
        "d = (packet_head L p ! 0 + word_of_nat k * sizeof_TPerOSWriteCfgByteTriplet L) # tl (packet_head L p) @ triplets (take k bs)"
        "k \<le> (if i < 8 then 8 - unat i else if i = 255 then 9 else 1)"
      by (auto simp: triplets_def)
    from "1.IH"[OF False f[symmetric] refl "1.prems"] obtain cs where
      "broadcast_loop L p rest j = map (\<lambda>c. word_of_nat (5 + 3 * length c) # tl (packet_head L p) @ triplets c) cs"
      "concat cs = rest" "list_all (\<lambda>c. 0 < length c \<and> length c \<le> 9) cs" by blast
    moreover have "k \<le> 9" using k(5) by (auto split: if_splits)
    moreover have "d = word_of_nat (5 + 3 * length (take k bs)) # tl (packet_head L p) @ triplets (take k bs)"
      using k(2,4) "1.prems" by (simp add: packet_head_def min_absorb2 mult.commute)
    moreover have "broadcast_loop L p bs i = d # broadcast_loop L p rest j"
      using False f by (subst broadcast_loop.simps) simp
    ultimately show ?thesis
      using k(1-3) False by (intro exI[of _ "take k bs # cs"]) (simp add: min_absorb2)
  qed (simp add: broadcast_loop.simps)
qed

text \<open>
  The broadcast of configuration bytes ends and sends every byte exactly once and in order, in packets of one
  to nine triplets whose first byte states their length. The packet with the access password states its length
  too; the one with the user key does so only when a password is sent along: without one
  its first byte is 6 although it carries the key.
\<close>

theorem broadcast_packets_correct:
  assumes "cfg_lib_ok L"
  shows "(\<exists>cs. broadcast_loop L p bs 0 =
        map (\<lambda>c. word_of_nat (5 + 3 * length c) # tl (packet_head L p) @ triplets c) cs \<and>
      concat cs = bs \<and> list_all (\<lambda>c. 0 < length c \<and> length c \<le> 9) cs) \<and>
    list_all (\<lambda>d. unat (d ! 0) = length d) (broadcast_loop L p bs 0) \<and>
    (length (accessPassword p) = 16 \<longrightarrow>
      unat (security_packet L p 0 (accessPassword p) ! 0) = length (security_packet L p 0 (accessPassword p))) \<and>
    (length (userKey p) = 16 \<and> accessPassword p = [] \<longrightarrow>
      unat (security_packet L p 1 (userKey p) ! 0) = 6 \<and> length (security_packet L p 1 (userKey p)) = 22)"
proof -
  have "sizeof_TPerOSWriteCfgByteTriplet L = 3" using assms by (simp add: cfg_lib_ok_def)
  from broadcast_loop_chunks[OF this, of p bs 0] obtain cs where cs:
    "broadcast_loop L p bs 0 = map (\<lambda>c. word_of_nat (5 + 3 * length c) # tl (packet_head L p) @ triplets c) cs"
    "concat cs = bs" "list_all (\<lambda>c. 0 < length c \<and> length c \<le> 9) cs" by blast
  have "unat (word_of_nat (5 + 3 * length c) :: u8) = 5 + 3 * length c" if "length c \<le> 9" for c :: "TrConfigByte list"
    using that by (intro unat_of_nat_u8) linarith
  then have "list_all (\<lambda>d. unat (d ! 0) = length d) (broadcast_loop L p bs 0)"
    using cs(3) by (auto simp: cs(1) list_all_iff packet_head_def length_triplets)
  moreover have "unat (0x06 + word_of_nat 16 :: u8) = 22" by simp
  ultimately show ?thesis using cs by (auto simp: security_packet_def)
qed

theorem broadcast_packets_correct_witness:
  "list_all (\<lambda>d. unat (d ! 0) = length d)
     (broadcast_loop sample_cfg (ComMngIqmeshWriteConfig sample_cfg 0xFF sample_doc) [cfg_byte 1 2 3] 0)"
  using broadcast_packets_correct[OF sample_cfg_ok] by blast

end
