(* ===== verification/Time_Conversion.thy ===== *)
theory Time_Conversion
  imports Cpp_Std
begin

text \<open>
  \<open>src/include/TimeConversion.h\<close>: time points and their texts. A \<open>system_clock::time_point\<close> is the signed
  number of nanoseconds since the epoch. \<open>std::gmtime\<close> is the proleptic Gregorian calendar, computed by
  counting eras of 400 years from the first of March of year 0; \<open>%F\<close> and \<open>%T\<close> of \<open>std::put_time\<close> are
  written out. Proved: \<open>gmtime\<close> yields hours, minutes and seconds in range, and \<open>fixTimestamp\<close> leaves a text that names a time zone and is the identity on such
  texts.
\<close>

section \<open>Clock values\<close>

text \<open>\<open>duration_cast\<close> truncates towards zero.\<close>

definition trunc_div :: "int \<Rightarrow> int \<Rightarrow> int" where
  "trunc_div a b = (if 0 \<le> a then a div b else - (- a div b))"

definition to_time_t :: "int \<Rightarrow> int" where
  "to_time_t tp = trunc_div tp (10 ^ 9)"

definition from_time_t :: "int \<Rightarrow> int" where
  "from_time_t t = t * 10 ^ 9"

record tm =
  tm_year :: int
  tm_mon :: int
  tm_mday :: int
  tm_hour :: int
  tm_min :: int
  tm_sec :: int

definition civil_from_days :: "int \<Rightarrow> int \<times> int \<times> int" where
  "civil_from_days days =
     (let z = days + 719468; era = z div 146097; doe = z mod 146097;
          yoe = (doe - doe div 1460 + doe div 36524 - doe div 146096) div 365;
          doy = doe - (365 * yoe + yoe div 4 - yoe div 100);
          mp = (5 * doy + 2) div 153;
          m = (if mp < 10 then mp + 3 else mp - 9)
      in (yoe + era * 400 + (if m \<le> 2 then 1 else 0), m, doy - (153 * mp + 2) div 5 + 1))"

definition gmtime :: "int \<Rightarrow> tm" where
  "gmtime t =
     (let (y, m, d) = civil_from_days (t div 86400); s = t mod 86400
      in \<lparr>tm_year = y, tm_mon = m, tm_mday = d, tm_hour = s div 3600, tm_min = s div 60 mod 60, tm_sec = s mod 60\<rparr>)"

section \<open>Texts\<close>

definition two :: "int \<Rightarrow> string" where
  "two n = pad_left 2 CHR ''0'' (show_int n)"

text \<open>\<open>std::put_time(\<dots>, "%FT%T")\<close>.\<close>

definition put_FT :: "tm \<Rightarrow> string" where
  "put_FT t = pad_left 4 CHR ''0'' (show_int (tm_year t)) @ ''-'' @ two (tm_mon t) @ ''-'' @ two (tm_mday t) @ ''T''
     @ two (tm_hour t) @ '':'' @ two (tm_min t) @ '':'' @ two (tm_sec t)"

definition toUTCString :: "int \<Rightarrow> string" where
  "toUTCString tp = put_FT (gmtime (to_time_t tp)) @ ''Z''"

text \<open>
  The pattern \<open>^.*[+-]\d{2}:\d{2}$\<close> on a whole string: the last six characters are a sign and two pairs of
  digits with a colon, and the characters before them contain no line terminator.
\<close>

definition has_offset :: "string \<Rightarrow> bool" where
  "has_offset s =
     (6 \<le> length s \<and> list_all (\<lambda>c. c \<noteq> CHR 0x0A \<and> c \<noteq> CHR 0x0D) (take (length s - 6) s) \<and>
      (case drop (length s - 6) s of
         [g, a, b, c, d, e] \<Rightarrow> (g = CHR ''+'' \<or> g = CHR ''-'') \<and> isdigit a \<and> isdigit b \<and> c = CHR '':'' \<and>
                               isdigit d \<and> isdigit e
       | _ \<Rightarrow> False))"

definition fixTimestamp :: "string \<Rightarrow> string result" where
  "fixTimestamp timeString =
     (if timeString = [] then Inl (UB ''back of an empty string'')
      else if last timeString = CHR ''Z'' \<or> has_offset timeString then Inr timeString
      else Inr (timeString @ ''Z''))"

definition getEpochTimestamp :: "int \<Rightarrow> u64" where
  "getEpochTimestamp tp = word_of_int (to_time_t tp)"

definition getISO8601TimestampSafe :: "int \<Rightarrow> bool \<Rightarrow> string" where
  "getISO8601TimestampSafe tp withMillis =
     (let text = put_FT (gmtime (to_time_t tp));
          ms = trunc_div tp (10 ^ 6);
          millis = ms - 1000 * trunc_div ms 1000
      in if \<not> withMillis then text @ ''Z''
         else text @ ''.'' @ pad_left 3 CHR ''0'' (show_int millis) @ ''Z'')"

section \<open>Facts\<close>

lemma to_time_t_from [simp]: "to_time_t (from_time_t t) = t"
proof -
  have "(- t) * 10 ^ 9 div 10 ^ 9 = - t" by (rule nonzero_mult_div_cancel_right) simp
  then show ?thesis by (simp add: to_time_t_def from_time_t_def trunc_div_def)
qed

lemma from_to_time_t:
  assumes "10 ^ 9 dvd tp"
  shows "from_time_t (to_time_t tp) = tp"
proof -
  obtain t where "tp = from_time_t t" using assms by (auto simp: from_time_t_def mult.commute)
  then show ?thesis by simp
qed

lemma gmtime_ranges:
  "0 \<le> tm_hour (gmtime t)" "tm_hour (gmtime t) < 24" "0 \<le> tm_min (gmtime t)" "tm_min (gmtime t) < 60"
  "0 \<le> tm_sec (gmtime t)" "tm_sec (gmtime t) < 60"
proof -
  have "0 \<le> t mod 86400" "t mod 86400 < 86400" by simp_all
  then have "0 \<le> t mod 86400 div 3600" "t mod 86400 div 3600 < 24" by linarith+
  then show "0 \<le> tm_hour (gmtime t)" "tm_hour (gmtime t) < 24" "0 \<le> tm_min (gmtime t)" "tm_min (gmtime t) < 60"
    "0 \<le> tm_sec (gmtime t)" "tm_sec (gmtime t) < 60"
    by (simp_all add: gmtime_def Let_def split_beta)
qed

lemma fixTimestamp_zone:
  assumes "fixTimestamp s = Inr s'"
  shows "(last s' = CHR ''Z'' \<or> has_offset s') \<and> fixTimestamp s' = Inr s'"
  using assms by (auto simp: fixTimestamp_def split: if_splits)

lemma fixTimestamp_total: "s \<noteq> [] \<Longrightarrow> \<exists>s'. fixTimestamp s = Inr s'"
  by (simp add: fixTimestamp_def)

end
