(* ===== verification/Scheduler_Record.thy ===== *)
theory Scheduler_Record
  imports Time_Conversion
begin

text \<open>
  \<open>src/Scheduler/SchedulerRecord.h\<close> and \<open>.cpp\<close>: one task of the scheduler with its time specification.
  The messages of a task are JSON values the record only stores; they are the type parameter \<open>'j\<close>.
  The \<open>timeSpec\<close> object has exactly the five members its JSON schema requires, so it is a record.
  The \<open>date\<close> and \<open>croncpp\<close> libraries are the functions of \<open>time_lib\<close>: \<open>date::parse\<close> behind
  \<open>DatetimeParser::parseISO8601\<close>, \<open>cron::make_cron\<close> (\<open>Inl\<close> for \<open>bad_cronexpr\<close>) and \<open>cron::cron_next\<close>.
  Shown here: a record and its serialised form determine each other, and the next execution
  time of each kind of task.
\<close>

section \<open>Data\<close>

datatype cron_time = CronArray "string list" | CronString string

record timeSpec =
  cronTime :: cron_time
  exactTime :: bool
  periodic :: bool
  period :: int
  startTime :: string

record 'c time_lib =
  parseISO8601 :: "string \<Rightarrow> int result"
  make_cron :: "string \<Rightarrow> string + 'c"
  cron_next :: "'c \<Rightarrow> int \<Rightarrow> int"
  default_cronexpr :: 'c

record ('j, 'c) SchedulerRecord =
  m_clientId :: string
  m_taskId :: string
  m_description :: string
  m_task :: 'j
  m_timeSpec :: timeSpec
  m_periodic :: bool
  m_period :: int
  m_exactTime :: bool
  m_startTime :: string
  m_startTimePoint :: int
  m_cron :: "string list"
  m_cronString :: string
  m_cronExpr :: 'c
  m_persist :: bool
  m_enabled :: bool
  m_active :: bool
  m_started :: bool

text \<open>The members with their default initialisers; the document \<open>m_timeSpec\<close> is null until it is populated.\<close>

definition record0 :: "('c, 'z) time_lib_scheme \<Rightarrow> string \<Rightarrow> string \<Rightarrow> 'j \<Rightarrow> bool \<Rightarrow> bool \<Rightarrow> ('j, 'c) SchedulerRecord" where
  "record0 L clientId taskId task persist enabled =
     \<lparr>m_clientId = clientId, m_taskId = taskId, m_description = [], m_task = task,
      m_timeSpec = \<lparr>cronTime = CronString [], exactTime = False, periodic = False, period = 0, startTime = []\<rparr>,
      m_periodic = False, m_period = 0, m_exactTime = False, m_startTime = [], m_startTimePoint = 0,
      m_cron = replicate 7 [], m_cronString = [], m_cronExpr = default_cronexpr L, m_persist = persist,
      m_enabled = enabled, m_active = False, m_started = False\<rparr>"

section \<open>Time specification\<close>

definition CRON_ALIASES :: "(string \<times> string) list" where
  "CRON_ALIASES =
     [(''@yearly'', ''0 0 0 1 1 * *''), (''@annually'', ''0 0 0 1 1 * *''), (''@monthly'', ''0 0 0 1 * * *''),
      (''@weekly'', ''0 0 0 * * 0 *''), (''@daily'', ''0 0 0 * * * *''), (''@hourly'', ''0 0 * * * * *''),
      (''@minutely'', ''0 * * * * * *'')]"

definition resolveCronAlias :: "string \<Rightarrow> string result" where
  "resolveCronAlias alias =
     (case map_of CRON_ALIASES alias of
        None \<Rightarrow> Inl (LogicError ''Unknown or unsupported alias: '')
      | Some e \<Rightarrow> Inr e)"

fun join_spaces :: "string list \<Rightarrow> string" where
  "join_spaces [] = []"
| "join_spaces [f] = f"
| "join_spaces (f # fs) = f @ '' '' @ join_spaces fs"

definition cron_expr :: "('c, 'z) time_lib_scheme \<Rightarrow> string \<Rightarrow> ('j, 'c) SchedulerRecord \<Rightarrow> ('j, 'c) SchedulerRecord result" where
  "cron_expr L text r =
     (case make_cron L text of
        Inl _ \<Rightarrow> Inl (LogicError ''Cron expression error: '')
      | Inr e \<Rightarrow> Inr (r\<lparr>m_cronExpr := e\<rparr>))"

definition parseCron :: "('c, 'z) time_lib_scheme \<Rightarrow> ('j, 'c) SchedulerRecord \<Rightarrow> ('j, 'c) SchedulerRecord result" where
  "parseCron L r =
     (if m_periodic r \<or> m_exactTime r then Inr r
      else if m_cronString r \<noteq> [] then
        bind_r (if hd (m_cronString r) = CHR ''@'' then resolveCronAlias (m_cronString r) else Inr (m_cronString r))
          (\<lambda>cs. cron_expr L cs (r\<lparr>m_cronString := cs\<rparr>))
      else cron_expr L (join_spaces (m_cron r)) r)"

definition populateTimeSpec :: "('j, 'c) SchedulerRecord \<Rightarrow> ('j, 'c) SchedulerRecord" where
  "populateTimeSpec r =
     r\<lparr>m_timeSpec :=
         \<lparr>cronTime = (if m_cronString r \<noteq> [] then CronString (m_cronString r) else CronArray (m_cron r)),
          exactTime = m_exactTime r, periodic = m_periodic r, period = m_period r mod 2 ^ 64,
          startTime = (if m_exactTime r \<and> m_startTime r \<noteq> [] then toUTCString (m_startTimePoint r) else [])\<rparr>\<rparr>"

text \<open>\<open>GetInt\<close> and \<open>GetUint\<close> of a JSON integer assert its range.\<close>

definition GetInt :: "int \<Rightarrow> int result" where
  "GetInt v = (if - (2 ^ 31) \<le> v \<and> v < 2 ^ 31 then Inr v else Inl (UB ''GetInt''))"

definition GetUint :: "int \<Rightarrow> int result" where
  "GetUint v = (if 0 \<le> v \<and> v < 2 ^ 32 then Inr v else Inl (UB ''GetUint''))"

text \<open>The loop over the seven elements of a cron array.\<close>

definition cron_fields :: "string list \<Rightarrow> string list result" where
  "cron_fields xs = (if length xs < 7 then Inl (UB ''iterator past the end'') else Inr (take 7 xs))"

definition start_point ::
    "('c, 'z) time_lib_scheme \<Rightarrow> string \<Rightarrow> ('j, 'c) SchedulerRecord \<Rightarrow> ('j, 'c) SchedulerRecord result" where
  "start_point L s r =
     bind_r (fixTimestamp s) (\<lambda>s'. bind_r (parseISO8601 L s') (\<lambda>tp. Inr (r\<lparr>m_startTime := s', m_startTimePoint := tp\<rparr>)))"

definition parseTimeSpec ::
    "('c, 'z) time_lib_scheme \<Rightarrow> timeSpec \<Rightarrow> ('j, 'c) SchedulerRecord \<Rightarrow> ('j, 'c) SchedulerRecord result" where
  "parseTimeSpec L ts r =
     bind_r (case cronTime ts of
               CronArray xs \<Rightarrow> bind_r (cron_fields xs) (\<lambda>fs. Inr (r\<lparr>m_timeSpec := ts, m_cron := fs\<rparr>))
             | CronString s \<Rightarrow> Inr (r\<lparr>m_timeSpec := ts, m_cronString := s\<rparr>))
       (\<lambda>r. bind_r (GetInt (period ts)) (\<lambda>p.
          let r = r\<lparr>m_exactTime := exactTime ts, m_periodic := periodic ts, m_period := p, m_startTime := startTime ts\<rparr>
          in if startTime ts \<noteq> [] then start_point L (startTime ts) r else Inr r))"

section \<open>Constructors\<close>

definition init :: "('c, 'z) time_lib_scheme \<Rightarrow> ('j, 'c) SchedulerRecord \<Rightarrow> ('j, 'c) SchedulerRecord result" where
  "init L r = bind_r (parseCron L r) (\<lambda>r. Inr (populateTimeSpec r))"

definition new_oneshot ::
    "('c, 'z) time_lib_scheme \<Rightarrow> string \<Rightarrow> string \<Rightarrow> 'j \<Rightarrow> string \<Rightarrow> bool \<Rightarrow> bool \<Rightarrow> ('j, 'c) SchedulerRecord result" where
  "new_oneshot L clientId taskId task start persist enabled =
     bind_r (start_point L start ((record0 L clientId taskId task persist enabled)\<lparr>m_exactTime := True\<rparr>)) (init L)"

definition new_timepoint ::
    "('c, 'z) time_lib_scheme \<Rightarrow> string \<Rightarrow> string \<Rightarrow> 'j \<Rightarrow> int \<Rightarrow> bool \<Rightarrow> bool \<Rightarrow> ('j, 'c) SchedulerRecord result" where
  "new_timepoint L clientId taskId task tp persist enabled =
     init L ((record0 L clientId taskId task persist enabled)\<lparr>m_exactTime := True, m_startTimePoint := tp\<rparr>)"

definition new_periodic ::
    "('c, 'z) time_lib_scheme \<Rightarrow> string \<Rightarrow> string \<Rightarrow> 'j \<Rightarrow> int \<Rightarrow> bool \<Rightarrow> bool \<Rightarrow> ('j, 'c) SchedulerRecord result" where
  "new_periodic L clientId taskId task seconds persist enabled =
     (if seconds \<le> 0 then Inl (LogicError ''Period must be at least >= 1sec '')
      else init L ((record0 L clientId taskId task persist enabled)\<lparr>m_periodic := True, m_period := seconds\<rparr>))"

definition new_cron ::
    "('c, 'z) time_lib_scheme \<Rightarrow> string \<Rightarrow> string \<Rightarrow> 'j \<Rightarrow> string \<Rightarrow> string list \<Rightarrow> bool \<Rightarrow> bool \<Rightarrow>
     ('j, 'c) SchedulerRecord result" where
  "new_cron L clientId taskId task cronString cronArray persist enabled =
     init L ((record0 L clientId taskId task persist enabled)\<lparr>m_cron := cronArray, m_cronString := cronString\<rparr>)"

text \<open>The document of a task file. The members the constructor treats as optional are optional here.\<close>

record 'j task_doc =
  d_clientId :: string
  d_taskId :: string
  d_description :: "string option"
  d_task :: 'j
  d_timeSpec :: timeSpec
  d_persist :: "bool option"
  d_enabled :: "bool option"

definition new_document :: "('c, 'z) time_lib_scheme \<Rightarrow> 'j task_doc \<Rightarrow> ('j, 'c) SchedulerRecord result" where
  "new_document L d =
     (let r = (record0 L (d_clientId d) (d_taskId d) (d_task d) False False)
                \<lparr>m_description := (case d_description d of Some s \<Rightarrow> s | None \<Rightarrow> [])\<rparr>
      in bind_r (parseTimeSpec L (d_timeSpec d) r) (\<lambda>r. bind_r (parseCron L r) (\<lambda>r.
           let r = (case d_persist d of Some b \<Rightarrow> r\<lparr>m_persist := b\<rparr> | None \<Rightarrow> r)
           in Inr (case d_enabled d of Some b \<Rightarrow> r\<lparr>m_enabled := b\<rparr> | None \<Rightarrow> r))))"

text \<open>The copy constructor copies every member but \<open>m_timeSpec\<close>, which it populates anew.\<close>

definition copy_record :: "('j, 'c) SchedulerRecord \<Rightarrow> ('j, 'c) SchedulerRecord" where
  "copy_record r = populateTimeSpec r"

definition serialize :: "('j, 'c) SchedulerRecord \<Rightarrow> 'j task_doc" where
  "serialize r =
     \<lparr>d_clientId = m_clientId r, d_taskId = m_taskId r, d_description = Some (m_description r), d_task = m_task r,
      d_timeSpec = m_timeSpec r, d_persist = Some (m_persist r), d_enabled = Some (m_enabled r)\<rparr>"

section \<open>Operations\<close>

definition setTimeSpec ::
    "('c, 'z) time_lib_scheme \<Rightarrow> timeSpec \<Rightarrow> ('j, 'c) SchedulerRecord \<Rightarrow> ('j, 'c) SchedulerRecord result" where
  "setTimeSpec L ts r =
     bind_r (parseTimeSpec L ts (r\<lparr>m_cron := replicate 7 [], m_cronString := []\<rparr>)) (parseCron L)"

text \<open>\<open>now\<close> is the value of the clock when \<open>getNext\<close> reads it; seconds are \<open>10 ^ 9\<close> ticks.\<close>

definition getNext ::
    "('c, 'z) time_lib_scheme \<Rightarrow> int \<Rightarrow> int \<Rightarrow> ('j, 'c) SchedulerRecord \<Rightarrow> int \<times> ('j, 'c) SchedulerRecord" where
  "getNext L now actualTimePoint r =
     (if m_exactTime r then (m_startTimePoint r, r)
      else if m_periodic r then
        (if m_started r then (actualTimePoint + m_period r * 10 ^ 9, r)
         else (now, r\<lparr>m_started := True\<rparr>))
      else (from_time_t (cron_next L (m_cronExpr r) (to_time_t actualTimePoint)), r))"

section \<open>What the operations leave alone\<close>

text \<open>The members that have nothing to do with the time of execution.\<close>

definition identity_of :: "('j, 'c) SchedulerRecord \<Rightarrow> string \<times> string \<times> string \<times> 'j \<times> bool \<times> bool \<times> bool \<times> bool" where
  "identity_of r = (m_clientId r, m_taskId r, m_description r, m_task r, m_persist r, m_enabled r, m_active r, m_started r)"

lemma cron_expr_frame: "cron_expr L text r = Inr r' \<Longrightarrow> identity_of r' = identity_of r"
  by (auto simp: cron_expr_def identity_of_def split: sum.splits)

lemma parseCron_frame: "parseCron L r = Inr r' \<Longrightarrow> identity_of r' = identity_of r"
  unfolding parseCron_def bind_r_eq_Inr
  by (auto dest!: cron_expr_frame simp: bind_r_eq_Inr split: if_splits) (simp_all add: identity_of_def)

lemma start_point_frame: "start_point L t r = Inr r' \<Longrightarrow> identity_of r' = identity_of r"
  by (auto simp: start_point_def bind_r_eq_Inr identity_of_def)

lemma populateTimeSpec_frame [simp]: "identity_of (populateTimeSpec r) = identity_of r"
  by (simp add: populateTimeSpec_def identity_of_def)

lemma init_frame: "init L r = Inr r' \<Longrightarrow> identity_of r' = identity_of r"
  by (auto simp: init_def bind_r_eq_Inr dest: parseCron_frame)

lemma parseTimeSpec_frame:
  assumes "parseTimeSpec L ts r = Inr r'"
  shows "identity_of r' = identity_of r"
proof -
  obtain r1 p where r1: "(case cronTime ts of
       CronArray xs \<Rightarrow> bind_r (cron_fields xs) (\<lambda>fs. Inr (r\<lparr>m_timeSpec := ts, m_cron := fs\<rparr>))
     | CronString s \<Rightarrow> Inr (r\<lparr>m_timeSpec := ts, m_cronString := s\<rparr>)) = Inr r1"
    and e: "(if startTime ts \<noteq> [] then start_point L (startTime ts) (r1\<lparr>m_exactTime := exactTime ts,
        m_periodic := periodic ts, m_period := p, m_startTime := startTime ts\<rparr>)
      else Inr (r1\<lparr>m_exactTime := exactTime ts, m_periodic := periodic ts, m_period := p, m_startTime := startTime ts\<rparr>))
      = Inr r'"
    using assms by (auto simp: parseTimeSpec_def bind_r_eq_Inr Let_def)
  have "identity_of r1 = identity_of r" using r1
    by (auto simp: bind_r_eq_Inr identity_of_def split: cron_time.splits)
  moreover have "identity_of r' = identity_of r1" using e
    by (auto split: if_splits dest!: start_point_frame) (simp_all add: identity_of_def)
  ultimately show ?thesis by simp
qed

lemma setTimeSpec_frame: "setTimeSpec L ts r = Inr r' \<Longrightarrow> identity_of r' = identity_of r"
  by (auto simp: setTimeSpec_def bind_r_eq_Inr dest!: parseCron_frame parseTimeSpec_frame) (simp add: identity_of_def)

lemma copy_record_frame [simp]: "identity_of (copy_record r) = identity_of r"
  by (simp add: copy_record_def)

section \<open>Records and their documents\<close>

text \<open>When a task is executed, and what a client sees of a task.\<close>

datatype 'c trigger = AtTime int | Every int | AtCron 'c

definition trigger_of :: "('j, 'c) SchedulerRecord \<Rightarrow> 'c trigger" where
  "trigger_of r =
     (if m_exactTime r then AtTime (m_startTimePoint r) else if m_periodic r then Every (m_period r)
      else AtCron (m_cronExpr r))"

definition task_view :: "('j, 'c) SchedulerRecord \<Rightarrow> 'j task_doc \<times> 'c trigger" where
  "task_view r = (serialize r, trigger_of r)"

definition cron_text :: "('j, 'c) SchedulerRecord \<Rightarrow> string" where
  "cron_text r = (if m_cronString r \<noteq> [] then m_cronString r else join_spaces (m_cron r))"

text \<open>
  The records that can be read back from their document: the populated time specification, a period that fits \<open>int\<close>, the
  expression compiled from the stored cron text, and a start time that its text denotes.
\<close>

definition restorable :: "('c, 'z) time_lib_scheme \<Rightarrow> ('j, 'c) SchedulerRecord \<Rightarrow> bool" where
  "restorable L r \<longleftrightarrow> populateTimeSpec r = r \<and> length (m_cron r) = 7 \<and> 0 \<le> m_period r \<and> m_period r < 2 ^ 31 \<and>
     (m_exactTime r \<longrightarrow> m_startTime r \<noteq> [] \<and> parseISO8601 L (toUTCString (m_startTimePoint r)) = Inr (m_startTimePoint r)) \<and>
     (\<not> m_exactTime r \<and> \<not> m_periodic r \<longrightarrow> make_cron L (cron_text r) = Inr (m_cronExpr r) \<and>
        (m_cronString r \<noteq> [] \<longrightarrow> hd (m_cronString r) \<noteq> CHR ''@''))"

lemma toUTCString_fixed: "fixTimestamp (toUTCString tp) = Inr (toUTCString tp)" "toUTCString tp \<noteq> []"
  by (simp_all add: fixTimestamp_def toUTCString_def)

lemma spec_of_populated:
  assumes "populateTimeSpec r = r"
  shows "m_timeSpec r = \<lparr>cronTime = (if m_cronString r \<noteq> [] then CronString (m_cronString r) else CronArray (m_cron r)),
      exactTime = m_exactTime r, periodic = m_periodic r, period = m_period r mod 2 ^ 64,
      startTime = (if m_exactTime r \<and> m_startTime r \<noteq> [] then toUTCString (m_startTimePoint r) else [])\<rparr>"
proof -
  have "m_timeSpec r = m_timeSpec (populateTimeSpec r)" using assms by simp
  then show ?thesis by (simp add: populateTimeSpec_def)
qed

lemma record_roundtrip:
  assumes "restorable L r"
  shows "\<exists>r'. new_document L (serialize r) = Inr r' \<and> task_view r' = task_view r \<and> m_taskId r' = m_taskId r \<and>
    m_persist r' = m_persist r \<and> m_enabled r' = m_enabled r \<and> \<not> m_active r'"
proof -
  note spec = spec_of_populated[of r]
  have p: "m_period r mod 2 ^ 64 = m_period r" using assms by (simp add: restorable_def)
  have i: "GetInt (m_period r) = Inr (m_period r)" using assms by (simp add: restorable_def GetInt_def)
  have fields: "cron_fields (m_cron r) = Inr (m_cron r)" using assms by (simp add: restorable_def cron_fields_def)
  define r1 where "r1 = (record0 L (m_clientId r) (m_taskId r) (m_task r) False False)\<lparr>m_description := m_description r,
     m_timeSpec := m_timeSpec r, m_cron := (if m_cronString r \<noteq> [] then replicate 7 [] else m_cron r),
     m_cronString := m_cronString r, m_exactTime := m_exactTime r, m_periodic := m_periodic r, m_period := m_period r,
     m_startTime := (if m_exactTime r then toUTCString (m_startTimePoint r) else []),
     m_startTimePoint := (if m_exactTime r then m_startTimePoint r else 0)\<rparr>"
  have parse: "parseTimeSpec L (m_timeSpec r) ((record0 L (m_clientId r) (m_taskId r) (m_task r) False False)
      \<lparr>m_description := m_description r\<rparr>) = Inr r1"
    using assms spec p i fields toUTCString_fixed
    by (auto simp: restorable_def parseTimeSpec_def start_point_def Let_def r1_def record0_def)
  have cron: "\<exists>e. parseCron L r1 = Inr (r1\<lparr>m_cronExpr := e\<rparr>) \<and> (\<not> m_exactTime r \<and> \<not> m_periodic r \<longrightarrow> e = m_cronExpr r)"
  proof (cases "m_exactTime r \<or> m_periodic r")
    case True
    then have "parseCron L r1 = Inr (r1\<lparr>m_cronExpr := m_cronExpr r1\<rparr>)" by (auto simp: parseCron_def r1_def)
    then show ?thesis using True by blast
  next
    case False
    then have "make_cron L (cron_text r1) = Inr (m_cronExpr r)" "m_cronString r1 \<noteq> [] \<longrightarrow> hd (m_cronString r1) \<noteq> CHR ''@''"
      using assms by (auto simp: restorable_def r1_def cron_text_def)
    then have "parseCron L r1 = Inr (r1\<lparr>m_cronExpr := m_cronExpr r\<rparr>)"
      using False by (auto simp: parseCron_def cron_expr_def cron_text_def r1_def)
    then show ?thesis by blast
  qed
  then obtain e where e: "parseCron L r1 = Inr (r1\<lparr>m_cronExpr := e\<rparr>)" "\<not> m_exactTime r \<and> \<not> m_periodic r \<longrightarrow> e = m_cronExpr r"
    by blast
  have "new_document L (serialize r) = Inr (r1\<lparr>m_cronExpr := e, m_persist := m_persist r, m_enabled := m_enabled r\<rparr>)"
    using parse e(1) by (simp add: new_document_def serialize_def Let_def)
  then show ?thesis using e(2)
    by (auto simp: task_view_def trigger_of_def serialize_def r1_def record0_def)
qed

end
