(* ===== verification/Std_Map.thy ===== *)
theory Std_Map
  imports Gwd_Prelude "HOL-Library.Multiset" "HOL-Library.List_Lexorder" "HOL-Library.Char_ord"
begin

text \<open>
  The ordered containers of the C++ library as the components use them: \<open>std::map\<close> as a list of
  key and value pairs with increasing keys (\<open>insert\<close> keeps an existing entry), \<open>std::multimap\<close> as a list
  with non-decreasing keys (\<open>insert\<close> puts an entry behind those with an equal key). Strings
  are ordered by the codes of their characters. The locale \<open>timetable\<close> is the contract of a
  multimap from times to identifiers towards its users; the lists fulfil it.
\<close>

section \<open>std::map\<close>

fun map_insert :: "'k::linorder \<Rightarrow> 'v \<Rightarrow> ('k \<times> 'v) list \<Rightarrow> ('k \<times> 'v) list" where
  "map_insert k v [] = [(k, v)]"
| "map_insert k v ((k', v') # m) =
     (if k < k' then (k, v) # (k', v') # m
      else if k = k' then (k', v') # m else (k', v') # map_insert k v m)"

definition map_erase :: "'k \<Rightarrow> ('k \<times> 'v) list \<Rightarrow> ('k \<times> 'v) list" where
  "map_erase k m = filter (\<lambda>(k', v). k' \<noteq> k) m"

text \<open>Assignment through an iterator or a shared pointer to an element.\<close>

definition map_assign :: "'k \<Rightarrow> 'v \<Rightarrow> ('k \<times> 'v) list \<Rightarrow> ('k \<times> 'v) list" where
  "map_assign k v m = map (\<lambda>(k', v'). (k', if k' = k then v else v')) m"

definition map_put :: "'k::linorder \<Rightarrow> 'v \<Rightarrow> ('k \<times> 'v) list \<Rightarrow> ('k \<times> 'v) list" where
  "map_put k v m = map_insert k v (map_erase k m)"

definition map_ok :: "('k::linorder \<times> 'v) list \<Rightarrow> bool" where
  "map_ok m = sorted_wrt (<) (map fst m)"

lemma set_map_insert:
  "set (map_insert k v m) = (if k \<in> fst ` set m then set m else insert (k, v) (set m))"
  if "map_ok m"
  using that
proof (induction k v m rule: map_insert.induct)
  case (2 k v k' v' m)
  then show ?case by (auto simp: map_ok_def image_iff dest: less_asym order.strict_trans; force)
qed simp

lemma keys_map_insert: "fst ` set (map_insert k v m) = insert k (fst ` set m)"
  by (induction k v m rule: map_insert.induct) auto

lemma map_ok_insert [simp, intro]: "map_ok m \<Longrightarrow> map_ok (map_insert k v m)"
proof (induction k v m rule: map_insert.induct)
  case (2 k v k' v' m)
  then show ?case using keys_map_insert[of k v m] by (auto simp: map_ok_def image_image)
qed (simp add: map_ok_def)

lemma map_ok_erase [simp, intro]: "map_ok m \<Longrightarrow> map_ok (map_erase k m)"
  by (induction m) (auto simp: map_ok_def map_erase_def)

lemma keys_map_assign [simp]: "map fst (map_assign k v m) = map fst m"
  by (induction m) (auto simp: map_assign_def)

lemma map_ok_assign [simp, intro]: "map_ok m \<Longrightarrow> map_ok (map_assign k v m)"
  by (simp add: map_ok_def)

lemma map_ok_distinct: "map_ok m \<Longrightarrow> distinct (map fst m)"
  by (simp add: map_ok_def strict_sorted_iff)

lemma map_of_insert:
  "map_ok m \<Longrightarrow> map_of (map_insert k v m) = (if k \<in> dom (map_of m) then map_of m else (map_of m)(k \<mapsto> v))"
proof (induction k v m rule: map_insert.induct)
  case (2 k v k' v' m)
  have "k < k' \<Longrightarrow> map_of m k = None"
    using 2(2) by (auto simp: map_ok_def map_of_eq_None_iff dest: less_asym)
  then show ?case using 2 by (auto simp: map_ok_def domIff fun_eq_iff)
qed (simp add: fun_eq_iff)

lemma map_of_erase [simp]: "map_of (map_erase k m) = (map_of m)(k := None)"
  by (induction m) (auto simp: map_erase_def fun_eq_iff)

lemma map_of_assign:
  "map_of (map_assign k v m) = (if k \<in> dom (map_of m) then (map_of m)(k \<mapsto> v) else map_of m)"
  by (induction m) (auto simp: map_assign_def fun_eq_iff)

lemma map_of_put [simp]: "map_ok m \<Longrightarrow> map_of (map_put k v m) = (map_of m)(k \<mapsto> v)"
  by (simp add: map_put_def map_of_insert)

lemma map_ok_put [simp, intro]: "map_ok m \<Longrightarrow> map_ok (map_put k v m)"
  by (simp add: map_put_def)

lemma keys_map_erase [simp]: "fst ` set (map_erase k m) = fst ` set m - {k}"
  by (force simp: map_erase_def)

lemma keys_map_put [simp]: "fst ` set (map_put k v m) = insert k (fst ` set m)"
  by (auto simp: map_put_def keys_map_insert)

text \<open>A map is determined by what its lookups return.\<close>

lemma map_ok_ext: "map_ok m \<Longrightarrow> map_ok m' \<Longrightarrow> map_of m = map_of m' \<Longrightarrow> m = m'"
proof -
  assume ok: "map_ok m" "map_ok m'" and eq: "map_of m = map_of m'"
  have s: "set m = set m'"
    using eq map_of_eq_Some_iff[OF map_ok_distinct[OF ok(1)]] map_of_eq_Some_iff[OF map_ok_distinct[OF ok(2)]]
    by auto
  then have "map fst m = map fst m'"
    using ok by (intro strict_sorted_equal) (auto simp: map_ok_def)
  then show "m = m'" using s ok by (metis map_ok_distinct map_sorted_distinct_set_unique inj_on_def distinct_map list.inj_map_strong)
qed

section \<open>std::multimap\<close>

fun mm_insert :: "int \<Rightarrow> 'i \<Rightarrow> (int \<times> 'i) list \<Rightarrow> (int \<times> 'i) list" where
  "mm_insert t i [] = [(t, i)]"
| "mm_insert t i ((t', i') # s) = (if t < t' then (t, i) # (t', i') # s else (t', i') # mm_insert t i s)"

definition mm_erase_id :: "'i \<Rightarrow> (int \<times> 'i) list \<Rightarrow> (int \<times> 'i) list" where
  "mm_erase_id i s = filter (\<lambda>(t, i'). i' \<noteq> i) s"

definition mm_first :: "(int \<times> 'i) list \<Rightarrow> (int \<times> 'i) option" where
  "mm_first s = (case s of [] \<Rightarrow> None | e # _ \<Rightarrow> Some e)"

definition mm_ok :: "(int \<times> 'i) list \<Rightarrow> bool" where
  "mm_ok s = sorted (map fst s)"

lemma mset_mm_insert [simp]: "mset (mm_insert t i s) = add_mset (t, i) (mset s)"
  by (induction t i s rule: mm_insert.induct) auto

lemma set_mm_insert [simp]: "set (mm_insert t i s) = insert (t, i) (set s)"
  by (induction t i s rule: mm_insert.induct) auto

lemma mm_ok_insert [simp, intro]: "mm_ok s \<Longrightarrow> mm_ok (mm_insert t i s)"
  by (induction t i s rule: mm_insert.induct) (auto simp: mm_ok_def)

lemma mm_ok_erase [simp, intro]: "mm_ok s \<Longrightarrow> mm_ok (mm_erase_id i s)"
  by (auto simp: mm_ok_def mm_erase_id_def sorted_filter)

section \<open>The contract of a timetable\<close>

locale timetable =
  fixes ins :: "int \<Rightarrow> 'i \<Rightarrow> 's \<Rightarrow> 's" and erase_id :: "'i \<Rightarrow> 's \<Rightarrow> 's"
    and first :: "'s \<Rightarrow> (int \<times> 'i) option" and pop :: "'s \<Rightarrow> 's"
    and entries :: "'s \<Rightarrow> (int \<times> 'i) multiset" and ok :: "'s \<Rightarrow> bool"
  assumes ins: "ok s \<Longrightarrow> ok (ins t i s)" "entries (ins t i s) = add_mset (t, i) (entries s)"
    and erase_id: "ok s \<Longrightarrow> ok (erase_id i s)" "entries (erase_id i s) = filter_mset (\<lambda>e. snd e \<noteq> i) (entries s)"
    and first_None: "first s = None \<longleftrightarrow> entries s = {#}"
    and first_Some: "ok s \<Longrightarrow> first s = Some e \<Longrightarrow> e \<in># entries s \<and> (\<forall>e'\<in>#entries s. fst e \<le> fst e')"
    and pop: "ok s \<Longrightarrow> ok (pop s)" "first s = Some e \<Longrightarrow> entries (pop s) = entries s - {#e#}"
begin

text \<open>The entries that lie before a point in time, and their number.\<close>

definition due :: "int \<Rightarrow> 's \<Rightarrow> (int \<times> 'i) multiset" where
  "due now s = filter_mset (\<lambda>e. fst e < now) (entries s)"

lemma due_none: "ok s \<Longrightarrow> first s = Some e \<Longrightarrow> \<not> fst e < now \<Longrightarrow> due now s = {#}"
  using first_Some[of s e] by (force simp: due_def)

lemma due_pop: "ok s \<Longrightarrow> first s = Some e \<Longrightarrow> fst e < now \<Longrightarrow> due now s = add_mset e (due now (pop s))"
  using first_Some[of s e] pop(2)[of s e] by (auto simp: due_def filter_diff_mset dest!: multi_member_split)

lemma due_pop_ins:
  "ok s \<Longrightarrow> first s = Some e \<Longrightarrow> fst e < now \<Longrightarrow> now \<le> t \<Longrightarrow> due now s = add_mset e (due now (ins t i (pop s)))"
  using due_pop[of s e now] by (simp add: due_def ins)

lemma due_first: "ok s \<Longrightarrow> due now s \<noteq> {#} \<Longrightarrow> \<exists>e. first s = Some e \<and> fst e < now"
  using due_none[of s _ now] first_None[of s] by (cases "first s") (auto simp: due_def)

end

interpretation mm: timetable mm_insert mm_erase_id mm_first tl mset mm_ok
proof
  fix s :: "(int \<times> 'a) list" and e
  show "mm_first s = None \<longleftrightarrow> mset s = {#}" by (cases s) (auto simp: mm_first_def)
  show "mm_ok s \<Longrightarrow> mm_first s = Some e \<Longrightarrow> e \<in># mset s \<and> (\<forall>e'\<in>#mset s. fst e \<le> fst e')"
    by (cases s) (auto simp: mm_first_def mm_ok_def)
  show "mm_ok s \<Longrightarrow> mm_ok (tl s)" by (cases s) (auto simp: mm_ok_def)
  show "mm_first s = Some e \<Longrightarrow> mset (tl s) = mset s - {#e#}" by (cases s) (auto simp: mm_first_def)
  show "mset (mm_erase_id i s) = filter_mset (\<lambda>e. snd e \<noteq> i) (mset s)" for i
    by (simp add: mm_erase_id_def split_beta)
qed auto

end
