(* ===== verification/Scheduler.thy ===== *)
theory Scheduler
  imports Scheduler_Record Std_Map Task_Queue
begin

text \<open>
  \<open>src/Scheduler/Scheduler.h\<close> and \<open>.cpp\<close>: the tasks of the clients, the timetable of the active ones,
  the task files that survive a restart, and the worker thread that hands due tasks to the task
  queue. Every public operation holds \<open>m_scheduledTasksMutex\<close> and is one step, and so is one pass of
  the inner loop of the worker, which holds it up to \<open>getNextWorkerCycleTime\<close>; between two passes
  other operations may come. Readings of the clock are the argument \<open>now\<close>.
\<close>

section \<open>State\<close>

datatype worker_pc = Waiting | Cycle | Finished

text \<open>
  \<open>task_files\<close> is the cache directory: file names with the document in the file, \<open>None\<close> for a file that
  does not parse or violates the schema. \<open>w_timePoint\<close> and \<open>w_pc\<close> are the local variable and the position of the worker.
\<close>

record ('j, 'c) scheduler =
  m_tasksMap :: "(string \<times> ('j, 'c) SchedulerRecord) list"
  m_scheduledTasksMap :: "(int \<times> string) list"
  task_files :: "(string \<times> 'j task_doc option) list"
  m_scheduledTaskPushed :: bool
  m_runTimerThread :: bool
  w_timePoint :: int
  w_pc :: worker_pc
  m_dpaTaskQueue :: "('j, 'c) SchedulerRecord task_queue"

section \<open>Task files and timetable\<close>

definition file_name :: "string \<Rightarrow> string" where
  "file_name taskId = taskId @ ''.json''"

definition writeTaskFile :: "('j, 'c) SchedulerRecord \<Rightarrow> ('j, 'c) scheduler \<Rightarrow> ('j, 'c) scheduler" where
  "writeTaskFile r s = s\<lparr>task_files := map_put (file_name (m_taskId r)) (Some (serialize r)) (task_files s)\<rparr>"

definition deleteTaskFile :: "string \<Rightarrow> ('j, 'c) scheduler \<Rightarrow> ('j, 'c) scheduler" where
  "deleteTaskFile taskId s = s\<lparr>task_files := map_erase (file_name taskId) (task_files s)\<rparr>"

definition scheduleTask ::
    "('c, 'z) time_lib_scheme \<Rightarrow> int \<Rightarrow> ('j, 'c) SchedulerRecord \<Rightarrow> ('j, 'c) scheduler \<Rightarrow>
     ('j, 'c) SchedulerRecord \<times> ('j, 'c) scheduler" where
  "scheduleTask L now r s =
     (let (next, r') = getNext L now now r
      in (r', s\<lparr>m_scheduledTasksMap := mm_insert next (m_taskId r') (m_scheduledTasksMap s)\<rparr>))"

definition unscheduleTask :: "string \<Rightarrow> ('j, 'c) scheduler \<Rightarrow> ('j, 'c) scheduler" where
  "unscheduleTask taskId s = s\<lparr>m_scheduledTasksMap := mm_erase_id taskId (m_scheduledTasksMap s)\<rparr>"

definition notifyWorker :: "('j, 'c) scheduler \<Rightarrow> ('j, 'c) scheduler" where
  "notifyWorker s = s\<lparr>m_scheduledTaskPushed := True\<rparr>"

text \<open>
  \<open>scheduleTask\<close> and \<open>setActive\<close> change the object the shared pointer refers to. It is the object in the map only when
  \<open>insert\<close> has put it there.
\<close>

definition addSchedulerTask ::
    "('c, 'z) time_lib_scheme \<Rightarrow> int \<Rightarrow> ('j, 'c) SchedulerRecord \<Rightarrow> bool \<Rightarrow> ('j, 'c) scheduler \<Rightarrow> ('j, 'c) scheduler" where
  "addSchedulerTask L now r start s =
     (let s = (if m_persist r then writeTaskFile r s else s);
          inserted = (map_of (m_tasksMap s) (m_taskId r) = None);
          s = s\<lparr>m_tasksMap := map_insert (m_taskId r) r (m_tasksMap s)\<rparr>
      in if start then
           (let (r', s) = scheduleTask L now r s; r' = r'\<lparr>m_active := True\<rparr>
            in if inserted then s\<lparr>m_tasksMap := map_assign (m_taskId r) r' (m_tasksMap s)\<rparr> else s)
         else s)"

definition removeSchedulerTask :: "('j, 'c) SchedulerRecord \<Rightarrow> ('j, 'c) scheduler \<Rightarrow> ('j, 'c) scheduler" where
  "removeSchedulerTask r s =
     (let s = unscheduleTask (m_taskId r) s;
          s = (if m_persist r then deleteTaskFile (m_taskId r) s else s)
      in s\<lparr>m_tasksMap := map_erase (m_taskId r) (m_tasksMap s)\<rparr>)"

section \<open>Queries\<close>

definition getTaskIds :: "string \<Rightarrow> ('j, 'c) scheduler \<Rightarrow> string list" where
  "getTaskIds clientId s = map (m_taskId \<circ> snd) (filter (\<lambda>(k, r). m_clientId r = clientId) (m_tasksMap s))"

definition getTasks :: "string \<Rightarrow> ('j, 'c) scheduler \<Rightarrow> ('j task_doc \<times> bool) list" where
  "getTasks clientId s =
     map (\<lambda>(k, r). (serialize r, m_active r)) (filter (\<lambda>(k, r). m_clientId r = clientId) (m_tasksMap s))"

definition find_task :: "string \<Rightarrow> string \<Rightarrow> ('j, 'c) scheduler \<Rightarrow> ('j, 'c) SchedulerRecord option" where
  "find_task clientId taskId s =
     (case map_of (m_tasksMap s) taskId of
        None \<Rightarrow> None
      | Some r \<Rightarrow> if clientId \<noteq> m_clientId r then None else Some r)"

definition getTaskDocument :: "string \<Rightarrow> string \<Rightarrow> ('j, 'c) scheduler \<Rightarrow> 'j task_doc result" where
  "getTaskDocument clientId taskId s =
     (case find_task clientId taskId s of
        None \<Rightarrow> Inl (LogicError ''Client or task ID does not exist.'')
      | Some r \<Rightarrow> Inr (serialize r))"

definition getTask :: "string \<Rightarrow> string \<Rightarrow> ('j, 'c) scheduler \<Rightarrow> 'j option" where
  "getTask clientId taskId s = map_option m_task (find_task clientId taskId s)"

definition getTaskTimeSpec :: "string \<Rightarrow> string \<Rightarrow> ('j, 'c) scheduler \<Rightarrow> timeSpec option" where
  "getTaskTimeSpec clientId taskId s = map_option m_timeSpec (find_task clientId taskId s)"

definition isTaskPersistent :: "string \<Rightarrow> string \<Rightarrow> ('j, 'c) scheduler \<Rightarrow> bool" where
  "isTaskPersistent clientId taskId s = (case find_task clientId taskId s of None \<Rightarrow> False | Some r \<Rightarrow> m_persist r)"

definition isStartupTask :: "string \<Rightarrow> string \<Rightarrow> ('j, 'c) scheduler \<Rightarrow> bool" where
  "isStartupTask clientId taskId s = (case find_task clientId taskId s of None \<Rightarrow> False | Some r \<Rightarrow> m_enabled r)"

definition isTaskActive :: "string \<Rightarrow> string \<Rightarrow> ('j, 'c) scheduler \<Rightarrow> bool" where
  "isTaskActive clientId taskId s = (case find_task clientId taskId s of None \<Rightarrow> False | Some r \<Rightarrow> m_active r)"

section \<open>Operations of the clients\<close>

text \<open>The list holds the random identifiers as the generator yields them; \<open>None\<close> when all of them are in use.\<close>

fun generateTaskId :: "string list \<Rightarrow> ('j, 'c) scheduler \<Rightarrow> string option" where
  "generateTaskId [] s = None"
| "generateTaskId (uuid # uuids) s =
     (if getTask ''SchedulerMessaging'' uuid s \<noteq> None then generateTaskId uuids s else Some uuid)"

definition nil_uuid :: string where
  "nil_uuid = ''00000000-0000-0000-0000-000000000000''"

definition getTaskHandle :: "string list \<Rightarrow> string \<Rightarrow> ('j, 'c) scheduler \<Rightarrow> string option" where
  "getTaskHandle uuids taskId s = (if taskId = nil_uuid then generateTaskId uuids s else Some taskId)"

definition scheduleInternalTask ::
    "('c, 'z) time_lib_scheme \<Rightarrow> int \<Rightarrow> string \<Rightarrow> string \<Rightarrow> 'j \<Rightarrow> int \<Rightarrow> bool \<Rightarrow> bool \<Rightarrow> ('j, 'c) scheduler \<Rightarrow>
     (('j, 'c) scheduler \<times> string) result" where
  "scheduleInternalTask L now clientId taskId task tp persist enabled s =
     bind_r (new_timepoint L clientId taskId task tp persist enabled) (\<lambda>r.
       Inr (notifyWorker (addSchedulerTask L now r enabled s), m_taskId r))"

text \<open>The record \<open>addTask\<close> builds for a time specification and a task id.\<close>

definition new_record ::
    "('c, 'z) time_lib_scheme \<Rightarrow> string \<Rightarrow> string \<Rightarrow> 'j \<Rightarrow> timeSpec \<Rightarrow> bool \<Rightarrow> bool \<Rightarrow> ('j, 'c) SchedulerRecord result" where
  "new_record L clientId taskId task ts persist enabled =
     (if periodic ts then
        bind_r (GetUint (period ts)) (\<lambda>p. new_periodic L clientId taskId task p persist enabled)
      else if exactTime ts then new_oneshot L clientId taskId task (startTime ts) persist enabled
      else
        (case cronTime ts of
           CronArray xs \<Rightarrow> bind_r (cron_fields xs) (\<lambda>cron. new_cron L clientId taskId task [] cron persist enabled)
         | CronString cs \<Rightarrow> new_cron L clientId taskId task cs (replicate 7 []) persist enabled))"

definition addTask ::
    "('c, 'z) time_lib_scheme \<Rightarrow> string list \<Rightarrow> int \<Rightarrow> string \<Rightarrow> string \<Rightarrow> string \<Rightarrow> 'j \<Rightarrow> timeSpec \<Rightarrow> bool \<Rightarrow> bool \<Rightarrow>
     ('j, 'c) scheduler \<Rightarrow> (('j, 'c) scheduler \<times> string) result option" where
  "addTask L uuids now clientId taskId description task ts persist enabled s =
     map_option (\<lambda>tid.
       bind_r (new_record L clientId tid task ts persist enabled) (\<lambda>r.
         let r = r\<lparr>m_description := description\<rparr>
         in Inr (notifyWorker (addSchedulerTask L now r enabled s), m_taskId r)))
       (getTaskHandle uuids taskId s)"

text \<open>The record \<open>editTask\<close> puts in place of \<open>old\<close>, and whether the task has to be reloaded.\<close>

definition edited_record ::
    "('c, 'z) time_lib_scheme \<Rightarrow> ('j, 'c) SchedulerRecord \<Rightarrow> string \<Rightarrow> string \<Rightarrow> string \<Rightarrow> 'j \<Rightarrow> timeSpec \<Rightarrow> bool \<Rightarrow> bool \<Rightarrow>
     (('j, 'c) SchedulerRecord \<times> bool) result" where
  "edited_record L old taskId newTaskId description task ts persist enabled =
     (let r = copy_record old; reload = (taskId \<noteq> newTaskId);
          r = (if taskId \<noteq> newTaskId then r\<lparr>m_taskId := newTaskId\<rparr> else r);
          r = r\<lparr>m_task := task\<rparr>
      in bind_r (if ts \<noteq> m_timeSpec r then setTimeSpec L ts r else Inr r) (\<lambda>r'.
           Inr (copy_record (r'\<lparr>m_description := description, m_persist := persist, m_enabled := enabled\<rparr>),
                reload \<or> ts \<noteq> m_timeSpec r)))"

definition editTask ::
    "('c, 'z) time_lib_scheme \<Rightarrow> int \<Rightarrow> string \<Rightarrow> string \<Rightarrow> string \<Rightarrow> string \<Rightarrow> 'j \<Rightarrow> timeSpec \<Rightarrow> bool \<Rightarrow> bool \<Rightarrow>
     ('j, 'c) scheduler \<Rightarrow> (('j, 'c) scheduler \<times> string) result" where
  "editTask L now clientId taskId newTaskId description task ts persist enabled s =
     (case find_task clientId taskId s of
        None \<Rightarrow> Inl (LogicError ''Client or task ID does not exist.'')
      | Some old \<Rightarrow>
          bind_r (edited_record L old taskId newTaskId description task ts persist enabled) (\<lambda>(r, reload).
            Inr (if reload then notifyWorker (addSchedulerTask L now r (m_active r) (removeSchedulerTask old s))
                 else
                   (let s = (if persist then writeTaskFile r s
                             else if m_persist old then deleteTaskFile taskId s else s)
                    in s\<lparr>m_tasksMap := map_assign taskId r (m_tasksMap s)\<rparr>),
                 m_taskId r)))"

definition changeTaskState ::
    "('c, 'z) time_lib_scheme \<Rightarrow> int \<Rightarrow> string \<Rightarrow> string \<Rightarrow> bool \<Rightarrow> ('j, 'c) scheduler \<Rightarrow> ('j, 'c) scheduler result" where
  "changeTaskState L now clientId taskId active s =
     (case find_task clientId taskId s of
        None \<Rightarrow> Inl (LogicError ''Client or task ID does not exist.'')
      | Some r \<Rightarrow>
          if m_active r = active then Inr s
          else
            (let (r, s) = (if active then scheduleTask L now r s else (r, unscheduleTask taskId s))
             in Inr (notifyWorker (s\<lparr>m_tasksMap := map_assign taskId (r\<lparr>m_active := active\<rparr>) (m_tasksMap s)\<rparr>))))"

text \<open>
  \<open>removeAllTasks\<close>: the list is what the iterator has still to visit. When the task at the iterator belongs to
  another client the iterator is advanced, and then the code goes on to remove the task it refers to.
\<close>

definition remove_at :: "string \<times> ('j, 'c) SchedulerRecord \<Rightarrow> ('j, 'c) scheduler \<Rightarrow> ('j, 'c) scheduler" where
  "remove_at kr s =
     (let s = unscheduleTask (m_taskId (snd kr)) s;
          s = (if m_persist (snd kr) then deleteTaskFile (m_taskId (snd kr)) s else s)
      in s\<lparr>m_tasksMap := map_erase (fst kr) (m_tasksMap s)\<rparr>)"

fun removeAllTasks_loop ::
    "string \<Rightarrow> (string \<times> ('j, 'c) SchedulerRecord) list \<Rightarrow> ('j, 'c) scheduler \<Rightarrow> ('j, 'c) scheduler result" where
  "removeAllTasks_loop clientId [] s = Inr s"
| "removeAllTasks_loop clientId ((k, r) # rest) s =
     (if m_clientId r \<noteq> clientId then
        (case rest of
           [] \<Rightarrow> Inl (UB ''dereference of end()'')
         | kr # rest' \<Rightarrow> removeAllTasks_loop clientId rest' (remove_at kr s))
      else removeAllTasks_loop clientId rest (remove_at (k, r) s))"

definition removeAllTasks :: "string \<Rightarrow> ('j, 'c) scheduler \<Rightarrow> ('j, 'c) scheduler result" where
  "removeAllTasks clientId s =
     bind_r (removeAllTasks_loop clientId (m_tasksMap s) s) (\<lambda>s. Inr (notifyWorker s))"

definition remove_if_found :: "string \<Rightarrow> string \<Rightarrow> ('j, 'c) scheduler \<Rightarrow> ('j, 'c) scheduler" where
  "remove_if_found clientId taskId s =
     (case find_task clientId taskId s of None \<Rightarrow> s | Some r \<Rightarrow> removeSchedulerTask r s)"

definition removeTask :: "string \<Rightarrow> string \<Rightarrow> ('j, 'c) scheduler \<Rightarrow> ('j, 'c) scheduler" where
  "removeTask clientId taskId s = notifyWorker (remove_if_found clientId taskId s)"

definition removeTasks :: "string \<Rightarrow> string list \<Rightarrow> ('j, 'c) scheduler \<Rightarrow> ('j, 'c) scheduler" where
  "removeTasks clientId taskIds s = notifyWorker (fold (remove_if_found clientId) taskIds s)"

section \<open>Worker thread\<close>

text \<open>The wait ends when the flag is set or the clock has reached \<open>timePoint\<close>.\<close>

definition worker_wake :: "int \<Rightarrow> ('j, 'c) scheduler \<Rightarrow> ('j, 'c) scheduler option" where
  "worker_wake now s =
     (if w_pc s = Waiting \<and> (m_scheduledTaskPushed s \<or> w_timePoint s \<le> now)
      then Some (s\<lparr>m_scheduledTaskPushed := False, w_timePoint := now, w_pc := Cycle\<rparr>) else None)"

definition getNextWorkerCycleTime :: "('j, 'c) scheduler \<Rightarrow> ('j, 'c) scheduler" where
  "getNextWorkerCycleTime s =
     s\<lparr>w_timePoint := (case m_scheduledTasksMap s of [] \<Rightarrow> w_timePoint s + 10 * 10 ^ 9 | (t, _) # _ \<Rightarrow> t)\<rparr>"

text \<open>
  One pass of the inner loop. \<open>m_tasksMap[\<dots>]\<close> of an absent task would put a null pointer into the map, which
  \<open>record->getNext\<close> dereferences. The queue receives a copy of the record.
\<close>

definition worker_cycle :: "('c, 'z) time_lib_scheme \<Rightarrow> int \<Rightarrow> ('j, 'c) scheduler \<Rightarrow> ('j, 'c) scheduler result" where
  "worker_cycle L now s =
     (case m_scheduledTasksMap s of
        [] \<Rightarrow> Inr ((getNextWorkerCycleTime s)\<lparr>w_pc := Waiting\<rparr>)
      | (t, tid) # rest \<Rightarrow>
          (case map_of (m_tasksMap s) tid of
             None \<Rightarrow> Inl (UB ''null pointer'')
           | Some r \<Rightarrow>
               if t < w_timePoint s then
                 (let (next, r) = getNext L now (w_timePoint s) r;
                      s' = s\<lparr>m_scheduledTasksMap := rest, m_tasksMap := map_assign tid r (m_tasksMap s)\<rparr>;
                      s' = (if w_timePoint s \<le> next
                            then s'\<lparr>m_scheduledTasksMap := mm_insert next (m_taskId r) (m_scheduledTasksMap s')\<rparr>
                            else removeSchedulerTask r s');
                      s' = getNextWorkerCycleTime s'
                  in Inr (s'\<lparr>m_dpaTaskQueue := fst (pushToQueue (copy_record r) (m_dpaTaskQueue s'))\<rparr>))
               else Inr ((getNextWorkerCycleTime s)\<lparr>w_pc := Waiting\<rparr>)))"

section \<open>Life cycle\<close>

text \<open>
  \<open>loadCache\<close>: files that cannot be read are skipped; an exception of the constructor leaves the whole loop,
  because the handler is outside of it.
\<close>

definition load_record ::
    "('c, 'z) time_lib_scheme \<Rightarrow> int \<Rightarrow> ('j, 'c) SchedulerRecord \<Rightarrow> ('j, 'c) scheduler \<Rightarrow> ('j, 'c) scheduler" where
  "load_record L now r s =
     (if map_of (m_tasksMap s) (m_taskId r) \<noteq> None then s
      else
        (let s = s\<lparr>m_tasksMap := map_insert (m_taskId r) r (m_tasksMap s)\<rparr>
         in if m_enabled r then
              (let (r', s) = scheduleTask L now r s
               in s\<lparr>m_tasksMap := map_assign (m_taskId r) (r'\<lparr>m_active := True\<rparr>) (m_tasksMap s)\<rparr>)
            else s))"

fun loadCache_loop ::
    "('c, 'z) time_lib_scheme \<Rightarrow> int \<Rightarrow> 'j task_doc option list \<Rightarrow> ('j, 'c) scheduler \<Rightarrow> ('j, 'c) scheduler" where
  "loadCache_loop L now [] s = s"
| "loadCache_loop L now (None # fs) s = loadCache_loop L now fs s"
| "loadCache_loop L now (Some d # fs) s =
     (case new_document L d of
        Inl _ \<Rightarrow> s
      | Inr r \<Rightarrow> loadCache_loop L now fs (load_record L now (r\<lparr>m_persist := True\<rparr>) s))"

definition loadCache :: "('c, 'z) time_lib_scheme \<Rightarrow> int \<Rightarrow> ('j, 'c) scheduler \<Rightarrow> ('j, 'c) scheduler" where
  "loadCache L now s = loadCache_loop L now (map snd (task_files s)) s"

definition activate ::
    "('c, 'z) time_lib_scheme \<Rightarrow> int \<Rightarrow> (string \<times> 'j task_doc option) list \<Rightarrow> ('j, 'c) scheduler" where
  "activate L now files =
     (loadCache L now
       \<lparr>m_tasksMap = [], m_scheduledTasksMap = [], task_files = files, m_scheduledTaskPushed = False,
        m_runTimerThread = False, w_timePoint = now, w_pc = Waiting, m_dpaTaskQueue = new_TaskQueue\<rparr>)
     \<lparr>m_runTimerThread := True\<rparr>"

definition deactivate :: "('j, 'c) scheduler \<Rightarrow> ('j, 'c) scheduler" where
  "deactivate s =
     s\<lparr>m_runTimerThread := False, m_scheduledTaskPushed := True, m_dpaTaskQueue := stopQueue (m_dpaTaskQueue s),
       w_pc := Finished\<rparr>"

text \<open>The files of the cache directory that hold tasks: regular, not hidden, with the extension \<open>.json\<close>, in the order of their names.\<close>

definition is_task_file :: "string \<times> bool \<Rightarrow> bool" where
  "is_task_file e = (fst e \<noteq> [] \<and> hd (fst e) \<noteq> CHR ''.'' \<and> snd e \<and>
     5 \<le> length (fst e) \<and> drop (length (fst e) - 5) (fst e) = ''.json'')"

definition getTaskFiles :: "(string \<times> bool) list \<Rightarrow> string list" where
  "getTaskFiles entries = sort (remdups (map fst (filter is_task_file entries)))"

section \<open>Handlers of the clients\<close>

text \<open>
  \<open>m_messageHandlers\<close> has its own mutex. The task queue calls \<open>handleScheduledRecord\<close>, which yields the handler to call and its argument;
  an exception of the handler is caught.
\<close>

definition registerTaskHandler :: "string \<Rightarrow> 'h \<Rightarrow> (string \<times> 'h) list \<Rightarrow> (string \<times> 'h) list" where
  "registerTaskHandler clientId f handlers = map_insert clientId f handlers"

definition unregisterTaskHandler :: "string \<Rightarrow> (string \<times> 'h) list \<Rightarrow> (string \<times> 'h) list" where
  "unregisterTaskHandler clientId handlers = map_erase clientId handlers"

definition handleScheduledRecord :: "(string \<times> 'h) list \<Rightarrow> ('j, 'c) SchedulerRecord \<Rightarrow> ('h \<times> 'j) option" where
  "handleScheduledRecord handlers r = map_option (\<lambda>f. (f, m_task r)) (map_of handlers (m_clientId r))"

lemma handler_called:
  assumes "map_ok handlers" "map_of handlers c = None"
  shows "handleScheduledRecord (registerTaskHandler c f handlers) r =
      (if m_clientId r = c then Some (f, m_task r) else handleScheduledRecord handlers r)"
    "m_clientId r = c \<Longrightarrow> handleScheduledRecord (unregisterTaskHandler c handlers) r = None"
  using assms by (auto simp: handleScheduledRecord_def registerTaskHandler_def unregisterTaskHandler_def map_of_insert domIff)

lemma task_file_recognised: "k \<noteq> [] \<Longrightarrow> hd k \<noteq> CHR ''.'' \<Longrightarrow> is_task_file (file_name k, True)"
  by (simp add: is_task_file_def file_name_def)

section \<open>Steps\<close>

text \<open>
  The interleavings of the clients, the worker and the task queue, as long as a task that is added or renamed gets
  an identifier not in use.
\<close>

inductive sched_step :: "('c, 'z) time_lib_scheme \<Rightarrow> ('j, 'c) scheduler \<Rightarrow> ('j, 'c) scheduler \<Rightarrow> bool"
  for L where
  add: "addTask L uuids now clientId taskId description task ts persist enabled s = Some (Inr (s', tid)) \<Longrightarrow>
    map_of (m_tasksMap s) tid = None \<Longrightarrow> sched_step L s s'"
| internal: "scheduleInternalTask L now clientId taskId task tp persist enabled s = Inr (s', tid) \<Longrightarrow>
    map_of (m_tasksMap s) tid = None \<Longrightarrow> sched_step L s s'"
| edit: "editTask L now clientId taskId newTaskId description task ts persist enabled s = Inr (s', tid) \<Longrightarrow>
    newTaskId = taskId \<or> map_of (m_tasksMap s) newTaskId = None \<Longrightarrow> sched_step L s s'"
| change: "changeTaskState L now clientId taskId active s = Inr s' \<Longrightarrow> sched_step L s s'"
| remove_all: "removeAllTasks clientId s = Inr s' \<Longrightarrow> sched_step L s s'"
| remove: "sched_step L s (removeTask clientId taskId s)"
| remove_list: "sched_step L s (removeTasks clientId taskIds s)"
| wake: "worker_wake now s = Some s' \<Longrightarrow> sched_step L s s'"
| cycle: "w_pc s = Cycle \<Longrightarrow> worker_cycle L now s = Inr s' \<Longrightarrow> sched_step L s s'"
| queue: "sched_step L s (s\<lparr>m_dpaTaskQueue := q\<rparr>)"

section \<open>Invariant\<close>

definition entries_of :: "string \<Rightarrow> (int \<times> string) list \<Rightarrow> nat" where
  "entries_of k t = length (filter (\<lambda>e. snd e = k) t)"

definition active_in :: "(string \<times> ('j, 'c) SchedulerRecord) list \<Rightarrow> string \<Rightarrow> bool" where
  "active_in m k = (case map_of m k of None \<Rightarrow> False | Some r \<Rightarrow> m_active r)"

definition file_of :: "(string \<times> ('j, 'c) SchedulerRecord) list \<Rightarrow> string \<Rightarrow> 'j task_doc option option" where
  "file_of m k = (case map_of m k of None \<Rightarrow> None | Some r \<Rightarrow> if m_persist r then Some (Some (serialize r)) else None)"

text \<open>
  The tasks are stored under their identifiers; exactly the active ones have an entry in the timetable, one each; exactly the
  persistent ones have a file, with their current data.
\<close>

definition core_inv :: "('j, 'c) scheduler \<Rightarrow> bool" where
  "core_inv s \<longleftrightarrow> map_ok (m_tasksMap s) \<and> mm_ok (m_scheduledTasksMap s) \<and>
     (\<forall>k r. map_of (m_tasksMap s) k = Some r \<longrightarrow> m_taskId r = k) \<and>
     (\<forall>k. entries_of k (m_scheduledTasksMap s) = (if active_in (m_tasksMap s) k then 1 else 0))"

definition files_inv :: "('j, 'c) scheduler \<Rightarrow> bool" where
  "files_inv s \<longleftrightarrow> map_ok (task_files s) \<and> fst ` set (task_files s) \<subseteq> range file_name \<and>
     (\<forall>k. map_of (task_files s) (file_name k) = file_of (m_tasksMap s) k)"

definition sched_inv :: "('j, 'c) scheduler \<Rightarrow> bool" where
  "sched_inv s \<longleftrightarrow> core_inv s \<and> files_inv s"

lemmas sched_inv_defs = sched_inv_def core_inv_def files_inv_def

lemma entries_of_simps [simp]:
  "entries_of k [] = 0"
  "entries_of k ((t, i) # es) = (if i = k then Suc (entries_of k es) else entries_of k es)"
  "entries_of k (mm_insert t i es) = (if i = k then Suc (entries_of k es) else entries_of k es)"
  "entries_of k (mm_erase_id i es) = (if i = k then 0 else entries_of k es)"
proof -
  show "entries_of k (mm_insert t i es) = (if i = k then Suc (entries_of k es) else entries_of k es)"
    by (induction t i es rule: mm_insert.induct) (auto simp: entries_of_def)
  show "entries_of k (mm_erase_id i es) = (if i = k then 0 else entries_of k es)"
    by (induction es) (auto simp: entries_of_def mm_erase_id_def)
qed (simp_all add: entries_of_def)

lemma file_name_inj [simp]: "file_name k = file_name k' \<longleftrightarrow> k = k'"
  by (simp add: file_name_def)

lemma getNext_frame:
  "m_taskId (snd (getNext L now t r)) = m_taskId r" "m_active (snd (getNext L now t r)) = m_active r"
  "m_persist (snd (getNext L now t r)) = m_persist r" "m_clientId (snd (getNext L now t r)) = m_clientId r"
  "serialize (snd (getNext L now t r)) = serialize r"
  by (simp_all add: getNext_def serialize_def)

lemma serialize_active [simp]: "serialize (r\<lparr>m_active := b\<rparr>) = serialize r"
  by (simp add: serialize_def)

lemma find_task_Some: "find_task clientId k s = Some r \<longleftrightarrow> map_of (m_tasksMap s) k = Some r \<and> m_clientId r = clientId"
  by (auto simp: find_task_def split: option.splits)

lemmas sched_ops = addSchedulerTask_def removeSchedulerTask_def writeTaskFile_def deleteTaskFile_def scheduleTask_def
  unscheduleTask_def notifyWorker_def Let_def split_beta

lemma inv_frame:
  assumes "sched_inv s" "m_tasksMap s' = m_tasksMap s" "m_scheduledTasksMap s' = m_scheduledTasksMap s"
    "task_files s' = task_files s"
  shows "sched_inv s'"
  using assms by (simp add: sched_inv_defs)

lemma inv_notify [simp]: "sched_inv (notifyWorker s) = sched_inv s"
  by (simp add: sched_inv_defs notifyWorker_def)

lemma inv_add:
  assumes "sched_inv s" "map_of (m_tasksMap s) (m_taskId r) = None" "m_active r \<longrightarrow> start"
  shows "sched_inv (addSchedulerTask L now r start s)"
  using assms
  by (auto simp: sched_inv_defs sched_ops map_of_insert map_of_assign getNext_frame active_in_def file_of_def domIff)

lemma inv_remove:
  assumes "sched_inv s" "map_of (m_tasksMap s) k = Some r0" "m_taskId r = k" "m_persist r = m_persist r0"
  shows "sched_inv (removeSchedulerTask r s)"
  using assms
  by (auto simp: sched_inv_defs sched_ops active_in_def file_of_def)

lemma inv_init: "sched_inv (activate L now [])"
  by (simp add: activate_def loadCache_def sched_inv_defs map_ok_def mm_ok_def active_in_def file_of_def)

lemma inv_assign:
  assumes "sched_inv s" "map_of (m_tasksMap s) k = Some r0" "m_taskId r = k" "m_active r = m_active r0"
    "m_persist r = m_persist r0" "serialize r = serialize r0"
  shows "sched_inv (s\<lparr>m_tasksMap := map_assign k r (m_tasksMap s)\<rparr>)"
  using assms by (auto simp: sched_inv_defs map_of_assign active_in_def file_of_def domIff)

lemma new_record_frame:
  assumes "new_record L clientId tid task ts persist enabled = Inr r"
  shows "identity_of r = identity_of (record0 L clientId tid task persist enabled)"
  using assms
  by (auto simp: new_record_def new_periodic_def new_oneshot_def new_cron_def bind_r_eq_Inr
      split: if_splits cron_time.splits dest!: init_frame start_point_frame) (simp_all add: identity_of_def)

lemma new_record_facts:
  assumes "new_record L clientId tid task ts persist enabled = Inr r"
  shows "m_taskId r = tid" "m_clientId r = clientId" "\<not> m_active r" "m_persist r = persist" "m_enabled r = enabled"
  using new_record_frame[OF assms] by (simp_all add: identity_of_def record0_def)

lemma new_timepoint_facts:
  assumes "new_timepoint L clientId tid task tp persist enabled = Inr r"
  shows "m_taskId r = tid" "\<not> m_active r"
  using init_frame assms unfolding new_timepoint_def by (fastforce simp: identity_of_def record0_def)+

lemma edited_record_facts:
  assumes "edited_record L old taskId newTaskId description task ts persist enabled = Inr (r, reload)"
    and "m_taskId old = taskId"
  shows "m_taskId r = newTaskId" "m_active r = m_active old" "m_persist r = persist" "m_clientId r = m_clientId old"
    "\<not> reload \<Longrightarrow> newTaskId = taskId"
proof -
  define c where "c = (if taskId \<noteq> newTaskId then (copy_record old)\<lparr>m_taskId := newTaskId\<rparr> else copy_record old)\<lparr>m_task := task\<rparr>"
  obtain r' where "(if ts \<noteq> m_timeSpec c then setTimeSpec L ts c else Inr c) = Inr r'"
    and r: "r = copy_record (r'\<lparr>m_description := description, m_persist := persist, m_enabled := enabled\<rparr>)"
    and reload: "reload \<longleftrightarrow> taskId \<noteq> newTaskId \<or> ts \<noteq> m_timeSpec c"
    using assms(1) unfolding edited_record_def Let_def c_def[symmetric] by (auto simp: bind_r_eq_Inr)
  then have "identity_of r' = identity_of c" by (auto dest: setTimeSpec_frame split: if_splits)
  moreover have "identity_of (copy_record old) = identity_of old" by simp
  ultimately have f: "m_taskId r' = newTaskId" "m_active r' = m_active old" "m_clientId r' = m_clientId old"
    using assms(2) by (auto simp: identity_of_def c_def)
  have "identity_of r = identity_of (r'\<lparr>m_description := description, m_persist := persist, m_enabled := enabled\<rparr>)"
    using r by simp
  then show "m_taskId r = newTaskId" "m_active r = m_active old" "m_persist r = persist" "m_clientId r = m_clientId old"
    using f by (auto simp: identity_of_def)
  show "\<not> reload \<Longrightarrow> newTaskId = taskId" using reload by auto
qed

lemma remove_at_eq: "m_taskId r = k \<Longrightarrow> remove_at (k, r) s = removeSchedulerTask r s"
  by (auto simp: remove_at_def removeSchedulerTask_def Let_def)

lemma tasks_after_remove [simp]:
  "m_tasksMap (removeSchedulerTask r s) = map_erase (m_taskId r) (m_tasksMap s)"
  by (simp add: sched_ops)

lemma inv_edit:
  assumes inv: "sched_inv s" and r: "editTask L now clientId taskId newTaskId description task ts persist enabled s = Inr (s', tid)"
    and fresh: "newTaskId = taskId \<or> map_of (m_tasksMap s) newTaskId = None"
  shows "sched_inv s'"
proof -
  obtain old r reload where old: "map_of (m_tasksMap s) taskId = Some old"
    and e: "edited_record L old taskId newTaskId description task ts persist enabled = Inr (r, reload)"
    and s': "s' = (if reload then notifyWorker (addSchedulerTask L now r (m_active r) (removeSchedulerTask old s))
       else let s = (if persist then writeTaskFile r s else if m_persist old then deleteTaskFile taskId s else s)
            in s\<lparr>m_tasksMap := map_assign taskId r (m_tasksMap s)\<rparr>)"
    using r by (auto simp: editTask_def exc_simps find_task_Some split: option.splits)
  have id: "m_taskId old = taskId" using inv old by (simp add: sched_inv_defs)
  note f = edited_record_facts[OF e id]
  show ?thesis
  proof (cases reload)
    case True
    have "sched_inv (removeSchedulerTask old s)" using inv_remove[OF inv old id] by simp
    moreover have "map_of (m_tasksMap (removeSchedulerTask old s)) (m_taskId r) = None" using fresh f(1) id by auto
    ultimately show ?thesis using True s' by (simp add: inv_add del: map_of_erase)
  next
    case False
    then show ?thesis using s' inv old f
      by (auto simp: sched_inv_defs sched_ops map_of_assign active_in_def file_of_def domIff)
  qed
qed

lemma inv_change:
  assumes inv: "sched_inv s" and c: "changeTaskState L now clientId taskId active s = Inr s'"
  shows "sched_inv s'"
proof -
  obtain r where r: "map_of (m_tasksMap s) taskId = Some r" "find_task clientId taskId s = Some r" and id: "m_taskId r = taskId"
    using assms by (auto simp: changeTaskState_def find_task_Some sched_inv_defs split: option.splits)
  consider "m_active r = active" | "\<not> m_active r" active | "m_active r" "\<not> active" by auto
  then show ?thesis
  proof cases
    case 1
    then show ?thesis using c inv r by (simp add: changeTaskState_def)
  next
    case 2
    then have "s' = notifyWorker (s\<lparr>m_scheduledTasksMap := mm_insert (fst (getNext L now now r)) taskId (m_scheduledTasksMap s),
        m_tasksMap := map_assign taskId ((snd (getNext L now now r))\<lparr>m_active := True\<rparr>) (m_tasksMap s)\<rparr>)"
      using c r id by (simp add: changeTaskState_def sched_ops getNext_frame)
    then show ?thesis using inv r(1) id 2
      by (auto simp: sched_inv_defs map_of_assign active_in_def file_of_def domIff getNext_frame notifyWorker_def)
  next
    case 3
    then have "s' = notifyWorker (s\<lparr>m_scheduledTasksMap := mm_erase_id taskId (m_scheduledTasksMap s),
        m_tasksMap := map_assign taskId (r\<lparr>m_active := False\<rparr>) (m_tasksMap s)\<rparr>)"
      using c r id by (simp add: changeTaskState_def sched_ops)
    then show ?thesis using inv r(1) id 3
      by (auto simp: sched_inv_defs map_of_assign active_in_def file_of_def domIff notifyWorker_def)
  qed
qed

lemma inv_remove_all_loop:
  assumes "sched_inv s" "removeAllTasks_loop clientId krs s = Inr s'" "set krs \<subseteq> set (m_tasksMap s)" "distinct (map fst krs)"
  shows "sched_inv s'"
proof -
  have one: "sched_inv (remove_at (k, r) s) \<and> (\<forall>krs. set krs \<subseteq> set (m_tasksMap s) \<and> k \<notin> fst ` set krs
      \<longrightarrow> set krs \<subseteq> set (m_tasksMap (remove_at (k, r) s)))"
    if "sched_inv s" "(k, r) \<in> set (m_tasksMap s)" for k r and s :: "('j, 'c) scheduler"
  proof -
    have m: "map_of (m_tasksMap s) k = Some r"
      using that by (simp add: sched_inv_defs map_of_is_SomeI[OF map_ok_distinct])
    then have "m_taskId r = k" using that by (simp add: sched_inv_defs)
    then show ?thesis using inv_remove[OF that(1) m] by (force simp: remove_at_eq map_erase_def)
  qed
  show ?thesis using assms
  proof (induction clientId krs s rule: removeAllTasks_loop.induct)
    case (2 clientId k r rest s)
    show ?case
    proof (cases "m_clientId r = clientId")
      case True
      then show ?thesis using 2 one[of s k r] by auto
    next
      case False
      then obtain k2 r2 rest2 where "rest = (k2, r2) # rest2" using 2(4) by (auto split: list.splits)
      then show ?thesis using 2 one[of s k2 r2] False by auto
    qed
  qed simp
qed

lemma inv_remove_if: "sched_inv s \<Longrightarrow> sched_inv (remove_if_found clientId k s)"
proof (cases "find_task clientId k s")
  case (Some r)
  assume inv: "sched_inv s"
  have "map_of (m_tasksMap s) k = Some r" using Some by (simp add: find_task_Some)
  moreover have "m_taskId r = k" using calculation inv by (simp add: sched_inv_defs)
  ultimately show ?thesis using Some inv_remove[OF inv] by (simp add: remove_if_found_def)
qed (simp add: remove_if_found_def)

lemma inv_remove_list: "sched_inv s \<Longrightarrow> sched_inv (fold (remove_if_found clientId) ks s)"
  by (induction ks arbitrary: s) (simp_all add: inv_remove_if)

text \<open>A pass of the worker that runs a task, and one that does not.\<close>

lemma worker_cycle_idle:
  assumes "m_scheduledTasksMap s = [] \<or> (\<exists>t k rest r. m_scheduledTasksMap s = (t, k) # rest \<and>
      map_of (m_tasksMap s) k = Some r \<and> \<not> t < w_timePoint s)"
  shows "worker_cycle L now s = Inr ((getNextWorkerCycleTime s)\<lparr>w_pc := Waiting\<rparr>)"
  using assms by (auto simp: worker_cycle_def)

lemma worker_cycle_run:
  assumes "m_scheduledTasksMap s = (t, k) # rest" "map_of (m_tasksMap s) k = Some r" "m_taskId r = k" "t < w_timePoint s"
    and "getNext L now (w_timePoint s) r = (next, r')"
  shows "worker_cycle L now s =
     (let s1 = s\<lparr>m_scheduledTasksMap := rest, m_tasksMap := map_assign k r' (m_tasksMap s)\<rparr>;
          s2 = getNextWorkerCycleTime (if w_timePoint s \<le> next then s1\<lparr>m_scheduledTasksMap := mm_insert next k rest\<rparr>
                                       else removeSchedulerTask r' s1)
      in Inr (s2\<lparr>m_dpaTaskQueue := fst (pushToQueue (copy_record r') (m_dpaTaskQueue s))\<rparr>))"
proof -
  have "m_taskId r' = k" using assms(3,5) getNext_frame(1)[of L now "w_timePoint s" r] by simp
  then show ?thesis using assms
    by (auto simp: worker_cycle_def Let_def getNextWorkerCycleTime_def removeSchedulerTask_def unscheduleTask_def
        deleteTaskFile_def split: list.split)
qed

lemma worker_cycle_cases:
  assumes "sched_inv s" "worker_cycle L now s = Inr s'"
  obtains (idle) "s' = (getNextWorkerCycleTime s)\<lparr>w_pc := Waiting\<rparr>" "\<forall>e\<in>set (m_scheduledTasksMap s). \<not> fst e < w_timePoint s"
  | (run) t k rest r n r' where "m_scheduledTasksMap s = (t, k) # rest" "map_of (m_tasksMap s) k = Some r" "m_taskId r = k"
      "t < w_timePoint s" "getNext L now (w_timePoint s) r = (n, r')"
proof (cases "m_scheduledTasksMap s")
  case Nil
  then show thesis using assms(2) worker_cycle_idle[of s L now] by (intro idle) auto
next
  case (Cons e rest)
  obtain t k where e: "e = (t, k)" by fastforce
  obtain r where r: "map_of (m_tasksMap s) k = Some r" using assms(2) Cons e by (auto simp: worker_cycle_def split: option.splits)
  have id: "m_taskId r = k" using assms(1) r by (simp add: sched_inv_defs)
  show thesis
  proof (cases "t < w_timePoint s")
    case True
    then show thesis using run Cons e r id by (metis surj_pair)
  next
    case False
    then have "\<forall>e\<in>set (m_scheduledTasksMap s). \<not> fst e < w_timePoint s"
      using assms(1) Cons e by (auto simp: sched_inv_defs mm_ok_def)
    then show thesis using assms(2) worker_cycle_idle[of s L now] Cons e r False by (intro idle) auto
  qed
qed

lemma inv_cycle:
  assumes inv: "sched_inv s" and c: "worker_cycle L now s = Inr s'"
  shows "sched_inv s'"
  using inv c
proof (cases rule: worker_cycle_cases)
  case idle
  then show ?thesis using inv by (auto simp: getNextWorkerCycleTime_def intro: inv_frame)
next
  case (run t k rest r n r')
  have r': "m_taskId r' = k" "m_active r' = m_active r" "m_persist r' = m_persist r" "serialize r' = serialize r"
    using run(3,5) getNext_frame[of L now "w_timePoint s" r] by simp_all
  define s1 where "s1 = s\<lparr>m_tasksMap := map_assign k r' (m_tasksMap s)\<rparr>"
  have i1: "sched_inv s1" using inv_assign[OF inv run(2)] r' by (simp add: s1_def)
  have m1: "map_of (m_tasksMap s1) k = Some r'" using run(2) by (auto simp: s1_def map_of_assign)
  have ent: "entries_of k' ((t, k) # rest) = (if active_in (m_tasksMap s1) k' then 1 else 0)" for k'
  proof -
    have "m_scheduledTasksMap s1 = (t, k) # rest" using run(1) by (simp add: s1_def)
    then show ?thesis using i1 unfolding sched_inv_defs by metis
  qed
  have act: "m_active r'" using ent[of k] m1 by (simp add: active_in_def split: if_splits)
  have ok: "mm_ok rest" using inv run(1) by (auto simp: sched_inv_defs mm_ok_def)
  show ?thesis
  proof (cases "w_timePoint s \<le> n")
    case True
    have "m_tasksMap s' = m_tasksMap s1" "m_scheduledTasksMap s' = mm_insert n k rest" "task_files s' = task_files s1"
      using c worker_cycle_run[OF run] True by (auto simp: Let_def getNextWorkerCycleTime_def s1_def)
    then show ?thesis using i1 ent ok by (auto simp: sched_inv_defs)
  next
    case False
    have "s' = (getNextWorkerCycleTime (removeSchedulerTask r'
          (s\<lparr>m_scheduledTasksMap := rest, m_tasksMap := map_assign k r' (m_tasksMap s)\<rparr>)))
        \<lparr>m_dpaTaskQueue := fst (pushToQueue (copy_record r') (m_dpaTaskQueue s))\<rparr>"
      using c worker_cycle_run[OF run] False by (simp add: Let_def)
    moreover have "removeSchedulerTask r' (s\<lparr>m_scheduledTasksMap := rest, m_tasksMap := map_assign k r' (m_tasksMap s)\<rparr>)
        = removeSchedulerTask r' s1"
      using run(1) r'(1)
      by (simp add: s1_def removeSchedulerTask_def unscheduleTask_def deleteTaskFile_def Let_def mm_erase_id_def)
    ultimately have eq: "s' = (getNextWorkerCycleTime (removeSchedulerTask r' s1))
        \<lparr>m_dpaTaskQueue := fst (pushToQueue (copy_record r') (m_dpaTaskQueue s))\<rparr>" by simp
    then show ?thesis using eq inv_remove[OF i1 m1 r'(1)] by (auto simp: getNextWorkerCycleTime_def intro: inv_frame)
  qed
qed

lemma inv_step: "sched_step L s s' \<Longrightarrow> sched_inv s \<Longrightarrow> sched_inv s'"
proof (induction rule: sched_step.induct)
  case (add uuids now clientId taskId description task ts persist enabled s s' tid)
  then show ?case by (auto simp: addTask_def bind_r_eq_Inr Let_def new_record_facts(3) intro!: inv_add)
next
  case (internal now clientId taskId task tp persist enabled s s' tid)
  then show ?case by (auto simp: scheduleInternalTask_def bind_r_eq_Inr new_timepoint_facts(2) intro!: inv_add)
next
  case (remove_all clientId s s')
  have "distinct (map fst (m_tasksMap s))" using remove_all(2) by (simp add: sched_inv_defs map_ok_distinct)
  then show ?case using remove_all inv_remove_all_loop[of s clientId "m_tasksMap s"]
    by (auto simp: removeAllTasks_def bind_r_eq_Inr)
next
  case (wake now s s')
  then show ?case by (auto simp: worker_wake_def split: if_splits intro: inv_frame)
qed (auto simp: removeTask_def removeTasks_def intro: inv_edit inv_change inv_remove_if inv_remove_list inv_cycle
      intro: inv_frame)

text \<open>A scheduled task is stored, so the worker finds its record.\<close>

lemma scheduled_stored:
  assumes "sched_inv s" "(t, k) \<in> set (m_scheduledTasksMap s)"
  shows "\<exists>r. map_of (m_tasksMap s) k = Some r \<and> m_taskId r = k \<and> m_active r"
proof -
  have "entries_of k (m_scheduledTasksMap s) \<noteq> 0"
    using assms(2) by (auto simp: entries_of_def filter_empty_conv intro: bexI[of _ "(t, k)"])
  then have "active_in (m_tasksMap s) k" using assms(1) unfolding sched_inv_defs by metis
  then show ?thesis using assms(1) by (auto simp: sched_inv_defs active_in_def split: option.splits)
qed

lemma worker_cycle_ok: "sched_inv s \<Longrightarrow> ok_r (worker_cycle L now s)"
  using scheduled_stored[of s] by (fastforce simp: worker_cycle_def split_beta Let_def split: list.split option.split)

lemma inv_reachable:
  assumes "(sched_step L)\<^sup>*\<^sup>* (activate L now []) s"
  shows "sched_inv s"
  using assms by (induction rule: rtranclp_induct) (auto intro: inv_init inv_step)

end
