(* ===== verification/Scheduler_Run.thy ===== *)
theory Scheduler_Run
  imports Scheduler
begin

text \<open>
  What the worker of the scheduler does over time, what a restart restores, and where the scheduler does
  not do what its interface promises.
\<close>

section \<open>Rounds of the worker\<close>

text \<open>The inner loop with a bound on its passes; a round is a wake-up followed by the inner loop.\<close>

fun inner_loop :: "('c, 'z) time_lib_scheme \<Rightarrow> int \<Rightarrow> nat \<Rightarrow> ('j, 'c) scheduler \<Rightarrow> ('j, 'c) scheduler result" where
  "inner_loop L now 0 s = Inr s"
| "inner_loop L now (Suc n) s =
     (if w_pc s = Cycle then bind_r (worker_cycle L now s) (inner_loop L now n) else Inr s)"

definition worker_round :: "('c, 'z) time_lib_scheme \<Rightarrow> int \<Rightarrow> ('j, 'c) scheduler \<Rightarrow> ('j, 'c) scheduler result" where
  "worker_round L now s = (case worker_wake now s of None \<Rightarrow> Inr s | Some s' \<Rightarrow> inner_loop L now 2 s')"

fun worker_rounds :: "('c, 'z) time_lib_scheme \<Rightarrow> int \<Rightarrow> nat \<Rightarrow> ('j, 'c) scheduler \<Rightarrow> ('j, 'c) scheduler result" where
  "worker_rounds L now 0 s = Inr s"
| "worker_rounds L now (Suc n) s = bind_r (worker_round L now s) (worker_rounds L now n)"

text \<open>What the handler of the client gets to see of a task.\<close>

definition seen :: "('j, 'c) SchedulerRecord \<Rightarrow> string \<times> string \<times> 'j" where
  "seen r = (m_taskId r, m_clientId r, m_task r)"

definition seen_of :: "('j, 'c) scheduler \<Rightarrow> string \<Rightarrow> (string \<times> string \<times> 'j) option" where
  "seen_of s k = map_option seen (map_of (m_tasksMap s) k)"

definition pushed_of :: "('j, 'c) scheduler \<Rightarrow> (string \<times> string \<times> 'j) list" where
  "pushed_of s = map seen (pushes (m_dpaTaskQueue s))"

definition due_entries :: "int \<Rightarrow> ('j, 'c) scheduler \<Rightarrow> (int \<times> string) list" where
  "due_entries now s = filter (\<lambda>e. fst e < now) (m_scheduledTasksMap s)"

lemma seen_copy [simp]: "seen (copy_record r) = seen r"
  by (simp add: seen_def copy_record_def populateTimeSpec_def)

lemma seen_getNext [simp]: "seen (snd (getNext L now t r)) = seen r"
  by (simp add: seen_def getNext_def)

lemma filter_mm_insert:
  "mm_ok es \<Longrightarrow> now \<le> t \<Longrightarrow> filter (\<lambda>e. fst e < now) (mm_insert t k es) = filter (\<lambda>e. fst e < now) es"
  by (induction t k es rule: mm_insert.induct) (auto simp: mm_ok_def)

lemma due_head:
  assumes "mm_ok es" "filter (\<lambda>e. fst e < now) es = d # ds"
  shows "fst d < now" "\<exists>rest. es = d # rest"
proof -
  have "d \<in> set (filter (\<lambda>e. fst e < now) es)" using assms(2) by simp
  then show "fst d < now" by simp
  show "\<exists>rest. es = d # rest"
  proof (cases es)
    case (Cons e rest)
    have "fst e < now"
    proof (rule ccontr)
      assume "\<not> fst e < now"
      then have "filter (\<lambda>e. fst e < now) es = []"
        using assms(1) Cons mm.due_none[of es e now]
        by (auto simp: mm_first_def mm.due_def filter_empty_conv simp flip: mset_filter)
      then show False using assms(2) by simp
    qed
    then show ?thesis using assms(2) Cons by simp
  qed (use assms in simp)
qed

lemma after_remove:
  "m_scheduledTasksMap (removeSchedulerTask r s) = mm_erase_id (m_taskId r) (m_scheduledTasksMap s)"
  "w_timePoint (removeSchedulerTask r s) = w_timePoint s"
  "w_pc (removeSchedulerTask r s) = w_pc s" "m_dpaTaskQueue (removeSchedulerTask r s) = m_dpaTaskQueue s"
  "m_scheduledTaskPushed (removeSchedulerTask r s) = m_scheduledTaskPushed s"
  by (simp_all add: sched_ops)

text \<open>A pass in which the first entry is due.\<close>

lemma cycle_runs_first:
  assumes inv: "sched_inv s" and d: "due_entries (w_timePoint s) s = (t, k) # ds" and pc: "w_pc s = Cycle"
  shows "\<exists>s' x. worker_cycle L now s = Inr s' \<and> sched_inv s' \<and> w_pc s' = Cycle \<and> seen_of s k = Some x \<and>
    pushed_of s' = pushed_of s @ [x] \<and> due_entries (w_timePoint s) s' = ds \<and>
    (\<forall>k'\<in>snd ` set ds. seen_of s' k' = seen_of s k') \<and> m_scheduledTaskPushed s' = m_scheduledTaskPushed s \<and>
    (\<forall>e\<in>set (m_scheduledTasksMap s'). w_timePoint s' \<le> fst e)"
proof -
  have ok: "mm_ok (m_scheduledTasksMap s)" using inv by (simp add: sched_inv_defs)
  obtain rest where rest: "m_scheduledTasksMap s = (t, k) # rest"
    using due_head(2)[OF ok, of "w_timePoint s" "(t, k)" ds] d by (auto simp: due_entries_def)
  have t: "t < w_timePoint s" using due_head(1)[OF ok, of "w_timePoint s" "(t, k)" ds] d by (simp add: due_entries_def)
  obtain r where r: "map_of (m_tasksMap s) k = Some r" and id: "m_taskId r = k" and act: "m_active r"
    using scheduled_stored[OF inv, of t k] rest by auto
  obtain n r' where g: "getNext L now (w_timePoint s) r = (n, r')" by fastforce
  obtain s' where s': "worker_cycle L now s = Inr s'" using worker_cycle_ok[OF inv, of L now] by (auto simp: ok_r_def split: sum.splits)
  have inv': "sched_inv s'" by (rule inv_cycle[OF inv s'])
  have sr: "seen r' = seen r" using g seen_getNext[of L now "w_timePoint s" r] by simp
  have "m_taskId r' = k" using g id getNext_frame(1)[of L now "w_timePoint s" r] by simp
  have "entries_of k (m_scheduledTasksMap s) = 1" using inv r act by (simp add: sched_inv_defs active_in_def)
  then have none: "entries_of k rest = 0" using rest by simp
  then have er: "mm_erase_id k rest = rest" "k \<notin> snd ` set rest"
    by (auto simp: entries_of_def mm_erase_id_def filter_empty_conv filter_id_conv split_beta)
  note run = worker_cycle_run[OF rest r id t g] s'
  have sch: "m_scheduledTasksMap s' = (if w_timePoint s \<le> n then mm_insert n k rest else rest)"
    using run \<open>m_taskId r' = k\<close> er by (auto simp: Let_def getNextWorkerCycleTime_def after_remove)
  have tp: "w_timePoint s' = (case m_scheduledTasksMap s' of [] \<Rightarrow> w_timePoint s + 10 * 10 ^ 9 | (t, _) # _ \<Rightarrow> t)"
    using run by (auto simp: Let_def getNextWorkerCycleTime_def after_remove split: list.split)
  have tasks: "map_of (m_tasksMap s') k' = map_of (m_tasksMap s) k'" if "k' \<noteq> k" for k'
    using run that \<open>m_taskId r' = k\<close> by (auto simp: Let_def getNextWorkerCycleTime_def map_of_assign)
  have rest_facts: "w_pc s' = Cycle" "m_scheduledTaskPushed s' = m_scheduledTaskPushed s"
    "pushed_of s' = pushed_of s @ [seen r]"
    using run pc sr by (auto simp: Let_def getNextWorkerCycleTime_def after_remove pushed_of_def pushToQueue_def)
  have "mm_ok rest" using ok rest by (simp add: mm_ok_def)
  then have "due_entries (w_timePoint s) s' = ds"
    using sch d rest t by (auto simp: due_entries_def filter_mm_insert)
  moreover have "\<forall>k'\<in>snd ` set ds. seen_of s' k' = seen_of s k'"
  proof -
    have "set ds \<subseteq> set rest" using d rest t by (auto simp: due_entries_def)
    then have "k \<notin> snd ` set ds" using er(2) by blast
    then show ?thesis unfolding seen_of_def using tasks by metis
  qed
  moreover have "\<forall>e\<in>set (m_scheduledTasksMap s'). w_timePoint s' \<le> fst e"
    using inv' tp by (cases "m_scheduledTasksMap s'") (auto simp: sched_inv_defs mm_ok_def)
  ultimately show ?thesis using s' inv' rest_facts r by (auto simp: seen_of_def)
qed

text \<open>A pass in which no entry lies before the time of the worker.\<close>

lemma cycle_idle:
  assumes inv: "sched_inv s" and d: "\<forall>e\<in>set (m_scheduledTasksMap s). w_timePoint s \<le> fst e"
  shows "worker_cycle L now s = Inr ((getNextWorkerCycleTime s)\<lparr>w_pc := Waiting\<rparr>)"
proof (cases "m_scheduledTasksMap s")
  case (Cons e rest)
  then show ?thesis using scheduled_stored[OF inv, of "fst e" "snd e"] d
    by (intro worker_cycle_idle) (cases e; auto)
qed (simp add: worker_cycle_idle)

definition can_wake :: "int \<Rightarrow> ('j, 'c) scheduler \<Rightarrow> bool" where
  "can_wake now s \<longleftrightarrow> w_pc s = Waiting \<and> (m_scheduledTaskPushed s \<or> w_timePoint s \<le> now)"

definition woken :: "int \<Rightarrow> ('j, 'c) scheduler \<Rightarrow> ('j, 'c) scheduler" where
  "woken now s = s\<lparr>m_scheduledTaskPushed := False, w_timePoint := now, w_pc := Cycle\<rparr>"

lemma woken_facts:
  "sched_inv (woken now s) = sched_inv s" "w_timePoint (woken now s) = now" "w_pc (woken now s) = Cycle"
  "due_entries t (woken now s) = due_entries t s" "seen_of (woken now s) = seen_of s" "pushed_of (woken now s) = pushed_of s"
  "m_scheduledTasksMap (woken now s) = m_scheduledTasksMap s" "m_tasksMap (woken now s) = m_tasksMap s"
  by (simp_all add: woken_def sched_inv_defs due_entries_def seen_of_def pushed_of_def fun_eq_iff)

lemma worker_wake_iff: "worker_wake now s = (if can_wake now s then Some (woken now s) else None)"
  by (simp add: worker_wake_def can_wake_def woken_def)

lemma asleep_facts:
  "sched_inv ((getNextWorkerCycleTime s)\<lparr>w_pc := Waiting\<rparr>) = sched_inv s"
  "due_entries t ((getNextWorkerCycleTime s)\<lparr>w_pc := Waiting\<rparr>) = due_entries t s"
  "seen_of ((getNextWorkerCycleTime s)\<lparr>w_pc := Waiting\<rparr>) = seen_of s"
  "pushed_of ((getNextWorkerCycleTime s)\<lparr>w_pc := Waiting\<rparr>) = pushed_of s"
  by (simp_all add: getNextWorkerCycleTime_def sched_inv_defs due_entries_def seen_of_def pushed_of_def fun_eq_iff)

lemma can_wake_asleep:
  assumes "sched_inv s" "due_entries now s \<noteq> []"
  shows "can_wake now ((getNextWorkerCycleTime s)\<lparr>w_pc := Waiting\<rparr>)"
proof -
  obtain t k ds where d: "due_entries now s = (t, k) # ds" using assms(2) by (cases "due_entries now s") auto
  then obtain rest where "m_scheduledTasksMap s = (t, k) # rest"
    using due_head(2)[of "m_scheduledTasksMap s" now "(t, k)" ds] assms(1) by (auto simp: due_entries_def sched_inv_defs)
  moreover have "t < now" using due_head(1)[of "m_scheduledTasksMap s" now "(t, k)" ds] assms(1) d
    by (simp add: due_entries_def sched_inv_defs)
  ultimately show ?thesis by (simp add: can_wake_def getNextWorkerCycleTime_def)
qed

lemma round_runs_first:
  assumes inv: "sched_inv s" and w: "can_wake now s" and d: "due_entries now s = (t, k) # ds"
  shows "\<exists>s' x. worker_round L now s = Inr s' \<and> sched_inv s' \<and> w_pc s' = Waiting \<and> seen_of s k = Some x \<and>
    pushed_of s' = pushed_of s @ [x] \<and> due_entries now s' = ds \<and>
    (\<forall>k'\<in>snd ` set ds. seen_of s' k' = seen_of s k') \<and> (ds \<noteq> [] \<longrightarrow> can_wake now s')"
proof -
  let ?s1 = "woken now s"
  have "sched_inv ?s1" "due_entries (w_timePoint ?s1) ?s1 = (t, k) # ds" "w_pc ?s1 = Cycle"
    using inv d by (simp_all add: woken_facts)
  from cycle_runs_first[OF this, of L now] obtain s2 x where s2: "worker_cycle L now ?s1 = Inr s2" "sched_inv s2"
    "w_pc s2 = Cycle" "seen_of s k = Some x" "pushed_of s2 = pushed_of s @ [x]" "due_entries now s2 = ds"
    "\<forall>k'\<in>snd ` set ds. seen_of s2 k' = seen_of s k'" "\<forall>e\<in>set (m_scheduledTasksMap s2). w_timePoint s2 \<le> fst e"
    by (auto simp: woken_facts)
  let ?s3 = "(getNextWorkerCycleTime s2)\<lparr>w_pc := Waiting\<rparr>"
  have "worker_round L now s = Inr ?s3"
    using w s2 cycle_idle[OF s2(2,8), of L now]
    by (simp add: worker_round_def worker_wake_iff numeral_2_eq_2 woken_facts)
  then show ?thesis using s2 can_wake_asleep[of s2 now] by (auto simp: asleep_facts)
qed

lemma rounds_run_due:
  assumes "sched_inv s" "due_entries now s \<noteq> [] \<longrightarrow> can_wake now s"
  shows "\<exists>s'. worker_rounds L now (length (due_entries now s)) s = Inr s' \<and> sched_inv s' \<and> due_entries now s' = [] \<and>
    map Some (pushed_of s') = map Some (pushed_of s) @ map (seen_of s \<circ> snd) (due_entries now s)"
  using assms
proof (induction "due_entries now s" arbitrary: s)
  case Nil
  then show ?case by auto
next
  case (Cons d ds)
  obtain t k where d: "d = (t, k)" by fastforce
  obtain s' x where s': "worker_round L now s = Inr s'" "sched_inv s'" "seen_of s k = Some x"
    "pushed_of s' = pushed_of s @ [x]" "due_entries now s' = ds" "\<forall>k'\<in>snd ` set ds. seen_of s' k' = seen_of s k'"
    "ds \<noteq> [] \<longrightarrow> can_wake now s'"
    using round_runs_first[of s now t k ds L] Cons.prems Cons.hyps(2) d by auto
  obtain s'' where "worker_rounds L now (length ds) s' = Inr s''" "sched_inv s''" "due_entries now s'' = []"
    "map Some (pushed_of s'') = map Some (pushed_of s') @ map (seen_of s' \<circ> snd) ds"
    using Cons.hyps(1)[of s'] s' by auto
  then show ?case using s' d Cons.hyps(2)[symmetric] by auto
qed

section \<open>Restart\<close>

definition loaded :: "('c, 'z) time_lib_scheme \<Rightarrow> int \<Rightarrow> ('j, 'c) SchedulerRecord \<Rightarrow> ('j, 'c) SchedulerRecord" where
  "loaded L now r = (if m_enabled r then (snd (getNext L now now r))\<lparr>m_active := True\<rparr> else r)"

lemma loaded_facts:
  "m_taskId (loaded L now r) = m_taskId r" "m_persist (loaded L now r) = m_persist r"
  "m_enabled (loaded L now r) = m_enabled r" "\<not> m_active r \<Longrightarrow> m_active (loaded L now r) = m_enabled r"
  "task_view (loaded L now r) = task_view r"
  by (simp_all add: loaded_def getNext_def task_view_def serialize_def trigger_of_def)

lemma load_record_fresh:
  assumes "core_inv s" "map_of (m_tasksMap s) (m_taskId r) = None" "\<not> m_active r"
  shows "core_inv (load_record L now r s)"
    "map_of (m_tasksMap (load_record L now r s)) = (map_of (m_tasksMap s))(m_taskId r \<mapsto> loaded L now r)"
    "task_files (load_record L now r s) = task_files s"
  using assms
  by (auto simp: core_inv_def load_record_def loaded_def sched_ops map_of_insert map_of_assign getNext_frame active_in_def
      domIff fun_eq_iff)

text \<open>The loop over the files of tasks that can be restored and have different identifiers.\<close>

lemma load_loop:
  assumes "core_inv s" "distinct (map m_taskId rs)" "\<forall>r\<in>set rs. map_of (m_tasksMap s) (m_taskId r) = None"
    and "\<forall>r\<in>set rs. restorable L r \<and> m_persist r"
  shows "core_inv (loadCache_loop L now (map (Some \<circ> serialize) rs) s) \<and>
    task_files (loadCache_loop L now (map (Some \<circ> serialize) rs) s) = task_files s \<and>
    (\<forall>k. (k \<notin> m_taskId ` set rs \<longrightarrow>
            map_of (m_tasksMap (loadCache_loop L now (map (Some \<circ> serialize) rs) s)) k = map_of (m_tasksMap s) k) \<and>
         (\<forall>r\<in>set rs. m_taskId r = k \<longrightarrow>
            (\<exists>r'. map_of (m_tasksMap (loadCache_loop L now (map (Some \<circ> serialize) rs) s)) k = Some r' \<and>
              task_view r' = task_view r \<and> m_persist r' \<and> m_active r' = m_enabled r \<and> m_enabled r' = m_enabled r)))"
  using assms
proof (induction rs arbitrary: s)
  case (Cons r rs)
  obtain r' where r': "new_document L (serialize r) = Inr r'" "task_view r' = task_view r" "m_taskId r' = m_taskId r"
    "m_persist r'" "m_enabled r' = m_enabled r" "\<not> m_active r'"
    using record_roundtrip[of L r] Cons.prems(4) by auto
  have p: "r'\<lparr>m_persist := True\<rparr> = r'" using r'(4) by simp
  let ?s = "load_record L now r' s"
  note fresh = load_record_fresh[of s r' L now]
  have "map_of (m_tasksMap s) (m_taskId r') = None" using Cons.prems(3) r'(3) by simp
  then have s1: "core_inv ?s" "map_of (m_tasksMap ?s) = (map_of (m_tasksMap s))(m_taskId r \<mapsto> loaded L now r')"
    "task_files ?s = task_files s"
    using fresh Cons.prems(1) r' by auto
  have "\<forall>q\<in>set rs. map_of (m_tasksMap ?s) (m_taskId q) = None"
    using s1(2) Cons.prems(2,3) by (fastforce simp: image_iff)
  note IH = Cons.IH[OF s1(1) _ this]
  define s2 where "s2 = loadCache_loop L now (map (Some \<circ> serialize) rs) ?s"
  have step: "loadCache_loop L now (map (Some \<circ> serialize) (r # rs)) s = s2"
    by (simp add: r'(1) p s2_def)
  have "core_inv s2" "task_files s2 = task_files s"
    "\<And>k. k \<notin> m_taskId ` set rs \<Longrightarrow> map_of (m_tasksMap s2) k = map_of (m_tasksMap ?s) k"
    "\<And>q. q \<in> set rs \<Longrightarrow> \<exists>r'. map_of (m_tasksMap s2) (m_taskId q) = Some r' \<and> task_view r' = task_view q \<and> m_persist r' \<and>
        m_active r' = m_enabled q \<and> m_enabled r' = m_enabled q"
    using IH Cons.prems(2,4) s1(3) unfolding s2_def[symmetric] by auto
  then show ?case unfolding step using Cons.prems(2) r' s1(2) by (auto simp: loaded_facts)
qed simp

text \<open>The files of a consistent state are those of its persistent tasks.\<close>

lemma files_are_records:
  assumes inv: "sched_inv s"
  obtains rs where "map snd (task_files s) = map (Some \<circ> serialize) rs" "distinct (map m_taskId rs)"
    "\<forall>r\<in>set rs. map_of (m_tasksMap s) (m_taskId r) = Some r \<and> m_persist r"
    "\<forall>k r. map_of (m_tasksMap s) k = Some r \<and> m_persist r \<longrightarrow> r \<in> set rs"
proof -
  define key where "key f = (THE k. f = file_name k)" for f
  have key: "key (file_name k) = k" for k by (auto simp: key_def)
  define rs where "rs = map (\<lambda>(f, d). the (map_of (m_tasksMap s) (key f))) (task_files s)"
  have d: "distinct (map fst (task_files s))" using inv by (simp add: sched_inv_defs map_ok_distinct)
  have ent: "\<exists>k r. f = file_name k \<and> d = Some (serialize r) \<and> map_of (m_tasksMap s) k = Some r \<and> m_persist r \<and> m_taskId r = k"
    if "(f, d) \<in> set (task_files s)" for f d
  proof -
    have "f \<in> fst ` set (task_files s)" using that by (rule image_eqI[rotated]) simp
    then obtain k where k: "f = file_name k" using inv unfolding sched_inv_defs by blast
    have "map_of (task_files s) f = Some d" using that d by simp
    then show ?thesis using k inv by (auto simp: sched_inv_defs file_of_def split: option.splits if_splits)
  qed
  have "map snd (task_files s) = map (Some \<circ> serialize) rs"
    using ent by (force simp: rs_def key)
  moreover have "map m_taskId rs = map (key \<circ> fst) (task_files s)" using ent by (force simp: rs_def key)
  moreover have "distinct (map (key \<circ> fst) (task_files s))"
    using d ent unfolding distinct_map comp_inj_on_iff[symmetric] inj_on_def by (metis comp_apply key surj_pair fst_conv)
  moreover have "\<forall>r\<in>set rs. map_of (m_tasksMap s) (m_taskId r) = Some r \<and> m_persist r"
    using ent by (fastforce simp: rs_def key)
  moreover have "r \<in> set rs" if "map_of (m_tasksMap s) k = Some r" "m_persist r" for k r
  proof -
    have "map_of (task_files s) (file_name k) = Some (Some (serialize r))" using that inv by (simp add: sched_inv_defs file_of_def)
    then have "(file_name k, Some (serialize r)) \<in> set (task_files s)" by (rule map_of_SomeD)
    then show ?thesis using that(1)
      by (auto simp: rs_def key intro!: image_eqI[where x = "(file_name k, Some (serialize r))"])
  qed
  ultimately show thesis using that[of rs] by auto
qed

lemma restart:
  assumes inv: "sched_inv s"
    and ok: "\<forall>k r. map_of (m_tasksMap s) k = Some r \<and> m_persist r \<longrightarrow> restorable L r"
  shows "sched_inv (activate L now (task_files s))"
    "map_of (m_tasksMap s) k = Some r \<Longrightarrow> m_persist r \<Longrightarrow>
       (\<exists>r'. map_of (m_tasksMap (activate L now (task_files s))) k = Some r' \<and> task_view r' = task_view r \<and> m_active r' = m_enabled r)"
    "(\<forall>r. map_of (m_tasksMap s) k = Some r \<longrightarrow> \<not> m_persist r) \<Longrightarrow> map_of (m_tasksMap (activate L now (task_files s))) k = None"
proof -
  obtain rs where rs: "map snd (task_files s) = map (Some \<circ> serialize) rs" "distinct (map m_taskId rs)"
    "\<forall>r\<in>set rs. map_of (m_tasksMap s) (m_taskId r) = Some r \<and> m_persist r"
    "\<forall>k r. map_of (m_tasksMap s) k = Some r \<and> m_persist r \<longrightarrow> r \<in> set rs"
    using files_are_records[OF inv] by blast
  have ids: "m_taskId r = k" if "map_of (m_tasksMap s) k = Some r" for k r using inv that by (simp add: sched_inv_defs)
  let ?s0 = "\<lparr>m_tasksMap = [], m_scheduledTasksMap = [], task_files = task_files s, m_scheduledTaskPushed = False,
        m_runTimerThread = False, w_timePoint = now, w_pc = Waiting, m_dpaTaskQueue = new_TaskQueue\<rparr>"
  let ?s1 = "loadCache_loop L now (map (Some \<circ> serialize) rs) ?s0"
  have core: "core_inv ?s0" by (simp add: core_inv_def map_ok_def mm_ok_def active_in_def)
  have loop: "core_inv ?s1" "task_files ?s1 = task_files s"
    "\<And>k. k \<notin> m_taskId ` set rs \<Longrightarrow> map_of (m_tasksMap ?s1) k = None"
    "\<And>r. r \<in> set rs \<Longrightarrow> \<exists>r'. map_of (m_tasksMap ?s1) (m_taskId r) = Some r' \<and> task_view r' = task_view r \<and> m_persist r' \<and>
        m_active r' = m_enabled r"
    using load_loop[OF core rs(2), of L now] rs(3) ok by auto
  have act: "activate L now (task_files s) = ?s1\<lparr>m_runTimerThread := True\<rparr>" by (simp add: activate_def loadCache_def rs(1))
  show some: "\<exists>r'. map_of (m_tasksMap (activate L now (task_files s))) k = Some r' \<and> task_view r' = task_view r \<and> m_active r' = m_enabled r"
    if "map_of (m_tasksMap s) k = Some r" "m_persist r" for k r
    using loop(4)[of r] rs(4) that ids act by auto
  show none: "map_of (m_tasksMap (activate L now (task_files s))) k = None"
    if "\<forall>r. map_of (m_tasksMap s) k = Some r \<longrightarrow> \<not> m_persist r" for k
    using loop(3)[of k] rs(3) that act by auto
  have "file_of (m_tasksMap ?s1) k = file_of (m_tasksMap s) k" for k
  proof (cases "k \<in> m_taskId ` set rs")
    case True
    then obtain r where "r \<in> set rs" "m_taskId r = k" by auto
    then show ?thesis using loop(4)[of r] rs(3) by (auto simp: file_of_def task_view_def)
  next
    case False
    then show ?thesis using loop(3)[of k] rs(4) ids by (force simp: file_of_def split: option.split)
  qed
  then show "sched_inv (activate L now (task_files s))"
    using loop(1,2) inv act by (simp add: sched_inv_defs)
qed

section \<open>Removing all tasks of a client\<close>

lemma tasks_remove_at [simp]: "m_tasksMap (remove_at kr s) = map_erase (fst kr) (m_tasksMap s)"
  by (simp add: remove_at_def Let_def unscheduleTask_def deleteTaskFile_def)

lemma remove_loop_own:
  assumes "\<forall>kr\<in>set own. m_clientId (snd kr) = c"
  shows "removeAllTasks_loop c (own @ krs) s = removeAllTasks_loop c krs (fold remove_at own s)"
  using assms by (induction own arbitrary: s) auto

lemma tasks_fold_remove:
  "map_of (m_tasksMap (fold remove_at krs s)) k = (if k \<in> fst ` set krs then None else map_of (m_tasksMap s) k)"
  by (induction krs arbitrary: s) auto

lemma remove_loop_absent:
  "removeAllTasks_loop c krs s = Inr s' \<Longrightarrow> map_of (m_tasksMap s) k = None \<Longrightarrow> map_of (m_tasksMap s') k = None"
proof (induction c krs s rule: removeAllTasks_loop.induct)
  case (2 c k r rest s)
  then show ?case by (auto split: if_splits list.splits)
qed simp

lemma no_tasks_empty:
  assumes "sched_inv s" "map_of (m_tasksMap s) = Map.empty"
  shows "m_tasksMap s = []" "m_scheduledTasksMap s = []" "task_files s = []"
proof -
  show "m_tasksMap s = []" using assms(2) by simp
  then show "m_scheduledTasksMap s = []" using scheduled_stored[OF assms(1)] by (cases "m_scheduledTasksMap s") auto
  have "map_of (task_files s) f = None" for f
  proof (cases "f \<in> range file_name")
    case True
    then show ?thesis using assms by (auto simp: sched_inv_defs file_of_def)
  next
    case False
    then have "f \<notin> fst ` set (task_files s)" using assms(1) unfolding sched_inv_defs by blast
    then show ?thesis by (simp add: map_of_eq_None_iff)
  qed
  then show "task_files s = []" by (metis map_of_eq_empty_iff ext)
qed

lemma remove_all_own:
  assumes "sched_inv s" "\<forall>kr\<in>set (m_tasksMap s). m_clientId (snd kr) = c"
  shows "\<exists>s'. removeAllTasks c s = Inr s' \<and> m_tasksMap s' = [] \<and> m_scheduledTasksMap s' = [] \<and> task_files s' = []"
proof -
  let ?s = "fold remove_at (m_tasksMap s) s"
  have loop: "removeAllTasks_loop c (m_tasksMap s) s = Inr ?s" using remove_loop_own[of "m_tasksMap s" c "[]" s] assms(2) by simp
  have "distinct (map fst (m_tasksMap s))" using assms(1) by (simp add: sched_inv_defs map_ok_distinct)
  then have "sched_inv ?s" using inv_remove_all_loop[OF assms(1) loop] by simp
  moreover have "map_of (m_tasksMap ?s) = Map.empty"
    by (auto simp: fun_eq_iff tasks_fold_remove map_of_eq_None_iff)
  ultimately show ?thesis using no_tasks_empty[of ?s] loop by (auto simp: removeAllTasks_def notifyWorker_def)
qed

section \<open>Examples\<close>

definition sample_time :: "nat time_lib" where
  "sample_time = \<lparr>parseISO8601 = (\<lambda>t. if t = ''1970-01-01T00:00:05Z'' then Inr (5 * 10 ^ 9) else Inl (InvalidArgument [])),
     make_cron = (\<lambda>t. if length t = 13 then Inr 60 else Inl []), cron_next = (\<lambda>c t. t + int c), default_cronexpr = 0\<rparr>"

definition every :: "int \<Rightarrow> timeSpec" where
  "every n = \<lparr>cronTime = CronString [], exactTime = False, periodic = True, period = n, startTime = []\<rparr>"

definition sec :: "int \<Rightarrow> int" where
  "sec n = n * 10 ^ 9"

definition empty_scheduler :: "(nat, nat) scheduler" where
  "empty_scheduler = activate sample_time 0 []"

text \<open>The scheduler with one persistent periodic task, added at second 1.\<close>

definition one_task :: "(nat, nat) scheduler" where
  "one_task = (case addTask sample_time [] (sec 1) ''c'' ''k'' ''d'' 7 (every 30) True True empty_scheduler of
     Some (Inr (s, _)) \<Rightarrow> s | _ \<Rightarrow> empty_scheduler)"

lemma one_task_added:
  "addTask sample_time [] (sec 1) ''c'' ''k'' ''d'' 7 (every 30) True True empty_scheduler = Some (Inr (one_task, ''k''))"
  by code_simp

lemma one_task_reached: "(sched_step sample_time)\<^sup>*\<^sup>* (activate sample_time 0 []) one_task"
proof -
  have "map_of (m_tasksMap empty_scheduler) ''k'' = None" by code_simp
  then have "sched_step sample_time empty_scheduler one_task" using sched_step.add[OF one_task_added] by blast
  then show ?thesis unfolding empty_scheduler_def by blast
qed

section \<open>Properties\<close>

text \<open>
  C12: in every state the scheduler reaches from an empty cache directory by operations of its clients, passes of its worker and
  work of its task queue, in any order, as long as added and renamed tasks get unused identifiers: every task is
  stored under its identifier, exactly the active tasks have an entry in the timetable and exactly one, the timetable is ordered
  by time, exactly the persistent tasks have a file and it holds their current data. In such a state no pass of the
  worker meets a missing record.\<close>

theorem scheduler_consistent:
  assumes "(sched_step L)\<^sup>*\<^sup>* (activate L start []) s"
  shows "sched_inv s \<and> ok_r (worker_cycle L now s)"
  using inv_reachable[OF assms] worker_cycle_ok by blast

theorem scheduler_consistent_witness:
  "sched_inv one_task \<and> ok_r (worker_cycle sample_time (sec 2) one_task)"
  using scheduler_consistent[OF one_task_reached] by blast



text \<open>
  C14: a restart restores the persistent tasks. From the files of a reachable state whose persistent tasks can be read back, the
  new scheduler gets exactly these tasks, with the same identifier, client, description, messages, time specification, flags and
  the same trigger, each active exactly when it is a start-up task; and the new state is consistent, so each active one
  has its entry in the timetable.\<close>

theorem restart_restores_tasks:
  assumes "(sched_step L)\<^sup>*\<^sup>* (activate L start []) s"
    and "\<forall>k r. map_of (m_tasksMap s) k = Some r \<and> m_persist r \<longrightarrow> restorable L r"
  shows "sched_inv (activate L now (task_files s)) \<and>
    (\<forall>k. case map_of (m_tasksMap s) k of
       None \<Rightarrow> map_of (m_tasksMap (activate L now (task_files s))) k = None
     | Some r \<Rightarrow>
         if m_persist r
         then \<exists>r'. map_of (m_tasksMap (activate L now (task_files s))) k = Some r' \<and> task_view r' = task_view r \<and>
                m_active r' = m_enabled r
         else map_of (m_tasksMap (activate L now (task_files s))) k = None)"
  using restart[OF inv_reachable[OF assms(1)] assms(2), where now = now] by (auto split: option.split)

theorem restart_restores_tasks_witness:
  "\<exists>r'. map_of (m_tasksMap (activate sample_time (sec 9) (task_files one_task))) ''k'' = Some r' \<and>
     trigger_of r' = Every 30 \<and> m_active r'"
proof -
  have one: "m_tasksMap one_task = [(''k'', snd (hd (m_tasksMap one_task)))]" by code_simp
  have r: "restorable sample_time (snd (hd (m_tasksMap one_task)))" "m_persist (snd (hd (m_tasksMap one_task)))"
    "trigger_of (snd (hd (m_tasksMap one_task))) = Every 30" "m_enabled (snd (hd (m_tasksMap one_task)))"
    by code_simp+
  have "\<forall>k r. map_of (m_tasksMap one_task) k = Some r \<and> m_persist r \<longrightarrow> restorable sample_time r"
    using r(1) by (subst one) auto
  from restart_restores_tasks[OF one_task_reached this, of "sec 9"]
  show ?thesis using r by (subst (asm) one) (auto simp: task_view_def dest!: spec[of _ "''k''"])
qed


text \<open>
  \<open>removeAllTasks\<close> removes everything when all tasks belong to the client: no task, entry or file is left. When a
  task of another client comes up, the following task is removed whoever owns it, and if there is none the code reads past
  the end of the map.\<close>

theorem removeAllTasks_effect:
  assumes "sched_inv s" "\<forall>kr\<in>set own. m_clientId (snd kr) = c" "m_clientId r \<noteq> c"
  shows "(m_tasksMap s = own \<longrightarrow>
      (\<exists>s'. removeAllTasks c s = Inr s' \<and> m_tasksMap s' = [] \<and> m_scheduledTasksMap s' = [] \<and> task_files s' = [])) \<and>
    (m_tasksMap s = own @ [(k, r)] \<longrightarrow> \<not> ok_r (removeAllTasks c s)) \<and>
    (m_tasksMap s = own @ (k, r) # (k2, r2) # rest \<and> removeAllTasks c s = Inr s' \<longrightarrow> map_of (m_tasksMap s') k2 = None)"
proof (intro conjI impI)
  show "m_tasksMap s = own \<Longrightarrow>
      \<exists>s'. removeAllTasks c s = Inr s' \<and> m_tasksMap s' = [] \<and> m_scheduledTasksMap s' = [] \<and> task_files s' = []"
    using remove_all_own[OF assms(1)] assms(2) by blast
  show "m_tasksMap s = own @ [(k, r)] \<Longrightarrow> \<not> ok_r (removeAllTasks c s)"
    using remove_loop_own[OF assms(2)] assms(3) by (simp add: removeAllTasks_def)
  assume a: "m_tasksMap s = own @ (k, r) # (k2, r2) # rest \<and> removeAllTasks c s = Inr s'"
  then obtain s1 where "removeAllTasks_loop c rest (remove_at (k2, r2) (fold remove_at own s)) = Inr s1" "s' = notifyWorker s1"
    using remove_loop_own[OF assms(2), of "(k, r) # (k2, r2) # rest" s] assms(3) by (auto simp: removeAllTasks_def bind_r_eq_Inr)
  then show "map_of (m_tasksMap s') k2 = None"
    using remove_loop_absent[of c rest _ s1 k2] by (simp add: notifyWorker_def)
qed

theorem removeAllTasks_effect_witness:
  "\<not> ok_r (removeAllTasks ''x'' one_task)"
proof -
  have "sched_inv one_task" using inv_reachable[OF one_task_reached] .
  moreover have "m_tasksMap one_task = [] @ [(''k'', snd (hd (m_tasksMap one_task)))]"
    "m_clientId (snd (hd (m_tasksMap one_task))) \<noteq> ''x''" by code_simp+
  ultimately show ?thesis using removeAllTasks_effect[of one_task "[]" "''x''"] by auto
qed

end
