(* ===== verification/Mng_Scheduler.thy ===== *)
theory Mng_Scheduler
  imports Scheduler_Run
begin

text \<open>
  The scheduler messages of \<open>src/JsonMngApi\<close>: \<open>JsonMngApi::handleMsg\<close> and the message classes
  \<open>Messages/Scheduler*Msg\<close>. A request is what the constructor of its message class reads from the JSON document; an answer carries
  the status, the error text and the data of \<open>createResponsePayload\<close>. Shown: what was added is what the other messages
  report, a failed request changes nothing, and an identifier in use by another client defeats the check of \<open>AddTask\<close>.
\<close>

section \<open>Requests and answers\<close>

datatype 'j request =
    AddTask (req_client: string) "string option" "string option" 'j timeSpec "bool option" "bool option"
  | EditTask (req_client: string) string "string option" "string option" 'j timeSpec "bool option" "bool option"
  | GetTask (req_client: string) string
  | ListTasks (req_client: string) "bool option"
  | RemoveAll (req_client: string)
  | RemoveTask (req_client: string) string
  | StartTask (req_client: string) string
  | StopTask (req_client: string) string

datatype 'j payload =
    NoData
  | TaskId string
  | TaskDoc "'j task_doc" bool
  | TaskIds "string list"
  | TaskDocs "('j task_doc \<times> bool) list"

record 'j answer =
  status :: int
  errorStr :: "string option"
  payload :: "'j payload"

section \<open>Message handlers\<close>

definition opt :: "'a \<Rightarrow> 'a option \<Rightarrow> 'a" where
  "opt d x = (case x of None \<Rightarrow> d | Some v \<Rightarrow> v)"

text \<open>\<open>catch (const std::exception &e)\<close> and a new \<open>std::logic_error\<close>; undefined behaviour is not an exception.\<close>

definition rethrow :: "string \<Rightarrow> 'a result \<Rightarrow> 'a result" where
  "rethrow text r =
     (case r of
        Inl (LogicError m) \<Rightarrow> Inl (LogicError (text @ m))
      | Inl (InvalidArgument m) \<Rightarrow> Inl (LogicError (text @ m))
      | Inl (DomainError m) \<Rightarrow> Inl (LogicError (text @ m))
      | Inl (OutOfRange m) \<Rightarrow> Inl (LogicError (text @ m))
      | Inl (RuntimeError m) \<Rightarrow> Inl (LogicError (text @ m))
      | _ \<Rightarrow> r)"

definition SchedulerAddTaskMsg_handleMsg ::
    "('c, 'z) time_lib_scheme \<Rightarrow> string list \<Rightarrow> int \<Rightarrow> string \<Rightarrow> string option \<Rightarrow> string option \<Rightarrow> 'j \<Rightarrow> timeSpec \<Rightarrow>
     bool option \<Rightarrow> bool option \<Rightarrow> ('j, 'c) scheduler \<Rightarrow> (('j, 'c) scheduler \<times> string) result option" where
  "SchedulerAddTaskMsg_handleMsg L uuids now clientId taskId description task ts persist enabled s =
     map_option (rethrow ''Cannot schedule task: '')
       (if getTask clientId (opt nil_uuid taskId) s \<noteq> None then Some (Inl (LogicError ''Task already exists''))
        else addTask L uuids now clientId (opt nil_uuid taskId) (opt [] description) task ts (opt False persist) (opt False enabled) s)"

definition SchedulerEditTaskMsg_handleMsg ::
    "('c, 'z) time_lib_scheme \<Rightarrow> int \<Rightarrow> string \<Rightarrow> string \<Rightarrow> string option \<Rightarrow> string option \<Rightarrow> 'j \<Rightarrow> timeSpec \<Rightarrow>
     bool option \<Rightarrow> bool option \<Rightarrow> ('j, 'c) scheduler \<Rightarrow> (('j, 'c) scheduler \<times> string) result" where
  "SchedulerEditTaskMsg_handleMsg L now clientId taskId newTaskId description task ts persist enabled s =
     rethrow ''Cannot edit task: ''
       (editTask L now clientId taskId (opt taskId newTaskId) (opt [] description) task ts (opt False persist) (opt False enabled) s)"

definition SchedulerGetTaskMsg_handleMsg :: "string \<Rightarrow> string \<Rightarrow> ('j, 'c) scheduler \<Rightarrow> 'j payload result" where
  "SchedulerGetTaskMsg_handleMsg clientId taskId s =
     bind_r (getTaskDocument clientId taskId s) (\<lambda>d. Inr (TaskDoc d (isTaskActive clientId taskId s)))"

definition SchedulerListMsg_handleMsg :: "string \<Rightarrow> bool option \<Rightarrow> ('j, 'c) scheduler \<Rightarrow> 'j payload" where
  "SchedulerListMsg_handleMsg clientId details s =
     (if opt False details then TaskDocs (getTasks clientId s) else TaskIds (getTaskIds clientId s))"

definition SchedulerRemoveTaskMsg_handleMsg :: "string \<Rightarrow> string \<Rightarrow> ('j, 'c) scheduler \<Rightarrow> ('j, 'c) scheduler result" where
  "SchedulerRemoveTaskMsg_handleMsg clientId taskId s =
     (if getTask clientId taskId s \<noteq> None then Inr (removeTask clientId taskId s)
      else Inl (LogicError ''Cannot remove task: task does not exist.''))"

definition SchedulerChangeTaskStateMsg_handleMsg ::
    "('c, 'z) time_lib_scheme \<Rightarrow> int \<Rightarrow> string \<Rightarrow> string \<Rightarrow> bool \<Rightarrow> ('j, 'c) scheduler \<Rightarrow> ('j, 'c) scheduler result" where
  "SchedulerChangeTaskStateMsg_handleMsg L now clientId taskId active s =
     (case changeTaskState L now clientId taskId active s of
        Inl (LogicError _) \<Rightarrow> Inl (LogicError ''Client or task ID does not exist.'')
      | r \<Rightarrow> r)"

section \<open>JsonMngApi::handleMsg\<close>

definition run_request ::
    "('c, 'z) time_lib_scheme \<Rightarrow> string list \<Rightarrow> int \<Rightarrow> 'j request \<Rightarrow> ('j, 'c) scheduler \<Rightarrow>
     (('j, 'c) scheduler \<times> 'j payload) result option" where
  "run_request L uuids now q s =
     (case q of
        AddTask c tid desc task ts p e \<Rightarrow>
          map_option (\<lambda>r. bind_r r (\<lambda>(s', i). Inr (s', TaskId i)))
            (SchedulerAddTaskMsg_handleMsg L uuids now c tid desc task ts p e s)
      | EditTask c tid newId desc task ts p e \<Rightarrow>
          Some (bind_r (SchedulerEditTaskMsg_handleMsg L now c tid newId desc task ts p e s) (\<lambda>(s', i). Inr (s', TaskId i)))
      | GetTask c tid \<Rightarrow> Some (bind_r (SchedulerGetTaskMsg_handleMsg c tid s) (\<lambda>d. Inr (s, d)))
      | ListTasks c details \<Rightarrow> Some (Inr (s, SchedulerListMsg_handleMsg c details s))
      | RemoveAll c \<Rightarrow> Some (bind_r (removeAllTasks c s) (\<lambda>s'. Inr (s', NoData)))
      | RemoveTask c tid \<Rightarrow> Some (bind_r (SchedulerRemoveTaskMsg_handleMsg c tid s) (\<lambda>s'. Inr (s', TaskId tid)))
      | StartTask c tid \<Rightarrow> Some (bind_r (SchedulerChangeTaskStateMsg_handleMsg L now c tid True s) (\<lambda>s'. Inr (s', TaskId tid)))
      | StopTask c tid \<Rightarrow> Some (bind_r (SchedulerChangeTaskStateMsg_handleMsg L now c tid False s) (\<lambda>s'. Inr (s', TaskId tid))))"

text \<open>
  The handler answers with status 0 or, for an exception, with its text and status -1. The scheduler is as before the
  request then: every exception of its operations is thrown before the first change.
\<close>

definition what :: "exc \<Rightarrow> string option" where
  "what e = (case e of LogicError m \<Rightarrow> Some m | InvalidArgument m \<Rightarrow> Some m | DomainError m \<Rightarrow> Some m
     | OutOfRange m \<Rightarrow> Some m | RuntimeError m \<Rightarrow> Some m | UB _ \<Rightarrow> None)"

definition mng_handleMsg ::
    "('c, 'z) time_lib_scheme \<Rightarrow> string list \<Rightarrow> int \<Rightarrow> 'j request \<Rightarrow> ('j, 'c) scheduler \<Rightarrow>
     (('j, 'c) scheduler \<times> 'j answer) result option" where
  "mng_handleMsg L uuids now q s =
     map_option (\<lambda>r.
       (case r of
          Inr (s', d) \<Rightarrow> Inr (s', \<lparr>status = 0, errorStr = None, payload = d\<rparr>)
        | Inl e \<Rightarrow>
            (case what e of
               Some m \<Rightarrow> Inr (s, \<lparr>status = -1, errorStr = Some m, payload = NoData\<rparr>)
             | None \<Rightarrow> Inl e)))
       (run_request L uuids now q s)"

section \<open>Facts\<close>

lemma rethrow_Inr [simp]: "rethrow text r = Inr x \<longleftrightarrow> r = Inr x"
  by (cases r) (auto simp: rethrow_def split: exc.splits)

lemma tasks_after_add:
  assumes "map_ok (m_tasksMap s)" "map_of (m_tasksMap s) (m_taskId r) = None"
  shows "map_of (m_tasksMap (addSchedulerTask L now r start s)) =
    (map_of (m_tasksMap s))(m_taskId r \<mapsto> (if start then (snd (getNext L now now r))\<lparr>m_active := True\<rparr> else r))"
  using assms by (auto simp: sched_ops map_of_insert map_of_assign domIff fun_eq_iff)

text \<open>An identifier that is in use: the new record is written to the file and scheduled, but not stored.\<close>

lemma tasks_after_add_used:
  assumes "map_ok (m_tasksMap s)" "map_of (m_tasksMap s) (m_taskId r) = Some old"
  shows "map_of (m_tasksMap (addSchedulerTask L now r start s)) = map_of (m_tasksMap s)"
    "entries_of k (m_scheduledTasksMap (addSchedulerTask L now r start s)) =
       entries_of k (m_scheduledTasksMap s) + (if start \<and> k = m_taskId r then 1 else 0)"
    "map_ok (task_files s) \<Longrightarrow> m_persist r \<Longrightarrow>
       map_of (task_files (addSchedulerTask L now r start s)) (file_name (m_taskId r)) = Some (Some (serialize r))"
  using assms by (auto simp: sched_ops map_of_insert domIff fun_eq_iff getNext_frame)

lemma new_record_desc:
  assumes "new_record L clientId tid task ts persist enabled = Inr r"
  shows "m_task r = task"
  using new_record_frame[OF assms] by (simp add: identity_of_def record0_def)

lemma mng_ok:
  "mng_handleMsg L uuids now q s = Some (Inr (s', a)) \<Longrightarrow> status a = 0 \<Longrightarrow>
   run_request L uuids now q s = Some (Inr (s', payload a))"
  by (cases "run_request L uuids now q s") (auto simp: mng_handleMsg_def split: sum.splits option.splits)

lemma add_request_ok:
  assumes "run_request L uuids now (AddTask c tid desc task ts p e) s = Some (Inr (s', d))"
  obtains k r where "d = TaskId k" "new_record L c k task ts (opt False p) (opt False e) = Inr r"
    "s' = notifyWorker (addSchedulerTask L now (r\<lparr>m_description := opt [] desc\<rparr>) (opt False e) s)" "m_taskId r = k"
    "getTaskHandle uuids (opt nil_uuid tid) s = Some k"
proof -
  obtain i where i: "d = TaskId i"
    "addTask L uuids now c (opt nil_uuid tid) (opt [] desc) task ts (opt False p) (opt False e) s = Some (Inr (s', i))"
    using assms by (auto simp: run_request_def SchedulerAddTaskMsg_handleMsg_def bind_r_eq_Inr split: if_splits)
  then obtain k where k: "getTaskHandle uuids (opt nil_uuid tid) s = Some k"
    and "bind_r (new_record L c k task ts (opt False p) (opt False e)) (\<lambda>r. let r = r\<lparr>m_description := opt [] desc\<rparr>
           in Inr (notifyWorker (addSchedulerTask L now r (opt False e) s), m_taskId r)) = Inr (s', i)"
    unfolding addTask_def by (auto simp only: map_option_eq_Some)
  then obtain r where r: "new_record L c k task ts (opt False p) (opt False e) = Inr r"
    and "Inr (notifyWorker (addSchedulerTask L now (r\<lparr>m_description := opt [] desc\<rparr>) (opt False e) s),
      m_taskId (r\<lparr>m_description := opt [] desc\<rparr>)) = (Inr (s', i) :: _ result)"
    unfolding Let_def by (auto simp only: bind_r_eq_Inr)
  then have "s' = notifyWorker (addSchedulerTask L now (r\<lparr>m_description := opt [] desc\<rparr>) (opt False e) s)" "m_taskId r = i"
    by simp_all
  moreover have "m_taskId r = k" using new_record_facts(1)[OF r] .
  ultimately show thesis using that[of k r] i k r by blast
qed

section \<open>Properties\<close>

text \<open>
  C23: what \<open>mngScheduler_AddTask\<close> has accepted is what the other messages report. When the request is answered with status 0 and an
  identifier that was not in use, \<open>mngScheduler_GetTask\<close> of the same client returns the description, messages, persistence and start-up flag
  of the request and reports the task active exactly when it was to be started, \<open>mngScheduler_List\<close> lists it, and another client gets
  an error.\<close>

theorem added_task_reported:
  assumes "sched_inv s" and "mng_handleMsg L uuids now (AddTask c tid desc task ts p e) s = Some (Inr (s', a))"
    and "status a = 0" "payload a = TaskId k" "map_of (m_tasksMap s) k = None"
  shows "(\<exists>doc. mng_handleMsg L us t (GetTask c k) s' =
        Some (Inr (s', \<lparr>status = 0, errorStr = None, payload = TaskDoc doc (opt False e)\<rparr>)) \<and>
      d_clientId doc = c \<and> d_taskId doc = k \<and> d_description doc = Some (opt [] desc) \<and> d_task doc = task \<and>
      d_persist doc = Some (opt False p) \<and> d_enabled doc = Some (opt False e)) \<and>
    (\<exists>ids. mng_handleMsg L us t (ListTasks c None) s' =
        Some (Inr (s', \<lparr>status = 0, errorStr = None, payload = TaskIds ids\<rparr>)) \<and> k \<in> set ids) \<and>
    (c' \<noteq> c \<longrightarrow> (\<exists>m. mng_handleMsg L us t (GetTask c' k) s' =
        Some (Inr (s', \<lparr>status = -1, errorStr = Some m, payload = NoData\<rparr>))))"
proof -
  have run: "run_request L uuids now (AddTask c tid desc task ts p e) s = Some (Inr (s', TaskId k))"
    using mng_ok[OF assms(2,3)] assms(4) by simp
  obtain r where r: "new_record L c k task ts (opt False p) (opt False e) = Inr r" "m_taskId r = k"
    and s': "s' = notifyWorker (addSchedulerTask L now (r\<lparr>m_description := opt [] desc\<rparr>) (opt False e) s)"
    using add_request_ok[OF run] by auto
  note f = new_record_facts[OF r(1)] new_record_desc[OF r(1)]
  define x where "x = (if opt False e then (snd (getNext L now now (r\<lparr>m_description := opt [] desc\<rparr>)))\<lparr>m_active := True\<rparr>
      else r\<lparr>m_description := opt [] desc\<rparr>)"
  have m: "map_of (m_tasksMap s') k = Some x"
    using s' tasks_after_add[of s "r\<lparr>m_description := opt [] desc\<rparr>" L now "opt False e"] assms(1,5) r(2)
    by (simp add: sched_inv_defs x_def notifyWorker_def)
  have x: "m_clientId x = c" "m_taskId x = k" "m_active x = opt False e" "serialize x = serialize (r\<lparr>m_description := opt [] desc\<rparr>)"
    using f r(2) getNext_frame[of L now now "r\<lparr>m_description := opt [] desc\<rparr>"] by (auto simp: x_def)
  have ids: "k \<in> set (getTaskIds c s')"
    using map_of_SomeD[OF m] x by (force simp: getTaskIds_def)
  show ?thesis using m x ids f r(2)
    by (auto simp: mng_handleMsg_def run_request_def SchedulerGetTaskMsg_handleMsg_def getTaskDocument_def find_task_def
        isTaskActive_def SchedulerListMsg_handleMsg_def opt_def serialize_def what_def)
qed

theorem added_task_reported_witness:
  "\<exists>doc. mng_handleMsg sample_time [] 0 (GetTask ''c'' ''k'') one_task =
     Some (Inr (one_task, \<lparr>status = 0, errorStr = None, payload = TaskDoc doc True\<rparr>)) \<and> d_task doc = 7 \<and> d_persist doc = Some True"
proof -
  let ?a = "\<lparr>status = 0, errorStr = None, payload = TaskId ''k''\<rparr> :: nat answer"
  have inv: "sched_inv empty_scheduler" unfolding empty_scheduler_def by (rule inv_init)
  have add: "mng_handleMsg sample_time [] (sec 1) (AddTask ''c'' (Some ''k'') (Some ''d'') 7 (every 30) (Some True) (Some True))
      empty_scheduler = Some (Inr (one_task, ?a))" "map_of (m_tasksMap empty_scheduler) ''k'' = None"
    by code_simp+
  have "status ?a = 0" "payload ?a = TaskId ''k''" by simp_all
  from added_task_reported[OF inv add(1) this add(2), where us = "[]" and t = 0] show ?thesis by (auto simp: opt_def)
qed

text \<open>
  An identifier in use by another client passes the check of \<open>mngScheduler_AddTask\<close>, which looks only for a task of
  the same client. The request is answered with status 0 and the identifier, but the task is not stored: the stored tasks are the same as before
  and \<open>mngScheduler_GetTask\<close> of the client fails. If the task was to be persistent, it has replaced the other client's task in its file; if it
  was to be started, the other client's task has got an additional execution.\<close>

theorem foreign_id_loses_task:
  assumes "sched_inv s" and "map_of (m_tasksMap s) k = Some other" "m_clientId other \<noteq> c" "k \<noteq> nil_uuid"
    and "new_record L c k task ts (opt False p) (opt False e) = Inr r"
  shows "\<exists>s'. mng_handleMsg L uuids now (AddTask c (Some k) desc task ts p e) s =
        Some (Inr (s', \<lparr>status = 0, errorStr = None, payload = TaskId k\<rparr>)) \<and>
      map_of (m_tasksMap s') = map_of (m_tasksMap s) \<and>
      (\<exists>m. mng_handleMsg L us t (GetTask c k) s' = Some (Inr (s', \<lparr>status = -1, errorStr = Some m, payload = NoData\<rparr>))) \<and>
      (opt False p \<longrightarrow> map_of (task_files s') (file_name k) = Some (Some (serialize (r\<lparr>m_description := opt [] desc\<rparr>)))) \<and>
      entries_of k (m_scheduledTasksMap s') = entries_of k (m_scheduledTasksMap s) + (if opt False e then 1 else 0)"
proof -
  note f = new_record_facts[OF assms(5)]
  let ?r = "r\<lparr>m_description := opt [] desc\<rparr>"
  let ?s' = "notifyWorker (addSchedulerTask L now ?r (opt False e) s)"
  have "find_task c k s = None" using assms(2,3) by (auto simp: find_task_def)
  then have add: "mng_handleMsg L uuids now (AddTask c (Some k) desc task ts p e) s =
      Some (Inr (?s', \<lparr>status = 0, errorStr = None, payload = TaskId k\<rparr>))"
    using assms(4,5) f
    by (simp add: mng_handleMsg_def run_request_def SchedulerAddTaskMsg_handleMsg_def getTask_def addTask_def getTaskHandle_def
        rethrow_def opt_def Let_def)
  have ok: "map_ok (m_tasksMap s)" "map_ok (task_files s)" "map_of (m_tasksMap s) (m_taskId ?r) = Some other"
    using assms(1,2) f by (simp_all add: sched_inv_defs)
  note after = tasks_after_add_used[OF ok(1,3), where L = L and now = now and start = "opt False e"]
  have m: "map_of (m_tasksMap ?s') = map_of (m_tasksMap s)" using after(1) by (simp add: notifyWorker_def)
  then have "find_task c k ?s' = None" using assms(2,3) by (auto simp: find_task_def)
  then have "\<exists>m. mng_handleMsg L us t (GetTask c k) ?s' = Some (Inr (?s', \<lparr>status = -1, errorStr = Some m, payload = NoData\<rparr>))"
    by (auto simp: mng_handleMsg_def run_request_def SchedulerGetTaskMsg_handleMsg_def getTaskDocument_def what_def)
  moreover have "entries_of k (m_scheduledTasksMap ?s') = entries_of k (m_scheduledTasksMap s) + (if opt False e then 1 else 0)"
    using after(2)[of k] f by (simp add: notifyWorker_def)
  moreover have "opt False p \<longrightarrow> map_of (task_files ?s') (file_name k) = Some (Some (serialize ?r))"
    using after(3)[OF ok(2)] f by (simp add: notifyWorker_def)
  ultimately show ?thesis using add m by blast
qed

theorem foreign_id_loses_task_witness:
  "\<exists>s'. mng_handleMsg sample_time [] (sec 3) (AddTask ''x'' (Some ''k'') None 8 (every 10) (Some True) None) one_task =
      Some (Inr (s', \<lparr>status = 0, errorStr = None, payload = TaskId ''k''\<rparr>)) \<and> map_of (m_tasksMap s') = map_of (m_tasksMap one_task)"
proof -
  let ?old = "snd (hd (m_tasksMap one_task))" and ?r = "projr (new_record sample_time ''x'' ''k'' (8 :: nat) (every 10) True False)"
  have "map_of (m_tasksMap one_task) ''k'' = Some ?old" "m_clientId ?old \<noteq> ''x''" "''k'' \<noteq> nil_uuid"
    "new_record sample_time ''x'' ''k'' 8 (every 10) (opt False (Some True)) (opt False None) = Inr ?r"
    by code_simp+
  from foreign_id_loses_task[OF inv_reachable[OF one_task_reached] this] show ?thesis by blast
qed

end
