(* ===== verification/Json_Splitter.thy ===== *)
theory Json_Splitter
  imports Json Std_Map Task_Queue Cpp_Std "HOL-Library.Product_Lexorder"
begin

text \<open>
  \<open>src/JsonSplitter\<close>: the component every API message passes through. Messages of the messagings are parsed, checked and
  put into one of two task queues; the workers of the queues hand them to the handler registered for their type; responses are
  validated and sent to the messagings. Parameters are the JSON parser and printer (\<open>json_lib\<close>) and
  the compiled schemas of the valijson library (\<open>schema\<close>: validity and the errors of a document).
\<close>

section \<open>Messagings\<close>

datatype MessagingType = MQTT | WS | UDP | SCHEDULER | TEST

primrec type_index :: "MessagingType \<Rightarrow> nat" where
  "type_index MQTT = 0"
| "type_index WS = 1"
| "type_index UDP = 2"
| "type_index SCHEDULER = 3"
| "type_index TEST = 4"

instantiation MessagingType :: linorder
begin

definition less_eq_MessagingType :: "MessagingType \<Rightarrow> MessagingType \<Rightarrow> bool" where
  "less_eq_MessagingType a b = (type_index a \<le> type_index b)"

definition less_MessagingType :: "MessagingType \<Rightarrow> MessagingType \<Rightarrow> bool" where
  "less_MessagingType a b = (type_index a < type_index b)"

instance
proof
  fix a b :: MessagingType
  show "a \<le> b \<Longrightarrow> b \<le> a \<Longrightarrow> a = b" by (cases a; cases b) (simp_all add: less_eq_MessagingType_def)
qed (auto simp: less_eq_MessagingType_def less_MessagingType_def)

end

primrec messagingTypeToString :: "MessagingType \<Rightarrow> string" where
  "messagingTypeToString MQTT = ''mqtt''"
| "messagingTypeToString WS = ''ws''"
| "messagingTypeToString UDP = ''udp''"
| "messagingTypeToString SCHEDULER = ''scheduler''"
| "messagingTypeToString TEST = ''test''"

definition messagingTypeFromString :: "string \<Rightarrow> MessagingType result" where
  "messagingTypeFromString t =
     (if t = ''mqtt'' then Inr MQTT else if t = ''ws'' then Inr WS else if t = ''udp'' then Inr UDP
      else if t = ''scheduler'' then Inr SCHEDULER else if t = ''test'' then Inr TEST
      else Inl (DomainError ''Unknown messaging type string.''))"

datatype client_session = NoSession | SessionId nat | SessionTopic string

record MessagingInstance =
  mi_type :: MessagingType
  mi_instance :: string
  clientSession :: client_session

text \<open>The comparison operators look at the type and the instance only.\<close>

definition mi_key :: "MessagingInstance \<Rightarrow> MessagingType \<times> string" where
  "mi_key m = (mi_type m, mi_instance m)"

definition to_string :: "MessagingInstance \<Rightarrow> string" where
  "to_string m = messagingTypeToString (mi_type m) @ ''-'' @ mi_instance m"

section \<open>Message types\<close>

record MsgType =
  m_type :: string
  m_major :: int
  m_minor :: int
  m_micro :: int
  m_possibleDriverFunction :: string

definition type_key :: "string \<Rightarrow> int \<Rightarrow> int \<Rightarrow> int \<Rightarrow> string" where
  "type_key t major minor micro = t @ ''.'' @ show_int major @ ''.'' @ show_int minor @ ''.'' @ show_int micro"

definition getKey :: "MsgType \<Rightarrow> string" where
  "getKey t = type_key (m_type t) (m_major t) (m_minor t) (m_micro t)"

text \<open>
  \<open>istr >> val\<close> for a decimal \<open>int\<close> variable with the value \<open>old\<close>: when the stream is not good, or holds nothing but white
  space, the variable keeps its value; otherwise no digit gives 0 and a value out of range the nearest limit, both
  with \<open>failbit\<close>.
\<close>

definition get_dec_int :: "int \<Rightarrow> istream \<Rightarrow> istream \<times> int" where
  "get_dec_int old st =
     (if is_eof st \<or> is_fail st then (st\<lparr>is_fail := True\<rparr>, old)
      else let s = dropWhile isspace (is_rest st) in
        if s = [] then (\<lparr>is_rest = [], is_eof = True, is_fail = True\<rparr>, old)
        else let (neg, s1) = split_sign s;
                 ds = takeWhile isdigit s1;
                 rest = dropWhile isdigit s1;
                 v = (if neg then - int (dec_value ds) else int (dec_value ds));
                 w = (if ds = [] then 0 else max (- (2 ^ 31)) (min (2 ^ 31 - 1) v))
             in (\<lparr>is_rest = rest, is_eof = (rest = []), is_fail = (ds = [] \<or> v \<noteq> w)\<rparr>, w))"

definition get_version :: "istream \<Rightarrow> int \<times> int \<times> int" where
  "get_version st =
     (let (st, major) = get_dec_int 1 st; (st, minor) = get_dec_int 0 st; (st, micro) = get_dec_int 0 st
      in (major, minor, micro))"

section \<open>State\<close>

record json_lib =
  j_parse :: "string \<Rightarrow> (string \<times> int) + json"
  j_write :: "json \<Rightarrow> string"

type_synonym schema = "json \<Rightarrow> bool \<times> string list"

record messaging_service =
  svc_id :: nat
  svc_instance :: MessagingInstance
  acceptAsyncMsg :: bool

type_synonym queued = "MessagingInstance \<times> string"

record 'h splitter =
  m_insId :: string
  m_validateResponse :: bool
  m_messagingList :: "MessagingInstance list"
  m_iMessagingServiceMap :: "((MessagingType \<times> string) \<times> messaging_service) list"
  m_filterMessageHandlerFuncMap :: "(string \<times> 'h) list"
  m_requestSchemaCache :: "(string \<times> schema) list"
  m_responseSchemaCache :: "(string \<times> schema) list"
  m_msgTypeToHandle :: "(string \<times> MsgType) list"
  m_managementQueueCapacity :: nat
  m_managementQueue :: "queued task_queue option"
  m_networkQueueCapacity :: nat
  m_networkQueue :: "queued task_queue option"

definition m_managementQueueWhitelist :: "string list" where
  "m_managementQueueWhitelist =
     [''cfgDaemon_Component'', ''iqrfDb_GetBinaryOutputs'', ''iqrfDb_GetDevice'', ''iqrfDb_GetDevices'',
      ''iqrfDb_GetDeviceMetadata'', ''iqrfDb_GetLights'', ''iqrfDb_GetNetworkTopology'', ''iqrfDb_GetSensors'',
      ''iqrfDb_MetadataAnnotation'', ''iqrfDb_SetDeviceMetadata'', ''iqrfSensorData_GetConfig'',
      ''iqrfSensorData_SetConfig'', ''iqrfSensorData_Status'', ''mngDaemon_Exit'', ''mngDaemon_Mode'',
      ''mngDaemon_StartNetworkQueue'', ''mngDaemon_StopNetworkQueue'', ''mngDaemon_UpdateCache'', ''mngDaemon_Version'',
      ''mngScheduler_AddTask'', ''mngScheduler_EditTask'', ''mngScheduler_GetTask'', ''mngScheduler_List'',
      ''mngScheduler_RemoveAll'', ''mngScheduler_RemoveTask'', ''mngScheduler_StartTask'', ''mngScheduler_StopTask'',
      ''ntfDaemon_InvokeMonitor'']"

section \<open>Error messages\<close>

datatype ErrorMsgCodes =
    General | JsonParse | MissingMessageType | Validation | ManagementQueueInactive | ManagementQueueFull
  | NetworkQueueInactive | NetworkQueueFull | UnexpectedAuth

primrec error_code :: "ErrorMsgCodes \<Rightarrow> int" where
  "error_code General = 1"
| "error_code JsonParse = 2"
| "error_code MissingMessageType = 3"
| "error_code Validation = 4"
| "error_code ManagementQueueInactive = 5"
| "error_code ManagementQueueFull = 6"
| "error_code NetworkQueueInactive = 7"
| "error_code NetworkQueueFull = 8"
| "error_code UnexpectedAuth = 9"

abbreviation mtype_ptr :: "string list" where "mtype_ptr \<equiv> [''mType'']"
abbreviation msgId_ptr :: "string list" where "msgId_ptr \<equiv> [''data'', ''msgId'']"
abbreviation insId_ptr :: "string list" where "insId_ptr \<equiv> [''data'', ''insId'']"
abbreviation status_ptr :: "string list" where "status_ptr \<equiv> [''data'', ''status'']"
abbreviation rsp_ptr :: "string \<Rightarrow> string list" where "rsp_ptr k \<equiv> [''data'', ''rsp'', k]"

text \<open>The members of an error document, in the order they are set.\<close>

definition error_doc :: "string \<Rightarrow> (string \<times> json) list \<Rightarrow> ErrorMsgCodes \<Rightarrow> string \<Rightarrow> json" where
  "error_doc msgId rsp code text =
     jset_all ([(mtype_ptr, JStr ''messageError''), (msgId_ptr, JStr msgId)]
       @ map (\<lambda>(k, v). (rsp_ptr k, v)) rsp
       @ [(status_ptr, JNum (error_code code)), ([''data'', ''statusStr''], JStr text)]) (JObj [])"

definition GeneralErrorMsg :: "string \<Rightarrow> string \<Rightarrow> string \<Rightarrow> json" where
  "GeneralErrorMsg msgId msg err = error_doc msgId [(''message'', JStr msg), (''error'', JStr err)] General
     ''An error has occurred while handling request.''"

definition JsonParseErrorMsg :: "string \<Rightarrow> string \<Rightarrow> int \<Rightarrow> json" where
  "JsonParseErrorMsg msg err offset =
     error_doc ''unknown'' [(''message'', JStr msg), (''error'', JStr err), (''offset'', JNum offset)] JsonParse
       ''Failed to parse JSON message.''"

definition MissingMTypeMsg :: "string \<Rightarrow> string \<Rightarrow> json" where
  "MissingMTypeMsg msgId msg = error_doc msgId [(''message'', JStr msg)] MissingMessageType ''mType missing in JSON message.''"

definition ValidationErrorMsg :: "string \<Rightarrow> string \<Rightarrow> string \<Rightarrow> json" where
  "ValidationErrorMsg msgId msg err = error_doc msgId [(''message'', JStr msg), (''error'', JStr err)] Validation
     ''Failed to validate JSON message contents.''"

definition MessageQueueNotInitializedErrorMsg :: "string \<Rightarrow> string \<Rightarrow> bool \<Rightarrow> json" where
  "MessageQueueNotInitializedErrorMsg msgId mType networkQueue =
     error_doc msgId [(''ignoredMessage'', JStr mType)]
       (if networkQueue then NetworkQueueInactive else ManagementQueueInactive)
       (if networkQueue then ''Network queue is not initialized.'' else ''Management queue is not initialized.'')"

definition MessageQueueFullErrorMsg :: "string \<Rightarrow> string \<Rightarrow> bool \<Rightarrow> nat \<Rightarrow> json" where
  "MessageQueueFullErrorMsg msgId mType networkQueue capacity =
     error_doc msgId [(''ignoredMessage'', JStr mType), (''capacity'', JNum (int capacity))]
       (if networkQueue then NetworkQueueFull else ManagementQueueFull)
       (if networkQueue then ''Network queue is full.'' else ''Management queue is full.'')"

definition UnexpectedAuthMsg :: json where
  "UnexpectedAuthMsg = error_doc ''auth'' [(''error'', JStr ''Received a duplicate or unexpected auth message.'')]
     UnexpectedAuth ''Unexpected auth message.''"

section \<open>Sending\<close>

definition isAuthMessage :: "json \<Rightarrow> bool result" where
  "isAuthMessage doc =
     bind_r (FindMember ''type'' doc) (\<lambda>t. bind_r (FindMember ''token'' doc) (\<lambda>k.
       Inr (length (members doc) = 2 \<and> (case t of Some (JStr s) \<Rightarrow> c_str s = ''auth'' | _ \<Rightarrow> False) \<and> (case k of Some (JStr _) \<Rightarrow> True | _ \<Rightarrow> False))))"

definition getMessageType :: "'h splitter \<Rightarrow> json \<Rightarrow> MsgType result" where
  "getMessageType sp doc =
     (case jget mtype_ptr doc of
        None \<Rightarrow> Inl (LogicError ''Missing message type'')
      | Some mTypeVal \<Rightarrow>
          bind_r (GetString mTypeVal) (\<lambda>mType.
          bind_r (case jget [''ver''] doc of
                    None \<Rightarrow> Inr (1, 0, 0)
                  | Some verVal \<Rightarrow> bind_r (GetString verVal) (\<lambda>ver.
                      Inr (get_version (istringstream (replace_char CHR ''.'' CHR '' '' ver)))))
            (\<lambda>(major, minor, micro).
              case map_of (m_msgTypeToHandle sp) (type_key mType major minor micro) of
                None \<Rightarrow> Inl (LogicError (''Unsupported message type: '' @ mType))
              | Some t \<Rightarrow> Inr t)))"

definition validate :: "MsgType \<Rightarrow> json \<Rightarrow> (string \<times> schema) list \<Rightarrow> string \<Rightarrow> unit result" where
  "validate t doc schemas direction =
     (case map_of schemas (getKey t) of
        None \<Rightarrow> Inl (LogicError (''Invalid '' @ direction @ '': cannot find validator''))
      | Some sc \<Rightarrow>
          (let (valid, errors) = sc doc in
           if \<not> valid \<and> errors \<noteq> [] then 
             Inl (LogicError (''Failed to validate '' @ direction @ '' message. Violating member: '' @ hd errors))
           else Inr ()))"

text \<open>What a messaging service is asked to send: the service, the messaging with its topic and session, the text.\<close>

type_synonym sent = "nat \<times> MessagingInstance \<times> string"

fun unique :: "MessagingInstance list \<Rightarrow> MessagingInstance list" where
  "unique (a # b # ms) = (if mi_key a = mi_key b then unique (a # ms) else a # unique (b # ms))"
| "unique ms = ms"

definition service_of :: "'h splitter \<Rightarrow> MessagingInstance \<Rightarrow> messaging_service option" where
  "service_of sp m = map_of (m_iMessagingServiceMap sp) (mi_type m, takeWhile (\<lambda>c. c \<noteq> CHR ''/'') (mi_instance m))"

definition recipients :: "'h splitter \<Rightarrow> MessagingInstance list \<Rightarrow> (nat \<times> MessagingInstance) list" where
  "recipients sp messagingList =
     (if messagingList = [] \<and> m_messagingList sp = [] then
        map (\<lambda>(k, v). (svc_id v, svc_instance v)) (filter (\<lambda>(k, v). acceptAsyncMsg v) (m_iMessagingServiceMap sp))
      else
        List.map_filter (\<lambda>m. map_option (\<lambda>v. (svc_id v, m)) (service_of sp m))
          (unique (sort_key mi_key (if messagingList = [] then m_messagingList sp else messagingList))))"

definition sendMessage :: "json_lib \<Rightarrow> 'h splitter \<Rightarrow> MessagingInstance list \<Rightarrow> json \<Rightarrow> sent list result" where
  "sendMessage L sp messagingList doc =
     (let doc = jset insId_ptr (JStr (m_insId sp)) doc in
      bind_r (getMessageType sp doc) (\<lambda>t.
      bind_r (if m_validateResponse sp then validate t doc (m_responseSchemaCache sp) ''response'' else Inr ()) (\<lambda>_.
        Inr (map (\<lambda>(i, m). (i, m, j_write L doc)) (recipients sp messagingList)))))"

section \<open>Messages from the messagings\<close>

definition handleManagementMessageFromMessaging ::
    "json_lib \<Rightarrow> 'h splitter \<Rightarrow> MessagingInstance \<Rightarrow> string \<Rightarrow> string \<Rightarrow> string \<Rightarrow> ('h splitter \<times> sent list) result" where
  "handleManagementMessageFromMessaging L sp m message mType msgId =
     (case m_managementQueue sp of
        None \<Rightarrow> bind_r (sendMessage L sp [m] (MessageQueueNotInitializedErrorMsg msgId mType False)) (\<lambda>out. Inr (sp, out))
      | Some q \<Rightarrow>
          if tq_size q < m_managementQueueCapacity sp
          then Inr (sp\<lparr>m_managementQueue := Some (fst (pushToQueue (m, message) q))\<rparr>, [])
          else bind_r (sendMessage L sp [m] (MessageQueueFullErrorMsg msgId mType False (m_managementQueueCapacity sp)))
                 (\<lambda>out. Inr (sp, out)))"

definition handleNetworkMessageFromMessaging ::
    "json_lib \<Rightarrow> 'h splitter \<Rightarrow> MessagingInstance \<Rightarrow> string \<Rightarrow> string \<Rightarrow> string \<Rightarrow> ('h splitter \<times> sent list) result" where
  "handleNetworkMessageFromMessaging L sp m message mType msgId =
     (case m_networkQueue sp of
        None \<Rightarrow> bind_r (sendMessage L sp [m] (MessageQueueNotInitializedErrorMsg msgId mType True)) (\<lambda>out. Inr (sp, out))
      | Some q \<Rightarrow>
          if tq_size q < m_networkQueueCapacity sp
          then Inr (sp\<lparr>m_networkQueue := Some (fst (pushToQueue (m, message) q))\<rparr>, [])
          else bind_r (sendMessage L sp [m] (MessageQueueFullErrorMsg msgId mType True (m_networkQueueCapacity sp)))
                 (\<lambda>out. Inr (sp, out)))"

text \<open>The body of the \<open>try\<close> block, with the value of \<open>msgId\<close> when it is left.\<close>

definition route ::
    "json_lib \<Rightarrow> 'h splitter \<Rightarrow> MessagingInstance \<Rightarrow> string \<Rightarrow> string \<times> ('h splitter \<times> sent list) result" where
  "route L sp m message =
     (let send = (\<lambda>doc. bind_r (sendMessage L sp [m] doc) (\<lambda>out. Inr (sp, out))) in
      case j_parse L (c_str message) of
        Inl (err, offset) \<Rightarrow> (''unknown'', send (JsonParseErrorMsg message err offset))
      | Inr doc \<Rightarrow>
          (case isAuthMessage doc of
             Inl e \<Rightarrow> (''unknown'', Inl e)
           | Inr True \<Rightarrow> (''unknown'', send UnexpectedAuthMsg)
           | Inr False \<Rightarrow>
               (let (v, doc) = get_with_default msgId_ptr (JStr ''unknown'') doc in
                case GetString v of
                  Inl e \<Rightarrow> (''unknown'', Inl e)
                | Inr msgId \<Rightarrow>
                    (msgId,
                     bind_r (FindMember ''mType'' doc) (\<lambda>found.
                       if found = None then send (MissingMTypeMsg msgId message)
                       else
                         bind_r (getMessageType sp doc) (\<lambda>t.
                           case validate t doc (m_requestSchemaCache sp) ''request'' of
                             Inl (LogicError e) \<Rightarrow> send (ValidationErrorMsg msgId message e)
                           | Inl e \<Rightarrow> Inl e
                           | Inr _ \<Rightarrow>
                               if m_type t \<in> set m_managementQueueWhitelist
                               then handleManagementMessageFromMessaging L sp m message (m_type t) msgId
                               else handleNetworkMessageFromMessaging L sp m message (m_type t) msgId))))))"

definition handleMessageFromMessaging ::
    "json_lib \<Rightarrow> 'h splitter \<Rightarrow> MessagingInstance \<Rightarrow> string \<Rightarrow> ('h splitter \<times> sent list) result" where
  "handleMessageFromMessaging L sp m message =
     (case route L sp m message of
        (msgId, Inr r) \<Rightarrow> Inr r
      | (msgId, Inl e) \<Rightarrow>
          (case what e of
             None \<Rightarrow> Inl e
           | Some w \<Rightarrow>
               (case sendMessage L sp [m] (GeneralErrorMsg msgId message w) of
                  Inr out \<Rightarrow> Inr (sp, out)
                | Inl ee \<Rightarrow> if what ee = None then Inl ee else Inr (sp, []))))"

section \<open>Messages from the queues\<close>

text \<open>The longest filter that occurs in the message type, the first one in the order of the map among equally long ones.\<close>

fun best_fit :: "(string \<times> 'h) list \<Rightarrow> nat \<Rightarrow> 'h option \<Rightarrow> 'h option" where
  "best_fit [] len selected = selected"
| "best_fit ((f, h) # fits) len selected =
     (if len < length f then best_fit fits (length f) (Some h) else best_fit fits len selected)"

definition fitting :: "'h splitter \<Rightarrow> string \<Rightarrow> (string \<times> 'h) list" where
  "fitting sp mType = filter (\<lambda>(f, h). str_find mType f 0 \<noteq> None) (m_filterMessageHandlerFuncMap sp)"

text \<open>
  \<open>call\<close> is the effect of invoking a handler: the exception it leaves with, if any. The second component is the
  invocation made. An empty \<open>std::function\<close> throws \<open>std::bad_function_call\<close>.
\<close>

definition invoke ::
    "('h \<Rightarrow> MessagingInstance \<Rightarrow> MsgType \<Rightarrow> json \<Rightarrow> unit result) \<Rightarrow> 'h option \<Rightarrow> MessagingInstance \<Rightarrow> MsgType \<Rightarrow> json \<Rightarrow>
     ('h \<times> MessagingInstance \<times> MsgType \<times> json) list \<times> unit result" where
  "invoke call selected m t doc =
     (case selected of
        None \<Rightarrow> ([], Inl (LogicError ''Unhandled exception: bad_function_call''))
      | Some h \<Rightarrow>
          ([(h, m, t, doc)],
           case call h m t doc of
             Inl e \<Rightarrow> (case what e of None \<Rightarrow> Inl e | Some w \<Rightarrow> Inl (LogicError (''Unhandled exception: '' @ w)))
           | Inr _ \<Rightarrow> Inr ()))"

definition stop_on_exit :: "string \<Rightarrow> 'h splitter \<Rightarrow> 'h splitter" where
  "stop_on_exit mType sp =
     (if mType = ''mngDaemon_Exit'' then sp\<lparr>m_networkQueue := map_option stopQueue (m_networkQueue sp)\<rparr> else sp)"

text \<open>For the exit message the pointer to the network queue is used without a check.\<close>

definition dispatch_message ::
    "('h \<Rightarrow> MessagingInstance \<Rightarrow> MsgType \<Rightarrow> json \<Rightarrow> unit result) \<Rightarrow> 'h splitter \<Rightarrow> MessagingInstance \<Rightarrow> json \<Rightarrow>
     'h splitter \<times> ('h \<times> MessagingInstance \<times> MsgType \<times> json) list \<times> unit result" where
  "dispatch_message call sp m doc =
     (case getMessageType sp doc of
        Inl e \<Rightarrow> (sp, [], Inl e)
      | Inr t \<Rightarrow>
          if m_type t = ''mngDaemon_Exit'' \<and> m_networkQueue sp = None then (sp, [], Inl (UB ''nullptr''))
          else (let sp = stop_on_exit (m_type t) sp; fits = fitting sp (m_type t)
           in if fits \<noteq> [] then (sp, invoke call (best_fit fits 0 None) m t doc)
              else (sp, [], Inl (LogicError ''Unsupported: ''))))"

definition handleMessageFromSplitterQueue ::
    "json_lib \<Rightarrow> ('h \<Rightarrow> MessagingInstance \<Rightarrow> MsgType \<Rightarrow> json \<Rightarrow> unit result) \<Rightarrow> 'h splitter \<Rightarrow> MessagingInstance \<Rightarrow> string \<Rightarrow>
     'h splitter \<times> ('h \<times> MessagingInstance \<times> MsgType \<times> json) list \<times> sent list result" where
  "handleMessageFromSplitterQueue L call sp m message =
     (let (v, doc) = get_with_default msgId_ptr (JStr ''unknown'')
                       (case j_parse L (c_str message) of Inl _ \<Rightarrow> JNull | Inr d \<Rightarrow> d)
      in case GetString v of
           Inl e \<Rightarrow> (sp, [], Inl e)
         | Inr msgId \<Rightarrow>
             (case dispatch_message call sp m doc of
                (sp, calls, Inr _) \<Rightarrow> (sp, calls, Inr [])
              | (sp, calls, Inl (LogicError w)) \<Rightarrow>
                  (sp, calls,
                   (case sendMessage L sp [m] (GeneralErrorMsg msgId message w) of
                      Inl (LogicError _) \<Rightarrow> Inr []
                    | r \<Rightarrow> r))
              | (sp, calls, Inl e) \<Rightarrow> (sp, calls, Inl e)))"

text \<open>The splitter's own handler for the two messages that start and stop the network queue.\<close>

definition startQueue :: "'t task_queue \<Rightarrow> 't task_queue" where
  "startQueue q = startQueue_write (startQueue_read q)"

definition handleNetworkQueueMessages ::
    "json_lib \<Rightarrow> 'h splitter \<Rightarrow> MessagingInstance \<Rightarrow> MsgType \<Rightarrow> json \<Rightarrow> 'h splitter \<times> sent list result" where
  "handleNetworkQueueMessages L sp m t rq =
     (let start = (m_type t = ''mngDaemon_StartNetworkQueue''); stop = (m_type t = ''mngDaemon_StopNetworkQueue'');
          rsp = jset_all
            [(mtype_ptr, JStr (m_type t)),
             (msgId_ptr, fst (get_with_default msgId_ptr (JStr ''unknown'') rq)),
             (status_ptr, JNum 0), ([''data'', ''statusStr''], JStr ''ok'')] JNull
      in case m_networkQueue sp of
           None \<Rightarrow> if start \<or> stop then (sp, Inl (UB ''nullptr'')) else (sp, sendMessage L sp [m] rsp)
         | Some q \<Rightarrow>
             (let sp = (if start \<and> \<not> isActive q then sp\<lparr>m_networkQueue := Some (startQueue q)\<rparr>
                        else if stop \<and> isActive q then sp\<lparr>m_networkQueue := Some (stopQueue q)\<rparr>
                        else sp)
              in (sp, sendMessage L sp [m] rsp)))"

section \<open>Registration\<close>

definition registerFilteredMsgHandler :: "string list \<Rightarrow> 'h \<Rightarrow> 'h splitter \<Rightarrow> 'h splitter" where
  "registerFilteredMsgHandler filters h sp =
     sp\<lparr>m_filterMessageHandlerFuncMap := fold (\<lambda>f m. map_insert f h m) filters (m_filterMessageHandlerFuncMap sp)\<rparr>"

definition unregisterFilteredMsgHandler :: "string list \<Rightarrow> 'h splitter \<Rightarrow> 'h splitter" where
  "unregisterFilteredMsgHandler filters sp =
     sp\<lparr>m_filterMessageHandlerFuncMap := fold map_erase filters (m_filterMessageHandlerFuncMap sp)\<rparr>"

definition attachMessaging :: "messaging_service \<Rightarrow> 'h splitter \<Rightarrow> 'h splitter" where
  "attachMessaging v sp =
     (if map_of (m_iMessagingServiceMap sp) (mi_key (svc_instance v)) \<noteq> None then sp
      else sp\<lparr>m_iMessagingServiceMap := map_insert (mi_key (svc_instance v)) v (m_iMessagingServiceMap sp)\<rparr>)"

definition detachMessaging :: "messaging_service \<Rightarrow> 'h splitter \<Rightarrow> 'h splitter" where
  "detachMessaging v sp =
     (case map_of (m_iMessagingServiceMap sp) (mi_key (svc_instance v)) of
        Some found \<Rightarrow> if svc_id found = svc_id v
          then sp\<lparr>m_iMessagingServiceMap := map_erase (mi_key (svc_instance v)) (m_iMessagingServiceMap sp)\<rparr> else sp
      | None \<Rightarrow> sp)"

definition getManagementQueueLen :: "'h splitter \<Rightarrow> int" where
  "getManagementQueueLen sp = (case m_managementQueue sp of None \<Rightarrow> -1 | Some q \<Rightarrow> int (tq_size q))"

definition getNetworkQueueLen :: "'h splitter \<Rightarrow> int" where
  "getNetworkQueueLen sp = (case m_networkQueue sp of None \<Rightarrow> -1 | Some q \<Rightarrow> int (tq_size q))"

section \<open>Schemas\<close>

text \<open>
  A schema file: its path, the message type in it (\<open>/properties/mType/enum/0\<close>) if the file parses and has one, and the compiled schema if
  valijson accepts it.
\<close>

record schema_file =
  sf_path :: string
  sf_mType :: "string option"
  sf_schema :: "schema option"

definition base_name :: "string \<Rightarrow> string" where
  "base_name path = rev (takeWhile (\<lambda>c. c \<noteq> CHR ''/'' \<and> c \<noteq> CHR 0x5C) (rev path))"

text \<open>\<open>os >> word\<close>: the next word, and the stream after it; the variable keeps its value when there is none.\<close>

definition get_word :: "string \<Rightarrow> istream \<Rightarrow> istream \<times> string" where
  "get_word old st =
     (if is_eof st \<or> is_fail st then (st\<lparr>is_fail := True\<rparr>, old)
      else let s = dropWhile isspace (is_rest st) in
        if s = [] then (\<lparr>is_rest = [], is_eof = True, is_fail = True\<rparr>, old)
        else let rest = dropWhile (\<lambda>c. \<not> isspace c) s
             in (\<lparr>is_rest = rest, is_eof = (rest = []), is_fail = False\<rparr>, takeWhile (\<lambda>c. \<not> isspace c) s))"

definition schema_name :: "string \<Rightarrow> string \<times> string \<times> int \<times> int \<times> int" where
  "schema_name path =
     (let st = istringstream (replace_char CHR ''.'' CHR '' '' (replace_char CHR ''-'' CHR ''.'' (base_name path)));
          (st, fileN) = get_word [] st; (st, direction) = get_word [] st
      in (fileN, direction, get_version st))"

definition upper :: "char \<Rightarrow> bool" where
  "upper c = (65 \<le> char_code c \<and> char_code c \<le> 90)"

definition lower_of :: "char \<Rightarrow> char" where
  "lower_of c = char_of (char_code c + 32)"

fun driver_function :: "bool \<Rightarrow> string \<Rightarrow> string" where
  "driver_function stop [] = []"
| "driver_function stop (c # cs) =
     (if \<not> stop \<and> upper c then [CHR ''.'', lower_of c] else [c]) @ driver_function (stop \<or> c = CHR ''_'') cs"

definition possibleDriverFunction :: "string \<Rightarrow> string" where
  "possibleDriverFunction fileN = replace_char CHR ''_'' CHR ''.'' (driver_function False fileN)"

text \<open>\<open>insert\<close> of an unordered map keeps an existing entry.\<close>

definition keep_insert :: "string \<Rightarrow> 'v \<Rightarrow> (string \<times> 'v) list \<Rightarrow> (string \<times> 'v) list" where
  "keep_insert k v m = (if map_of m k = None then m @ [(k, v)] else m)"

definition load_schema :: "schema_file \<Rightarrow> 'h splitter \<Rightarrow> 'h splitter" where
  "load_schema f sp =
     (case (sf_mType f, sf_schema f) of
        (Some mType, Some sc) \<Rightarrow>
          (let (fileN, direction, major, minor, micro) = schema_name (sf_path f);
               t = \<lparr>m_type = mType, m_major = major, m_minor = minor, m_micro = micro,
                    m_possibleDriverFunction = possibleDriverFunction fileN\<rparr>;
               sp = (if direction = ''request''
                     then sp\<lparr>m_requestSchemaCache := keep_insert (getKey t) sc (m_requestSchemaCache sp)\<rparr>
                     else if direction = ''response''
                     then sp\<lparr>m_responseSchemaCache := keep_insert (getKey t) sc (m_responseSchemaCache sp)\<rparr> else sp)
           in sp\<lparr>m_msgTypeToHandle := map_insert (getKey t) t (m_msgTypeToHandle sp)\<rparr>)
      | _ \<Rightarrow> sp)"

definition loadJsonSchemesRequest :: "schema_file list \<Rightarrow> 'h splitter \<Rightarrow> 'h splitter" where
  "loadJsonSchemesRequest files sp = fold load_schema files sp"

section \<open>Configuration and life cycle\<close>

text \<open>
  The properties of the component: the results of \<open>getMemberAsString\<close> and \<open>getMemberAsBool\<close>, which leave the variable as it is for a missing
  member, and the whole document.
\<close>

record properties =
  pr_insId :: "string option"
  pr_validateJsonResponse :: "bool option"
  pr_json :: json

text \<open>The loop over the list of messagings, with the list filled so far when it is left by an exception.\<close>

fun read_messagings :: "json list \<Rightarrow> MessagingInstance list \<Rightarrow> MessagingInstance list \<times> unit result" where
  "read_messagings [] ms = (ms, Inr ())"
| "read_messagings (v # vs) ms =
     (case bind_r (case jget [''type''] v of None \<Rightarrow> Inl (UB ''nullptr'') | Some t \<Rightarrow> GetString t) (\<lambda>t.
           bind_r (case jget [''instance''] v of None \<Rightarrow> Inl (UB ''nullptr'') | Some i \<Rightarrow> GetString i) (\<lambda>i.
           bind_r (messagingTypeFromString t) (\<lambda>ty. Inr \<lparr>mi_type = ty, mi_instance = i, clientSession = NoSession\<rparr>))) of
        Inl e \<Rightarrow> (ms, Inl e)
      | Inr m \<Rightarrow> read_messagings vs (ms @ [m]))"

definition read_capacity :: "string \<Rightarrow> json \<Rightarrow> nat \<Rightarrow> nat" where
  "read_capacity k doc old =
     (case jget [k] doc of Some (JNum n) \<Rightarrow> if 0 \<le> n \<and> n < 2 ^ 64 then nat n else old | _ \<Rightarrow> old)"

definition modify :: "properties \<Rightarrow> 'h splitter \<Rightarrow> 'h splitter \<times> unit result" where
  "modify props sp =
     (let sp = sp\<lparr>m_insId := (case pr_insId props of None \<Rightarrow> m_insId sp | Some i \<Rightarrow> i),
                  m_validateResponse := (case pr_validateJsonResponse props of None \<Rightarrow> m_validateResponse sp | Some b \<Rightarrow> b)\<rparr>;
          doc = pr_json props;
          (ms, r) = (case jget [''messagingList''] doc of Some (JArr vs) \<Rightarrow> read_messagings vs [] | _ \<Rightarrow> ([], Inr ()))
      in case r of
           Inl e \<Rightarrow> (sp\<lparr>m_messagingList := ms\<rparr>, Inl e)
         | Inr _ \<Rightarrow>
             (sp\<lparr>m_messagingList := unique (sort_key mi_key ms),
                 m_managementQueueCapacity := read_capacity ''managementQueueCapacity'' doc (m_managementQueueCapacity sp),
                 m_networkQueueCapacity := read_capacity ''networkQueueCapacity'' doc (m_networkQueueCapacity sp)\<rparr>, Inr ()))"

text \<open>\<open>own\<close> is the splitter's handler for the messages of the network queue.\<close>

definition activate :: "properties \<Rightarrow> schema_file list \<Rightarrow> 'h \<Rightarrow> 'h splitter \<Rightarrow> 'h splitter \<times> unit result" where
  "activate props files own sp =
     (case modify props sp of
        (sp, Inl e) \<Rightarrow> (sp, Inl e)
      | (sp, Inr _) \<Rightarrow>
          (let sp = loadJsonSchemesRequest files sp;
               sp = sp\<lparr>m_managementQueue := Some new_TaskQueue, m_networkQueue := Some new_TaskQueue\<rparr>
           in (registerFilteredMsgHandler [''mngDaemon_StartNetworkQueue'', ''mngDaemon_StopNetworkQueue''] own sp, Inr ())))"

end
