(* ===== verification/Splitter_Props.thy ===== *)
theory Splitter_Props
  imports Json_Splitter
begin

text \<open>
  What the splitter decides about a message, stated without its documents and exceptions (\<open>verdict\<close>), and that the
  code takes this decision; the bound of the queues; which handler gets a message; who receives a response.
\<close>

section \<open>Error documents\<close>

lemma error_doc_fields:
  "jget mtype_ptr (error_doc i rsp c t) = Some (JStr ''messageError'')" "jget [''ver''] (error_doc i rsp c t) = None"
  "jget status_ptr (error_doc i rsp c t) = Some (JNum (error_code c))" "jget msgId_ptr (error_doc i rsp c t) = Some (JStr i)"
proof -
  let ?rest = "map (\<lambda>(k, v). (rsp_ptr k, v)) rsp @ [(status_ptr, JNum (error_code c)), ([''data'', ''statusStr''], JStr t)]"
  have "\<forall>(p, v)\<in>set ((msgId_ptr, JStr i) # ?rest). apart p mtype_ptr" by (auto simp: split_beta)
  from jset_all_read[OF this, of "[]"] show "jget mtype_ptr (error_doc i rsp c t) = Some (JStr ''messageError'')"
    by (simp add: error_doc_def)
  have "\<forall>(p, v)\<in>set ((mtype_ptr, JStr ''messageError'') # (msgId_ptr, JStr i) # ?rest). apart p [''ver'']" by (auto simp: split_beta)
  from jset_all_other[OF this] show "jget [''ver''] (error_doc i rsp c t) = None"
    by (simp add: error_doc_def jget.simps)
  have "\<forall>(p, v)\<in>set ?rest. apart p msgId_ptr" by (auto simp: split_beta)
  from jset_all_read[OF this, of "[(mtype_ptr, JStr ''messageError'')]"]
  show "jget msgId_ptr (error_doc i rsp c t) = Some (JStr i)" by (simp add: error_doc_def)
  have "\<forall>(p, v)\<in>set [([''data'', ''statusStr''], JStr t)]. apart p status_ptr" by simp
  from jset_all_read[OF this, of "(mtype_ptr, JStr ''messageError'') # (msgId_ptr, JStr i) # map (\<lambda>(k, v). (rsp_ptr k, v)) rsp"]
  show "jget status_ptr (error_doc i rsp c t) = Some (JNum (error_code c))" by (simp add: error_doc_def)
qed

text \<open>
  The schemas contain the type \<open>messageError\<close> in version 1.0.0, and its response schema accepts the error
  documents.
\<close>

definition errors_sendable :: "'h splitter \<Rightarrow> bool" where
  "errors_sendable sp \<longleftrightarrow>
     (\<exists>t. map_of (m_msgTypeToHandle sp) ''messageError.1.0.0'' = Some t \<and>
       (m_validateResponse sp \<longrightarrow> (\<exists>sc. map_of (m_responseSchemaCache sp) (getKey t) = Some sc \<and>
          (\<forall>d. jget mtype_ptr d = Some (JStr ''messageError'') \<longrightarrow> fst (sc d)))))"

definition is_error :: "string \<Rightarrow> ErrorMsgCodes \<Rightarrow> json \<Rightarrow> bool" where
  "is_error msgId c d \<longleftrightarrow> jget mtype_ptr d = Some (JStr ''messageError'') \<and> jget status_ptr d = Some (JNum (error_code c)) \<and>
     jget msgId_ptr d = Some (JStr msgId)"

lemma recipients_one:
  "service_of sp m = Some v \<Longrightarrow> recipients sp [m] = [(svc_id v, m)]"
  by (simp add: recipients_def List.map_filter_def)

lemma error_sent:
  assumes ok: "errors_sendable sp" and v: "service_of sp m = Some v"
  shows "\<exists>d. sendMessage L sp [m] (error_doc i rsp c t) = Inr [(svc_id v, m, j_write L d)] \<and> is_error i c d"
proof -
  let ?d = "jset insId_ptr (JStr (m_insId sp)) (error_doc i rsp c t)"
  have other: "jget p ?d = jget p (error_doc i rsp c t)" if "apart insId_ptr p" for p
    using that by (rule jget_jset_apart)
  have f: "jget mtype_ptr ?d = Some (JStr ''messageError'')" "jget [''ver''] ?d = None"
    "jget status_ptr ?d = Some (JNum (error_code c))" "jget msgId_ptr ?d = Some (JStr i)"
    using other[of mtype_ptr] other[of "[''ver'']"] other[of status_ptr] other[of msgId_ptr] by (simp_all add: error_doc_fields)
  have key: "type_key ''messageError'' 1 0 0 = ''messageError.1.0.0''" by code_simp
  obtain ty where ty: "map_of (m_msgTypeToHandle sp) ''messageError.1.0.0'' = Some ty"
    "m_validateResponse sp \<longrightarrow> (\<exists>sc. map_of (m_responseSchemaCache sp) (getKey ty) = Some sc \<and> fst (sc ?d))"
    using ok f(1) unfolding errors_sendable_def by blast
  have "getMessageType sp ?d = Inr ty"
    using f ty(1) key by (simp add: getMessageType_def GetString_def c_str_def)
  moreover have "m_validateResponse sp \<Longrightarrow> validate ty ?d (m_responseSchemaCache sp) ''response'' = Inr ()"
    using ty(2) by (auto simp: validate_def split_beta)
  ultimately have "sendMessage L sp [m] (error_doc i rsp c t) = Inr [(svc_id v, m, j_write L ?d)]"
    using recipients_one[OF v] by (simp add: sendMessage_def Let_def)
  then show ?thesis using f by (auto simp: is_error_def)
qed

section \<open>The decision about a message\<close>

datatype verdict = Accepted bool | Rejected ErrorMsgCodes

text \<open>The type of a document, if the daemon supports it.\<close>

definition supported_type :: "'h splitter \<Rightarrow> json \<Rightarrow> MsgType option" where
  "supported_type sp doc = (case getMessageType sp doc of Inr t \<Rightarrow> Some t | Inl _ \<Rightarrow> None)"

definition queue_verdict :: "bool \<Rightarrow> 'h splitter \<Rightarrow> verdict" where
  "queue_verdict management sp =
     (let q = (if management then m_managementQueue sp else m_networkQueue sp);
          cap = (if management then m_managementQueueCapacity sp else m_networkQueueCapacity sp)
      in case q of
           None \<Rightarrow> Rejected (if management then ManagementQueueInactive else NetworkQueueInactive)
         | Some q \<Rightarrow> if tq_size q < cap then Accepted management
                     else Rejected (if management then ManagementQueueFull else NetworkQueueFull))"

definition with_msgId :: "json \<Rightarrow> json" where
  "with_msgId doc = snd (get_with_default msgId_ptr (JStr ''unknown'') doc)"

definition verdict :: "json_lib \<Rightarrow> 'h splitter \<Rightarrow> string \<Rightarrow> verdict" where
  "verdict L sp message =
     (case j_parse L (c_str message) of
        Inl _ \<Rightarrow> Rejected JsonParse
      | Inr doc \<Rightarrow>
          if isAuthMessage doc = Inr True then Rejected UnexpectedAuth
          else if jmember ''mType'' doc = None then Rejected MissingMessageType
          else case supported_type sp (with_msgId doc) of
                 None \<Rightarrow> Rejected General
               | Some t \<Rightarrow>
                   if validate t (with_msgId doc) (m_requestSchemaCache sp) ''request'' \<noteq> Inr () then Rejected Validation
                   else queue_verdict (m_type t \<in> set m_managementQueueWhitelist) sp)"

text \<open>The documents whose members have the types the code expects before it validates them.\<close>

definition text_or_absent :: "string list \<Rightarrow> json \<Rightarrow> bool" where
  "text_or_absent p doc \<longleftrightarrow> (case jget p doc of None \<Rightarrow> True | Some (JStr _) \<Rightarrow> True | _ \<Rightarrow> False)"

definition readable :: "json_lib \<Rightarrow> string \<Rightarrow> bool" where
  "readable L message \<longleftrightarrow>
     (case j_parse L (c_str message) of
        Inl _ \<Rightarrow> True
      | Inr doc \<Rightarrow> (\<exists>fs. doc = JObj fs) \<and> text_or_absent msgId_ptr doc \<and> text_or_absent mtype_ptr doc \<and> text_or_absent [''ver''] doc)"

definition enqueue :: "bool \<Rightarrow> queued \<Rightarrow> 'h splitter \<Rightarrow> 'h splitter" where
  "enqueue management x sp =
     (if management then sp\<lparr>m_managementQueue := map_option (\<lambda>q. fst (pushToQueue x q)) (m_managementQueue sp)\<rparr>
      else sp\<lparr>m_networkQueue := map_option (\<lambda>q. fst (pushToQueue x q)) (m_networkQueue sp)\<rparr>)"

definition carries_out :: "json_lib \<Rightarrow> 'h splitter \<Rightarrow> MessagingInstance \<Rightarrow> nat \<Rightarrow> string \<Rightarrow> verdict \<Rightarrow> ('h splitter \<times> sent list) result \<Rightarrow> bool" where
  "carries_out L sp m i message w r \<longleftrightarrow>
     (case w of
        Accepted management \<Rightarrow> r = Inr (enqueue management (m, message) sp, [])
      | Rejected c \<Rightarrow> (\<exists>msgId d. r = Inr (sp, [(i, m, j_write L d)]) \<and> is_error msgId c d))"

lemma rejected_by_error:
  assumes "errors_sendable sp" "service_of sp m = Some v"
  shows "carries_out L sp m (svc_id v) message (Rejected c) (bind_r (sendMessage L sp [m] (error_doc i rsp c t)) (\<lambda>out. Inr (sp, out)))"
  using error_sent[OF assms, of L i rsp c t] unfolding carries_out_def by fastforce

lemma queues_carry_out:
  assumes "errors_sendable sp" "service_of sp m = Some v"
  shows "carries_out L sp m (svc_id v) message (queue_verdict True sp) (handleManagementMessageFromMessaging L sp m message t i)"
    "carries_out L sp m (svc_id v) message (queue_verdict False sp) (handleNetworkMessageFromMessaging L sp m message t i)"
  using rejected_by_error[OF assms]
  by (auto simp: queue_verdict_def handleManagementMessageFromMessaging_def handleNetworkMessageFromMessaging_def
      MessageQueueNotInitializedErrorMsg_def MessageQueueFullErrorMsg_def carries_out_def enqueue_def split: option.split)

lemma carries_out_returns: "carries_out L sp m i message w r \<Longrightarrow> \<exists>x. r = Inr x"
  by (auto simp: carries_out_def split: verdict.splits)

text \<open>Adding a missing message identifier changes neither the kind of the document nor its other members.\<close>

lemma with_msgId_obj: "\<exists>fs. with_msgId (JObj gs) = JObj fs"
  by (auto simp: with_msgId_def get_with_default_def jset.simps split: option.split)

lemma jget_with_msgId: "apart msgId_ptr p \<Longrightarrow> jget p (with_msgId doc) = jget p doc"
  by (auto simp: with_msgId_def get_with_default_def jget_jset_apart split: option.split)

lemma jget_single: "jget [k] doc = jmember k doc"
  by (simp add: jget.simps split: option.split)

lemma default_msgId:
  assumes "text_or_absent msgId_ptr doc"
  shows "\<exists>msgId. GetString (fst (get_with_default msgId_ptr (JStr ''unknown'') doc)) = Inr msgId"
  using assms by (auto simp: text_or_absent_def get_with_default_def GetString_def split: option.splits json.splits)

lemma getMessageType_readable:
  assumes "text_or_absent mtype_ptr doc" "text_or_absent [''ver''] doc"
  shows "(\<exists>t. getMessageType sp doc = Inr t) \<or> (\<exists>e. getMessageType sp doc = Inl (LogicError e))"
  using assms
  by (auto simp: text_or_absent_def getMessageType_def GetString_def bind_r_def split_beta split: option.splits json.splits)

lemma validate_unit: "validate t doc schemas dir = Inr () \<or> (\<exists>e. validate t doc schemas dir = Inl (LogicError e))"
  by (auto simp: validate_def split_beta split: option.splits)

lemma splitter_carries_out:
  assumes ok: "errors_sendable sp" and v: "service_of sp m = Some v" and r: "readable L message"
  shows "carries_out L sp m (svc_id v) message (verdict L sp message) (handleMessageFromMessaging L sp m message)"
proof -
  note rej = rejected_by_error[OF ok v, of L message]
  have via_route: "carries_out L sp m (svc_id v) message w (handleMessageFromMessaging L sp m message)"
    if "route L sp m message = (i, x)" "carries_out L sp m (svc_id v) message w x" for w i x
    using carries_out_returns[OF that(2)] that by (auto simp: handleMessageFromMessaging_def)
  show ?thesis
  proof (cases "j_parse L (c_str message)")
    case (Inl a)
    then have "route L sp m message = (''unknown'', bind_r (sendMessage L sp [m] (JsonParseErrorMsg message (fst a) (snd a)))
        (\<lambda>out. Inr (sp, out)))"
      by (simp add: route_def split_beta)
    from via_route[OF this] show ?thesis using rej Inl by (simp add: verdict_def JsonParseErrorMsg_def)
  next
    case (Inr doc)
    obtain fs where obj: "doc = JObj fs" using r Inr by (auto simp: readable_def)
    have tx: "text_or_absent msgId_ptr doc" "text_or_absent mtype_ptr (with_msgId doc)" "text_or_absent [''ver''] (with_msgId doc)"
      using r Inr by (simp_all add: readable_def text_or_absent_def jget_with_msgId)
    obtain a where a: "isAuthMessage doc = Inr a" using obj by (auto simp: isAuthMessage_def FindMember_def)
    obtain i where i: "GetString (fst (get_with_default msgId_ptr (JStr ''unknown'') doc)) = Inr i" using default_msgId[OF tx(1)] by blast
    have found: "FindMember ''mType'' (with_msgId doc) = Inr (jmember ''mType'' doc)"
      using with_msgId_obj[of fs] obj jget_with_msgId[of mtype_ptr doc] by (auto simp: FindMember_def jget_single)
    define send where "send = (\<lambda>d. bind_r (sendMessage L sp [m] d) (\<lambda>out. Inr (sp, out)))"
    define body where "body = (if jmember ''mType'' doc = None then send (MissingMTypeMsg i message)
       else bind_r (getMessageType sp (with_msgId doc)) (\<lambda>t.
         case validate t (with_msgId doc) (m_requestSchemaCache sp) ''request'' of
           Inl (LogicError e) \<Rightarrow> send (ValidationErrorMsg i message e)
         | Inl e \<Rightarrow> Inl e
         | Inr _ \<Rightarrow> if m_type t \<in> set m_managementQueueWhitelist
                    then handleManagementMessageFromMessaging L sp m message (m_type t) i
                    else handleNetworkMessageFromMessaging L sp m message (m_type t) i))"
    have route: "route L sp m message = (if a then (''unknown'', send UnexpectedAuthMsg) else (i, body))"
      unfolding body_def send_def using Inr a i found by (simp add: route_def Let_def split_beta with_msgId_def[symmetric])
    have rejs: "carries_out L sp m (svc_id v) message (Rejected c) (send (error_doc j rsp c t))" for c j rsp t
      using rej by (simp add: send_def)
    consider (auth) a | (missing) "\<not> a" "jmember ''mType'' doc = None"
      | (unsupported) e where "\<not> a" "jmember ''mType'' doc \<noteq> None" "getMessageType sp (with_msgId doc) = Inl (LogicError e)"
      | (ok) t where "\<not> a" "jmember ''mType'' doc \<noteq> None" "getMessageType sp (with_msgId doc) = Inr t"
      using getMessageType_readable[OF tx(2,3), of sp] by blast
    then show ?thesis
    proof cases
      case auth
      then show ?thesis using via_route[OF route[unfolded if_P[OF auth]]] rejs a Inr by (simp add: verdict_def UnexpectedAuthMsg_def)
    next
      case missing
      then have "route L sp m message = (i, send (MissingMTypeMsg i message))" using route by (simp add: body_def)
      then show ?thesis using via_route rejs a Inr missing by (simp add: verdict_def MissingMTypeMsg_def)
    next
      case unsupported
      then have "route L sp m message = (i, Inl (LogicError e))" using route by (auto simp: body_def)
      moreover have "verdict L sp message = Rejected General"
        using unsupported a Inr by (auto simp: verdict_def supported_type_def)
      moreover obtain d where "sendMessage L sp [m] (GeneralErrorMsg i message e) = Inr [(svc_id v, m, j_write L d)]" "is_error i General d"
        using error_sent[OF ok v] unfolding GeneralErrorMsg_def by blast
      ultimately show ?thesis unfolding carries_out_def by (fastforce simp: handleMessageFromMessaging_def what_def)
    next
      case ok
      show ?thesis
      proof (cases "validate t (with_msgId doc) (m_requestSchemaCache sp) ''request'' = Inr ()")
        case True
        then show ?thesis using via_route[of i body] route ok queues_carry_out[OF assms(1) v, of L message "m_type t" i] a Inr
          by (auto simp: verdict_def supported_type_def body_def)
      next
        case False
        then obtain e where "validate t (with_msgId doc) (m_requestSchemaCache sp) ''request'' = Inl (LogicError e)"
          using validate_unit by blast
        then show ?thesis using via_route[of i body] route ok rejs a Inr
          by (auto simp: verdict_def supported_type_def body_def ValidationErrorMsg_def)
      qed
    qed
  qed
qed

section \<open>Choice of the handler\<close>

definition general_error :: "json_lib \<Rightarrow> MessagingInstance \<Rightarrow> nat \<Rightarrow> sent list result \<Rightarrow> bool" where
  "general_error L m i r \<longleftrightarrow> (\<exists>msgId d. r = Inr [(i, m, j_write L d)] \<and> is_error msgId General d)"

lemma general_sent:
  assumes "errors_sendable sp" "service_of sp m = Some v"
  shows "\<exists>x. sendMessage L sp [m] (GeneralErrorMsg i message w) = Inr x \<and> general_error L m (svc_id v) (Inr x)"
proof -
  obtain d where d: "sendMessage L sp [m] (GeneralErrorMsg i message w) = Inr [(svc_id v, m, j_write L d)]" "is_error i General d"
    using error_sent[OF assms] unfolding GeneralErrorMsg_def by blast
  have "general_error L m (svc_id v) (Inr [(svc_id v, m, j_write L d)])"
    unfolding general_error_def by (intro exI[of _ i] exI[of _ d] conjI refl d(2))
  then show ?thesis using d(1) by blast
qed

lemma best_fit_none: "\<forall>(g, k)\<in>set fits. length g \<le> len \<Longrightarrow> best_fit fits len sel = sel"
  by (induction fits len sel rule: best_fit.induct) auto

lemma best_fit_max:
  "\<exists>f h. (f, h) \<in> set fits \<and> len < length f \<Longrightarrow>
   \<exists>pre f h post. fits = pre @ (f, h) # post \<and> best_fit fits len sel = Some h \<and>
     (\<forall>(g, k)\<in>set pre. length g < length f) \<and> (\<forall>(g, k)\<in>set post. length g \<le> length f) \<and> len < length f"
proof (induction fits len sel rule: best_fit.induct)
  case (2 f h fits len sel)
  show ?case
  proof (cases "len < length f")
    case True
    show ?thesis
    proof (cases "\<exists>g k. (g, k) \<in> set fits \<and> length f < length g")
      case longer: True
      from 2(1)[OF True this] obtain pre f' h' post where
        "fits = pre @ (f', h') # post" "best_fit fits (length f) (Some h) = Some h'"
        "\<forall>(g, k)\<in>set pre. length g < length f'" "\<forall>(g, k)\<in>set post. length g \<le> length f'" "length f < length f'" by blast
      then show ?thesis using True by (intro exI[of _ "(f, h) # pre"] exI[of _ f'] exI[of _ h'] exI[of _ post]) auto
    next
      case False
      then have "\<forall>(g, k)\<in>set fits. length g \<le> length f" by (auto simp: not_less)
      then have "best_fit fits (length f) (Some h) = Some h" by (rule best_fit_none)
      then show ?thesis using True False by (intro exI[of _ "[]"] exI[of _ f] exI[of _ h] exI[of _ fits]) (auto simp: not_less)
    qed
  next
    case False
    then have "\<exists>g k. (g, k) \<in> set fits \<and> len < length g" using 2(3) by auto
    from 2(2)[OF False this] obtain pre f' h' post where
      "fits = pre @ (f', h') # post" "best_fit fits len sel = Some h'"
      "\<forall>(g, k)\<in>set pre. length g < length f'" "\<forall>(g, k)\<in>set post. length g \<le> length f'" "len < length f'" by blast
    then show ?thesis using False by (intro exI[of _ "(f, h) # pre"] exI[of _ f'] exI[of _ h'] exI[of _ post]) auto
  qed
qed simp

section \<open>Receivers of a response\<close>

lemma unique_set: "mi_key ` set (unique ms) = mi_key ` set ms"
  by (induction ms rule: unique.induct) auto

lemma unique_subset: "set (unique ms) \<subseteq> set ms"
  by (induction ms rule: unique.induct) auto

lemma unique_distinct: "sorted (map mi_key ms) \<Longrightarrow> sorted_wrt (<) (map mi_key (unique ms))"
proof (induction ms rule: unique.induct)
  case (1 a b ms)
  have "\<forall>k\<in>mi_key ` set (unique (b # ms)). mi_key b \<le> k" using 1(3) unfolding unique_set by auto
  then show ?case using 1 by (auto simp: order.strict_iff_order intro: less_le_trans)
qed auto

lemma sort_unique_keys:
  "sorted_wrt (<) (map mi_key (unique (sort_key mi_key ms)))" "mi_key ` set (unique (sort_key mi_key ms)) = mi_key ` set ms"
  "set (unique (sort_key mi_key ms)) \<subseteq> set ms"
  using unique_distinct[of "sort_key mi_key ms"] unique_set[of "sort_key mi_key ms"] unique_subset[of "sort_key mi_key ms"] by auto

lemma keys_of_recipients:
  "map (mi_key \<circ> snd) (List.map_filter (\<lambda>m. map_option (\<lambda>v. (svc_id v, m)) (service_of sp m)) ms) =
   map mi_key (filter (\<lambda>m. service_of sp m \<noteq> None) ms)"
  by (induction ms) (auto simp: List.map_filter_simps split: option.splits)

lemma recipients_facts:
  assumes "ms \<noteq> []"
  shows "sorted_wrt (<) (map (mi_key \<circ> snd) (recipients sp ms))"
    "(i, m) \<in> set (recipients sp ms) \<Longrightarrow> m \<in> set ms \<and> (\<exists>v. service_of sp m = Some v \<and> i = svc_id v)"
    "m \<in> set ms \<Longrightarrow> service_of sp m \<noteq> None \<Longrightarrow> \<exists>r\<in>set (recipients sp ms). mi_key (snd r) = mi_key m"
proof -
  let ?u = "unique (sort_key mi_key ms)"
  have r: "recipients sp ms = List.map_filter (\<lambda>m. map_option (\<lambda>v. (svc_id v, m)) (service_of sp m)) ?u"
    using assms by (simp add: recipients_def)
  have "sorted_wrt (<) (map mi_key (filter P ?u))" for P
    using sort_unique_keys(1)[of ms] by (simp add: sorted_wrt_map sorted_wrt_filter)
  then show "sorted_wrt (<) (map (mi_key \<circ> snd) (recipients sp ms))" unfolding r keys_of_recipients .
  show "(i, m) \<in> set (recipients sp ms) \<Longrightarrow> m \<in> set ms \<and> (\<exists>v. service_of sp m = Some v \<and> i = svc_id v)"
    using sort_unique_keys(3)[of ms] unfolding r by (auto simp: List.map_filter_def)
  show "\<exists>r\<in>set (recipients sp ms). mi_key (snd r) = mi_key m" if m: "m \<in> set ms" "service_of sp m \<noteq> None"
  proof -
    have "mi_key m \<in> mi_key ` set ?u" using sort_unique_keys(2)[of ms] m(1) by blast
    then obtain n where n: "n \<in> set ?u" "mi_key n = mi_key m" by auto
    then have "service_of sp n = service_of sp m" by (simp add: service_of_def mi_key_def)
    then have "mi_key n \<in> mi_key ` set (filter (\<lambda>m. service_of sp m \<noteq> None) ?u)" using n(1) m(2) by (intro imageI) simp
    then have "mi_key m \<in> (mi_key \<circ> snd) ` set (recipients sp ms)"
      unfolding n(2) set_map[symmetric] r keys_of_recipients by simp
    then show ?thesis by (metis comp_apply imageE)
  qed
qed

section \<open>Sizes of the queues\<close>

inductive splitter_step :: "json_lib \<Rightarrow> 'h splitter \<Rightarrow> 'h splitter \<Rightarrow> bool" for L where
  message: "handleMessageFromMessaging L sp m text = Inr (sp', out) \<Longrightarrow> splitter_step L sp sp'"
| management: "m_managementQueue sp = Some q \<Longrightarrow> worker_step q = Some q' \<Longrightarrow> splitter_step L sp (sp\<lparr>m_managementQueue := Some q'\<rparr>)"
| network: "m_networkQueue sp = Some q \<Longrightarrow> worker_step q = Some q' \<Longrightarrow> splitter_step L sp (sp\<lparr>m_networkQueue := Some q'\<rparr>)"

definition within_capacity :: "'h splitter \<Rightarrow> bool" where
  "within_capacity sp \<longleftrightarrow>
     (\<forall>q. m_managementQueue sp = Some q \<longrightarrow> tq_size q \<le> m_managementQueueCapacity sp) \<and>
     (\<forall>q. m_networkQueue sp = Some q \<longrightarrow> tq_size q \<le> m_networkQueueCapacity sp)"

lemma worker_step_size: "worker_step q = Some q' \<Longrightarrow> tq_size q' \<le> tq_size q"
  by (auto simp: worker_step_def tq_size_def split: worker_pc.splits list.splits if_splits)

text \<open>A result that leaves the splitter as it is or has put one message into a queue that was not full.\<close>

definition settled :: "'h splitter \<Rightarrow> ('h splitter \<times> sent list) result \<Rightarrow> bool" where
  "settled sp r \<longleftrightarrow> (\<forall>sp' out. r = Inr (sp', out) \<longrightarrow> sp' = sp \<or>
     (\<exists>q x. m_managementQueue sp = Some q \<and> tq_size q < m_managementQueueCapacity sp \<and> sp' = enqueue True x sp) \<or>
     (\<exists>q x. m_networkQueue sp = Some q \<and> tq_size q < m_networkQueueCapacity sp \<and> sp' = enqueue False x sp))"

lemma settled_bind: "(\<And>x. settled sp (f x)) \<Longrightarrow> settled sp (bind_r r f)"
  unfolding settled_def by (cases r) (simp_all add: bind_r_def)

lemma settled_base:
  "settled sp (Inl e)" "settled sp (bind_r s (\<lambda>out. Inr (sp, out)))"
  "settled sp (handleManagementMessageFromMessaging L sp m message t i)"
  "settled sp (handleNetworkMessageFromMessaging L sp m message t i)"
  by (auto simp: settled_def bind_r_eq_Inr handleManagementMessageFromMessaging_def handleNetworkMessageFromMessaging_def
      enqueue_def split: option.splits if_splits)

lemmas settled_intros = settled_base settled_bind

lemma settled_validated:
  "settled sp (case validate t doc sc ''request'' of Inl (LogicError e) \<Rightarrow> bind_r (sendMessage L sp [m] (ValidationErrorMsg i message e)) (\<lambda>out. Inr (sp, out))
     | Inl e \<Rightarrow> Inl e
     | Inr _ \<Rightarrow> if b then handleManagementMessageFromMessaging L sp m message ty i else handleNetworkMessageFromMessaging L sp m message ty i)"
  by (auto split: sum.split exc.split intro: settled_intros)

lemma settled_route: "settled sp (snd (route L sp m message))"
proof (cases "j_parse L (c_str message)")
  case (Inl a)
  then show ?thesis by (simp add: route_def split_beta settled_intros)
next
  case (Inr doc)
  show ?thesis
  proof (cases "isAuthMessage doc = Inr False")
    case True
    have "settled sp (bind_r (FindMember ''mType'' d) (\<lambda>found.
        if found = None then bind_r (sendMessage L sp [m] (MissingMTypeMsg i message)) (\<lambda>out. Inr (sp, out))
        else bind_r (getMessageType sp d) (\<lambda>t.
          case validate t d (m_requestSchemaCache sp) ''request'' of
            Inl (LogicError e) \<Rightarrow> bind_r (sendMessage L sp [m] (ValidationErrorMsg i message e)) (\<lambda>out. Inr (sp, out))
          | Inl e \<Rightarrow> Inl e
          | Inr _ \<Rightarrow> if m_type t \<in> set m_managementQueueWhitelist
                     then handleManagementMessageFromMessaging L sp m message (m_type t) i
                     else handleNetworkMessageFromMessaging L sp m message (m_type t) i)))" for d i
      by (intro settled_bind) (auto intro: settled_base(2) settled_bind settled_validated)
    then show ?thesis using Inr True unfolding route_def Let_def by (auto simp: settled_intros split: prod.split sum.split)
  next
    case False
    then show ?thesis using Inr unfolding route_def Let_def by (auto simp: settled_intros split: sum.split bool.split)
  qed
qed

lemma message_within: "settled sp (handleMessageFromMessaging L sp m message)"
proof (cases "route L sp m message")
  case (Pair i r)
  then show ?thesis using settled_route[of sp L m message]
    by (cases r) (auto simp: handleMessageFromMessaging_def settled_def split: option.splits sum.splits if_splits)
qed

lemma splitter_step_within:
  assumes "splitter_step L sp sp'" "within_capacity sp"
  shows "within_capacity sp' \<and> m_managementQueueCapacity sp' = m_managementQueueCapacity sp \<and>
    m_networkQueueCapacity sp' = m_networkQueueCapacity sp"
  using assms
proof (cases rule: splitter_step.cases)
  case (message m tx out)
  then show ?thesis using message_within[of sp L m tx] assms(2)
    by (auto simp: settled_def within_capacity_def enqueue_def pushToQueue_def tq_size_def Let_def)
next
  case (management q q')
  then show ?thesis using worker_step_size[of q q'] assms(2) by (auto simp: within_capacity_def)
next
  case (network q q')
  then show ?thesis using worker_step_size[of q q'] assms(2) by (auto simp: within_capacity_def)
qed

section \<open>Example\<close>

definition sample_m :: MessagingInstance where
  "sample_m = \<lparr>mi_type = MQTT, mi_instance = ''a'', clientSession = NoSession\<rparr>"

definition sample_types :: "(string \<times> MsgType) list" where
  "sample_types =
     [(''messageError.1.0.0'', \<lparr>m_type = ''messageError'', m_major = 1, m_minor = 0, m_micro = 0, m_possibleDriverFunction = []\<rparr>),
      (''mngDaemon_Version.1.0.0'', \<lparr>m_type = ''mngDaemon_Version'', m_major = 1, m_minor = 0, m_micro = 0, m_possibleDriverFunction = []\<rparr>)]"

definition sample_splitter :: "nat splitter" where
  "sample_splitter =
     \<lparr>m_insId = ''gw'', m_validateResponse = True, m_messagingList = [],
      m_iMessagingServiceMap = [((MQTT, ''a''), \<lparr>svc_id = 5, svc_instance = sample_m, acceptAsyncMsg = True\<rparr>)],
      m_filterMessageHandlerFuncMap = [(''mngDaemon'', 1), (''mngDaemon_Version'', 2)],
      m_requestSchemaCache = [(''mngDaemon_Version.1.0.0'', \<lambda>d. (True, []))],
      m_responseSchemaCache = [(''messageError.1.0.0'', \<lambda>d. (True, []))], m_msgTypeToHandle = sample_types,
      m_managementQueueCapacity = 1, m_managementQueue = Some new_TaskQueue, m_networkQueueCapacity = 1,
      m_networkQueue = Some new_TaskQueue\<rparr>"

text \<open>A parser that knows one request, a document that is not an object, and nothing else.\<close>

definition sample_doc :: json where
  "sample_doc = JObj [(''mType'', JStr ''mngDaemon_Version'')]"

definition sample_json :: json_lib where
  "sample_json = \<lparr>j_parse = (\<lambda>t. if t = ''v'' then Inr sample_doc else if t = ''5'' then Inr (JNum 5) else Inl (''bad'', 0)),
     j_write = (\<lambda>d. [])\<rparr>"

lemma sample_errors: "errors_sendable sample_splitter"
proof -
  let ?t = "\<lparr>m_type = ''messageError'', m_major = 1, m_minor = 0, m_micro = 0, m_possibleDriverFunction = []\<rparr>"
  have "getKey ?t = ''messageError.1.0.0''" by code_simp
  then show ?thesis by (simp add: errors_sendable_def sample_splitter_def sample_types_def)
qed

lemma sample_accepts:
  "service_of sample_splitter sample_m = Some \<lparr>svc_id = 5, svc_instance = sample_m, acceptAsyncMsg = True\<rparr>"
  "readable sample_json ''v''" "verdict sample_json sample_splitter ''v'' = Accepted True"
proof -
  show "readable sample_json ''v''"
    by (simp add: readable_def sample_json_def c_str_def sample_doc_def text_or_absent_def jget.simps)
qed code_simp+

section \<open>Properties\<close>



text \<open>
  A message that is valid JSON but not an object is not answered: the test for an authentication message looks up members before it checks
  that there is an object, which violates an assertion of rapidjson. The same happens for an object without authentication members whose message
  identifier is not a text, or whose message type is not a text.\<close>

theorem non_object_message_aborts:
  assumes "j_parse L (c_str message) = Inr doc"
    and "(\<forall>fs. doc \<noteq> JObj fs) \<or> (\<exists>fs v. doc = JObj fs \<and> jmember ''type'' doc = None \<and> (\<forall>t. v \<noteq> JStr t) \<and>
           (jget msgId_ptr doc = Some v \<or> text_or_absent msgId_ptr doc \<and> jget mtype_ptr doc = Some v))"
  shows "\<exists>e. handleMessageFromMessaging L sp m message = Inl (UB e)"
proof (cases "\<exists>fs. doc = JObj fs")
  case False
  then have "isAuthMessage doc = Inl (UB ''RAPIDJSON_ASSERT'')"
    by (cases doc) (auto simp: isAuthMessage_def FindMember_def)
  then show ?thesis using assms(1) by (simp add: handleMessageFromMessaging_def route_def what_def)
next
  case True
  then obtain fs v where fs: "doc = JObj fs" and ty: "jmember ''type'' doc = None" and v: "\<forall>t. v \<noteq> JStr t"
    and p: "jget msgId_ptr doc = Some v \<or> text_or_absent msgId_ptr doc \<and> jget mtype_ptr doc = Some v"
    using assms(2) by auto
  have g: "GetString v = Inl (UB ''RAPIDJSON_ASSERT'')" using v by (cases v) (auto simp: GetString_def)
  have auth: "isAuthMessage doc = Inr False" using fs ty by (simp add: isAuthMessage_def FindMember_def)
  show ?thesis
  proof (cases "jget msgId_ptr doc = Some v")
    case True
    then show ?thesis using assms(1) auth g
      by (simp add: handleMessageFromMessaging_def route_def what_def get_with_default_def)
  next
    case False
    then have p: "text_or_absent msgId_ptr doc" "jget mtype_ptr doc = Some v" using p by auto
    obtain i where i: "GetString (fst (get_with_default msgId_ptr (JStr ''unknown'') doc)) = Inr i" using default_msgId[OF p(1)] by blast
    have "getMessageType sp (with_msgId doc) = Inl (UB ''RAPIDJSON_ASSERT'')"
      using g p(2) by (simp add: getMessageType_def jget_with_msgId)
    moreover have "FindMember ''mType'' (with_msgId doc) = Inr (Some v)"
      using with_msgId_obj[of fs] fs jget_with_msgId[of mtype_ptr doc] p(2) by (auto simp: FindMember_def jget_single)
    ultimately have "route L sp m message = (i, Inl (UB ''RAPIDJSON_ASSERT''))"
      using assms(1) auth i by (simp add: route_def Let_def split_beta with_msgId_def[symmetric])
    then show ?thesis by (simp add: handleMessageFromMessaging_def what_def)
  qed
qed

theorem non_object_message_aborts_witness:
  "\<exists>e. handleMessageFromMessaging sample_json sample_splitter sample_m ''5'' = Inl (UB e)"
proof -
  have "j_parse sample_json (c_str ''5'') = Inr (JNum 5)" by code_simp
  then show ?thesis by (rule non_object_message_aborts) simp
qed





text \<open>
  The queues never hold more messages than configured: starting with empty queues, after any number of messages handled one after the other, with
  any steps of the queues' own workers between them, the sizes are within the capacities.\<close>

theorem queues_within_capacity:
  assumes "(splitter_step L)\<^sup>*\<^sup>* sp sp'" and "m_managementQueue sp = Some new_TaskQueue" "m_networkQueue sp = Some new_TaskQueue"
  shows "within_capacity sp' \<and> m_managementQueueCapacity sp' = m_managementQueueCapacity sp \<and>
    m_networkQueueCapacity sp' = m_networkQueueCapacity sp"
  using assms(1)
proof (induction rule: rtranclp_induct)
  case base
  then show ?case using assms(2,3) by (simp add: within_capacity_def tq_size_def new_TaskQueue_def)
next
  case (step sp1 sp2)
  then show ?case using splitter_step_within[of L sp1 sp2] by simp
qed

theorem queues_within_capacity_witness:
  "\<exists>sp'. handleMessageFromMessaging sample_json sample_splitter sample_m ''v'' = Inr (sp', []) \<and> within_capacity sp'"
proof -
  let ?sp = "enqueue True (sample_m, ''v'') sample_splitter"
  have h: "handleMessageFromMessaging sample_json sample_splitter sample_m ''v'' = Inr (?sp, [])"
    using splitter_carries_out[OF sample_errors, of sample_m _ sample_json "''v''"] sample_accepts by (auto simp: carries_out_def)
  then have "(splitter_step sample_json)\<^sup>*\<^sup>* sample_splitter ?sp" by (blast intro: splitter_step.message)
  then have "within_capacity ?sp" using queues_within_capacity by (fastforce simp: sample_splitter_def)
  then show ?thesis using h by blast
qed

end
