(* ===== verification/Iqrf_Code.thy ===== *)
theory Iqrf_Code
  imports Cpp_Std "HOL-Library.Signed_Division"
begin

text \<open>
  \<open>IqmeshServices/SmartConnectService/IqrfCodeDecoder.cpp\<close>: the IQRF code printed on a device, from which Smart Connect takes the
  module identification, the individual bonding key and the hardware profile. The decoded values are static members of
  the class and survive from one code to the next. Function calls in one expression are evaluated from left to right.
\<close>

section \<open>Base 57\<close>

definition base57alphabet :: string where
  "base57alphabet = ''123456789ABCDEFGHJKLMNPQRSTUVWXYZabcdefghijkmnopqrstvwxyz''"

definition maximumPiece57Length :: nat where
  "maximumPiece57Length = 11"

definition piece57Lengths :: "nat list" where
  "piece57Lengths = [0, 2, 3, 5, 6, 7, 9, 10, maximumPiece57Length]"

definition getIndexOfPieceLen :: "nat \<Rightarrow> nat option" where
  "getIndexOfPieceLen piece57Len = List.find (\<lambda>i. piece57Lengths ! i = piece57Len) [0..<9]"

definition alphabet_find :: "char \<Rightarrow> nat option" where
  "alphabet_find c = List.find (\<lambda>i. base57alphabet ! i = c) [0..<length base57alphabet]"

text \<open>
  For a character outside the alphabet \<open>find\<close> gives the largest \<open>size_t\<close>; its product with the factor 1 or 2, converted to \<open>int\<close>, is
  -1 or -2.
\<close>

definition addend :: "int \<Rightarrow> char \<Rightarrow> int" where
  "addend factor c = factor * (case alphabet_find c of None \<Rightarrow> -1 | Some i \<Rightarrow> int i)"

fun check_sum :: "string \<Rightarrow> int \<Rightarrow> int \<Rightarrow> int" where
  "check_sum [] factor s = s"
| "check_sum (c # cs) factor s =
     check_sum cs ((1 + 2) - factor) (s + (addend factor c sdiv 57 + addend factor c smod 57))"

definition checkChar :: "string \<Rightarrow> char" where
  "checkChar t = base57alphabet ! nat ((57 - check_sum (rev t) 2 0 smod 57) smod 57)"

section \<open>Pieces\<close>

text \<open>The characters of a piece from the last to the first.\<close>

fun piece_value :: "string \<Rightarrow> u64 \<Rightarrow> u64 result" where
  "piece_value [] piece = Inr piece"
| "piece_value (c # cs) piece =
     (case alphabet_find c of
        None \<Rightarrow> Inl (LogicError ''IQRF Code contains an incorrect character '')
      | Some i \<Rightarrow> piece_value cs (piece * 57 + of_nat i))"

fun piece_bytes :: "nat \<Rightarrow> u64 \<Rightarrow> u8 list \<Rightarrow> u8 list" where
  "piece_bytes 0 piece bytes = bytes"
| "piece_bytes (Suc n) piece bytes = piece_bytes n (drop_bit 8 piece) (ucast piece # bytes)"

text \<open>The bytes of the pieces one after the other. The length of a short last piece has been checked before.\<close>

function decode_pieces :: "string \<Rightarrow> u8 list result" where
  "decode_pieces code =
     (if code = [] then Inr []
      else let piece57 = take 11 code in
        bind_r (piece_value (rev piece57) 0) (\<lambda>piece.
        bind_r (decode_pieces (drop 11 code)) (\<lambda>rest.
          Inr ((case getIndexOfPieceLen (length piece57) of None \<Rightarrow> [] | Some n \<Rightarrow> piece_bytes n piece []) @ rest))))"
  by pat_completeness auto
termination by (relation "measure length") auto

declare decode_pieces.simps [simp del]

section \<open>Nibbles and tags\<close>

record NibbleReader =
  m_stream :: "u8 list"
  m_nibbleIndex :: nat

definition readNibble :: "NibbleReader \<Rightarrow> (u8 \<times> NibbleReader) result" where
  "readNibble r =
     (let i = m_nibbleIndex r div 2 in
      if length (m_stream r) \<le> i then Inl (LogicError ''No more data available to read.'')
      else let nibble = (if m_nibbleIndex r mod 2 = 1 then drop_bit 4 (m_stream r ! i) else m_stream r ! i)
           in Inr (nibble AND 0x0F, r\<lparr>m_nibbleIndex := Suc (m_nibbleIndex r)\<rparr>))"

definition readByte :: "NibbleReader \<Rightarrow> (u8 \<times> NibbleReader) result" where
  "readByte r = bind_r (readNibble r) (\<lambda>(lo, r). bind_r (readNibble r) (\<lambda>(hi, r). Inr (lo OR push_bit 4 hi, r)))"

fun readBytes :: "nat \<Rightarrow> NibbleReader \<Rightarrow> (u8 list \<times> NibbleReader) result" where
  "readBytes 0 r = Inr ([], r)"
| "readBytes (Suc n) r = bind_r (readByte r) (\<lambda>(b, r). bind_r (readBytes n r) (\<lambda>(bs, r). Inr (b # bs, r)))"

record IqrfCodeDecoder =
  m_mid :: "u8 list"
  m_ibk :: "u8 list"
  m_hwpId :: u16

text \<open>One tag: \<open>None\<close> is the end. An exception leaves the members as they are.\<close>

definition read_tag :: "NibbleReader \<Rightarrow> IqrfCodeDecoder \<Rightarrow> ((NibbleReader \<times> IqrfCodeDecoder) option) result" where
  "read_tag r d =
     bind_r (readNibble r) (\<lambda>(tag, r).
       if tag = 0 then Inr None
       else if tag = 1 then bind_r (readBytes 4 r) (\<lambda>(mid, r). Inr (Some (r, d\<lparr>m_mid := mid\<rparr>)))
       else if tag = 2 then bind_r (readBytes 16 r) (\<lambda>(ibk, r). Inr (Some (r, d\<lparr>m_ibk := ibk\<rparr>)))
       else if tag = 3 then
         bind_r (readByte r) (\<lambda>(hi, r). bind_r (readByte r) (\<lambda>(lo, r).
           Inr (Some (r, d\<lparr>m_hwpId := push_bit 8 (ucast hi) OR ucast lo\<rparr>))))
       else if tag \<in> {4, 5, 6, 7} then Inr (Some (r, d))
       else Inl (LogicError ''Unknown tag value.''))"

lemma readNibble_advances:
  "readNibble r = Inr (n, r') \<Longrightarrow>
     m_stream r' = m_stream r \<and> m_nibbleIndex r' = Suc (m_nibbleIndex r) \<and> m_nibbleIndex r < 2 * length (m_stream r)"
  by (auto simp: readNibble_def Let_def split: if_splits)

lemma readByte_advances:
  "readByte r = Inr (b, r') \<Longrightarrow> m_stream r' = m_stream r \<and> m_nibbleIndex r < m_nibbleIndex r'"
  by (auto simp: readByte_def bind_r_eq_Inr dest!: readNibble_advances)

lemma readBytes_advances:
  "readBytes n r = Inr (bs, r') \<Longrightarrow> m_stream r' = m_stream r \<and> m_nibbleIndex r \<le> m_nibbleIndex r'"
  by (induction n arbitrary: r bs r') (auto simp: bind_r_eq_Inr dest!: readByte_advances, (fastforce dest: less_imp_le le_trans)+)

lemma read_tag_advances:
  assumes "read_tag r d = Inr (Some (r', d'))"
  shows "m_stream r' = m_stream r \<and> m_nibbleIndex r < m_nibbleIndex r' \<and> m_nibbleIndex r < 2 * length (m_stream r)"
  using assms
  by (auto simp: read_tag_def bind_r_eq_Inr split: if_splits dest!: readNibble_advances readByte_advances readBytes_advances)

function read_tags :: "NibbleReader \<Rightarrow> IqrfCodeDecoder \<Rightarrow> IqrfCodeDecoder \<times> unit result" where
  "read_tags r d =
     (case read_tag r d of
        Inl e \<Rightarrow> (d, Inl e)
      | Inr None \<Rightarrow> (d, Inr ())
      | Inr (Some (r', d')) \<Rightarrow> read_tags r' d')"
  by pat_completeness auto
termination
  by (relation "measure (\<lambda>(r, d). 2 * length (m_stream r) - m_nibbleIndex r)") (auto dest!: read_tag_advances)

declare read_tags.simps [simp del]

definition decode :: "string \<Rightarrow> IqrfCodeDecoder \<Rightarrow> IqrfCodeDecoder \<times> unit result" where
  "decode iqrfCodeOrig d =
     (if iqrfCodeOrig = [] then (d, Inl (LogicError ''IQRF Code cannot be empty.''))
      else let checkedChar = last iqrfCodeOrig; iqrfCode = butlast iqrfCodeOrig in
        if checkedChar \<noteq> checkChar iqrfCode then (d, Inl (LogicError ''IQRF Code ends by an incorrect check character.''))
        else if getIndexOfPieceLen (length iqrfCode mod maximumPiece57Length) = None
        then (d, Inl (LogicError ''IQRF Code has incorrect length: ''))
        else case decode_pieces iqrfCode of
               Inl e \<Rightarrow> (d, Inl e)
             | Inr result \<Rightarrow> read_tags \<lparr>m_stream = result, m_nibbleIndex = 0\<rparr> d)"

section \<open>A reference encoder\<close>

text \<open>
  How a code is made from the values: the tagged values as nibbles, closed by the end tag, packed into bytes, eight bytes in eleven
  digits of base 57 with the least significant digit first, and the check character.
\<close>

datatype item = Mid "u8 list" | Ibk "u8 list" | Hwpid u16 | Nop

fun wf_item :: "item \<Rightarrow> bool" where
  "wf_item (Mid bs) = (length bs = 4)"
| "wf_item (Ibk bs) = (length bs = 16)"
| "wf_item _ = True"

fun apply_item :: "item \<Rightarrow> IqrfCodeDecoder \<Rightarrow> IqrfCodeDecoder" where
  "apply_item (Mid bs) d = d\<lparr>m_mid := bs\<rparr>"
| "apply_item (Ibk bs) d = d\<lparr>m_ibk := bs\<rparr>"
| "apply_item (Hwpid h) d = d\<lparr>m_hwpId := h\<rparr>"
| "apply_item Nop d = d"

definition nibbles :: "u8 list \<Rightarrow> u8 list" where
  "nibbles bs = concat (map (\<lambda>b. [b AND 0x0F, drop_bit 4 b AND 0x0F]) bs)"

fun item_nibbles :: "item \<Rightarrow> u8 list" where
  "item_nibbles (Mid bs) = 1 # nibbles bs"
| "item_nibbles (Ibk bs) = 2 # nibbles bs"
| "item_nibbles (Hwpid h) = 3 # nibbles [ucast (drop_bit 8 h), ucast h]"
| "item_nibbles Nop = [5]"

fun pack :: "u8 list \<Rightarrow> u8 list" where
  "pack (lo # hi # ns) = (lo OR push_bit 4 hi) # pack ns"
| "pack [n] = [n]"
| "pack [] = []"

definition be_value :: "u8 list \<Rightarrow> nat" where
  "be_value bs = foldl (\<lambda>v b. v * 256 + unat b) 0 bs"

definition enc_piece :: "u8 list \<Rightarrow> string" where
  "enc_piece bs = map (\<lambda>i. base57alphabet ! (be_value bs div 57 ^ i mod 57)) [0..<piece57Lengths ! length bs]"

function encode_bytes :: "u8 list \<Rightarrow> string" where
  "encode_bytes bs = (if bs = [] then [] else enc_piece (take 8 bs) @ encode_bytes (drop 8 bs))"
  by pat_completeness auto
termination by (relation "measure length") auto

declare encode_bytes.simps [simp del]

definition encode :: "item list \<Rightarrow> string" where
  "encode items =
     (let t = encode_bytes (pack (concat (map item_nibbles items) @ [0])) in t @ [checkChar t])"

section \<open>Decoding of pieces\<close>

lemma alphabet_size: "length base57alphabet = 57" "distinct base57alphabet"
  by (code_simp)+

lemma alphabet_find_nth [simp]: "i < 57 \<Longrightarrow> alphabet_find (base57alphabet ! i) = Some i"
proof -
  have "\<forall>i\<in>set [0..<57]. alphabet_find (base57alphabet ! i) = Some i" by code_simp
  then show "i < 57 \<Longrightarrow> alphabet_find (base57alphabet ! i) = Some i" by simp
qed

lemma alphabet_findD: "alphabet_find c = Some i \<Longrightarrow> i < 57 \<and> base57alphabet ! i = c"
  by (auto simp: alphabet_find_def find_Some_iff alphabet_size)

lemma piece_table:
  "n \<le> 8 \<Longrightarrow> getIndexOfPieceLen (piece57Lengths ! n) = Some n"
  "n \<le> 8 \<Longrightarrow> 256 ^ n \<le> (57 :: nat) ^ (piece57Lengths ! n)"
  "n < 8 \<Longrightarrow> piece57Lengths ! n < 11"
  "0 < n \<Longrightarrow> n \<le> 8 \<Longrightarrow> 0 < piece57Lengths ! n"
proof -
  have "\<forall>n\<in>set [0..<9]. getIndexOfPieceLen (piece57Lengths ! n) = Some n" by code_simp
  then show "n \<le> 8 \<Longrightarrow> getIndexOfPieceLen (piece57Lengths ! n) = Some n" by simp
  have "\<forall>n\<in>{0, 1, 2, 3, 4, 5, 6, 7, 8}. 256 ^ n \<le> (57 :: nat) ^ (piece57Lengths ! n)"
    by (simp add: piece57Lengths_def maximumPiece57Length_def)
  moreover have "n \<le> 8 \<Longrightarrow> n \<in> {0, 1, 2, 3, 4, 5, 6, 7, 8}" by auto
  ultimately show "n \<le> 8 \<Longrightarrow> 256 ^ n \<le> (57 :: nat) ^ (piece57Lengths ! n)" by blast
  have "\<forall>n\<in>set [0..<8]. piece57Lengths ! n < 11" by code_simp
  then show "n < 8 \<Longrightarrow> piece57Lengths ! n < 11" by simp
  have "\<forall>n\<in>set [1..<9]. 0 < piece57Lengths ! n" by code_simp
  then show "0 < n \<Longrightarrow> n \<le> 8 \<Longrightarrow> 0 < piece57Lengths ! n" by simp
qed

lemma piece_value_digits:
  "piece_value (rev (map (\<lambda>i. base57alphabet ! (v div 57 ^ i mod 57)) [0..<k])) p = Inr (p * 57 ^ k + of_nat (v mod 57 ^ k))"
proof (induction k arbitrary: p)
  case (Suc k)
  have "v mod 57 ^ Suc k = 57 ^ k * (v div 57 ^ k mod 57) + v mod 57 ^ k" by (metis mod_mult2_eq mult.commute power_Suc)
  then have "of_nat (v mod 57 ^ Suc k) = (57 ^ k * of_nat (v div 57 ^ k mod 57) + of_nat (v mod 57 ^ k) :: u64)" by simp
  then show ?case using Suc by (simp add: algebra_simps)
qed simp

lemma be_value_snoc [simp]: "be_value (bs @ [b]) = be_value bs * 256 + unat b"
  by (simp add: be_value_def)

lemma be_value_less: "be_value bs < 256 ^ length bs"
proof (induction bs rule: rev_induct)
  case (snoc b bs)
  have "be_value bs * 256 + unat b < (be_value bs + 1) * 256" using unat_lt_256[of b] by simp
  also have "\<dots> \<le> 256 ^ length bs * 256" using snoc by (intro mult_right_mono) auto
  finally show ?case by (simp add: mult.commute)
qed (simp add: be_value_def)

lemma piece_bytes_value: "length bs \<le> 8 \<Longrightarrow> piece_bytes (length bs) (of_nat (be_value bs)) acc = bs @ acc"
proof (induction bs arbitrary: acc rule: rev_induct)
  case (snoc b bs)
  let ?v = "be_value bs * 256 + unat b"
  have "?v < 256 ^ length (bs @ [b])" using be_value_less[of "bs @ [b]"] by simp
  also have "\<dots> \<le> 256 ^ 8" using snoc.prems by (intro power_increasing) auto
  finally have v: "?v < 2 ^ 64" by simp
  have u: "unat (of_nat ?v :: u64) = ?v" using v by (simp only: unat_of_nat) simp
  have "unat (ucast (of_nat ?v :: u64) :: u8) = unat b" unfolding unsigned_ucast_eq u using unat_lt_256[of b] by (simp add: take_bit_nat_def)
  then have lo: "ucast (of_nat ?v :: u64) = b" by (rule word_unat_eq_iff[THEN iffD2])
  have "unat (drop_bit 8 (of_nat ?v :: u64)) = be_value bs" unfolding unat_drop_bit_eq u
    using unat_lt_256[of b] by (simp add: drop_bit_nat_def)
  then have hi: "drop_bit 8 (of_nat ?v :: u64) = of_nat (be_value bs)" by (metis word_of_nat_unat)
  have "piece_bytes (length (bs @ [b])) (of_nat (be_value (bs @ [b]))) acc =
      piece_bytes (length bs) (drop_bit 8 (of_nat ?v)) (ucast (of_nat ?v :: u64) # acc)" by simp
  also have "\<dots> = (bs @ [b]) @ acc" unfolding hi lo using snoc by simp
  finally show ?case .
qed (simp add: be_value_def)

lemma length_enc_piece [simp]: "length (enc_piece bs) = piece57Lengths ! length bs"
  by (simp add: enc_piece_def)

lemma decode_piece:
  assumes "length bs \<le> 8"
  shows "piece_value (rev (enc_piece bs)) 0 = Inr (of_nat (be_value bs))"
proof -
  have "be_value bs < 57 ^ (piece57Lengths ! length bs)"
    using be_value_less[of bs] piece_table(2)[OF assms] by linarith
  then show ?thesis by (simp add: enc_piece_def piece_value_digits)
qed

lemma encode_short: "length bs \<le> 8 \<Longrightarrow> encode_bytes bs = enc_piece bs"
  by (simp add: encode_bytes.simps[of bs] encode_bytes.simps[of "[]"] enc_piece_def piece57Lengths_def)

lemma full_piece: "piece57Lengths ! 8 = 11"
  by (simp add: piece57Lengths_def maximumPiece57Length_def)

lemma decode_pieces_encode: "decode_pieces (encode_bytes bs) = Inr bs"
proof (induction bs rule: encode_bytes.induct)
  case (1 bs)
  have split: "encode_bytes bs = enc_piece (take 8 bs) @ encode_bytes (drop 8 bs)" if "bs \<noteq> []"
    using that by (simp add: encode_bytes.simps[of bs])
  have nil: "encode_bytes [] = []" "decode_pieces [] = Inr []" by (simp_all add: encode_bytes.simps decode_pieces.simps)
  show ?case
  proof (cases "bs = []")
    case False
    let ?p = "enc_piece (take 8 bs)"
    have p: "take 11 (encode_bytes bs) = ?p \<and> drop 11 (encode_bytes bs) = encode_bytes (drop 8 bs)"
    proof (cases "8 \<le> length bs")
      case True
      then have "length ?p = 11" by (simp add: full_piece)
      then show ?thesis using split[OF False] by simp
    next
      case short: False
      then have "length ?p < 11" using piece_table(3)[of "length bs"] by simp
      then show ?thesis using split[OF False] short nil by simp
    qed
    have "0 < length ?p" using piece_table(4)[of "length (take 8 bs)"] False by simp
    then have ne: "encode_bytes bs \<noteq> []" unfolding split[OF False] by (metis append_is_Nil_conv length_greater_0_conv)
    have idx: "getIndexOfPieceLen (length ?p) = Some (length (take 8 bs))" using piece_table(1)[of "length (take 8 bs)"] by simp
    have bytes: "piece_bytes (length (take 8 bs)) (of_nat (be_value (take 8 bs))) [] = take 8 bs" by (subst piece_bytes_value) simp_all
    have "decode_pieces (encode_bytes bs) =
        bind_r (decode_pieces (encode_bytes (drop 8 bs)))
          (\<lambda>rest. Inr (piece_bytes (length (take 8 bs)) (of_nat (be_value (take 8 bs))) [] @ rest))"
      using ne p idx decode_piece[of "take 8 bs"] by (subst decode_pieces.simps) (simp add: Let_def del: length_enc_piece)
    then show ?thesis unfolding bytes using 1[OF False] by simp
  qed (simp add: nil)
qed

lemma length_encode_bytes: "length (encode_bytes bs) mod 11 = piece57Lengths ! (length bs mod 8)"
proof (induction bs rule: encode_bytes.induct)
  case (1 bs)
  consider "bs = []" | "0 < length bs" "length bs < 8" | "8 \<le> length bs" by (metis length_greater_0_conv not_le)
  then show ?case
  proof cases
    case 2
    then show ?thesis using piece_table(3)[of "length bs"] by (simp add: encode_short)
  next
    case 3
    then have "length (encode_bytes bs) = 11 + length (encode_bytes (drop 8 bs))"
      by (auto simp: encode_bytes.simps[of bs] full_piece)
    moreover have "bs \<noteq> []" "length bs mod 8 = (length bs - 8) mod 8" using 3 by (auto simp: le_mod_geq)
    ultimately show ?thesis using 1 by simp
  qed (simp add: encode_bytes.simps piece57Lengths_def)
qed

section \<open>Reading of nibbles\<close>

definition rest :: "NibbleReader \<Rightarrow> u8 list" where
  "rest r = drop (m_nibbleIndex r) (nibbles (m_stream r))"

lemma nibbles_Cons [simp]: "nibbles (b # bs) = (b AND 0x0F) # (drop_bit 4 b AND 0x0F) # nibbles bs" "nibbles [] = []"
  by (simp_all add: nibbles_def)

lemma length_nibbles [simp]: "length (nibbles bs) = 2 * length bs"
  by (induction bs) auto

lemma nth_nibbles:
  "i < 2 * length bs \<Longrightarrow> nibbles bs ! i = (if i mod 2 = 1 then drop_bit 4 (bs ! (i div 2)) else bs ! (i div 2)) AND 0x0F"
proof (induction bs arbitrary: i)
  case (Cons b bs)
  consider "i = 0" | "i = 1" | j where "i = Suc (Suc j)" by (metis One_nat_def not0_implies_Suc)
  then show ?case using Cons by cases (auto simp: mod_Suc div_Suc)
qed simp

lemma readNibble_rest: "rest r = n # ns \<Longrightarrow> \<exists>r'. readNibble r = Inr (n, r') \<and> rest r' = ns"
proof -
  assume r: "rest r = n # ns"
  then have i: "m_nibbleIndex r < 2 * length (m_stream r)"
    by (metis drop_all length_nibbles list.simps(3) not_le rest_def)
  then have "nibbles (m_stream r) ! m_nibbleIndex r = n" "drop (Suc (m_nibbleIndex r)) (nibbles (m_stream r)) = ns"
    using r Cons_nth_drop_Suc[of "m_nibbleIndex r" "nibbles (m_stream r)"] by (simp_all add: rest_def)
  then show ?thesis using i nth_nibbles[OF i] by (auto simp: readNibble_def Let_def rest_def)
qed

lemma join_nibbles: "(b AND 0x0F) OR push_bit 4 (drop_bit 4 b AND 0x0F) = (b :: u8)"
proof -
  have m: "(0x0F :: u8) = mask 4" by (simp add: mask_eq_exp_minus_1)
  show ?thesis unfolding m by (rule bit_word_eqI) (auto simp: bit_simps)
qed

lemma readByte_rest: "rest r = nibbles [b] @ ns \<Longrightarrow> \<exists>r'. readByte r = Inr (b, r') \<and> rest r' = ns"
proof -
  assume "rest r = nibbles [b] @ ns"
  then obtain r1 where r1: "readNibble r = Inr (b AND 0x0F, r1)" "rest r1 = (drop_bit 4 b AND 0x0F) # ns"
    using readNibble_rest[of r "b AND 0x0F"] by auto
  then obtain r2 where r2: "readNibble r1 = Inr (drop_bit 4 b AND 0x0F, r2)" "rest r2 = ns" using readNibble_rest[OF r1(2)] by blast
  then show ?thesis using r1(1) join_nibbles[of b] by (simp add: readByte_def)
qed

lemma readBytes_rest: "rest r = nibbles bs @ ns \<Longrightarrow> \<exists>r'. readBytes (length bs) r = Inr (bs, r') \<and> rest r' = ns"
proof (induction bs arbitrary: r)
  case (Cons b bs)
  then obtain r1 where r1: "readByte r = Inr (b, r1)" "rest r1 = nibbles bs @ ns" using readByte_rest[of r b "nibbles bs @ ns"] by auto
  then show ?case using Cons.IH[OF r1(2)] by auto
qed simp

lemma join_hwpid: "push_bit 8 (ucast (ucast (drop_bit 8 h) :: u8)) OR ucast (ucast h :: u8) = (h :: u16)"
  by (rule bit_word_eqI) (auto simp: bit_simps)

lemma read_item:
  assumes "wf_item x" "rest r = item_nibbles x @ ns"
  shows "\<exists>r'. read_tag r d = Inr (Some (r', apply_item x d)) \<and> rest r' = ns"
proof (cases x)
  case (Mid bs)
  then obtain r1 where "readNibble r = Inr (1, r1)" "rest r1 = nibbles bs @ ns" using readNibble_rest[of r 1] assms by auto
  then show ?thesis using readBytes_rest[of r1 bs ns] assms Mid by (auto simp: read_tag_def)
next
  case (Ibk bs)
  then obtain r1 where "readNibble r = Inr (2, r1)" "rest r1 = nibbles bs @ ns" using readNibble_rest[of r 2] assms by auto
  then show ?thesis using readBytes_rest[of r1 bs ns] assms Ibk by (auto simp: read_tag_def)
next
  case (Hwpid h)
  let ?hi = "ucast (drop_bit 8 h) :: u8" and ?lo = "ucast h :: u8"
  obtain r1 where r1: "readNibble r = Inr (3, r1)" "rest r1 = nibbles [?hi] @ nibbles [?lo] @ ns"
    using readNibble_rest[of r 3] assms Hwpid by auto
  obtain r2 where r2: "readByte r1 = Inr (?hi, r2)" "rest r2 = nibbles [?lo] @ ns" using readByte_rest[OF r1(2)] by blast
  obtain r3 where r3: "readByte r2 = Inr (?lo, r3)" "rest r3 = ns" using readByte_rest[OF r2(2)] by blast
  show ?thesis using Hwpid r1(1) r2(1) r3 by (auto simp: read_tag_def join_hwpid)
next
  case Nop
  then show ?thesis using readNibble_rest[of r 5 ns] assms by (auto simp: read_tag_def)
qed

lemma read_items:
  "list_all wf_item items \<Longrightarrow> rest r = concat (map item_nibbles items) @ 0 # zs \<Longrightarrow>
     read_tags r d = (fold apply_item items d, Inr ())"
proof (induction items arbitrary: r d)
  case Nil
  then show ?case using readNibble_rest[of r 0 zs] by (subst read_tags.simps) (auto simp: read_tag_def)
next
  case (Cons x items)
  then obtain r' where "read_tag r d = Inr (Some (r', apply_item x d))" "rest r' = concat (map item_nibbles items) @ 0 # zs"
    using read_item[of x r "concat (map item_nibbles items) @ 0 # zs" d] by auto
  then show ?case using Cons.IH[of r' "apply_item x d"] Cons.prems(1) by (subst read_tags.simps) simp
qed

section \<open>Packing\<close>

definition is_nibble :: "u8 \<Rightarrow> bool" where
  "is_nibble n \<longleftrightarrow> n AND 0x0F = n"

lemma is_nibble_bit: "is_nibble n \<Longrightarrow> bit n i \<Longrightarrow> i < 4"
proof -
  have m: "(0x0F :: u8) = mask 4" by (simp add: mask_eq_exp_minus_1)
  show "is_nibble n \<Longrightarrow> bit n i \<Longrightarrow> i < 4" unfolding is_nibble_def m by (metis bit_and_iff bit_mask_iff)
qed

lemma split_packed:
  assumes "is_nibble lo" "is_nibble hi"
  shows "(lo OR push_bit 4 hi) AND 0x0F = lo" "drop_bit 4 (lo OR push_bit 4 hi) AND 0x0F = hi"
proof -
  have m: "(0x0F :: u8) = mask 4" by (simp add: mask_eq_exp_minus_1)
  show "(lo OR push_bit 4 hi) AND 0x0F = lo" unfolding m
    by (rule bit_word_eqI) (use is_nibble_bit[OF assms(1)] in \<open>auto simp: bit_simps\<close>)
  show "drop_bit 4 (lo OR push_bit 4 hi) AND 0x0F = hi" unfolding m
    by (rule bit_word_eqI) (use is_nibble_bit[OF assms(1)] is_nibble_bit[OF assms(2)] in \<open>fastforce simp: bit_simps\<close>)
qed

lemma nibbles_pack: "list_all is_nibble ns \<Longrightarrow> nibbles (pack ns) = ns @ (if odd (length ns) then [0] else [])"
proof (induction ns rule: pack.induct)
  case (2 n)
  have "drop_bit 4 n = 0" by (rule bit_word_eqI) (use 2 is_nibble_bit[of n] in \<open>fastforce simp: bit_simps\<close>)
  then show ?case using 2 by (simp add: is_nibble_def)
next
  case (1 lo hi ns)
  then show ?case using split_packed[of lo hi] by simp
qed simp

lemma nibbles_are: "list_all is_nibble (nibbles bs)"
  by (induction bs) (auto simp: is_nibble_def and.assoc)

lemma item_nibbles_are: "list_all is_nibble (item_nibbles x)"
  using nibbles_are by (cases x) (simp_all add: is_nibble_def del: nibbles_Cons)

lemma items_nibbles_are: "list_all is_nibble (concat (map item_nibbles items) @ [0])"
  using item_nibbles_are by (induction items) (auto simp: is_nibble_def)

lemma decode_encoded:
  assumes "list_all wf_item items"
  shows "decode (encode items) d = (fold apply_item items d, Inr ())"
proof -
  let ?ns = "concat (map item_nibbles items) @ [0]"
  let ?bs = "pack ?ns"
  obtain zs where "nibbles ?bs = ?ns @ zs" using nibbles_pack[OF items_nibbles_are[of items]] by blast
  then have "rest \<lparr>m_stream = ?bs, m_nibbleIndex = 0\<rparr> = concat (map item_nibbles items) @ 0 # zs" by (simp add: rest_def)
  from read_items[OF assms this] have tags: "read_tags \<lparr>m_stream = ?bs, m_nibbleIndex = 0\<rparr> d = (fold apply_item items d, Inr ())" .
  have "getIndexOfPieceLen (length (encode_bytes ?bs) mod 11) = Some (length ?bs mod 8)"
    unfolding length_encode_bytes by (rule piece_table(1)) (simp add: less_imp_le)
  then show ?thesis
    using tags by (simp add: decode_def encode_def Let_def maximumPiece57Length_def decode_pieces_encode)
qed

section \<open>The check character\<close>

definition contribution :: "int \<Rightarrow> char \<Rightarrow> int" where
  "contribution factor c = addend factor c sdiv 57 + addend factor c smod 57"

lemma check_sum_append: "check_sum (xs @ ys) f s = check_sum ys (if even (length xs) then f else 3 - f) (check_sum xs f s)"
  by (induction xs arbitrary: f s) auto

lemma check_sum_add: "check_sum xs f (s + t) = check_sum xs f s + t"
proof (induction xs arbitrary: f s)
  case (Cons x xs)
  have "s + t + (addend f x sdiv 57 + addend f x smod 57) = s + (addend f x sdiv 57 + addend f x smod 57) + t" by simp
  then show ?case using Cons by (simp only: check_sum.simps)
qed simp

lemma contribution_digit:
  assumes "i < 57"
  shows "contribution 1 (base57alphabet ! i) = int i" "contribution 2 (base57alphabet ! i) = (if i \<le> 28 then 2 * int i else 2 * int i - 56)"
proof -
  have d: "alphabet_find (base57alphabet ! i) = Some i" using assms by simp
  show "contribution 1 (base57alphabet ! i) = int i"
    using assms by (auto simp: contribution_def addend_def d signed_divide_int_def signed_modulo_int_def sgn_if)
  have "2 * int i div 57 + 2 * int i mod 57 = (if i \<le> 28 then 2 * int i else 2 * int i - 56)"
  proof (cases "i \<le> 28")
    case False
    have q: "2 * int i div 57 = 1" by (rule int_div_pos_eq[of _ _ _ "2 * int i - 57"]) (use False assms in auto)
    show ?thesis unfolding minus_div_mult_eq_mod[symmetric] q using False by simp
  qed simp
  moreover have "contribution 2 (base57alphabet ! i) = 2 * int i div 57 + 2 * int i mod 57"
    by (simp add: contribution_def addend_def d signed_divide_int_def signed_modulo_int_def sgn_if minus_div_mult_eq_mod)
  ultimately show "contribution 2 (base57alphabet ! i) = (if i \<le> 28 then 2 * int i else 2 * int i - 56)" by simp
qed

lemma contribution_bound: "c \<in> set base57alphabet \<Longrightarrow> f = 1 \<or> f = 2 \<Longrightarrow> 0 \<le> contribution f c \<and> contribution f c < 57"
  by (auto simp: in_set_conv_nth alphabet_size contribution_digit)

lemma check_sum_split:
  "check_sum (rev (xs @ a # ys)) 2 0 = check_sum (rev ys) 2 0 + contribution (if even (length ys) then 2 else 1) a
     + check_sum (rev xs) (if even (length ys) then 1 else 2) 0"
proof -
  let ?f = "if even (length ys) then 2 else 1 :: int" and ?s = "check_sum (rev ys) 2 0"
  have "check_sum (rev (xs @ a # ys)) 2 0 = check_sum (a # rev xs) ?f ?s" by (simp add: check_sum_append)
  also have "\<dots> = check_sum (rev xs) (3 - ?f) (0 + (?s + contribution ?f a))" by (simp add: contribution_def)
  also have "\<dots> = check_sum (rev xs) (3 - ?f) 0 + (?s + contribution ?f a)" by (rule check_sum_add)
  finally show ?thesis by auto
qed

lemma check_sum_nonneg: "set xs \<subseteq> set base57alphabet \<Longrightarrow> f = 1 \<or> f = 2 \<Longrightarrow> 0 \<le> s \<Longrightarrow> 0 \<le> check_sum xs f s"
proof (induction xs arbitrary: f s)
  case (Cons x xs)
  have "0 \<le> contribution f x" using contribution_bound[of x f] Cons.prems by simp
  then show ?case using Cons.IH[of "3 - f" "s + contribution f x"] Cons.prems by (auto simp: contribution_def)
qed simp

lemma checkChar_eq:
  assumes "set xs \<subseteq> set base57alphabet" "set ys \<subseteq> set base57alphabet"
  shows "checkChar xs = checkChar ys \<longleftrightarrow> check_sum (rev xs) 2 0 mod 57 = check_sum (rev ys) 2 0 mod 57"
proof -
  have idx: "checkChar zs = base57alphabet ! nat ((- check_sum (rev zs) 2 0) mod 57)" if "set zs \<subseteq> set base57alphabet" for zs
  proof -
    let ?s = "check_sum (rev zs) 2 0"
    have "0 \<le> ?s" using check_sum_nonneg[of "rev zs" 2 0] that by simp
    then have "?s smod 57 = ?s mod 57" by (simp add: signed_modulo_int_def signed_divide_int_def sgn_if minus_div_mult_eq_mod)
    moreover have "0 \<le> 57 - ?s mod 57" by (simp add: less_imp_le)
    then have "(57 - ?s mod 57) smod 57 = (57 - ?s mod 57) mod 57"
      by (simp add: signed_modulo_int_def signed_divide_int_def sgn_if minus_div_mult_eq_mod)
    moreover have "(57 - ?s mod 57) mod 57 = (- ?s) mod 57" unfolding mod_diff_right_eq by simp
    ultimately show ?thesis by (simp add: checkChar_def)
  qed
  let ?a = "check_sum (rev xs) 2 0" and ?b = "check_sum (rev ys) 2 0"
  have "nat ((- ?a) mod 57) < length base57alphabet" "nat ((- ?b) mod 57) < length base57alphabet" by (simp_all add: alphabet_size)
  then have "checkChar xs = checkChar ys \<longleftrightarrow> nat ((- ?a) mod 57) = nat ((- ?b) mod 57)"
    unfolding idx[OF assms(1)] idx[OF assms(2)] using alphabet_size(2) by (rule nth_eq_iff_index_eq[rotated])
  also have "\<dots> \<longleftrightarrow> ?a mod 57 = ?b mod 57" 
    by (simp add: eq_nat_nat_iff mod_eq_dvd_iff) (metis dvd_minus_iff minus_diff_eq)
  finally show ?thesis .
qed

text \<open>Two characters the check cannot tell apart at a position that is counted twice.\<close>

definition confusable :: "char \<Rightarrow> char \<Rightarrow> bool" where
  "confusable a b \<longleftrightarrow> (\<exists>i\<in>{1..28}. {a, b} = {base57alphabet ! i, base57alphabet ! (i + 28)})"

lemma contribution_eq:
  assumes "a \<in> set base57alphabet" "b \<in> set base57alphabet"
  shows "contribution 1 a = contribution 1 b \<longleftrightarrow> a = b" "contribution 2 a = contribution 2 b \<longleftrightarrow> a = b \<or> confusable a b"
proof -
  obtain i j where ij: "i < 57" "a = base57alphabet ! i" "j < 57" "b = base57alphabet ! j"
    using assms by (auto simp: in_set_conv_nth alphabet_size)
  have inj: "base57alphabet ! k = base57alphabet ! l \<longleftrightarrow> k = l" if "k < 57" "l < 57" for k l
    using that by (simp add: nth_eq_iff_index_eq alphabet_size)
  show "contribution 1 a = contribution 1 b \<longleftrightarrow> a = b" using ij by (simp add: contribution_digit inj)
  have "confusable a b \<longleftrightarrow> (\<exists>k\<in>{1..28}. i = k \<and> j = k + 28 \<or> j = k \<and> i = k + 28)"
    unfolding confusable_def ij(2,4) doubleton_eq_iff by (rule bex_cong) (use ij(1,3) in \<open>auto simp: inj\<close>)
  also have "\<dots> \<longleftrightarrow> 1 \<le> i \<and> j = i + 28 \<or> 1 \<le> j \<and> i = j + 28" using ij(1,3) by auto
  finally show "contribution 2 a = contribution 2 b \<longleftrightarrow> a = b \<or> confusable a b"
    using ij by (auto simp: contribution_digit inj)
qed

lemma mod_summand_iff:
  assumes "0 \<le> x \<and> x < m" "0 \<le> y \<and> y < m"
  shows "(s + x + t) mod m = (s + y + t) mod m \<longleftrightarrow> x = (y :: int)"
proof -
  have "(s + x + t) mod m = (s + y + t) mod m \<longleftrightarrow> x mod m = y mod m" by (simp add: mod_eq_dvd_iff)
  then show ?thesis using assms by simp
qed

lemma checkChar_replace:
  assumes "set xs \<subseteq> set base57alphabet" "set ys \<subseteq> set base57alphabet" "a \<in> set base57alphabet" "b \<in> set base57alphabet"
  shows "checkChar (xs @ a # ys) = checkChar (xs @ b # ys) \<longleftrightarrow> a = b \<or> even (length ys) \<and> confusable a b"
proof -
  let ?f = "if even (length ys) then 2 else 1 :: int"
  have b: "0 \<le> contribution ?f a \<and> contribution ?f a < 57" "0 \<le> contribution ?f b \<and> contribution ?f b < 57"
    using contribution_bound assms by simp_all
  have "checkChar (xs @ a # ys) = checkChar (xs @ b # ys) \<longleftrightarrow>
      check_sum (rev (xs @ a # ys)) 2 0 mod 57 = check_sum (rev (xs @ b # ys)) 2 0 mod 57"
    by (rule checkChar_eq) (use assms in simp_all)
  also have "\<dots> \<longleftrightarrow> contribution ?f a = contribution ?f b"
    unfolding check_sum_split by (rule mod_summand_iff[OF b])
  also have "\<dots> \<longleftrightarrow> a = b \<or> even (length ys) \<and> confusable a b" using contribution_eq[OF assms(3,4)] by simp
  finally show ?thesis .
qed

lemma read_tags_errors:
  "snd (read_tags r d) \<in> {Inr (), Inl (LogicError ''No more data available to read.''), Inl (LogicError ''Unknown tag value.'')}"
proof (induction r d rule: read_tags.induct)
  case (1 r d)
  have n: "readNibble q = Inl e \<Longrightarrow> e = LogicError ''No more data available to read.''" for q e
    by (auto simp: readNibble_def Let_def split: if_splits)
  have b: "readByte q = Inl e \<Longrightarrow> e = LogicError ''No more data available to read.''" for q e
    using n by (auto simp: readByte_def bind_r_eq_Inl)
  have bs: "readBytes k q = Inl e \<Longrightarrow> e = LogicError ''No more data available to read.''" for k q e
    using b by (induction k arbitrary: q) (auto simp: bind_r_eq_Inl)
  have "e \<in> {LogicError ''No more data available to read.'', LogicError ''Unknown tag value.''}" if "read_tag r d = Inl e" for e
    using that n b bs by (auto simp: read_tag_def bind_r_eq_Inl split: if_splits)
  then show ?case using 1 by (subst (1) read_tags.simps) (auto split: sum.split option.split)
qed

lemma decode_pieces_errors: "decode_pieces code = Inl e \<Longrightarrow> e = LogicError ''IQRF Code contains an incorrect character ''"
proof (induction code rule: decode_pieces.induct)
  case (1 code)
  have "piece_value cs p = Inl e \<Longrightarrow> e = LogicError ''IQRF Code contains an incorrect character ''" for cs p
    by (induction cs arbitrary: p) (auto split: option.splits)
  then show ?case using 1 by (subst (asm) (2) decode_pieces.simps) (auto simp: bind_r_eq_Inl Let_def split: if_splits)
qed

abbreviation check_error :: exc where
  "check_error \<equiv> LogicError ''IQRF Code ends by an incorrect check character.''"

lemma decode_check: "snd (decode (t @ [c]) d) = Inl check_error \<longleftrightarrow> c \<noteq> checkChar t"
  using read_tags_errors[of "\<lparr>m_stream = projr (decode_pieces t), m_nibbleIndex = 0\<rparr>" d] decode_pieces_errors[of t]
  by (auto simp: decode_def Let_def split: sum.splits)

section \<open>Properties\<close>

text \<open>
  C40: decoding a code gives the values it was made from. For every sequence of values (module identification of 4 bytes, bonding key of 16 bytes, hardware profile,
  no-operation), the code made from them by the reference encoder is accepted, whatever its length, and exactly these values are assigned in their order; a value that the code
  does not contain stays as the previous code left it.\<close>

theorem iqrf_code_roundtrip:
  assumes "list_all wf_item items"
  shows "decode (encode items) d = (fold apply_item items d, Inr ())"
  by (rule decode_encoded[OF assms])

theorem iqrf_code_roundtrip_witness:
  "decode (encode [Hwpid 0x1234, Mid [1, 2, 3, 4]]) \<lparr>m_mid = [], m_ibk = [9], m_hwpId = 0xFFFF\<rparr> =
     (\<lparr>m_mid = [1, 2, 3, 4], m_ibk = [9], m_hwpId = 0x1234\<rparr>, Inr ())"
proof -
  have "list_all wf_item [Hwpid 0x1234, Mid [1, 2, 3, 4]]" by simp
  from iqrf_code_roundtrip[OF this] show ?thesis by simp
qed

text \<open>
  Which typing errors the check character of an IQRF code finds. If one character of a code is replaced by another of the alphabet, the code is rejected because of its
  check character unless the character stands at an odd distance from the check character (first, third and so on before it) and the two have the positions \<open>i\<close> and
  \<open>i + 28\<close> in the alphabet, with \<open>i\<close> from 1 to 28: 57 is odd, so doubling does not permute the digits.\<close>

theorem mistyped_character:
  assumes "set xs \<subseteq> set base57alphabet" "set ys \<subseteq> set base57alphabet" "a \<in> set base57alphabet" "b \<in> set base57alphabet" "a \<noteq> b"
  shows "snd (decode (xs @ b # ys @ [checkChar (xs @ a # ys)]) d) = Inl check_error \<longleftrightarrow> \<not> (even (length ys) \<and> confusable a b)"
  using decode_check[of "xs @ b # ys" "checkChar (xs @ a # ys)" d] checkChar_replace[OF assms(1-4)] assms(5) by auto

theorem mistyped_character_witness:
  "snd (decode (''2A3'' @ [checkChar ''2B3'']) \<lparr>m_mid = [], m_ibk = [], m_hwpId = 0\<rparr>) = Inl check_error"
  using mistyped_character[of "''2''" "''3''" "CHR ''B''" "CHR ''A''" "\<lparr>m_mid = [], m_ibk = [], m_hwpId = 0\<rparr>"]
  by (simp add: base57alphabet_def)

end
