(* ===== verification/Dpa_Service.thy ===== *)
theory Dpa_Service
  imports Json
begin

text \<open>
  What the network services of \<open>IqmeshServices\<close> share: DPA transactions with repetition (\<open>IqrfDpa.cpp\<close>), the request object of
  \<open>include/ComBase.h\<close>, the bookkeeping of status and transaction results, and the transactions that occur in the same form in several services.

  A service is a function on its state that ends with a value or an exception. The state contains the network, which is
  abstract: the transaction handler of the DPA library, a submodule, is the function \<open>execTransaction\<close> of the environment. Also parameters are
  the constants and the layout of the structures of \<open>DPA.h\<close>: \<open>enc_\<close> functions give the bytes of a structure, the others read a member of the response data.
\<close>

section \<open>Services as state transformers\<close>

type_synonym ('s, 'a) act = "'s \<Rightarrow> 's \<times> 'a result"

definition ret :: "'a \<Rightarrow> ('s, 'a) act" where
  "ret x s = (s, Inr x)"

definition throw :: "exc \<Rightarrow> ('s, 'a) act" where
  "throw e s = (s, Inl e)"

definition bind_s :: "('s, 'a) act \<Rightarrow> ('a \<Rightarrow> ('s, 'b) act) \<Rightarrow> ('s, 'b) act" where
  "bind_s m f s = (case m s of (s', Inl e) \<Rightarrow> (s', Inl e) | (s', Inr x) \<Rightarrow> f x s')"

definition upd :: "('s \<Rightarrow> 's) \<Rightarrow> ('s, unit) act" where
  "upd f s = (f s, Inr ())"

definition get_s :: "('s \<Rightarrow> 'a) \<Rightarrow> ('s, 'a) act" where
  "get_s f s = (s, Inr (f s))"

definition of_result :: "'a result \<Rightarrow> ('s, 'a) act" where
  "of_result r s = (s, r)"

fun for_s :: "('x \<Rightarrow> ('s, unit) act) \<Rightarrow> 'x list \<Rightarrow> ('s, unit) act" where
  "for_s f [] = ret ()"
| "for_s f (x # xs) = bind_s (f x) (\<lambda>_. for_s f xs)"

section \<open>Transactions\<close>

record request =
  rq_nadr :: u16
  rq_pnum :: u8
  rq_pcmd :: u8
  rq_hwpid :: u16
  rq_pdata :: bytes

text \<open>A finished transaction: its error code and text, and the data field of the response.\<close>

record trans_result =
  tr_request :: request
  tr_errorCode :: int
  tr_errorString :: string
  tr_response :: bytes

record 'n dpa_env =
  execTransaction :: "request \<Rightarrow> int \<Rightarrow> 'n \<Rightarrow> 'n \<times> (string + trans_result)"
  sendDocument :: "json \<Rightarrow> unit result"
  rawObject :: "trans_result \<Rightarrow> json"
  TRN_OK :: int
  COORDINATOR_ADDRESS :: u16
  BROADCAST_ADDRESS :: u16
  MAX_ADDRESS :: u8
  HWPID_DoNotCheck :: u16
  PNUM_COORDINATOR :: u8
  PNUM_NODE :: u8
  PNUM_OS :: u8
  PNUM_EEPROM :: u8
  PNUM_EEEPROM :: u8
  PNUM_FRC :: u8
  CMD_COORDINATOR_BONDED_DEVICES :: u8
  CMD_NODE_READ :: u8
  CMD_OS_READ :: u8
  CMD_OS_BATCH :: u8
  CMD_OS_LOAD_CODE :: u8
  CMD_EEPROM_WRITE :: u8
  CMD_EEEPROM_XWRITE :: u8
  CMD_FRC_SEND :: u8
  CMD_FRC_SEND_SELECTIVE :: u8
  CMD_FRC_EXTRARESULT :: u8
  CMD_FRC_SET_PARAMS :: u8
  FRC_Ping :: u8
  FRC_AcknowledgedBroadcastBits :: u8
  FRC_MemoryRead4B :: u8
  FRC_MemoryReadPlus1 :: u8
  k40Ms :: u8
  k1320Ms :: u8
  k2600Ms :: u8
  k5160Ms :: u8
  k10280Ms :: u8
  k20620Ms :: u8
  enc_FrcSetParams :: "u8 \<Rightarrow> bytes"
  enc_FrcSend :: "u8 \<Rightarrow> bytes \<Rightarrow> bytes"
  enc_FrcSendSelective :: "u8 \<Rightarrow> bytes \<Rightarrow> bytes \<Rightarrow> bytes"
  enc_MemoryWrite :: "u8 \<Rightarrow> bytes \<Rightarrow> bytes"
  enc_XMemoryWrite :: "u16 \<Rightarrow> bytes \<Rightarrow> bytes"
  enc_OSLoadCode :: "u8 \<Rightarrow> u16 \<Rightarrow> u16 \<Rightarrow> u16 \<Rightarrow> bytes"
  FrcParams :: "bytes \<Rightarrow> u8"
  FrcSend_Status :: "bytes \<Rightarrow> u8"
  FrcSend_FrcData :: "bytes \<Rightarrow> bytes"

text \<open>
  \<open>executeDpaTransactionRepeat\<close>: \<open>repeat\<close> is the number of repetitions left, \<open>result\<close> the pointer the caller passes. It is not changed by an attempt that
  throws before there is a result.
\<close>

fun executeDpaTransactionRepeat ::
    "('n, 'z) dpa_env_scheme \<Rightarrow> request \<Rightarrow> int \<Rightarrow> nat \<Rightarrow> trans_result option \<Rightarrow> 'n \<Rightarrow> 'n \<times> trans_result option \<times> unit result" where
  "executeDpaTransactionRepeat E rq timeout repeat result n =
     (case execTransaction E rq timeout n of
        (n', Inl w) \<Rightarrow>
          (case repeat of
             0 \<Rightarrow> (n', result, Inl (LogicError w))
           | Suc r \<Rightarrow> executeDpaTransactionRepeat E rq timeout r result n')
      | (n', Inr tr) \<Rightarrow>
          if tr_errorCode tr = TRN_OK E then (n', Some tr, Inr ())
          else (case repeat of
             0 \<Rightarrow> (n', Some tr, Inl (LogicError ((if tr_errorCode tr < 0 then ''Transaction error: '' else ''DPA error: '') @ tr_errorString tr)))
           | Suc r \<Rightarrow> executeDpaTransactionRepeat E rq timeout r (Some tr) n'))"

declare executeDpaTransactionRepeat.simps [simp del]

section \<open>State of a service\<close>

text \<open>
  \<open>frcTime\<close> is the FRC response time the DPA handler of the daemon works with. The status, its text and the transaction results are
  members of the result object of the service; \<open>sent\<close> are the responses given to the splitter. With a negative number of repetitions the loop of the
  transactions is not entered.
\<close>

record 'n svc =
  net :: 'n
  frcTime :: u8
  exclusive :: bool
  s_status :: int
  s_statusStr :: string
  s_results :: "trans_result list"
  sent :: "json list"

definition setStatus :: "int \<Rightarrow> string \<Rightarrow> (('n, 'z) svc_scheme, unit) act" where
  "setStatus status str = upd (\<lambda>s. s\<lparr>s_status := status, s_statusStr := str\<rparr>)"

definition setFrcTime :: "u8 \<Rightarrow> (('n, 'z) svc_scheme, unit) act" where
  "setFrcTime t = upd (\<lambda>s. s\<lparr>frcTime := t\<rparr>)"

text \<open>
  Inside a \<open>try\<close> block the state is paired with the pointer \<open>transResult\<close>. Adding the result to the list moves it out of the pointer.
\<close>

definition exec_p ::
    "('n, 'e) dpa_env_scheme \<Rightarrow> request \<Rightarrow> int \<Rightarrow> int \<Rightarrow> (trans_result option \<times> ('n, 'z) svc_scheme, bytes) act" where
  "exec_p E rq timeout repeat ps =
     (case (if repeat < 0 then (net (snd ps), fst ps, Inr ())
            else executeDpaTransactionRepeat E rq timeout (nat repeat) (fst ps) (net (snd ps))) of
        (n, ptr, r) \<Rightarrow>
          ((ptr, (snd ps)\<lparr>net := n\<rparr>),
           (case r of Inl e \<Rightarrow> Inl e
            | Inr _ \<Rightarrow> (case ptr of None \<Rightarrow> Inl (UB ''nullptr'') | Some tr \<Rightarrow> Inr (tr_response tr)))))"

definition add_p :: "(trans_result option \<times> ('n, 'z) svc_scheme, unit) act" where
  "add_p ps = (case ps of (None, s) \<Rightarrow> (ps, Inr ()) | (Some tr, s) \<Rightarrow> ((None, s\<lparr>s_results := s_results s @ [tr]\<rparr>), Inr ()))"

definition lift_p :: "('s, 'a) act \<Rightarrow> (trans_result option \<times> 's, 'a) act" where
  "lift_p m ps = (case m (snd ps) of (s, r) \<Rightarrow> ((fst ps, s), r))"

text \<open>
  The handler at the end of such a block: it reads the error code through the pointer, stores the result and throws again as
  \<open>std::logic_error\<close>. \<open>keep\<close> is the flag \<open>forced\<close> of one of the services, which leaves the status as it is.
\<close>

definition report :: "bool \<Rightarrow> trans_result option \<Rightarrow> exc \<Rightarrow> (('n, 'z) svc_scheme, 'a) act" where
  "report keep ptr e s =
     (case what e of
        None \<Rightarrow> (s, Inl e)
      | Some w \<Rightarrow>
          (case ptr of
             None \<Rightarrow> if keep then (s, Inl (LogicError w)) else (s, Inl (UB ''nullptr''))
           | Some tr \<Rightarrow>
               ((if keep then s else s\<lparr>s_status := tr_errorCode tr, s_statusStr := w\<rparr>)\<lparr>s_results := s_results s @ [tr]\<rparr>,
                Inl (LogicError w))))"

definition try_p :: "(trans_result option \<times> ('n, 'z) svc_scheme, 'a) act \<Rightarrow> (('n, 'z) svc_scheme, 'a) act" where
  "try_p body s =
     (case body (None, s) of ((ptr, s'), Inr x) \<Rightarrow> (s', Inr x) | ((ptr, s'), Inl e) \<Rightarrow> report False ptr e s')"

section \<open>Transactions several services have\<close>

definition to_coordinator :: "('n, 'e) dpa_env_scheme \<Rightarrow> u8 \<Rightarrow> u8 \<Rightarrow> bytes \<Rightarrow> request" where
  "to_coordinator E pnum pcmd pdata =
     \<lparr>rq_nadr = COORDINATOR_ADDRESS E, rq_pnum = pnum, rq_pcmd = pcmd, rq_hwpid = HWPID_DoNotCheck E, rq_pdata = pdata\<rparr>"

text \<open>The loop over the addresses ends because \<open>MAX_ADDRESS\<close> is less than 255.\<close>

definition bitmapToNodes :: "('n, 'e) dpa_env_scheme \<Rightarrow> bytes \<Rightarrow> u8 list" where
  "bitmapToNodes E bitmap =
     map of_nat (filter (\<lambda>i. bitmap ! (i div 8) AND push_bit (i mod 8) 1 \<noteq> 0) [0..<Suc (unat (MAX_ADDRESS E))])"

definition setFrcReponseTime :: "('n, 'e) dpa_env_scheme \<Rightarrow> int \<Rightarrow> u8 \<Rightarrow> (('n, 'z) svc_scheme, u8) act" where
  "setFrcReponseTime E repeat t =
     try_p (bind_s (exec_p E (to_coordinator E (PNUM_FRC E) (CMD_FRC_SET_PARAMS E) (enc_FrcSetParams E t)) (-1) repeat) (\<lambda>rsp.
       bind_s add_p (\<lambda>_. ret (FrcParams E rsp))))"

definition getBondedNodes :: "('n, 'e) dpa_env_scheme \<Rightarrow> int \<Rightarrow> (('n, 'z) svc_scheme, u8 list) act" where
  "getBondedNodes E repeat =
     try_p (bind_s (exec_p E (to_coordinator E (PNUM_COORDINATOR E) (CMD_COORDINATOR_BONDED_DEVICES E) []) (-1) repeat) (\<lambda>rsp.
       bind_s add_p (\<lambda>_. ret (bitmapToNodes E rsp))))"

text \<open>\<open>ComBase\<close>: message type, message identifier and verbosity of a request.\<close>

record com_base =
  c_mType :: string
  c_msgId :: string
  c_timeout :: int
  c_verbose :: bool

definition deref :: "json option \<Rightarrow> json result" where
  "deref v = (case v of None \<Rightarrow> Inl (UB ''nullptr'') | Some x \<Rightarrow> Inr x)"

definition is_int :: "int \<Rightarrow> bool" where
  "is_int n \<longleftrightarrow> - (2 ^ 31) \<le> n \<and> n < 2 ^ 31"

definition ComBase :: "json \<Rightarrow> com_base result" where
  "ComBase doc =
     bind_r (bind_r (deref (jget [''mType''] doc)) GetString) (\<lambda>mType.
     bind_r (bind_r (deref (jget [''data'', ''msgId''] doc)) GetString) (\<lambda>msgId.
       Inr \<lparr>c_mType = mType, c_msgId = msgId,
            c_timeout = (case jget [''data'', ''timeout''] doc of Some (JNum n) \<Rightarrow> if is_int n then n else -1 | _ \<Rightarrow> -1),
            c_verbose = (case jget [''data'', ''returnVerbose''] doc of Some (JBool b) \<Rightarrow> b | _ \<Rightarrow> False)\<rparr>))"

text \<open>\<open>GetInt\<close> and \<open>GetBool\<close> of a member that may be missing.\<close>

definition int_member :: "string list \<Rightarrow> json \<Rightarrow> int \<Rightarrow> int result" where
  "int_member p doc dflt =
     (case jget p doc of
        None \<Rightarrow> Inr dflt
      | Some (JNum n) \<Rightarrow> if is_int n then Inr n else Inl (UB ''RAPIDJSON_ASSERT'')
      | Some _ \<Rightarrow> Inl (UB ''RAPIDJSON_ASSERT''))"

definition bool_member :: "string list \<Rightarrow> json \<Rightarrow> bool \<Rightarrow> bool result" where
  "bool_member p doc dflt =
     (case jget p doc of None \<Rightarrow> Inr dflt | Some (JBool b) \<Rightarrow> Inr b | Some _ \<Rightarrow> Inl (UB ''RAPIDJSON_ASSERT''))"

definition string_member :: "string list \<Rightarrow> json \<Rightarrow> string \<Rightarrow> string result" where
  "string_member p doc dflt = (case jget p doc of None \<Rightarrow> Inr dflt | Some v \<Rightarrow> GetString v)"

definition send_response :: "('n, 'e) dpa_env_scheme \<Rightarrow> json \<Rightarrow> (('n, 'z) svc_scheme, unit) act" where
  "send_response E doc s = (case sendDocument E doc of Inl e \<Rightarrow> (s, Inl e) | Inr _ \<Rightarrow> (s\<lparr>sent := sent s @ [doc]\<rparr>, Inr ()))"

definition error_response :: "string \<Rightarrow> string \<Rightarrow> int \<Rightarrow> string \<Rightarrow> json" where
  "error_response mType msgId status str =
     jset_all [([''mType''], JStr mType), ([''data'', ''msgId''], JStr msgId), ([''data'', ''status''], JNum status),
       ([''data'', ''statusStr''], JStr str)] JNull"

text \<open>
  The end of \<open>handleMsg\<close> that the services have in common: take the exclusive access (\<open>refused\<close> is the text of the exception when that fails), run the service, whose exceptions
  are caught inside, send the response, and give the access back on every path.
\<close>

definition run_exclusive ::
    "('n, 'e) dpa_env_scheme \<Rightarrow> string option \<Rightarrow> (string \<Rightarrow> json) \<Rightarrow> (('n, 'z) svc_scheme, unit) act \<Rightarrow>
     (('n, 'z) svc_scheme \<Rightarrow> json) \<Rightarrow> (('n, 'z) svc_scheme, unit) act" where
  "run_exclusive E refused refusal service response s =
     (case refused of
        Some w \<Rightarrow> send_response E (refusal w) s
      | None \<Rightarrow>
          (case service (s\<lparr>exclusive := True\<rparr>) of
             (s, Inl (UB e)) \<Rightarrow> (s, Inl (UB e))
           | (s, _) \<Rightarrow>
               (case send_response E (response s) s of
                  (s, Inr _) \<Rightarrow> (s\<lparr>exclusive := False\<rparr>, Inr ())
                | (s, Inl e) \<Rightarrow>
                    (case what e of None \<Rightarrow> (s, Inl e) | Some w \<Rightarrow> (s\<lparr>exclusive := False\<rparr>, Inl (LogicError w))))))"

section \<open>Laws\<close>

named_theorems act_simps

lemma ret_simp [simp, act_simps]: "ret x s = (s, Inr x)" "throw e s = (s, Inl e)" "upd f s = (f s, Inr ())" "get_s g s = (s, Inr (g s))"
  "of_result r s = (s, r)"
  by (simp_all add: ret_def throw_def upd_def get_s_def of_result_def)

lemma bind_s_Inr [act_simps]: "bind_s m f s = (s', Inr y) \<longleftrightarrow> (\<exists>s1 x. m s = (s1, Inr x) \<and> f x s1 = (s', Inr y))"
  by (auto simp: bind_s_def split: prod.split sum.split)

lemma bind_s_simps [simp]:
  "m s = (s1, Inr x) \<Longrightarrow> bind_s m f s = f x s1" "m s = (s1, Inl e) \<Longrightarrow> bind_s m f s = (s1, Inl e)"
  by (simp_all add: bind_s_def)

lemma report_not_Inr [simp]: "report keep ptr e s \<noteq> (s', Inr x)"
  by (auto simp: report_def split: option.split)

lemma try_p_Inr [act_simps]: "try_p b s = (s', Inr x) \<longleftrightarrow> (\<exists>ptr. b (None, s) = ((ptr, s'), Inr x))"
  by (auto simp: try_p_def split: prod.split sum.split)

lemma lift_p_simp [simp, act_simps]: "lift_p m (p, s) = (case m s of (s', r) \<Rightarrow> ((p, s'), r))"
  by (simp add: lift_p_def)

lemma add_p_simps [simp, act_simps]: "add_p (None, s) = ((None, s), Inr ())" "add_p (Some tr, s) = ((None, s\<lparr>s_results := s_results s @ [tr]\<rparr>), Inr ())"
  by (simp_all add: add_p_def)

lemma for_s_append: "for_s f (xs @ ys) = bind_s (for_s f xs) (\<lambda>_. for_s f ys)"
  by (induction xs) (auto simp: fun_eq_iff bind_s_def split: prod.split sum.split)

lemma for_s_upd [simp]: "for_s (\<lambda>x. upd (g x)) xs s = (fold g xs s, Inr ())"
  by (induction xs arbitrary: s) simp_all

text \<open>What holds after a transaction that succeeded, perhaps after failed attempts that keep \<open>P\<close>.\<close>

definition ok_tr :: "('n, 'e) dpa_env_scheme \<Rightarrow> string + trans_result \<Rightarrow> bool" where
  "ok_tr E r \<longleftrightarrow> (case r of Inl _ \<Rightarrow> False | Inr tr \<Rightarrow> tr_errorCode tr = TRN_OK E)"

lemma repeat_success:
  assumes "executeDpaTransactionRepeat E rq t k p n = (n', p', Inr ())" "P n"
    and "\<And>n n' r. P n \<Longrightarrow> execTransaction E rq t n = (n', r) \<Longrightarrow> \<not> ok_tr E r \<Longrightarrow> P n'"
  shows "\<exists>n1 tr. P n1 \<and> execTransaction E rq t n1 = (n', Inr tr) \<and> tr_errorCode tr = TRN_OK E \<and> p' = Some tr"
  using assms(1,2)
proof (induction k arbitrary: p n)
  case 0
  then show ?case by (subst (asm) executeDpaTransactionRepeat.simps) (fastforce split: prod.splits sum.splits if_splits)
next
  case (Suc k)
  obtain n1 r where r: "execTransaction E rq t n = (n1, r)" by fastforce
  show ?case
  proof (cases "ok_tr E r")
    case True
    then show ?thesis using Suc.prems r by (subst (asm) executeDpaTransactionRepeat.simps) (auto simp: ok_tr_def split: sum.splits)
  next
    case False
    have "P n1" using assms(3)[OF Suc.prems(2) r False] .
    moreover have "\<exists>q. executeDpaTransactionRepeat E rq t k q n1 = (n', p', Inr ())"
      using Suc.prems(1) r False by (subst (asm) executeDpaTransactionRepeat.simps) (auto simp: ok_tr_def split: sum.splits)
    ultimately show ?thesis using Suc.IH by blast
  qed
qed

lemma exec_p_success:
  assumes "exec_p E rq t k (p, s) = ((p', s'), Inr rsp)" "0 \<le> k" "P (net s)"
    and "\<And>n n' r. P n \<Longrightarrow> execTransaction E rq t n = (n', r) \<Longrightarrow> \<not> ok_tr E r \<Longrightarrow> P n'"
  shows "\<exists>n1 n' tr. P n1 \<and> execTransaction E rq t n1 = (n', Inr tr) \<and> tr_errorCode tr = TRN_OK E \<and> p' = Some tr \<and>
    s' = s\<lparr>net := n'\<rparr> \<and> rsp = tr_response tr"
proof -
  obtain n' q r where rep: "executeDpaTransactionRepeat E rq t (nat k) p (net s) = (n', q, r)" by (metis prod_cases3)
  then have r: "r = Inr ()" "q = p'" "s' = s\<lparr>net := n'\<rparr>" "\<exists>tr. p' = Some tr \<and> rsp = tr_response tr"
    using assms(1,2) by (auto simp: exec_p_def split: sum.splits option.splits)
  from repeat_success[where P = P, OF rep[unfolded r(1)]] assms(3,4) r show ?thesis by blast
qed

text \<open>A transaction that succeeds at once.\<close>

lemma exec_p_first [simp]:
  "execTransaction E rq t (net s) = (n', Inr tr) \<Longrightarrow> tr_errorCode tr = TRN_OK E \<Longrightarrow> 0 \<le> k \<Longrightarrow>
   exec_p E rq t k (p, s) = ((Some tr, s\<lparr>net := n'\<rparr>), Inr (tr_response tr))"
  by (simp add: exec_p_def executeDpaTransactionRepeat.simps)

lemma response_status: "jget [''data'', ''status''] (jset_all (xs @ [([''data'', ''status''], v), ([''data'', ''statusStr''], w)]) d) = Some v"
  using jset_all_read[of "[([''data'', ''statusStr''], w)]" "[''data'', ''status'']" xs v d] by simp

lemma error_response_status: "jget [''data'', ''status''] (error_response mType msgId status str) = Some (JNum status)"
  using response_status[of "[([''mType''], JStr mType), ([''data'', ''msgId''], JStr msgId)]" "JNum status" "JStr str" JNull]
  by (simp add: error_response_def)

lemma error_response_msgId: "jget [''data'', ''msgId''] (error_response mType msgId status str) = Some (JStr msgId)"
  unfolding error_response_def
  by (rule jset_all_read[where earlier = "[([''mType''], JStr mType)]", unfolded append_Cons append_Nil]) auto

lemma send_response_Inr: "send_response E doc s = (s', Inr ()) \<Longrightarrow> s' = s\<lparr>sent := sent s @ [doc]\<rparr>"
  by (auto simp: send_response_def split: sum.splits)

lemma run_exclusive_Inr:
  assumes "run_exclusive E None refusal service response s = (s', Inr ())"
  shows "\<exists>s1 r. service (s\<lparr>exclusive := True\<rparr>) = (s1, r) \<and> (case r of Inr _ \<Rightarrow> True | Inl e \<Rightarrow> \<forall>w. e \<noteq> UB w) \<and>
    s' = s1\<lparr>sent := sent s1 @ [response s1], exclusive := False\<rparr>"
proof -
  obtain s1 r where r: "service (s\<lparr>exclusive := True\<rparr>) = (s1, r)" by fastforce
  then show ?thesis using assms
    by (auto simp: run_exclusive_def dest!: send_response_Inr split: prod.splits sum.splits exc.splits option.splits)
qed

text \<open>Transactions do not touch what a service keeps besides the shared members, nor the FRC response time of the handler.\<close>

definition kept :: "('n, 'z) svc_scheme \<Rightarrow> ('n, 'z) svc_scheme \<Rightarrow> bool" where
  "kept s s' \<longleftrightarrow> svc.more s' = svc.more s \<and> frcTime s' = frcTime s"

lemma kept_exec: "exec_p E rq t k ps = (ps', r) \<Longrightarrow> kept (snd ps) (snd ps')"
  by (auto simp: kept_def exec_p_def split: prod.splits sum.splits option.splits if_splits)

lemma kept_add: "add_p ps = (ps', r) \<Longrightarrow> kept (snd ps) (snd ps')"
  by (auto simp: kept_def add_p_def split: prod.splits option.splits)

lemma kept_setFrcReponseTime: "setFrcReponseTime E k t s = (s', Inr x) \<Longrightarrow> kept s s'"
  by (auto simp: setFrcReponseTime_def try_p_Inr bind_s_Inr dest!: kept_exec kept_add) (simp add: kept_def)

lemma kept_getBondedNodes: "getBondedNodes E k s = (s', Inr x) \<Longrightarrow> kept s s'"
  by (auto simp: getBondedNodes_def try_p_Inr bind_s_Inr dest!: kept_exec kept_add) (simp add: kept_def)

text \<open>What an action leaves alone, whether it succeeds or not.\<close>

named_theorems keeps_rules

definition keeps :: "('s \<Rightarrow> 'b) \<Rightarrow> ('s, 'a) act \<Rightarrow> bool" where
  "keeps f m \<longleftrightarrow> (\<forall>s. f (fst (m s)) = f s)"

lemma keepsD: "keeps f m \<Longrightarrow> m s = (s', r) \<Longrightarrow> f s' = f s"
  unfolding keeps_def by (metis fst_conv)

lemma keeps_basic [keeps_rules]: "keeps f (ret x)" "keeps f (throw e)" "keeps f (get_s g)" "keeps f (of_result r)"
    "(\<And>s. f (h s) = f s) \<Longrightarrow> keeps f (upd h)"
  by (simp_all add: keeps_def)

lemma keeps_bind [keeps_rules]: "keeps f m \<Longrightarrow> (\<And>x. keeps f (g x)) \<Longrightarrow> keeps f (bind_s m g)"
  unfolding keeps_def bind_s_def by (auto split: prod.split sum.split) (metis fst_conv)+

lemma keeps_if [keeps_rules]: "(b \<Longrightarrow> keeps f m) \<Longrightarrow> (\<not> b \<Longrightarrow> keeps f m') \<Longrightarrow> keeps f (if b then m else m')"
  by simp

lemma keeps_for [keeps_rules]: "(\<And>x. keeps f (g x)) \<Longrightarrow> keeps f (for_s g xs)"
  by (induction xs) (auto intro: keeps_rules)

lemma keeps_catch: "keeps f m \<Longrightarrow> keeps f (\<lambda>s. case m s of (s', Inl e) \<Rightarrow> (s', h e) | r \<Rightarrow> r)"
proof -
  assume k: "keeps f m"
  have "f (fst (case m s of (s', Inl e) \<Rightarrow> (s', h e) | r \<Rightarrow> r)) = f s" for s
    using k by (cases "m s"; cases "snd (m s)") (auto simp: keeps_def dest!: spec[of _ s])
  then show ?thesis by (simp add: keeps_def)
qed

lemma keeps_lift [keeps_rules]: "keeps f m \<Longrightarrow> keeps (\<lambda>ps. f (snd ps)) (lift_p m)"
  by (auto simp: keeps_def lift_p_def split: prod.split) (metis fst_conv)

lemma keeps_sent [keeps_rules]: "keeps (\<lambda>ps. sent (snd ps)) (exec_p E rq t k)" "keeps (\<lambda>ps. sent (snd ps)) add_p"
    "keeps sent (setStatus c w)" "keeps sent (setFrcTime t')"
  by (auto simp: keeps_def exec_p_def add_p_def setStatus_def setFrcTime_def split: prod.split option.split)

lemma sent_report [simp]: "sent (fst (report b ptr e s)) = sent s"
  by (auto simp: report_def split: option.split)

lemma keeps_try [keeps_rules]: "keeps (\<lambda>ps. sent (snd ps)) m \<Longrightarrow> keeps sent (try_p m)"
  by (auto simp: keeps_def try_p_def split: prod.split sum.split) (metis fst_conv snd_conv)+

lemma keeps_services [keeps_rules]: "keeps sent (setFrcReponseTime E k t)" "keeps sent (getBondedNodes E k)"
  unfolding setFrcReponseTime_def getBondedNodes_def by (intro keeps_rules)+

text \<open>
  A service that does not send by itself: one response, after which the exclusive access is free again.
\<close>

lemma run_exclusive_one_response:
  assumes "run_exclusive E refused refusal service response s = (s', Inr ())" "keeps sent service" "\<not> exclusive s"
  shows "\<exists>s1. sent s' = sent s @ [case refused of None \<Rightarrow> response s1 | Some w \<Rightarrow> refusal w] \<and> \<not> exclusive s'"
proof (cases refused)
  case None
  then obtain s1 r where r: "service (s\<lparr>exclusive := True\<rparr>) = (s1, r)" "s' = s1\<lparr>sent := sent s1 @ [response s1], exclusive := False\<rparr>"
    using run_exclusive_Inr assms(1) by blast
  have "sent (fst (service (s\<lparr>exclusive := True\<rparr>))) = sent (s\<lparr>exclusive := True\<rparr>)" using assms(2) unfolding keeps_def by blast
  then have "sent s1 = sent s" using r(1) by simp
  then show ?thesis using r(2) None by auto
next
  case (Some w)
  then show ?thesis using assms(1,3) by (auto simp: run_exclusive_def dest: send_response_Inr)
qed

text \<open>
  A \<open>try\<close> block with one transaction, whose remainder does not touch the network: what every attempt keeps holds afterwards, and after a success the last attempt was confirmed.
\<close>

lemma repeat_inv:
  assumes "executeDpaTransactionRepeat E rq t k p n = (n', p', r)" "P n" "\<And>n n' r. P n \<Longrightarrow> execTransaction E rq t n = (n', r) \<Longrightarrow> P n'"
  shows "P n'"
  using assms(1,2)
proof (induction k arbitrary: p n)
  case 0
  then show ?case by (subst (asm) executeDpaTransactionRepeat.simps) (auto split: prod.splits sum.splits if_splits dest: assms(3))
next
  case (Suc k)
  obtain n1 r1 where r: "execTransaction E rq t n = (n1, r1)" by fastforce
  then have "P n1" using assms(3)[OF Suc.prems(2)] by blast
  then show ?case using Suc.prems(1) r by (subst (asm) executeDpaTransactionRepeat.simps) (auto split: sum.splits if_splits dest: Suc.IH)
qed

lemma exec_p_inv:
  assumes "exec_p E rq t k ps = (ps', r)" "P (net (snd ps))" "\<And>n n' r. P n \<Longrightarrow> execTransaction E rq t n = (n', r) \<Longrightarrow> P n'"
  shows "P (net (snd ps'))"
  using assms(1,2) by (auto simp: exec_p_def split: prod.splits if_splits dest: repeat_inv[where P = P, OF _ _ assms(3)])

lemma net_report [simp]: "net (fst (report b ptr e s)) = net s"
  by (auto simp: report_def split: option.split)

lemma keeps_net [keeps_rules]: "keeps (\<lambda>ps. net (snd ps)) add_p"
  by (auto simp: keeps_def add_p_def split: prod.split option.split)

lemma try_exec_inv:
  assumes "try_p (bind_s (exec_p E rq t k) g) s = (s', r)" "\<And>rsp. keeps (\<lambda>ps. net (snd ps)) (g rsp)" "P (net s)"
    and "\<And>n n' r. P n \<Longrightarrow> execTransaction E rq t n = (n', r) \<Longrightarrow> P n'"
  shows "P (net s')"
proof -
  obtain ps1 r1 where e: "exec_p E rq t k (None, s) = (ps1, r1)" by fastforce
  have 1: "P (net (snd ps1))" using exec_p_inv[where P = P, OF e _ assms(4)] assms(3) by simp
  obtain ps2 r2 where b: "bind_s (exec_p E rq t k) g (None, s) = (ps2, r2)" by fastforce
  have "net (snd ps2) = net (snd ps1)"
  proof (cases r1)
    case (Inr rsp)
    then have "g rsp ps1 = (ps2, r2)" using b e by simp
    then show ?thesis using keepsD[OF assms(2)] by blast
  qed (use b e in simp)
  moreover have "net s' = net (snd ps2)"
  proof (cases r2)
    case (Inl x)
    then have "report False (fst ps2) x (snd ps2) = (s', r)" using assms(1) b by (cases ps2) (simp add: try_p_def)
    then show ?thesis using net_report[of False "fst ps2" x "snd ps2"] by (metis fst_conv)
  qed (use assms(1) b in \<open>cases ps2; simp add: try_p_def\<close>)
  ultimately show ?thesis using 1 by simp
qed

lemma try_exec_success:
  assumes "try_p (bind_s (exec_p E rq t k) g) s = (s', Inr x)" "\<And>rsp. keeps (\<lambda>ps. net (snd ps)) (g rsp)" "0 \<le> k" "P (net s)"
    and "\<And>n n' r. P n \<Longrightarrow> execTransaction E rq t n = (n', r) \<Longrightarrow> \<not> ok_tr E r \<Longrightarrow> P n'"
  shows "\<exists>n1 tr ptr. P n1 \<and> execTransaction E rq t n1 = (net s', Inr tr) \<and> tr_errorCode tr = TRN_OK E \<and>
    g (tr_response tr) (Some tr, s\<lparr>net := net s'\<rparr>) = ((ptr, s'), Inr x)"
proof -
  obtain ptr ps1 rsp where e: "exec_p E rq t k (None, s) = (ps1, Inr rsp)" "g rsp ps1 = ((ptr, s'), Inr x)"
    using assms(1) by (auto simp: try_p_Inr bind_s_Inr)
  obtain p1 s1 where ps1: "ps1 = (p1, s1)" by fastforce
  obtain n1 n' tr where tr: "P n1" "execTransaction E rq t n1 = (n', Inr tr)" "tr_errorCode tr = TRN_OK E" "p1 = Some tr" "s1 = s\<lparr>net := n'\<rparr>" "rsp = tr_response tr"
    using exec_p_success[where P = P, OF e(1)[unfolded ps1] assms(3,4)] assms(5) by blast
  moreover have "net s' = n'" using keepsD[OF assms(2) e(2)] ps1 tr(5) by simp
  ultimately show ?thesis using e(2) ps1 by blast
qed

text \<open>The nodes of a bitmap are in ascending order.\<close>

lemma and_push_bit_iff: "(x :: u8) AND push_bit k 1 \<noteq> 0 \<longleftrightarrow> bit x k"
  using and_exp_eq_0_iff_not_bit[of x k] by (simp add: push_bit_of_1)

definition ascending :: "u8 list \<Rightarrow> bool" where
  "ascending nodes \<longleftrightarrow> sorted_wrt (<) (map unat nodes) \<and> (\<forall>a\<in>set nodes. unat a < 240)"

lemma ascending_bitmap: "MAX_ADDRESS E = 239 \<Longrightarrow> ascending (bitmapToNodes E bm)"
proof -
  assume "MAX_ADDRESS E = 239"
  then have b: "bitmapToNodes E bm = map of_nat (filter (\<lambda>i. bm ! (i div 8) AND push_bit (i mod 8) 1 \<noteq> 0) [0..<240])"
    by (simp add: bitmapToNodes_def)
  have "map unat (bitmapToNodes E bm) = filter (\<lambda>i. bm ! (i div 8) AND push_bit (i mod 8) 1 \<noteq> 0) [0..<240]"
    unfolding b map_map by (rule map_idI) (auto simp: unat_of_nat_u8)
  then show ?thesis unfolding ascending_def by (auto simp: b unat_of_nat_u8 intro: sorted_wrt_filter)
qed

text \<open>Codes and layouts for evaluation on concrete inputs, with a network that does not answer.\<close>

definition sample_codes :: "'n dpa_env" where
  "sample_codes = \<lparr>execTransaction = \<lambda>_ _ n. (n, Inl ''''), sendDocument = \<lambda>_. Inr (), rawObject = \<lambda>_. JNull, TRN_OK = 0, COORDINATOR_ADDRESS = 0,
     BROADCAST_ADDRESS = 255, MAX_ADDRESS = 239, HWPID_DoNotCheck = 0xFFFF, PNUM_COORDINATOR = 0, PNUM_NODE = 1, PNUM_OS = 2, PNUM_EEPROM = 3,
     PNUM_EEEPROM = 4, PNUM_FRC = 13, CMD_COORDINATOR_BONDED_DEVICES = 2, CMD_NODE_READ = 0, CMD_OS_READ = 0, CMD_OS_BATCH = 5,
     CMD_OS_LOAD_CODE = 10, CMD_EEPROM_WRITE = 1, CMD_EEEPROM_XWRITE = 3, CMD_FRC_SEND = 0, CMD_FRC_SEND_SELECTIVE = 2,
     CMD_FRC_EXTRARESULT = 1, CMD_FRC_SET_PARAMS = 3, FRC_Ping = 0, FRC_AcknowledgedBroadcastBits = 2, FRC_MemoryRead4B = 0xFA,
     FRC_MemoryReadPlus1 = 0xFB, k40Ms = 0, k1320Ms = 0x20, k2600Ms = 0x30, k5160Ms = 0x40, k10280Ms = 0x50, k20620Ms = 0x60,
     enc_FrcSetParams = \<lambda>t. [t], enc_FrcSend = \<lambda>c d. c # d, enc_FrcSendSelective = \<lambda>c b d. c # b @ d, enc_MemoryWrite = \<lambda>a d. a # d,
     enc_XMemoryWrite = \<lambda>a d. [ucast (a AND 0xFF), ucast (drop_bit 8 a AND 0xFF)] @ d,
     enc_OSLoadCode = \<lambda>f a l c. [f], FrcParams = \<lambda>d. d ! 0, FrcSend_Status = \<lambda>d. d ! 0, FrcSend_FrcData = tl\<rparr>"

end
