(* ===== verification/Ping_Service.thy ===== *)
theory Ping_Service
  imports Dpa_Service Std_Map
begin

text \<open>
  \<open>IqmeshServices/PingService\<close>: which of the bonded nodes answer. The service asks the coordinator for the bonded nodes, shortens the FRC response time, sends
  one FRC command and restores the response time.
\<close>

record 'n ping = "'n svc" +
  m_bondedNodes :: "u8 list"
  m_pingResult :: "(nat \<times> bool) list"
  m_inaccessibleNodes :: u8

record TPingInputParams =
  p_hwpId :: u16
  p_repeat :: int

definition ping_getBondedNodes :: "('n, 'e) dpa_env_scheme \<Rightarrow> int \<Rightarrow> (('n, 'z) ping_scheme, u8 list) act" where
  "ping_getBondedNodes E repeat =
     try_p (bind_s (exec_p E (to_coordinator E (PNUM_COORDINATOR E) (CMD_COORDINATOR_BONDED_DEVICES E) []) (-1) repeat) (\<lambda>rsp.
       bind_s (lift_p (upd (\<lambda>s. s\<lparr>m_bondedNodes := bitmapToNodes E rsp\<rparr>))) (\<lambda>_.
       bind_s add_p (\<lambda>_. ret (bitmapToNodes E rsp)))))"

text \<open>The end of both FRC functions: a status above \<open>MAX_ADDRESS\<close> is thrown while the pointer still holds the transaction.\<close>

definition frc_checked :: "('n, 'e) dpa_env_scheme \<Rightarrow> request \<Rightarrow> int \<Rightarrow> (('n, 'z) svc_scheme, bytes) act" where
  "frc_checked E rq repeat =
     try_p (bind_s (exec_p E rq (-1) repeat) (\<lambda>rsp.
       if FrcSend_Status E rsp \<le> MAX_ADDRESS E then bind_s add_p (\<lambda>_. ret rsp)
       else throw (LogicError ''Bad FRC status: '')))"

definition FrcPingNodes :: "('n, 'e) dpa_env_scheme \<Rightarrow> TPingInputParams \<Rightarrow> (('n, 'z) svc_scheme, bytes) act" where
  "FrcPingNodes E prm =
     frc_checked E (to_coordinator E (PNUM_FRC E) (CMD_FRC_SEND E) (enc_FrcSend E (FRC_Ping E) [0, 0])) (p_repeat prm)"

definition FrcAcknowledgeNodeRead :: "('n, 'e) dpa_env_scheme \<Rightarrow> TPingInputParams \<Rightarrow> (('n, 'z) svc_scheme, bytes) act" where
  "FrcAcknowledgeNodeRead E prm =
     frc_checked E (to_coordinator E (PNUM_FRC E) (CMD_FRC_SEND E)
         (enc_FrcSend E (FRC_AcknowledgedBroadcastBits E)
           [5, PNUM_NODE E, CMD_NODE_READ E, ucast (p_hwpId prm AND 0xFF), ucast (drop_bit 8 (p_hwpId prm))]))
       (p_repeat prm)"

text \<open>One round of the loop over the bonded nodes.\<close>

definition check_node :: "bytes \<Rightarrow> u8 \<Rightarrow> ('n, 'z) ping_scheme \<Rightarrow> ('n, 'z) ping_scheme" where
  "check_node frcData addr s =
     (let nodeOnline = (frcData ! (unat addr div 8) AND push_bit (unat addr mod 8) 1 \<noteq> 0);
          s = s\<lparr>m_pingResult := map_put (unat addr) nodeOnline (m_pingResult s)\<rparr>
      in if nodeOnline then s else s\<lparr>m_inaccessibleNodes := m_inaccessibleNodes s + 1\<rparr>)"

definition noBondedNodesError :: int where
  "noBondedNodesError = 1003"

definition ping_body :: "('n, 'e) dpa_env_scheme \<Rightarrow> TPingInputParams \<Rightarrow> (('n, 'z) ping_scheme, unit) act" where
  "ping_body E prm =
     bind_s (ping_getBondedNodes E (p_repeat prm)) (\<lambda>_.
     bind_s (get_s m_bondedNodes) (\<lambda>nodes.
       if nodes = [] then
         bind_s (setStatus noBondedNodesError ''There are no bonded nodes in network.'') (\<lambda>_.
           throw (LogicError ''There are no bonded nodes in network.''))
       else
         bind_s (setFrcTime (k40Ms E)) (\<lambda>_.
         bind_s (setFrcReponseTime E (p_repeat prm) (k40Ms E)) (\<lambda>frcResponseTime.
         bind_s (if p_hwpId prm = HWPID_DoNotCheck E then FrcPingNodes E prm else FrcAcknowledgeNodeRead E prm) (\<lambda>response.
         bind_s (setFrcTime frcResponseTime) (\<lambda>_.
         bind_s (setFrcReponseTime E (p_repeat prm) frcResponseTime) (\<lambda>_.
           for_s (\<lambda>addr. upd (check_node (FrcSend_FrcData E response) addr)) nodes)))))))"

text \<open>\<open>ping\<close> catches every exception.\<close>

definition ping :: "('n, 'e) dpa_env_scheme \<Rightarrow> TPingInputParams \<Rightarrow> (('n, 'z) ping_scheme, unit) act" where
  "ping E prm s = (case ping_body E prm s of (s, Inl e) \<Rightarrow> (s, if what e = None then Inl e else Inr ()) | r \<Rightarrow> r)"

section \<open>Response\<close>

definition node_result :: "nat \<times> bool \<Rightarrow> json" where
  "node_result r = JObj [(''address'', JNum (int (fst r))), (''result'', JBool (snd r))]"

definition createResponse :: "('n, 'e) dpa_env_scheme \<Rightarrow> com_base \<Rightarrow> string \<Rightarrow> TPingInputParams \<Rightarrow> ('n, 'z) ping_scheme \<Rightarrow> json" where
  "createResponse E com mType prm s =
     jset_all
       ([([''mType''], JStr mType), ([''data'', ''msgId''], JStr (c_msgId com)), ([''data'', ''rsp'', ''hwpId''], JNum (uint (p_hwpId prm))),
         ([''data'', ''rsp'', ''nodesNr''], JNum (int (length (m_bondedNodes s))))]
        @ (if s_status s = 0
           then [([''data'', ''rsp'', ''inaccessibleNodesNr''], JNum (uint (m_inaccessibleNodes s))),
                 ([''data'', ''rsp'', ''pingResult''], JArr (map node_result (m_pingResult s)))]
           else [])
        @ (if c_verbose com then [([''data'', ''raw''], JArr (map (rawObject E) (s_results s)))] else [])
        @ [([''data'', ''status''], JNum (s_status s)), ([''data'', ''statusStr''], JStr (s_statusStr s))]) JNull"

definition parse_ping :: "('n, 'e) dpa_env_scheme \<Rightarrow> json \<Rightarrow> TPingInputParams result" where
  "parse_ping E doc =
     bind_r (int_member [''data'', ''repeat''] doc 1) (\<lambda>repeat.
     bind_r (case jget [''data'', ''req'', ''hwpId''] doc of
               None \<Rightarrow> Inr (HWPID_DoNotCheck E)
             | Some (JNum n) \<Rightarrow> if 0 \<le> n \<and> n < 2 ^ 32 then Inr (of_int n) else Inl (UB ''RAPIDJSON_ASSERT'')
             | Some _ \<Rightarrow> Inl (UB ''RAPIDJSON_ASSERT'')) (\<lambda>hwpId.
       Inr \<lparr>p_hwpId = hwpId, p_repeat = repeat\<rparr>))"

definition new_ping :: "('n, 'z) svc_scheme \<Rightarrow> 'n ping" where
  "new_ping s =
     \<lparr>net = net s, frcTime = frcTime s, exclusive = exclusive s, s_status = 0, s_statusStr = ''ok'', s_results = [], sent = sent s,
      m_bondedNodes = [], m_pingResult = [], m_inaccessibleNodes = 0\<rparr>"

definition exclusiveAccessError :: int where
  "exclusiveAccessError = 1002"

definition handleMsg ::
    "('n, 'e) dpa_env_scheme \<Rightarrow> string option \<Rightarrow> string \<Rightarrow> json \<Rightarrow> ('n, 'z) svc_scheme \<Rightarrow> 'n ping \<times> unit result" where
  "handleMsg E refused mType doc s =
     (if mType \<noteq> ''iqmeshNetwork_Ping'' then (new_ping s, Inl (LogicError ''Unsupported message type: ''))
      else case bind_r (ComBase doc) (\<lambda>com. bind_r (parse_ping E doc) (\<lambda>prm. Inr (com, prm))) of
             Inl e \<Rightarrow> (new_ping s, Inl e)
           | Inr (com, prm) \<Rightarrow>
               run_exclusive E refused (error_response mType (c_msgId com) exclusiveAccessError) (ping E prm)
                 (createResponse E com mType prm) (new_ping s))"

section \<open>Properties\<close>

definition node_bit :: "bytes \<Rightarrow> nat \<Rightarrow> bool" where
  "node_bit d a \<longleftrightarrow> d ! (a div 8) AND push_bit (a mod 8) 1 \<noteq> 0"

lemma check_node_eq:
  "check_node d a s = s\<lparr>m_pingResult := map_put (unat a) (node_bit d (unat a)) (m_pingResult s),
     m_inaccessibleNodes := m_inaccessibleNodes s + (if node_bit d (unat a) then 0 else 1)\<rparr>"
  by (simp add: check_node_def node_bit_def Let_def)

lemma check_nodes_fields:
  "m_inaccessibleNodes (fold (check_node d) nodes s) = m_inaccessibleNodes s + of_nat (length (filter (\<lambda>a. \<not> node_bit d (unat a)) nodes))"
  "frcTime (fold (check_node d) nodes s) = frcTime s" "m_bondedNodes (fold (check_node d) nodes s) = m_bondedNodes s"
  by (induction nodes arbitrary: s) (simp_all add: check_node_eq)

lemma check_nodes_result:
  "map_ok (m_pingResult s) \<Longrightarrow>
   map_of (m_pingResult (fold (check_node d) nodes s)) = (\<lambda>k. if k \<in> unat ` set nodes then Some (node_bit d k) else map_of (m_pingResult s) k)"
proof (induction nodes arbitrary: s)
  case (Cons a nodes)
  have "map_ok (m_pingResult (check_node d a s))" using Cons.prems by (simp add: check_node_eq)
  from Cons.IH[OF this] show ?case using Cons.prems by (auto simp: check_node_eq[of d a s] fun_eq_iff)
qed simp

text \<open>The transaction of the ping: which nodes answer is read from the bits of the response.\<close>

definition ping_request :: "('n, 'e) dpa_env_scheme \<Rightarrow> TPingInputParams \<Rightarrow> request" where
  "ping_request E prm =
     to_coordinator E (PNUM_FRC E) (CMD_FRC_SEND E)
       (if p_hwpId prm = HWPID_DoNotCheck E then enc_FrcSend E (FRC_Ping E) [0, 0]
        else enc_FrcSend E (FRC_AcknowledgedBroadcastBits E)
          [5, PNUM_NODE E, CMD_NODE_READ E, ucast (p_hwpId prm AND 0xFF), ucast (drop_bit 8 (p_hwpId prm))])"

definition ping_law :: "('n, 'e) dpa_env_scheme \<Rightarrow> TPingInputParams \<Rightarrow> (nat \<Rightarrow> bool) \<Rightarrow> bool" where
  "ping_law E prm online \<longleftrightarrow> (\<forall>t n n' tr. execTransaction E (ping_request E prm) t n = (n', Inr tr) \<and> tr_errorCode tr = TRN_OK E \<and>
     FrcSend_Status E (tr_response tr) \<le> MAX_ADDRESS E \<longrightarrow> (\<forall>a < 240. node_bit (FrcSend_FrcData E (tr_response tr)) a = online a))"

lemma ping_frc: "(if p_hwpId prm = HWPID_DoNotCheck E then FrcPingNodes E prm else FrcAcknowledgeNodeRead E prm) = frc_checked E (ping_request E prm) (p_repeat prm)"
  by (simp add: ping_request_def FrcPingNodes_def FrcAcknowledgeNodeRead_def)

lemma ping_response:
  assumes "ping_law E prm online" "0 \<le> p_repeat prm" "frc_checked E (ping_request E prm) (p_repeat prm) s = (s', Inr rsp)"
  shows "\<forall>a < 240. node_bit (FrcSend_FrcData E rsp) a = online a"
proof -
  obtain p1 s1 where e: "exec_p E (ping_request E prm) (-1) (p_repeat prm) (None, s) = ((p1, s1), Inr rsp)" "FrcSend_Status E rsp \<le> MAX_ADDRESS E"
    using assms(3) by (auto simp: frc_checked_def try_p_Inr bind_s_Inr split: if_splits)
  from exec_p_success[where P = "\<lambda>_. True", OF e(1) assms(2)] e(2) assms(1) show ?thesis unfolding ping_law_def by blast
qed

lemma kept_frc_checked: "frc_checked E rq k s = (s', Inr x) \<Longrightarrow> kept s s'"
  by (auto simp: frc_checked_def try_p_Inr bind_s_Inr dest!: kept_exec kept_add split: if_splits) (simp add: kept_def)

lemma ping_kept: "kept s s' \<Longrightarrow> m_bondedNodes s' = m_bondedNodes s \<and> m_pingResult s' = m_pingResult s \<and>
    m_inaccessibleNodes s' = m_inaccessibleNodes s \<and> frcTime s' = frcTime s"
  by (cases s; cases s') (simp add: kept_def)

lemma bonded_known:
  assumes "ping_getBondedNodes E k s = (s', Inr nodes)"
  shows "m_bondedNodes s' = nodes \<and> m_pingResult s' = m_pingResult s \<and> m_inaccessibleNodes s' = m_inaccessibleNodes s \<and> (\<exists>bm. nodes = bitmapToNodes E bm)"
proof -
  obtain p1 s1 rsp p2 s2 where e: "exec_p E (to_coordinator E (PNUM_COORDINATOR E) (CMD_COORDINATOR_BONDED_DEVICES E) []) (-1) k (None, s) = ((p1, s1), Inr rsp)"
    "add_p (p1, s1\<lparr>m_bondedNodes := bitmapToNodes E rsp\<rparr>) = ((p2, s2), Inr ())" "s' = s2" "nodes = bitmapToNodes E rsp"
    using assms by (auto simp: ping_getBondedNodes_def try_p_Inr bind_s_Inr split: prod.splits)
  show ?thesis using ping_kept[of s s1] ping_kept[of "s1\<lparr>m_bondedNodes := bitmapToNodes E rsp\<rparr>" s2] kept_exec[OF e(1)] kept_add[OF e(2)] e(3,4)
    by auto
qed

text \<open>
  The FRC response time \<open>cur\<close> of the coordinator: the command that sets it returns the old value. A request that is not confirmed has not been executed.
\<close>

definition params_law :: "('n, 'e) dpa_env_scheme \<Rightarrow> ('n \<Rightarrow> u8) \<Rightarrow> bool" where
  "params_law E cur \<longleftrightarrow> PNUM_COORDINATOR E \<noteq> PNUM_FRC E \<and> CMD_FRC_SEND E \<noteq> CMD_FRC_SET_PARAMS E \<and>
     (\<forall>rq t n n' r. execTransaction E rq t n = (n', r) \<longrightarrow>
        (case r of
           Inr tr \<Rightarrow>
             if rq_pnum rq = PNUM_FRC E \<and> rq_pcmd rq = CMD_FRC_SET_PARAMS E \<and> tr_errorCode tr = TRN_OK E
             then FrcParams E (tr_response tr) = cur n \<and> (\<forall>x. rq_pdata rq = enc_FrcSetParams E x \<longrightarrow> cur n' = x) else cur n' = cur n
         | Inl _ \<Rightarrow> cur n' = cur n))"

lemma exec_cur:
  assumes "params_law E cur" "exec_p E rq t k (p, s) = ((p', s'), Inr rsp)" "0 \<le> k"
  shows "if rq_pnum rq = PNUM_FRC E \<and> rq_pcmd rq = CMD_FRC_SET_PARAMS E
    then FrcParams E rsp = cur (net s) \<and> (\<forall>x. rq_pdata rq = enc_FrcSetParams E x \<longrightarrow> cur (net s') = x) else cur (net s') = cur (net s)"
proof -
  have law: "case r of Inr tr \<Rightarrow>
        if rq_pnum rq = PNUM_FRC E \<and> rq_pcmd rq = CMD_FRC_SET_PARAMS E \<and> tr_errorCode tr = TRN_OK E
        then FrcParams E (tr_response tr) = cur n \<and> (\<forall>x. rq_pdata rq = enc_FrcSetParams E x \<longrightarrow> cur n' = x) else cur n' = cur n
      | Inl _ \<Rightarrow> cur n' = cur n" if "execTransaction E rq t n = (n', r)" for n n' r
    using assms(1) that unfolding params_law_def by blast
  have "\<exists>n1 n' tr. cur n1 = cur (net s) \<and> execTransaction E rq t n1 = (n', Inr tr) \<and> tr_errorCode tr = TRN_OK E \<and> p' = Some tr \<and>
      s' = s\<lparr>net := n'\<rparr> \<and> rsp = tr_response tr"
  proof (rule exec_p_success[where P = "\<lambda>n. cur n = cur (net s)", OF assms(2,3) refl])
    fix n n' r assume "cur n = cur (net s)" "execTransaction E rq t n = (n', r)" "\<not> ok_tr E r"
    then show "cur n' = cur (net s)" using law[of n n' r] by (auto simp: ok_tr_def split: sum.splits)
  qed
  then show ?thesis using law by (fastforce split: if_splits)
qed

lemma net_add: "add_p ps = (ps', r) \<Longrightarrow> net (snd ps') = net (snd ps)"
  by (auto simp: add_p_def split: prod.splits option.splits)

lemma setFrcReponseTime_cur:
  assumes "params_law E cur" "setFrcReponseTime E k t s = (s', Inr x)" "0 \<le> k"
  shows "x = cur (net s) \<and> cur (net s') = t"
proof -
  obtain p1 s1 rsp p2 where e: "exec_p E (to_coordinator E (PNUM_FRC E) (CMD_FRC_SET_PARAMS E) (enc_FrcSetParams E t)) (-1) k (None, s) = ((p1, s1), Inr rsp)"
    "add_p (p1, s1) = ((p2, s'), Inr ())" "x = FrcParams E rsp"
    using assms(2) by (auto simp: setFrcReponseTime_def try_p_Inr bind_s_Inr)
  show ?thesis using exec_cur[OF assms(1) e(1) assms(3)] net_add[OF e(2)] e(3) by (simp add: to_coordinator_def)
qed

lemma other_cur:
  assumes "params_law E cur" "0 \<le> k"
  shows "ping_getBondedNodes E k s = (s', Inr x) \<Longrightarrow> cur (net s') = cur (net s)"
    and "frc_checked E (to_coordinator E (PNUM_FRC E) (CMD_FRC_SEND E) d) k s = (s', Inr y) \<Longrightarrow> cur (net s') = cur (net s)"
proof -
  have c: "PNUM_COORDINATOR E \<noteq> PNUM_FRC E" "CMD_FRC_SEND E \<noteq> CMD_FRC_SET_PARAMS E" using assms(1) by (simp_all add: params_law_def)
  show "cur (net s') = cur (net s)" if "ping_getBondedNodes E k s = (s', Inr x)"
    using that c by (auto simp: ping_getBondedNodes_def try_p_Inr bind_s_Inr to_coordinator_def dest!: exec_cur[OF assms(1) _ assms(2)] net_add
        split: prod.splits)
  show "cur (net s') = cur (net s)" if "frc_checked E (to_coordinator E (PNUM_FRC E) (CMD_FRC_SEND E) d) k s = (s', Inr y)"
    using that c by (auto simp: frc_checked_def try_p_Inr bind_s_Inr to_coordinator_def dest!: exec_cur[OF assms(1) _ assms(2)] net_add
        split: if_splits)
qed

lemma ping_body_steps:
  assumes "ping_body E prm s = (s', Inr ())"
  obtains s1 nodes s2 t s3 rsp s4 t' where "ping_getBondedNodes E (p_repeat prm) s = (s1, Inr nodes)" "m_bondedNodes s1 = nodes"
    "setFrcReponseTime E (p_repeat prm) (k40Ms E) (s1\<lparr>frcTime := k40Ms E\<rparr>) = (s2, Inr t)"
    "frc_checked E (ping_request E prm) (p_repeat prm) s2 = (s3, Inr rsp)"
    "setFrcReponseTime E (p_repeat prm) t (s3\<lparr>frcTime := t\<rparr>) = (s4, Inr t')" "s' = fold (check_node (FrcSend_FrcData E rsp)) nodes s4"
proof -
  obtain s1 nodes where 1: "ping_getBondedNodes E (p_repeat prm) s = (s1, Inr nodes)" using assms by (auto simp: ping_body_def bind_s_Inr)
  then have n: "m_bondedNodes s1 = nodes" using bonded_known by blast
  show thesis using assms 1 n that unfolding ping_body_def ping_frc
    by (auto simp: bind_s_Inr setFrcTime_def setStatus_def split: if_splits)
qed

text \<open>
  C21: A ping that runs through reports for exactly the bonded nodes whether they answered, counts those that did not, and ends with the FRC response time
  restored: that of the coordinator and the one the daemon works with are the one the coordinator had before.\<close>

theorem ping_results:
  assumes "ping_body E prm (new_ping s) = (s', Inr ())" "ping_law E prm online" "params_law E cur" "0 \<le> p_repeat prm" "MAX_ADDRESS E = 239"
  shows "map_of (m_pingResult s') = (\<lambda>k. if k \<in> unat ` set (m_bondedNodes s') then Some (online k) else None) \<and>
    unat (m_inaccessibleNodes s') = length (filter (\<lambda>a. \<not> online (unat a)) (m_bondedNodes s')) \<and>
    cur (net s') = cur (net s) \<and> frcTime s' = cur (net s)"
proof -
  obtain s1 nodes s2 t s3 rsp s4 t' where st: "ping_getBondedNodes E (p_repeat prm) (new_ping s) = (s1, Inr nodes)" "m_bondedNodes s1 = nodes"
    "setFrcReponseTime E (p_repeat prm) (k40Ms E) (s1\<lparr>frcTime := k40Ms E\<rparr>) = (s2, Inr t)"
    "frc_checked E (ping_request E prm) (p_repeat prm) s2 = (s3, Inr rsp)"
    "setFrcReponseTime E (p_repeat prm) t (s3\<lparr>frcTime := t\<rparr>) = (s4, Inr t')" "s' = fold (check_node (FrcSend_FrcData E rsp)) nodes s4"
    by (rule ping_body_steps[OF assms(1)])
  have online: "\<forall>a < 240. node_bit (FrcSend_FrcData E rsp) a = online a" by (rule ping_response[OF assms(2,4) st(4)])
  obtain bm where bm: "nodes = bitmapToNodes E bm" using bonded_known[OF st(1)] by blast
  then have small: "\<forall>a\<in>set nodes. unat a < 240" using ascending_bitmap[OF assms(5)] by (auto simp: ascending_def)
  have len: "length nodes \<le> 240"
    using bm assms(5) by (auto simp: bitmapToNodes_def intro: order_trans[OF length_filter_le])
  have f: "m_bondedNodes s4 = nodes \<and> m_pingResult s4 = [] \<and> m_inaccessibleNodes s4 = 0 \<and> frcTime s4 = t"
    using bonded_known[OF st(1)] ping_kept[OF kept_setFrcReponseTime[OF st(3)]] ping_kept[OF kept_frc_checked[OF st(4)]]
      ping_kept[OF kept_setFrcReponseTime[OF st(5)]] by (simp add: new_ping_def)
  have c: "cur (net s1) = cur (net s)" "t = cur (net s1)" "cur (net s4) = t"
    using other_cur(1)[OF assms(3,4) st(1)] setFrcReponseTime_cur[OF assms(3) st(3) assms(4)] setFrcReponseTime_cur[OF assms(3) st(5) assms(4)]
    by (simp_all add: new_ping_def)
  have n: "net s' = net s4" unfolding st(6) by (induction nodes arbitrary: s4) (simp_all add: check_node_eq)
  have flt: "filter (\<lambda>a. \<not> node_bit (FrcSend_FrcData E rsp) (unat a)) nodes = filter (\<lambda>a. \<not> online (unat a)) nodes"
    using online small by (intro filter_cong) auto
  have "length (filter (\<lambda>a. \<not> online (unat a)) nodes) < 256"
    using length_filter_le[of "\<lambda>a. \<not> online (unat a)" nodes] len by linarith
  then have "unat (m_inaccessibleNodes s') = length (filter (\<lambda>a. \<not> online (unat a)) nodes)"
    by (simp add: st(6) check_nodes_fields f flt unat_of_nat_u8)
  moreover have "map_of (m_pingResult s') = (\<lambda>k. if k \<in> unat ` set nodes then Some (online k) else None)"
    using check_nodes_result[of s4] f online small by (auto simp: st(6) fun_eq_iff map_ok_def)
  moreover have "m_bondedNodes s' = nodes" "frcTime s' = t" by (simp_all add: st(6) check_nodes_fields f)
  ultimately show ?thesis using c n by simp
qed

text \<open>
  C22: When the FRC command itself fails (its status is no number of nodes) although the transaction is confirmed, the exception handler copies the code of the
  transaction. The response then says status 0 with an empty list of results and no inaccessible node, and the FRC response time remains at the shortest value.\<close>

theorem failed_frc_reported_ok:
  assumes "ping_getBondedNodes E (p_repeat prm) (new_ping s) = (s1, Inr nodes)" "nodes \<noteq> []"
    and "setFrcReponseTime E (p_repeat prm) (k40Ms E) (s1\<lparr>frcTime := k40Ms E\<rparr>) = (s2, Inr t)"
    and "exec_p E (ping_request E prm) (-1) (p_repeat prm) (None, s2) = ((Some tr, s3), Inr rsp)" "tr_errorCode tr = TRN_OK E"
    and "MAX_ADDRESS E < FrcSend_Status E rsp"
  shows "\<exists>s'. ping E prm (new_ping s) = (s', Inr ()) \<and> s_status s' = TRN_OK E \<and> m_pingResult s' = [] \<and> m_inaccessibleNodes s' = 0 \<and>
    m_bondedNodes s' = nodes \<and> frcTime s' = k40Ms E"
proof -
  have f: "frc_checked E (ping_request E prm) (p_repeat prm) s2 = report False (Some tr) (LogicError ''Bad FRC status: '') s3"
    using assms(4,6) by (auto simp: frc_checked_def try_p_def)
  have "m_pingResult s3 = [] \<and> m_inaccessibleNodes s3 = 0 \<and> m_bondedNodes s3 = nodes \<and> frcTime s3 = k40Ms E"
    using bonded_known[OF assms(1)] ping_kept[OF kept_setFrcReponseTime[OF assms(3)]] ping_kept[of s2 s3] kept_exec[OF assms(4)]
    by (simp add: new_ping_def)
  then show ?thesis using assms(1-3,5) bonded_known[OF assms(1)]
    unfolding ping_def ping_body_def ping_frc by (simp add: f setFrcTime_def report_def what_def)
qed

section \<open>Simulated networks\<close>

text \<open>The nodes 1 and 5 are bonded and node 5 answers; the state is the FRC response time of the coordinator, \<open>st\<close> the status of FRC commands.\<close>

definition sample_net :: "u8 \<Rightarrow> u8 dpa_env" where
  "sample_net st = sample_codes\<lparr>execTransaction := \<lambda>rq t n.
     (let ok = \<lambda>d. Inr \<lparr>tr_request = rq, tr_errorCode = 0, tr_errorString = ''ok'', tr_response = d\<rparr> in
      if rq_pnum rq = 13 \<and> rq_pcmd rq = 3 then (hd (rq_pdata rq), ok [n])
      else if rq_pnum rq = 13 then (n, ok (st # 0x20 # replicate 54 0))
      else (n, ok (0x22 # replicate 29 0)))\<rparr>"

definition sample_prm :: TPingInputParams where
  "sample_prm = \<lparr>p_hwpId = 0xFFFF, p_repeat = 1\<rparr>"

definition sample_svc :: "u8 svc" where
  "sample_svc = \<lparr>net = 0x30, frcTime = 0x10, exclusive = True, s_status = 0, s_statusStr = ''ok'', s_results = [], sent = []\<rparr>"

lemma ping_sample_bonded: "bitmapToNodes (sample_net st) (0x22 # replicate 29 0) = [1, 5]"
proof -
  have "filter (\<lambda>i. (0x22 # replicate 29 0 :: bytes) ! (i div 8) AND push_bit (i mod 8) 1 \<noteq> 0) [0..<240] = [1, 5]" by code_simp
  then show ?thesis by (simp add: bitmapToNodes_def sample_net_def sample_codes_def)
qed

lemma ping_sample_exec:
  "exec_p (sample_net st) rq t 1 (p, s) =
     (let d = (if rq_pnum rq = 13 \<and> rq_pcmd rq = 3 then [net s] else if rq_pnum rq = 13 then st # 0x20 # replicate 54 0 else 0x22 # replicate 29 0)
      in ((Some \<lparr>tr_request = rq, tr_errorCode = 0, tr_errorString = ''ok'', tr_response = d\<rparr>,
           if rq_pnum rq = 13 \<and> rq_pcmd rq = 3 then s\<lparr>net := hd (rq_pdata rq)\<rparr> else s), Inr d))"
  by (simp add: exec_p_def executeDpaTransactionRepeat.simps sample_net_def sample_codes_def Let_def)

lemma sample_codes_of: "PNUM_COORDINATOR (sample_net st) = 0" "PNUM_FRC (sample_net st) = 13" "CMD_FRC_SET_PARAMS (sample_net st) = 3"
    "CMD_FRC_SEND (sample_net st) = 0" "FrcSend_Status (sample_net st) (x # d) = x" "FrcSend_FrcData (sample_net st) (x # d) = d"
    "MAX_ADDRESS (sample_net st) = 239" "k40Ms (sample_net st) = 0" "FrcParams (sample_net st) [x] = x" "enc_FrcSetParams (sample_net st) y = [y]"
    "p_hwpId sample_prm = HWPID_DoNotCheck (sample_net st)" "p_repeat sample_prm = 1" "TRN_OK (sample_net st) = 0"
  by (simp_all add: sample_net_def sample_codes_def sample_prm_def)

lemmas sample_run = ping_getBondedNodes_def setFrcReponseTime_def try_p_def ping_sample_exec sample_codes_of Let_def ping_sample_bonded setFrcTime_def
  bind_s_def to_coordinator_def ping_request_def

lemma sample_laws: "ping_law (sample_net 0) sample_prm (\<lambda>a. a = 5)" "params_law (sample_net 0) id"
proof -
  have "node_bit (0x20 # replicate 54 0) a \<longleftrightarrow> a = 5" if "a < 240" for a
  proof -
    have "\<forall>a\<in>set [0..<240]. node_bit (0x20 # replicate 54 0) a \<longleftrightarrow> a = 5" by code_simp
    then show ?thesis using that by simp
  qed
  then show "ping_law (sample_net 0) sample_prm (\<lambda>a. a = 5)"
    by (simp add: ping_law_def ping_request_def sample_net_def sample_codes_def to_coordinator_def Let_def)
  show "params_law (sample_net 0) id"
    by (simp add: params_law_def sample_net_def sample_codes_def Let_def)
qed

theorem ping_results_witness:
  "\<exists>s'. ping_body (sample_net 0) sample_prm (new_ping sample_svc) = (s', Inr ()) \<and> map_of (m_pingResult s') = [1 \<mapsto> False, 5 \<mapsto> True] \<and>
    m_inaccessibleNodes s' = 1 \<and> net s' = 0x30 \<and> frcTime s' = 0x30"
proof -
  obtain s' where s': "ping_body (sample_net 0) sample_prm (new_ping sample_svc) = (s', Inr ())" "m_bondedNodes s' = [1, 5]"
    by (simp add: ping_body_def FrcPingNodes_def frc_checked_def sample_run check_node_eq)
  have "0 \<le> p_repeat sample_prm" by (simp add: sample_codes_of)
  from ping_results[OF s'(1) sample_laws this sample_codes_of(7)] s' have "unat (m_inaccessibleNodes s') = unat (1 :: u8)"
    "map_of (m_pingResult s') = [1 \<mapsto> False, 5 \<mapsto> True]" "net s' = 0x30" "frcTime s' = 0x30"
    by (auto simp: fun_eq_iff sample_svc_def)
  with s' show ?thesis by (auto simp: word_unat_eq_iff)
qed

theorem failed_frc_reported_ok_witness:
  "\<exists>s'. ping (sample_net 253) sample_prm (new_ping sample_svc) = (s', Inr ()) \<and> s_status s' = 0 \<and> m_pingResult s' = [] \<and> m_inaccessibleNodes s' = 0 \<and>
    m_bondedNodes s' = [1, 5] \<and> frcTime s' = 0"
proof -
  let ?E = "sample_net 253"
  obtain s1 where s1: "ping_getBondedNodes ?E (p_repeat sample_prm) (new_ping sample_svc) = (s1, Inr [1, 5])" by (simp add: sample_run)
  obtain s2 t where s2: "setFrcReponseTime ?E (p_repeat sample_prm) (k40Ms ?E) (s1\<lparr>frcTime := k40Ms ?E\<rparr>) = (s2, Inr t)" by (simp add: sample_run)
  obtain tr where tr: "exec_p ?E (ping_request ?E sample_prm) (-1) (p_repeat sample_prm) (None, s2) = ((Some tr, s2), Inr (253 # 0x20 # replicate 54 0))"
    "tr_errorCode tr = TRN_OK ?E" by (simp add: sample_run)
  have "MAX_ADDRESS ?E < FrcSend_Status ?E (253 # 0x20 # replicate 54 0)" by (simp add: sample_codes_of)
  from failed_frc_reported_ok[OF s1 _ s2 tr this] show ?thesis by (simp add: sample_codes_of)
qed

section \<open>Responses\<close>

lemma keeps_ping: "keeps sent (ping E prm)"
proof -
  have "keeps sent (frc_checked E rq k)" for rq k unfolding frc_checked_def by (intro keeps_rules)
  moreover have "keeps sent (ping_getBondedNodes E k)" for k
    unfolding ping_getBondedNodes_def by (intro keeps_rules) simp
  ultimately have "keeps sent (ping_body E prm)"
    unfolding ping_body_def FrcPingNodes_def FrcAcknowledgeNodeRead_def by (intro keeps_rules) (simp_all add: check_node_eq)
  then show ?thesis unfolding ping_def[abs_def] by (rule keeps_catch)
qed

lemma createResponse_msgId: "jget [''data'', ''msgId''] (createResponse E com mType prm s) = Some (JStr (c_msgId com))"
  unfolding createResponse_def append_Cons append_Nil
  by (rule jset_all_read[where earlier = "[([''mType''], JStr mType)]", unfolded append_Cons append_Nil]) auto

text \<open>
  A ping request that is answered at all is answered exactly once, with the identifier of the request, also when the access to the network is refused; and the
  exclusive access is free again.\<close>

theorem ping_one_response:
  assumes "handleMsg E refused mType doc s = (s', Inr ())" "\<not> exclusive s" "jget [''data'', ''msgId''] doc = Some (JStr i)"
  shows "\<exists>rsp. sent s' = sent s @ [rsp] \<and> jget [''data'', ''msgId''] rsp = Some (JStr (c_str i)) \<and> \<not> exclusive s'"
proof -
  obtain com prm where com: "ComBase doc = Inr com"
    and r: "run_exclusive E refused (error_response mType (c_msgId com) exclusiveAccessError) (ping E prm) (createResponse E com mType prm) (new_ping s) = (s', Inr ())"
    using assms(1) by (auto simp: handleMsg_def bind_r_def split: if_splits sum.splits)
  have i: "c_msgId com = c_str i" using com assms(3) by (auto simp: ComBase_def bind_r_def deref_def GetString_def split: sum.splits option.splits)
  from run_exclusive_one_response[OF r keeps_ping] assms(2) show ?thesis
    using i by (cases refused) (auto simp: new_ping_def createResponse_msgId error_response_msgId)
qed

theorem ping_one_response_witness:
  "\<exists>rsp. sent (fst (handleMsg (sample_net 0) (Some ''busy'') ''iqmeshNetwork_Ping''
       (JObj [(''mType'', JStr ''iqmeshNetwork_Ping''), (''data'', JObj [(''msgId'', JStr ''7'')])]) (sample_svc\<lparr>exclusive := False\<rparr>))) = [rsp] \<and>
    jget [''data'', ''msgId''] rsp = Some (JStr ''7'')"
proof -
  let ?d = "JObj [(''mType'', JStr ''iqmeshNetwork_Ping''), (''data'', JObj [(''msgId'', JStr ''7'')])]" and ?s = "sample_svc\<lparr>exclusive := False\<rparr>"
  have "snd (handleMsg (sample_net 0) (Some ''busy'') ''iqmeshNetwork_Ping'' ?d ?s) = Inr ()" by code_simp
  then obtain s' where h: "handleMsg (sample_net 0) (Some ''busy'') ''iqmeshNetwork_Ping'' ?d ?s = (s', Inr ())" by (metis prod.collapse)
  have d: "jget [''data'', ''msgId''] ?d = Some (JStr ''7'')" "c_str ''7'' = ''7''" by code_simp+
  from ping_one_response[OF h _ d(1)] h show ?thesis by (auto simp: sample_svc_def d(2))
qed

end
