(* ===== verification/Ota_Upload.thy ===== *)
theory Ota_Upload
  imports Dpa_Service Std_Map Ota_Parsers
begin

text \<open>
  \<open>IqmeshServices/OtaUploadService/OtaUploadService.cpp\<close>: the upload of a program to a node or to all nodes. The file is read by the parsers of \<open>Ota_Parsers\<close> and prepared by
  \<open>Ota_Prepare\<close>; the service checks the devices and writes the blocks into the external EEPROM of the nodes (action \<open>Upload\<close>), has the nodes verify the
  content (\<open>Verify\<close>) or also load it into their program memory (\<open>Load\<close>).
\<close>

section \<open>Parameters and state\<close>

datatype LoadingAction = Upload | Verify | Load

datatype LoadingContentType = Hex | Iqrf_plugin

record ModuleInfo =
  osMajor :: u8
  osMinor :: u8
  mcuType :: u8
  trSeries :: u8
  osBuild :: u16

text \<open>The device functions of the header parser library; a family of transceivers is a number.\<close>

record device_lib =
  getTrFamily :: "u8 \<Rightarrow> u8 \<Rightarrow> u8"
  UNKNOWN_FAMILY :: u8
  TR_7xG :: u8
  TR_8xG :: u8
  osCompatible :: "string list \<Rightarrow> ModuleInfo \<Rightarrow> bool"

record TOtaUploadInputParams =
  deviceAddress :: u16
  o_hwpId :: u16
  fileName :: string
  o_repeat :: u16
  startMemAddr :: u16
  loadingAction :: string
  uploadEepromData :: bool
  uploadEeepromData :: bool

text \<open>
  \<open>m_uploadResult\<close> has no initial value in the source: \<open>None\<close>. The maps are ordered by the address.
\<close>

record 'n ota = "'n svc" +
  m_uploadResult :: "bool option"
  m_nodesList :: "u8 list"
  m_compatibleDevicesMap :: "(nat \<times> bool) list"
  m_verifyResultMap :: "(nat \<times> bool) list"
  m_loadResultMap :: "(nat \<times> bool) list"
  m_devices :: "(nat \<times> ModuleInfo) list"

definition uploadFileProcessingError :: int where "uploadFileProcessingError = 1004"
definition invalidEepromAddress :: int where "invalidEepromAddress = 1005"
definition eepromContentNotUploaded :: int where "eepromContentNotUploaded = 1006"
definition incompatibleDevice :: int where "incompatibleDevice = 1007"
definition noDevices :: int where "noDevices = 1008"
definition deviceOffline :: int where "deviceOffline = 1009"
definition noDeviceMatchedHwpid :: int where "noDeviceMatchedHwpid = 1010"

text \<open>Setting the status and throwing its text.\<close>

definition fail_with :: "int \<Rightarrow> string \<Rightarrow> (('n, 'z) svc_scheme, 'a) act" where
  "fail_with status str = bind_s (setStatus status str) (\<lambda>_. throw (LogicError str))"

section \<open>File\<close>

definition getFileSuffix :: "string \<Rightarrow> string result" where
  "getFileSuffix name =
     (let tail = takeWhile (\<lambda>c. c \<noteq> CHR ''.'') (rev name)
      in if length tail = length name \<or> tail = [] then Inl (LogicError ''File has no suffix.'') else Inr (rev tail))"

definition parseLoadingContentType :: "string \<Rightarrow> LoadingContentType result" where
  "parseLoadingContentType name =
     bind_r (getFileSuffix name) (\<lambda>suffix.
       if suffix = ''hex'' then Inr Hex else if suffix = ''iqrf'' then Inr Iqrf_plugin
       else Inl (LogicError ''File is not a HEX or IQRF file.''))"

text \<open>The path is not empty here.\<close>

definition getFullFileName :: "string \<Rightarrow> string \<Rightarrow> string" where
  "getFullFileName uploadPath name = (if last uploadPath \<noteq> CHR ''/'' then uploadPath @ ''/'' else uploadPath) @ name"

record upload_data =
  u_type :: LoadingContentType
  flashData :: prepared_data
  eepromData :: "code_block list"
  eeepromData :: "code_block list"
  hasCompatibilityHeader :: bool
  headerInfo :: ModuleInfo
  headerOs :: "string list"

definition module_info :: "u8 \<Rightarrow> u8 \<Rightarrow> u8 \<Rightarrow> u8 \<Rightarrow> ModuleInfo" where
  "module_info major minor mcu tr = \<lparr>osMajor = major, osMinor = minor, mcuType = mcu, trSeries = tr, osBuild = 0\<rparr>"

text \<open>Sequencing of computations that may not end.\<close>

definition bind_o :: "'a result option \<Rightarrow> ('a \<Rightarrow> 'b result option) \<Rightarrow> 'b result option" where
  "bind_o r f = (case r of None \<Rightarrow> None | Some (Inl e) \<Rightarrow> Some (Inl e) | Some (Inr x) \<Rightarrow> f x)"

definition read_hex ::
    "ihp_lib \<Rightarrow> (u8 \<times> u8 \<times> u8) \<Rightarrow> LoadingAction \<Rightarrow> string \<Rightarrow> string list option \<Rightarrow> upload_data result option" where
  "read_hex lib uninit action name file =
     bind_o (Some (IntelHexParser lib uninit name file)) (\<lambda>p.
     bind_o (hexGetFlashData lib p) (\<lambda>blocks.
     bind_o (fromHex blocks) (\<lambda>fd.
     bind_o (if action = Upload then hexGetEepromData lib p else Some (Inr [])) (\<lambda>ee.
     bind_o (if action = Upload then hexGetEeepromData lib p else Some (Inr [])) (\<lambda>eee.
       let (major, minor, mcu, tr) = hexGetHeaderModuleInfo p in
       Some (Inr \<lparr>u_type = Hex, flashData = fd, eepromData = ee, eeepromData = eee, hasCompatibilityHeader = h_identificationRecord p,
                  headerInfo = module_info major minor mcu tr, headerOs = []\<rparr>))))))"

definition read_iqrf ::
    "ihp_lib \<Rightarrow> (u8 \<times> u8) \<Rightarrow> bool \<Rightarrow> string \<Rightarrow> string list option \<Rightarrow> upload_data result option" where
  "read_iqrf lib uninit broadcast name file =
     bind_o (Some (IqrfParser lib uninit name file)) (\<lambda>p.
     bind_o (Some (iqrfGetFlashData lib p)) (\<lambda>block.
     bind_o (fromIqrf block broadcast) (\<lambda>fd.
       let (mcu, tr) = iqrfGetHeaderModuleInfo p in
       Some (Inr \<lparr>u_type = Iqrf_plugin, flashData = fd, eepromData = [], eeepromData = [], hasCompatibilityHeader = False,
                  headerInfo = module_info 0 0 mcu tr, headerOs = q_os p\<rparr>))))"

text \<open>\<open>uninit\<close> are the values of the members the parsers do not initialise, \<open>files\<close> the lines of the files.\<close>

definition read_file ::
    "('n, 'e) dpa_env_scheme \<Rightarrow> ihp_lib \<Rightarrow> (u8 \<times> u8 \<times> u8) \<Rightarrow> (string \<Rightarrow> string list option) \<Rightarrow> string \<Rightarrow> TOtaUploadInputParams \<Rightarrow>
     LoadingAction \<Rightarrow> upload_data result option" where
  "read_file E lib uninit files uploadPath prm action =
     (let name = getFullFileName uploadPath (fileName prm) in
      bind_o (Some (parseLoadingContentType name)) (\<lambda>type.
        if type = Hex then read_hex lib uninit action name (files name)
        else read_iqrf lib (snd uninit) (deviceAddress prm = BROADCAST_ADDRESS E) name (files name)))"

section \<open>Checks before the upload\<close>

definition area :: "string \<Rightarrow> code_block \<Rightarrow> string \<Rightarrow> string" where
  "area name b problem = name @ show_hex (unat (m_startAddr b)) @ ''-0x'' @ show_hex (unat (m_endAddr b)) @ problem"

definition eepromBottomAddr :: "('n, 'e) dpa_env_scheme \<Rightarrow> TOtaUploadInputParams \<Rightarrow> u8" where
  "eepromBottomAddr E prm = (if deviceAddress prm = COORDINATOR_ADDRESS E then 0x80 else 0x00)"

definition check_eeprom :: "('n, 'e) dpa_env_scheme \<Rightarrow> TOtaUploadInputParams \<Rightarrow> code_block list \<Rightarrow> (('n, 'z) svc_scheme, bool) act" where
  "check_eeprom E prm blocks =
     (if blocks = [] then ret False
      else if uploadEepromData prm then
        bind_s (for_s (\<lambda>b.
            if m_startAddr b < ucast (eepromBottomAddr E prm) \<or> m_endAddr b > 0xbf
            then fail_with invalidEepromAddress (area ''Internal Eeprom area 0x'' b '' is not dedicated to user.'')
            else ret ()) blocks) (\<lambda>_. ret True)
      else fail_with eepromContentNotUploaded ''Hex file contains eeprom data, uploadEepromData is false, upload stopped.'')"

definition check_eeeprom :: "TOtaUploadInputParams \<Rightarrow> code_block list \<Rightarrow> (('n, 'z) svc_scheme, bool) act" where
  "check_eeeprom prm blocks =
     (if blocks = [] then ret False
      else if uploadEeepromData prm then
        bind_s (for_s (\<lambda>b.
            if m_endAddr b > 0x3fff
            then fail_with invalidEepromAddress (area ''External Eeprom area 0x'' b '' is not dedicated to user.'')
            else if startMemAddr prm \<ge> m_startAddr b \<and> startMemAddr prm \<le> m_endAddr b
            then fail_with invalidEepromAddress (area ''External Eeprom area 0x'' b '' overlaps startMemAddr address.'')
            else ret ()) blocks) (\<lambda>_. ret True)
      else fail_with eepromContentNotUploaded ''Hex file contains eeeprom data, uploadEeepromData is false, upload stopped.'')"

definition repeat_of :: "TOtaUploadInputParams \<Rightarrow> int" where
  "repeat_of prm = uint (o_repeat prm)"

text \<open>The result of the transaction is already in the list when a bad FRC status is thrown.\<close>

definition getOnlineNodes :: "('n, 'e) dpa_env_scheme \<Rightarrow> TOtaUploadInputParams \<Rightarrow> (('n, 'z) svc_scheme, u8 list) act" where
  "getOnlineNodes E prm =
     try_p (bind_s (exec_p E (to_coordinator E (PNUM_FRC E) (CMD_FRC_SEND E) (enc_FrcSend E (FRC_Ping E) [0, 0])) (-1) (repeat_of prm)) (\<lambda>rsp.
       bind_s add_p (\<lambda>_.
         if FrcSend_Status E rsp = 0xFF then ret []
         else if FrcSend_Status E rsp > MAX_ADDRESS E then throw (LogicError ''FRC ping failed with status '')
         else ret (bitmapToNodes E (FrcSend_FrcData E rsp)))))"

definition device_info :: "u8 \<Rightarrow> u8 \<Rightarrow> u8 \<Rightarrow> u8 \<Rightarrow> ModuleInfo" where
  "device_info version mcu lo hi =
     \<lparr>osMajor = drop_bit 4 (version AND 0xF0), osMinor = version AND 0x0F, mcuType = mcu AND 0x07, trSeries = drop_bit 4 mcu,
      osBuild = push_bit 8 (ucast hi) OR ucast lo\<rparr>"

definition insert_device :: "nat \<Rightarrow> ModuleInfo \<Rightarrow> (('n, 'z) ota_scheme, unit) act" where
  "insert_device addr d = upd (\<lambda>s. s\<lparr>m_devices := map_insert addr d (m_devices s)\<rparr>)"

text \<open>The address of the device is converted to the key type \<open>uint8_t\<close> of the map.\<close>

definition osRead :: "('n, 'e) dpa_env_scheme \<Rightarrow> TOtaUploadInputParams \<Rightarrow> (('n, 'z) ota_scheme, unit) act" where
  "osRead E prm =
     try_p (bind_s (exec_p E \<lparr>rq_nadr = deviceAddress prm, rq_pnum = PNUM_OS E, rq_pcmd = CMD_OS_READ E,
                              rq_hwpid = HWPID_DoNotCheck E, rq_pdata = []\<rparr> (-1) (repeat_of prm)) (\<lambda>rsp.
       bind_s (lift_p (insert_device (unat (ucast (deviceAddress prm) :: u8)) (device_info (rsp ! 4) (rsp ! 5) (rsp ! 6) (rsp ! 7)))) (\<lambda>_.
         add_p)))"

definition selectNodes :: "u8 list \<Rightarrow> bytes" where
  "selectNodes nodes =
     fold (\<lambda>a sel. sel[unat a div 8 := sel ! (unat a div 8) OR push_bit (unat a mod 8) 1]) nodes (replicate 30 0)"

text \<open>51 bytes from the position after the four bytes of the coordinator.\<close>

definition frcMemoryRead4BSelective ::
    "('n, 'e) dpa_env_scheme \<Rightarrow> TOtaUploadInputParams \<Rightarrow> u16 \<Rightarrow> u8 \<Rightarrow> u8 \<Rightarrow> bytes \<Rightarrow> (('n, 'z) svc_scheme, bytes) act" where
  "frcMemoryRead4BSelective E prm address pnum pcmd selected =
     try_p (bind_s (exec_p E (to_coordinator E (PNUM_FRC E) (CMD_FRC_SEND_SELECTIVE E)
           (enc_FrcSendSelective E (FRC_MemoryRead4B E) selected [0, 0, ucast address, ucast (drop_bit 8 address), pnum, pcmd, 0]))
         (-1) (repeat_of prm)) (\<lambda>rsp.
       if FrcSend_Status E rsp > MAX_ADDRESS E then throw (LogicError ''FRC Send Selective Memory read failed: '')
       else bind_s add_p (\<lambda>_. ret (map (\<lambda>i. FrcSend_FrcData E rsp ! i) [4..<55]))))"

definition frcExtraResult :: "('n, 'e) dpa_env_scheme \<Rightarrow> (('n, 'z) svc_scheme, bytes) act" where
  "frcExtraResult E =
     try_p (bind_s (exec_p E (to_coordinator E (PNUM_FRC E) (CMD_FRC_EXTRARESULT E) []) (-1) 1) (\<lambda>rsp.
       bind_s add_p (\<lambda>_. ret (map (\<lambda>i. rsp ! i) [0..<8]))))"

text \<open>
  One request for at most 15 nodes and, if there are more than 13 of them, the extra result. The counters of the loop are bytes and cannot overflow for the at most 240 nodes.
\<close>

definition read_chunk :: "('n, 'e) dpa_env_scheme \<Rightarrow> TOtaUploadInputParams \<Rightarrow> u16 \<Rightarrow> u8 list \<Rightarrow> (('n, 'z) svc_scheme, bytes) act" where
  "read_chunk E prm address nodes =
     bind_s (frcMemoryRead4BSelective E prm address (PNUM_OS E) (CMD_OS_READ E) (selectNodes nodes)) (\<lambda>d.
       if 13 < length nodes then bind_s (frcExtraResult E) (\<lambda>x. ret (d @ x)) else ret d)"

function frcOsMcuData_loop ::
    "('n, 'e) dpa_env_scheme \<Rightarrow> TOtaUploadInputParams \<Rightarrow> u16 \<Rightarrow> u8 list \<Rightarrow> bytes \<Rightarrow> (('n, 'z) svc_scheme, bytes) act" where
  "frcOsMcuData_loop E prm address nodes data =
     (if nodes = [] then ret data
      else bind_s (read_chunk E prm address (take 15 nodes)) (\<lambda>d.
             frcOsMcuData_loop E prm address (drop 15 nodes) (data @ d)))"
  by pat_completeness auto
termination by (relation "measure (\<lambda>(_, _, _, nodes, _). length nodes)") auto

declare frcOsMcuData_loop.simps [simp del]

text \<open>\<open>offset\<close> is the offset of \<open>OsVersion\<close> in \<open>TPerOSRead_Response\<close>.\<close>

definition frcOsMcuData :: "('n, 'e) dpa_env_scheme \<Rightarrow> TOtaUploadInputParams \<Rightarrow> u16 \<Rightarrow> u8 list \<Rightarrow> (('n, 'z) svc_scheme, bytes) act" where
  "frcOsMcuData E prm offset bonded = frcOsMcuData_loop E prm (0x04A0 + offset) bonded []"

text \<open>Access to an element of a vector.\<close>

definition vec_at :: "bytes \<Rightarrow> nat \<Rightarrow> u8 result" where
  "vec_at v i = (if i < length v then Inr (v ! i) else Inl (UB ''vector index''))"

text \<open>The information of the \<open>i\<close>-th device; the index into the data is a byte.\<close>

definition device_at :: "bytes \<Rightarrow> nat \<Rightarrow> ModuleInfo result" where
  "device_at osData i =
     (let idx = unat (of_nat (4 * i) :: u8) in
      bind_r (vec_at osData idx) (\<lambda>v. bind_r (vec_at osData (idx + 1)) (\<lambda>m.
      bind_r (vec_at osData (idx + 3)) (\<lambda>hi. bind_r (vec_at osData (idx + 2)) (\<lambda>lo. Inr (device_info v m lo hi))))))"

definition read_devices :: "('n, 'e) dpa_env_scheme \<Rightarrow> TOtaUploadInputParams \<Rightarrow> u16 \<Rightarrow> (('n, 'z) ota_scheme, unit) act" where
  "read_devices E prm offset =
     (if deviceAddress prm = BROADCAST_ADDRESS E then
        bind_s (getBondedNodes E (repeat_of prm)) (\<lambda>bonded.
          if bonded = [] then fail_with noDevices ''No devices in network.''
          else bind_s (getOnlineNodes E prm) (\<lambda>nodes.
            if length nodes \<noteq> length bonded
            then fail_with deviceOffline ''One or more devices were offline during the upload process.''
            else bind_s (frcOsMcuData E prm offset bonded) (\<lambda>osData.
              for_s (\<lambda>(i, addr). bind_s (of_result (device_at osData i)) (insert_device (unat addr)))
                (zip [0..<length bonded] bonded))))
      else osRead E prm)"

definition compatible :: "device_lib \<Rightarrow> upload_data \<Rightarrow> ModuleInfo \<Rightarrow> bool" where
  "compatible D u d =
     (let family = getTrFamily D (mcuType d) (trSeries d); h = headerInfo u in
      if u_type u = Hex then
        (if hasCompatibilityHeader u
         then mcuType h = mcuType d \<and> trSeries h = family \<and> osMajor h = osMajor d \<and> osMinor h = osMinor d
         else family \<noteq> UNKNOWN_FAMILY D \<and> family \<noteq> TR_7xG D \<and> family \<noteq> TR_8xG D)
      else mcuType h = mcuType d \<and> trSeries h = family \<and> osCompatible D (headerOs u) d)"

definition incompatibility :: "TOtaUploadInputParams \<Rightarrow> LoadingContentType \<Rightarrow> string" where
  "incompatibility prm type =
     (if deviceAddress prm = 255
      then (if type = Hex then ''Network contains device(s) incompatible with selected HEX.''
            else ''Network contains device(s) incompatible with selected IQRF plugin.'')
      else (if type = Hex then ''Selected HEX is incompatible with target device.''
            else ''Selected IQRF plugin is incompatible with target device.''))"

definition check_devices :: "device_lib \<Rightarrow> TOtaUploadInputParams \<Rightarrow> upload_data \<Rightarrow> (('n, 'z) ota_scheme, unit) act" where
  "check_devices D prm u =
     bind_s (get_s m_devices) (\<lambda>devices.
       for_s (\<lambda>(addr, d).
         if compatible D u d
         then upd (\<lambda>s. s\<lparr>m_compatibleDevicesMap := map_put addr True (m_compatibleDevicesMap s)\<rparr>)
         else fail_with incompatibleDevice (incompatibility prm (u_type u))) devices)"

definition isCompatible :: "nat \<Rightarrow> ('n, 'z) ota_scheme \<Rightarrow> bool" where
  "isCompatible addr s = (map_of (m_compatibleDevicesMap s) addr = Some True)"

section \<open>Writing\<close>

definition write_hwpid :: "('n, 'e) dpa_env_scheme \<Rightarrow> TOtaUploadInputParams \<Rightarrow> u16" where
  "write_hwpid E prm = (if deviceAddress prm = BROADCAST_ADDRESS E then o_hwpId prm else HWPID_DoNotCheck E)"

definition to_device :: "('n, 'e) dpa_env_scheme \<Rightarrow> TOtaUploadInputParams \<Rightarrow> u8 \<Rightarrow> u8 \<Rightarrow> bytes \<Rightarrow> request" where
  "to_device E prm pnum pcmd pdata =
     \<lparr>rq_nadr = deviceAddress prm, rq_pnum = pnum, rq_pcmd = pcmd, rq_hwpid = write_hwpid E prm, rq_pdata = pdata\<rparr>"

definition writeInternalEeprom :: "('n, 'e) dpa_env_scheme \<Rightarrow> TOtaUploadInputParams \<Rightarrow> u8 \<Rightarrow> bytes \<Rightarrow> (('n, 'z) svc_scheme, unit) act" where
  "writeInternalEeprom E prm address data =
     try_p (bind_s (exec_p E (to_device E prm (PNUM_EEPROM E) (CMD_EEPROM_WRITE E) (enc_MemoryWrite E address data)) (-1) (repeat_of prm)) (\<lambda>_.
       add_p))"

definition writeExternalEeprom :: "('n, 'e) dpa_env_scheme \<Rightarrow> TOtaUploadInputParams \<Rightarrow> u16 \<Rightarrow> bytes \<Rightarrow> (('n, 'z) svc_scheme, unit) act" where
  "writeExternalEeprom E prm address data =
     try_p (bind_s (exec_p E (to_device E prm (PNUM_EEEPROM E) (CMD_EEEPROM_XWRITE E) (enc_XMemoryWrite E address data)) (-1) (repeat_of prm)) (\<lambda>_.
       add_p))"

text \<open>
  The parts of at most 54 bytes in which a block is written, with their offsets. A block without code is written as one empty part.
\<close>

function parts54 :: "bytes \<Rightarrow> nat \<Rightarrow> nat \<Rightarrow> (nat \<times> bytes) list" where
  "parts54 code index left =
     (let len = (if left > 54 then 54 else left); part = (index, take len (drop index code))
      in if left - len = 0 then [part] else part # parts54 code (index + len) (left - len))"
  by pat_completeness auto
termination by (relation "measure (\<lambda>(_, _, left). left)") (auto split: if_splits)

declare parts54.simps [simp del]

text \<open>The length, index and address are bytes for the internal and 16 bit words for the external EEPROM.\<close>

definition upload_eeprom :: "('n, 'e) dpa_env_scheme \<Rightarrow> TOtaUploadInputParams \<Rightarrow> code_block list \<Rightarrow> (('n, 'z) svc_scheme, unit) act" where
  "upload_eeprom E prm blocks =
     for_s (\<lambda>b. for_s (\<lambda>(off, data). writeInternalEeprom E prm (ucast (m_startAddr b) + of_nat off - eepromBottomAddr E prm) data)
       (parts54 (m_code b) 0 (unat (ucast (getLength b) :: u8)))) blocks"

definition upload_eeeprom :: "('n, 'e) dpa_env_scheme \<Rightarrow> TOtaUploadInputParams \<Rightarrow> code_block list \<Rightarrow> (('n, 'z) svc_scheme, unit) act" where
  "upload_eeeprom E prm blocks =
     for_s (\<lambda>b. for_s (\<lambda>(off, data). writeExternalEeprom E prm (m_startAddr b + of_nat off) data)
       (parts54 (m_code b) 0 (unat (getLength b)))) blocks"

text \<open>
  A packet inside a batch: length, peripheral, command, hardware profile, address, data. The interface header has six bytes, of which the node address is
  replaced by the length.
\<close>

definition EMB_WRITE_PACKET_HEADER_SIZE :: nat where
  "EMB_WRITE_PACKET_HEADER_SIZE = 6 - 1 + 2"

definition addEmbeddedWritePacket :: "('n, 'e) dpa_env_scheme \<Rightarrow> u16 \<Rightarrow> u16 \<Rightarrow> bytes \<Rightarrow> bytes" where
  "addEmbeddedWritePacket E address hwpId data =
     [of_nat (EMB_WRITE_PACKET_HEADER_SIZE + length data), PNUM_EEEPROM E, CMD_EEEPROM_XWRITE E, ucast (hwpId AND 0xFF),
      ucast (drop_bit 8 hwpId AND 0xFF), ucast (address AND 0xFF), ucast (drop_bit 8 address AND 0xFF)] @ data"

definition setExtendedWritePacketData :: "u16 \<Rightarrow> bytes \<Rightarrow> bytes" where
  "setExtendedWritePacketData address data = [ucast (address AND 0xFF), ucast (drop_bit 8 address AND 0xFF)] @ data"

text \<open>
  The loop over the prepared blocks: two following blocks of 16 bytes go into one batch, which ends with a zero byte; any other block is written alone.
\<close>

fun write_blocks ::
    "('n, 'e) dpa_env_scheme \<Rightarrow> TOtaUploadInputParams \<Rightarrow> u16 \<Rightarrow> bytes list \<Rightarrow> (trans_result option \<times> ('n, 'z) svc_scheme, unit) act" where
  "write_blocks E prm address [] = ret ()"
| "write_blocks E prm address [d] =
     bind_s (exec_p E (to_device E prm (PNUM_EEEPROM E) (CMD_EEEPROM_XWRITE E) (setExtendedWritePacketData address d)) (-1) (repeat_of prm)) (\<lambda>_. add_p)"
| "write_blocks E prm address (d # d' # ds) =
     (if length d = 16 \<and> length d' = 16 then
        (let hwpId = write_hwpid E prm; address' = address + of_nat (length d) in
         bind_s (exec_p E (to_device E prm (PNUM_OS E) (CMD_OS_BATCH E)
             (addEmbeddedWritePacket E address hwpId d @ addEmbeddedWritePacket E address' hwpId d' @ [0])) (-1) (repeat_of prm)) (\<lambda>_.
         bind_s add_p (\<lambda>_. write_blocks E prm (address' + of_nat (length d')) ds)))
      else
        bind_s (exec_p E (to_device E prm (PNUM_EEEPROM E) (CMD_EEEPROM_XWRITE E) (setExtendedWritePacketData address d)) (-1) (repeat_of prm)) (\<lambda>_.
        bind_s add_p (\<lambda>_. write_blocks E prm (address + of_nat (length d)) (d' # ds))))"

definition writeDataToExtEEPROM :: "('n, 'e) dpa_env_scheme \<Rightarrow> TOtaUploadInputParams \<Rightarrow> u16 \<Rightarrow> bytes list \<Rightarrow> (('n, 'z) ota_scheme, unit) act" where
  "writeDataToExtEEPROM E prm startMemAddress data =
     try_p (bind_s (write_blocks E prm startMemAddress data) (\<lambda>_. lift_p (upd (\<lambda>s. s\<lparr>m_uploadResult := Some True\<rparr>))))"

section \<open>Verifying and loading\<close>

definition load_flags :: "LoadingAction \<Rightarrow> LoadingContentType \<Rightarrow> u8" where
  "load_flags action type = (if action = Load then 1 else 0) OR (if type = Iqrf_plugin then 2 else 0)"

definition load_request :: "('n, 'e) dpa_env_scheme \<Rightarrow> TOtaUploadInputParams \<Rightarrow> LoadingAction \<Rightarrow> LoadingContentType \<Rightarrow> prepared_data \<Rightarrow> bytes" where
  "load_request E prm action type fd = enc_OSLoadCode E (load_flags action type) (startMemAddr prm) (m_length fd) (m_checksum fd)"

definition set_verify :: "nat \<Rightarrow> bool \<Rightarrow> ('n, 'z) ota_scheme \<Rightarrow> ('n, 'z) ota_scheme" where
  "set_verify addr b s = s\<lparr>m_verifyResultMap := map_put addr b (m_verifyResultMap s)\<rparr>"

definition set_load :: "nat \<Rightarrow> bool \<Rightarrow> ('n, 'z) ota_scheme \<Rightarrow> ('n, 'z) ota_scheme" where
  "set_load addr b s = s\<lparr>m_loadResultMap := map_put addr b (m_loadResultMap s)\<rparr>"

definition loadCodeUnicast ::
    "('n, 'e) dpa_env_scheme \<Rightarrow> TOtaUploadInputParams \<Rightarrow> LoadingAction \<Rightarrow> LoadingContentType \<Rightarrow> prepared_data \<Rightarrow> (('n, 'z) ota_scheme, unit) act" where
  "loadCodeUnicast E prm action type fd =
     try_p (bind_s (exec_p E \<lparr>rq_nadr = deviceAddress prm, rq_pnum = PNUM_OS E, rq_pcmd = CMD_OS_LOAD_CODE E,
                              rq_hwpid = HWPID_DoNotCheck E, rq_pdata = load_request E prm action type fd\<rparr> 10000 (repeat_of prm)) (\<lambda>rsp.
       bind_s add_p (\<lambda>_. lift_p (upd (\<lambda>s.
         (if action = Load then set_load else set_verify) (unat (deviceAddress prm)) (rsp ! 0 = 1) s)))))"

definition getFrcExtraResult :: "('n, 'e) dpa_env_scheme \<Rightarrow> TOtaUploadInputParams \<Rightarrow> (('n, 'z) svc_scheme, bytes) act" where
  "getFrcExtraResult E prm =
     try_p (exec_p E (to_coordinator E (PNUM_FRC E) (CMD_FRC_EXTRARESULT E) []) (-1) (repeat_of prm))"

definition verify_frc_time :: "('n, 'e) dpa_env_scheme \<Rightarrow> LoadingContentType \<Rightarrow> u16 \<Rightarrow> u8" where
  "verify_frc_time E type len =
     (if type = Hex then (if len > 0x2700 then k5160Ms E else if len > 0x0F00 then k2600Ms E else k1320Ms E)
      else if len > 0x3100 then k20620Ms E else if len > 0x1500 then k10280Ms E else if len > 0x0B00 then k5160Ms E else k2600Ms E)"

text \<open>
  One selective FRC command for at most 63 nodes. The data of the response after the status and the coordinator are 54 bytes; the
  extra result has 9 more.
\<close>

definition verify_chunk ::
    "('n, 'e) dpa_env_scheme \<Rightarrow> TOtaUploadInputParams \<Rightarrow> LoadingAction \<Rightarrow> LoadingContentType \<Rightarrow> prepared_data \<Rightarrow> u8 list \<Rightarrow>
     (trans_result option \<times> ('n, 'z) ota_scheme, unit) act" where
  "verify_chunk E prm action type fd nodes =
     bind_s (exec_p E (to_coordinator E (PNUM_FRC E) (CMD_FRC_SEND_SELECTIVE E)
         (enc_FrcSendSelective E (FRC_MemoryReadPlus1 E) (selectNodes nodes)
           ([0xa0, 0x04, PNUM_OS E, CMD_OS_LOAD_CODE E, of_nat (length (load_request E prm action type fd))] @ load_request E prm action type fd)))
       (-1) (repeat_of prm)) (\<lambda>rsp.
     if FrcSend_Status E rsp > MAX_ADDRESS E then throw (LogicError ''Bad FRC status: '')
     else bind_s add_p (\<lambda>_.
       bind_s (if length nodes > 54 then bind_s (lift_p (getFrcExtraResult E prm)) (\<lambda>x. ret (take 9 x)) else ret []) (\<lambda>extra.
         let frcData = take 54 (drop 2 rsp) @ extra in
         lift_p (upd (fold (\<lambda>(i, addr). set_verify (unat addr) (frcData ! i = 2)) (zip [0..<length nodes] nodes))))))"

function verify_loop ::
    "('n, 'e) dpa_env_scheme \<Rightarrow> TOtaUploadInputParams \<Rightarrow> LoadingAction \<Rightarrow> LoadingContentType \<Rightarrow> prepared_data \<Rightarrow> u8 list \<Rightarrow>
     (trans_result option \<times> ('n, 'z) ota_scheme, unit) act" where
  "verify_loop E prm action type fd nodes =
     (if nodes = [] then ret ()
      else bind_s (verify_chunk E prm action type fd (take 63 nodes)) (\<lambda>_. verify_loop E prm action type fd (drop 63 nodes)))"
  by pat_completeness auto
termination by (relation "measure (\<lambda>(_, _, _, _, _, nodes). length nodes)") auto

declare verify_loop.simps [simp del]

text \<open>The nodes to verify: all bonded ones, or those that acknowledge a command with the hardware profile. The flag is \<open>forced\<close>.\<close>

definition nodes_to_verify ::
    "('n, 'e) dpa_env_scheme \<Rightarrow> TOtaUploadInputParams \<Rightarrow> (trans_result option \<times> ('n, 'z) svc_scheme, u8 list option) act" where
  "nodes_to_verify E prm =
     (if o_hwpId prm = HWPID_DoNotCheck E then bind_s (lift_p (getBondedNodes E (repeat_of prm))) (\<lambda>nodes. ret (Some nodes))
      else
        bind_s (exec_p E (to_coordinator E (PNUM_FRC E) (CMD_FRC_SEND E)
            (enc_FrcSend E (FRC_AcknowledgedBroadcastBits E)
              [5, PNUM_OS E, CMD_OS_READ E, ucast (o_hwpId prm AND 0xFF), ucast (drop_bit 8 (o_hwpId prm))])) (-1) (repeat_of prm)) (\<lambda>rsp.
        if FrcSend_Status E rsp > MAX_ADDRESS E then throw (LogicError ''Bad FRC status: '')
        else
          (let nodes = bitmapToNodes E (FrcSend_FrcData E rsp) in
           if nodes = [] then ret None else bind_s add_p (\<lambda>_. ret (Some nodes)))))"

definition verifyCode ::
    "('n, 'e) dpa_env_scheme \<Rightarrow> TOtaUploadInputParams \<Rightarrow> LoadingAction \<Rightarrow> LoadingContentType \<Rightarrow> prepared_data \<Rightarrow> (('n, 'z) ota_scheme, unit) act" where
  "verifyCode E prm action type fd s =
     (case nodes_to_verify E prm (None, s) of
        ((ptr, s), Inl e) \<Rightarrow> report False ptr e s
      | ((ptr, s), Inr None) \<Rightarrow>
          (case setStatus noDeviceMatchedHwpid ''No device in network matched specified hwpid.'' s of
             (s, _) \<Rightarrow> report True ptr (LogicError ''No device in network matched specified hwpid.'') s)
      | ((ptr, s), Inr (Some nodes)) \<Rightarrow>
          (case bind_s (lift_p (upd (\<lambda>s. s\<lparr>m_nodesList := nodes\<rparr>))) (\<lambda>_.
                bind_s (lift_p (setFrcTime (verify_frc_time E type (m_length fd)))) (\<lambda>_.
                bind_s (lift_p (setFrcReponseTime E (repeat_of prm) (verify_frc_time E type (m_length fd)))) (\<lambda>_.
                  verify_loop E prm action type fd nodes))) (ptr, s) of
             ((ptr, s), Inl e) \<Rightarrow> report False ptr e s
           | ((ptr, s), Inr _) \<Rightarrow> (s, Inr ())))"

text \<open>
  The loading result of a node needs its verification result, which the code reads by dereferencing \<open>find\<close>. The index into \<open>frcData\<close> is the byte of the node in
  the bitmap.
\<close>

definition load_result :: "bytes \<Rightarrow> u8 \<Rightarrow> ('n, 'z) ota_scheme \<Rightarrow> ('n, 'z) ota_scheme \<times> unit result" where
  "load_result frcData addr s =
     (case map_of (m_verifyResultMap s) (unat addr) of
        None \<Rightarrow> (s, Inl (UB ''end()''))
      | Some v \<Rightarrow> (set_load (unat addr) (v \<and> frcData ! (unat addr div 8) AND push_bit (unat addr mod 8) 1 \<noteq> 0) s, Inr ()))"

definition loadCodeBroadcast ::
    "('n, 'e) dpa_env_scheme \<Rightarrow> TOtaUploadInputParams \<Rightarrow> LoadingContentType \<Rightarrow> prepared_data \<Rightarrow> (('n, 'z) ota_scheme, unit) act" where
  "loadCodeBroadcast E prm type fd =
     (let load = load_request E prm Load type fd in
      try_p (bind_s (exec_p E (to_coordinator E (PNUM_FRC E) (CMD_FRC_SEND E)
            (enc_FrcSend E (FRC_AcknowledgedBroadcastBits E)
              ([of_nat (6 - 1 + length load), PNUM_OS E, CMD_OS_LOAD_CODE E, ucast (o_hwpId prm AND 0xFF), ucast (drop_bit 8 (o_hwpId prm))] @ load)))
          (-1) (repeat_of prm)) (\<lambda>rsp.
        if FrcSend_Status E rsp > MAX_ADDRESS E then throw (LogicError ''Bad FRC status: '')
        else bind_s add_p (\<lambda>_.
          bind_s (lift_p (get_s m_nodesList)) (\<lambda>nodes.
          bind_s (if length nodes > 54 then bind_s (lift_p (getFrcExtraResult E prm)) (\<lambda>x. ret (take 9 x)) else ret []) (\<lambda>extra.
            for_s (\<lambda>addr. lift_p (load_result (take 55 (FrcSend_FrcData E rsp) @ extra) addr)) nodes))))))"

section \<open>The service\<close>

text \<open>The part after the file is read; \<open>offset\<close> is the offset of \<open>OsVersion\<close>.\<close>

definition upload_prepared ::
    "('n, 'e) dpa_env_scheme \<Rightarrow> device_lib \<Rightarrow> u16 \<Rightarrow> TOtaUploadInputParams \<Rightarrow> LoadingAction \<Rightarrow> upload_data \<Rightarrow> (('n, 'z) ota_scheme, unit) act" where
  "upload_prepared E D offset prm action u =
     bind_s (if action = Upload then check_eeprom E prm (eepromData u) else ret False) (\<lambda>uploadEeprom.
     bind_s (if action = Upload then check_eeeprom prm (eeepromData u) else ret False) (\<lambda>uploadEeeprom.
     bind_s (read_devices E prm offset) (\<lambda>_.
     bind_s (check_devices D prm u) (\<lambda>_.
       if action = Upload then
         bind_s (if uploadEeprom then upload_eeprom E prm (eepromData u) else ret ()) (\<lambda>_.
         bind_s (if uploadEeeprom then upload_eeeprom E prm (eeepromData u) else ret ()) (\<lambda>_.
           writeDataToExtEEPROM E prm (startMemAddr prm) (prepared_data.m_data (flashData u))))
       else if deviceAddress prm \<noteq> BROADCAST_ADDRESS E then
         bind_s (get_s (isCompatible (unat (ucast (deviceAddress prm) :: u8)))) (\<lambda>ok.
           if \<not> ok then fail_with incompatibleDevice (incompatibility (prm\<lparr>deviceAddress := 0\<rparr>) (u_type u))
           else bind_s (loadCodeUnicast E prm Verify (u_type u) (flashData u)) (\<lambda>_.
             if action = Load then loadCodeUnicast E prm Load (u_type u) (flashData u) else ret ()))
       else
         bind_s (get_s frcTime) (\<lambda>saved.
         bind_s (verifyCode E prm Verify (u_type u) (flashData u)) (\<lambda>_.
         bind_s (setFrcTime saved) (\<lambda>_.
         bind_s (setFrcReponseTime E (repeat_of prm) saved) (\<lambda>_.
           if action = Load then loadCodeBroadcast E prm (u_type u) (flashData u) else ret ()))))))))"

definition new_ota :: "('n, 'z) svc_scheme \<Rightarrow> 'n ota" where
  "new_ota s =
     \<lparr>net = net s, frcTime = frcTime s, exclusive = exclusive s, s_status = 0, s_statusStr = ''ok'', s_results = [], sent = sent s,
      m_uploadResult = None, m_nodesList = [], m_compatibleDevicesMap = [], m_verifyResultMap = [], m_loadResultMap = [], m_devices = []\<rparr>"

text \<open>\<open>upload\<close> catches every exception; \<open>None\<close> when reading the file does not end.\<close>

definition upload ::
    "('n, 'e) dpa_env_scheme \<Rightarrow> device_lib \<Rightarrow> u16 \<Rightarrow> TOtaUploadInputParams \<Rightarrow> LoadingAction \<Rightarrow> upload_data result \<Rightarrow> (('n, 'z) ota_scheme, unit) act" where
  "upload E D offset prm action file s =
     (case (case file of
              Inl e \<Rightarrow> (case what e of None \<Rightarrow> throw e | Some w \<Rightarrow> fail_with uploadFileProcessingError w)
            | Inr u \<Rightarrow> upload_prepared E D offset prm action u) s of
        (s, Inl e) \<Rightarrow> (s, if what e = None then Inl e else Inr ())
      | r \<Rightarrow> r)"

definition bool_result :: "nat \<times> bool \<Rightarrow> json" where
  "bool_result r = JObj [(''address'', JNum (int (fst r))), (''result'', JBool (snd r))]"

text \<open>\<open>stack\<close> is the value the uninitialised \<open>m_uploadResult\<close> happens to have.\<close>

definition createResponse ::
    "('n, 'e) dpa_env_scheme \<Rightarrow> bool \<Rightarrow> com_base \<Rightarrow> string \<Rightarrow> TOtaUploadInputParams \<Rightarrow> LoadingAction \<Rightarrow> ('n, 'z) ota_scheme \<Rightarrow> json" where
  "createResponse E stack com mType prm action s =
     jset_all
       ([([''mType''], JStr mType), ([''data'', ''msgId''], JStr (c_msgId com)),
         ([''data'', ''rsp'', ''deviceAddr''], JNum (uint (deviceAddress prm))), ([''data'', ''rsp'', ''hwpId''], JNum (uint (o_hwpId prm))),
         ([''data'', ''rsp'', ''loadingAction''], JStr (loadingAction prm))]
        @ (if s_status s = 0 then
             (if action = Upload
              then [([''data'', ''rsp'', ''uploadResult''], JBool (case m_uploadResult s of None \<Rightarrow> stack | Some b \<Rightarrow> b))]
              else [([''data'', ''rsp'', ''verifyResult''], JArr (map bool_result (m_verifyResultMap s)))])
             @ (if action = Load then [([''data'', ''rsp'', ''loadResult''], JArr (map bool_result (m_loadResultMap s)))] else [])
           else if action = Upload then [([''data'', ''rsp'', ''uploadResult''], JBool False)] else [])
        @ (if c_verbose com then [([''data'', ''raw''], JArr (map (rawObject E) (s_results s)))] else [])
        @ [([''data'', ''status''], JNum (s_status s)), ([''data'', ''statusStr''], JStr (s_statusStr s))]) JNull"

text \<open>The members without default are not initialised: \<open>old\<close> are the values their memory happens to have.\<close>

definition parse_ota :: "('n, 'e) dpa_env_scheme \<Rightarrow> TOtaUploadInputParams \<Rightarrow> json \<Rightarrow> TOtaUploadInputParams result" where
  "parse_ota E old doc =
     bind_r (int_member [''data'', ''repeat''] doc 1) (\<lambda>repeat.
     bind_r (int_member [''data'', ''req'', ''deviceAddr''] doc (uint (deviceAddress old))) (\<lambda>addr.
     bind_r (int_member [''data'', ''req'', ''hwpId''] doc (uint (HWPID_DoNotCheck E))) (\<lambda>hwpId.
     bind_r (string_member [''data'', ''req'', ''fileName''] doc []) (\<lambda>file.
     bind_r (int_member [''data'', ''req'', ''startMemAddr''] doc (uint (startMemAddr old))) (\<lambda>start.
     bind_r (string_member [''data'', ''req'', ''loadingAction''] doc []) (\<lambda>action.
     bind_r (bool_member [''data'', ''req'', ''uploadEepromData''] doc False) (\<lambda>ee.
     bind_r (bool_member [''data'', ''req'', ''uploadEeepromData''] doc False) (\<lambda>eee.
       Inr \<lparr>deviceAddress = of_int addr, o_hwpId = of_int hwpId, fileName = file, o_repeat = of_int repeat, startMemAddr = of_int start,
            loadingAction = action, uploadEepromData = ee, uploadEeepromData = eee\<rparr>))))))))"

definition loading_action :: "TOtaUploadInputParams \<Rightarrow> LoadingAction result" where
  "loading_action prm =
     bind_r (if loadingAction prm = ''Upload'' then Inr Upload else if loadingAction prm = ''Verify'' then Inr Verify
             else if loadingAction prm = ''Load'' then Inr Load
             else Inl (LogicError (''Unsupported loading action: '' @ loadingAction prm))) (\<lambda>action.
       if startMemAddr prm < 0x0300 \<or> startMemAddr prm > 0x3fff
       then Inl (LogicError (''Incorrect startMemAddr: '' @ show_dec (unat (startMemAddr prm)) @ ''. startMemAddr should be between 768 and 16383.''))
       else Inr action)"

definition parsingRequestError :: int where "parsingRequestError = 1001"
definition exclusiveAccessError :: int where "exclusiveAccessError = 1002"
definition emptyUploadPathError :: int where "emptyUploadPathError = 1003"

text \<open>What the service relies on besides the network: the header parser, the device library, the files and the values of uninitialised memory.\<close>

record ota_env =
  e_ihp :: ihp_lib
  e_device :: device_lib
  e_offset :: u16
  e_uninit :: "u8 \<times> u8 \<times> u8"
  e_stack :: bool
  e_params :: TOtaUploadInputParams
  e_files :: "string \<Rightarrow> string list option"

definition handleMsg ::
    "('n, 'e) dpa_env_scheme \<Rightarrow> ota_env \<Rightarrow> string option \<Rightarrow> string \<Rightarrow> string \<Rightarrow> json \<Rightarrow> ('n, 'z) svc_scheme \<Rightarrow> ('n ota \<times> unit result) option" where
  "handleMsg E X refused uploadPath mType doc s =
     (if mType \<noteq> ''iqmeshNetwork_OtaUpload'' then Some (new_ota s, Inl (LogicError ''Unsupported message type: ''))
      else case bind_r (ComBase doc) (\<lambda>com. bind_r (parse_ota E (e_params X) doc) (\<lambda>prm. Inr (com, prm))) of
        Inl e \<Rightarrow> Some (new_ota s, Inl e)
      | Inr (com, prm) \<Rightarrow>
          if uploadPath = []
          then Some (send_response E (error_response mType (c_msgId com) emptyUploadPathError ''Empty upload patch.'') (new_ota s))
          else case loading_action prm of
            Inl e \<Rightarrow>
              Some (case what e of None \<Rightarrow> (new_ota s, Inl e)
                    | Some w \<Rightarrow> send_response E (error_response mType (c_msgId com) parsingRequestError w) (new_ota s))
          | Inr action \<Rightarrow>
              (case refused of
                 Some w \<Rightarrow> Some (send_response E (error_response mType (c_msgId com) exclusiveAccessError w) (new_ota s))
               | None \<Rightarrow>
                   (case read_file E (e_ihp X) (e_uninit X) (e_files X) uploadPath prm action of
                      None \<Rightarrow> None
                    | Some file \<Rightarrow>
                        Some (run_exclusive E None (\<lambda>_. JNull) (upload E (e_device X) (e_offset X) prm action file)
                          (createResponse E (e_stack X) com mType prm action) (new_ota s)))))"

text \<open>\<open>activate\<close>: the directory of the files.\<close>

definition upload_path :: "string \<Rightarrow> string \<Rightarrow> string" where
  "upload_path cacheDir pathSuffix = (if pathSuffix = [] then cacheDir @ ''/upload'' else cacheDir @ ''/'' @ pathSuffix)"

end
