(* ===== verification/Ota_Upload_Props.thy ===== *)
theory Ota_Upload_Props
  imports Ota_Upload
begin

text \<open>
  Correctness of the upload service. Two relations are carried through the composition of the service: \<open>honest\<close>, the status after a failure is
  not the one of success, and \<open>writes\<close>, the effect of a successful step on the external EEPROM of the device. The memory of the device is a function of the network;
  \<open>node_memory\<close> is what the DPA documentation says about its requests.
\<close>

section \<open>The external EEPROM of a device\<close>

type_synonym memory = "u16 \<Rightarrow> u8"

definition store :: "u16 \<times> bytes \<Rightarrow> memory \<Rightarrow> memory" where
  "store w m = (\<lambda>x. if unat (x - fst w) < length (snd w) then snd w ! unat (x - fst w) else m x)"

definition address_of :: "u8 \<Rightarrow> u8 \<Rightarrow> u16" where
  "address_of lo hi = ucast lo OR push_bit 8 (ucast hi)"

text \<open>
  The writes a request asks for. A packet inside a batch starts with its length; a zero byte ends the batch. \<open>None\<close> for requests with a hardware
  profile, which a device may ignore, and for bytes that are not packets.
\<close>

fun packet_writes :: "('n, 'e) dpa_env_scheme \<Rightarrow> bytes \<Rightarrow> (u16 \<times> bytes) list option" where
  "packet_writes E (len # pnum # pcmd # h1 # h2 # pdata) =
     (if address_of h1 h2 \<noteq> HWPID_DoNotCheck E then None
      else if pnum = PNUM_EEEPROM E \<and> pcmd = CMD_EEEPROM_XWRITE E
      then (case pdata of lo # hi # d \<Rightarrow> Some [(address_of lo hi, d)] | _ \<Rightarrow> None) else Some [])"
| "packet_writes E _ = None"

function batch_writes :: "('n, 'e) dpa_env_scheme \<Rightarrow> bytes \<Rightarrow> (u16 \<times> bytes) list option" where
  "batch_writes E bs =
     (case bs of
        [] \<Rightarrow> None
      | len # _ \<Rightarrow>
          if len = 0 then Some []
          else (case (packet_writes E (take (unat len) bs), batch_writes E (drop (unat len) bs)) of
                  (Some wl, Some vl) \<Rightarrow> Some (wl @ vl)
                | _ \<Rightarrow> None))"
  by pat_completeness auto
termination by (relation "measure (\<lambda>(_, bs). length bs)") (auto simp: unat_gt_0)

declare batch_writes.simps [simp del]

definition writes_of :: "('n, 'e) dpa_env_scheme \<Rightarrow> request \<Rightarrow> (u16 \<times> bytes) list option" where
  "writes_of E rq =
     (if rq_hwpid rq \<noteq> HWPID_DoNotCheck E then None
      else if rq_pnum rq = PNUM_EEEPROM E \<and> rq_pcmd rq = CMD_EEEPROM_XWRITE E
      then (case rq_pdata rq of lo # hi # d \<Rightarrow> Some [(address_of lo hi, d)] | _ \<Rightarrow> None)
      else if rq_pnum rq = PNUM_OS E \<and> rq_pcmd rq = CMD_OS_BATCH E then batch_writes E (rq_pdata rq)
      else if rq_pnum rq = PNUM_OS E \<and> rq_pcmd rq = CMD_OS_READ E \<or> rq_pnum rq = PNUM_EEPROM E \<and> rq_pcmd rq = CMD_EEPROM_WRITE E
      then Some [] else None)"

definition covered :: "(u16 \<times> bytes) list \<Rightarrow> u16 \<Rightarrow> bool" where
  "covered wl x \<longleftrightarrow> (\<exists>w\<in>set wl. unat (x - fst w) < length (snd w))"

text \<open>
  A confirmed request has been executed. A request without confirmation may have been executed in part, but changes nothing else.
\<close>

definition node_memory :: "('n, 'e) dpa_env_scheme \<Rightarrow> u16 \<Rightarrow> ('n \<Rightarrow> memory) \<Rightarrow> bool" where
  "node_memory E nadr mem \<longleftrightarrow> (\<forall>rq t n n' r wl.
     rq_nadr rq = nadr \<and> writes_of E rq = Some wl \<and> execTransaction E rq t n = (n', r) \<longrightarrow>
       (if ok_tr E r then mem n' = fold store wl (mem n) else \<forall>x. covered wl x \<or> mem n' x = mem n x))"

text \<open>Codes and layout of \<open>DPA.h\<close> the encoding relies on.\<close>

definition dpa_codes :: "('n, 'e) dpa_env_scheme \<Rightarrow> bool" where
  "dpa_codes E \<longleftrightarrow> TRN_OK E = 0 \<and> PNUM_OS E \<noteq> PNUM_EEEPROM E \<and> PNUM_OS E \<noteq> PNUM_EEPROM E \<and> PNUM_EEPROM E \<noteq> PNUM_EEEPROM E
     \<and> CMD_OS_READ E \<noteq> CMD_OS_BATCH E
     \<and> (\<forall>a d. enc_XMemoryWrite E a d = [ucast (a AND 0xFF), ucast (drop_bit 8 a AND 0xFF)] @ d)"

lemma dpa_codesD [simp]:
  assumes "dpa_codes E"
  shows "TRN_OK E = 0" "PNUM_OS E \<noteq> PNUM_EEEPROM E" "PNUM_OS E \<noteq> PNUM_EEPROM E" "PNUM_EEPROM E \<noteq> PNUM_OS E" "PNUM_EEPROM E \<noteq> PNUM_EEEPROM E"
    "CMD_OS_READ E \<noteq> CMD_OS_BATCH E" "enc_XMemoryWrite E a d = setExtendedWritePacketData a d"
  using assms by (auto simp: dpa_codes_def setExtendedWritePacketData_def)

lemma address_of_bytes [simp]: "address_of (ucast (a AND 0xFF)) (ucast (drop_bit 8 a AND 0xFF)) = a"
proof -
  have m: "(0xFF :: u16) = mask 8" by (simp add: mask_eq_exp_minus_1)
  show ?thesis unfolding address_of_def m by (rule bit_word_eqI) (auto simp: bit_simps)
qed

lemma store_absorb: "(\<forall>x. covered wl x \<or> m x = m' x) \<Longrightarrow> fold store wl m = fold store wl m'"
proof (induction wl arbitrary: m m')
  case (Cons w wl)
  have "\<forall>x. covered wl x \<or> store w m x = store w m' x"
    using Cons.prems by (auto simp: store_def covered_def)
  then show ?case by (simp add: Cons.IH)
qed (auto simp: covered_def)

lemma store_concat:
  assumes "length (d @ d') \<le> 65536"
  shows "store (a + of_nat (length d), d') (store (a, d) m) = store (a, d @ d') m"
proof
  fix x :: u16
  have e: "unat (x - (a + of_nat (length d))) = (if length d \<le> unat (x - a) then unat (x - a) - length d else unat (x - a) + 65536 - length d)"
    if "d' \<noteq> []"
  proof -
    have l: "unat (of_nat (length d) :: u16) = length d" using assms that by (cases d') (auto simp: unat_of_nat_u16)
    show ?thesis
      using l unsigned_less[of "x - a"] unsigned_less[of "of_nat (length d) :: u16"]
      by (auto simp: diff_diff_eq[symmetric] unat_sub_if_size word_size word_le_nat_alt)
  qed
  show "store (a + of_nat (length d), d') (store (a, d) m) x = store (a, d @ d') m x"
    using e assms by (cases "d' = []") (auto simp: store_def nth_append)
qed

section \<open>Status after failures\<close>

named_theorems honest_rules
named_theorems writes_rules

definition bad_ptr :: "('n, 'e) dpa_env_scheme \<Rightarrow> trans_result option \<Rightarrow> bool" where
  "bad_ptr E p \<longleftrightarrow> (\<forall>tr. p = Some tr \<longrightarrow> tr_errorCode tr \<noteq> TRN_OK E)"

definition honest :: "(('n, 'z) svc_scheme, 'a) act \<Rightarrow> bool" where
  "honest m \<longleftrightarrow> (\<forall>s s' r. m s = (s', r) \<longrightarrow> (case r of Inr _ \<Rightarrow> s_status s' = s_status s | Inl e \<Rightarrow> what e = None \<or> s_status s' \<noteq> 0))"

text \<open>Inside a block, from a state in which the pointer is null or (\<open>full\<close>) holds a confirmed transaction.\<close>

definition honest_p :: "('n, 'e) dpa_env_scheme \<Rightarrow> bool \<Rightarrow> (trans_result option \<times> ('n, 'z) svc_scheme, 'a) act \<Rightarrow> bool" where
  "honest_p E full m \<longleftrightarrow> (\<forall>p s p' s' r. (p \<noteq> None \<longrightarrow> full) \<and> m (p, s) = ((p', s'), r) \<longrightarrow>
     (case r of Inr _ \<Rightarrow> s_status s' = s_status s \<and> p' = None | Inl e \<Rightarrow> what e = None \<or> bad_ptr E p'))"

lemma honest_pD:
  "honest_p E full m \<Longrightarrow> m (p, s) = ((p', s'), r) \<Longrightarrow> p \<noteq> None \<longrightarrow> full \<Longrightarrow>
   (case r of Inr _ \<Rightarrow> s_status s' = s_status s \<and> p' = None | Inl e \<Rightarrow> what e = None \<or> bad_ptr E p')"
  unfolding honest_p_def by blast

lemma honest_basic [honest_rules]: "honest (ret x)" "honest (get_s f)" "(\<And>s. s_status (g s) = s_status s) \<Longrightarrow> honest (upd g)"
  by (simp_all add: honest_def)

lemma honest_fail [honest_rules]: "status \<noteq> 0 \<Longrightarrow> honest (fail_with status str)"
  by (simp add: honest_def fail_with_def setStatus_def bind_s_def)

lemma honest_bind [honest_rules]: "honest m \<Longrightarrow> (\<And>x. honest (f x)) \<Longrightarrow> honest (bind_s m f)"
  unfolding honest_def bind_s_def by (fastforce split: prod.splits sum.splits)

lemma honest_for [honest_rules]: "(\<And>x. honest (f x)) \<Longrightarrow> honest (for_s f xs)"
  by (induction xs) (auto intro: honest_rules)

lemma honest_if [honest_rules]: "(b \<Longrightarrow> honest m) \<Longrightarrow> (\<not> b \<Longrightarrow> honest m') \<Longrightarrow> honest (if b then m else m')"
  by simp

lemma honest_try:
  assumes "honest_p E False m" "TRN_OK E = 0"
  shows "honest (try_p m)"
  unfolding honest_def
proof (intro allI impI)
  fix s s' r
  assume t: "try_p m s = (s', r)"
  obtain p1 s1 r1 where m: "m (None, s) = ((p1, s1), r1)" by (metis surj_pair)
  with assms(1) have h: "case r1 of Inr _ \<Rightarrow> s_status s1 = s_status s \<and> p1 = None | Inl e \<Rightarrow> what e = None \<or> bad_ptr E p1"
    unfolding honest_p_def by blast
  show "case r of Inr _ \<Rightarrow> s_status s' = s_status s | Inl e \<Rightarrow> what e = None \<or> s_status s' \<noteq> 0"
    using t m h assms(2) by (auto simp: try_p_def report_def bad_ptr_def what_def split: sum.splits option.splits exc.splits)
qed

lemma repeat_failure:
  "executeDpaTransactionRepeat E rq t k p n = (n', p', Inl e) \<Longrightarrow> bad_ptr E p \<Longrightarrow> bad_ptr E p'"
proof (induction k arbitrary: p n)
  case 0
  then show ?case by (subst (asm) executeDpaTransactionRepeat.simps) (auto simp: bad_ptr_def split: prod.splits sum.splits if_splits)
next
  case (Suc k)
  obtain n1 r where r: "execTransaction E rq t n = (n1, r)" by fastforce
  show ?case
  proof (cases r)
    case (Inl w)
    then show ?thesis using Suc r by (subst (asm) (2) executeDpaTransactionRepeat.simps) auto
  next
    case (Inr tr)
    then have "tr_errorCode tr \<noteq> TRN_OK E" "executeDpaTransactionRepeat E rq t k (Some tr) n1 = (n', p', Inl e)"
      using Suc.prems(1) r by (subst (asm) executeDpaTransactionRepeat.simps; auto split: if_splits)+
    then show ?thesis using Suc.IH[of "Some tr" n1] by (simp add: bad_ptr_def)
  qed
qed

lemma exec_p_failure:
  assumes "exec_p E rq t k (None, s) = ((p', s'), Inl e)"
  shows "bad_ptr E p' \<or> what e = None"
  using assms repeat_failure[of E rq t "nat k" None "net s"]
  by (auto simp: exec_p_def bad_ptr_def what_def split: if_splits prod.splits sum.splits option.splits)

lemma exec_p_status: "exec_p E rq t k ps = ((p', s'), r) \<Longrightarrow> s_status s' = s_status (snd ps)"
  by (auto simp: exec_p_def split: prod.splits sum.splits option.splits if_splits)

lemma honest_exec [honest_rules]:
  assumes "\<And>rsp. honest_p E True (f rsp)"
  shows "honest_p E False (bind_s (exec_p E rq t k) f)"
  unfolding honest_p_def
proof (intro allI impI, elim conjE)
  fix p s p' s' r
  assume p: "p \<noteq> None \<longrightarrow> False" and b: "bind_s (exec_p E rq t k) f (p, s) = ((p', s'), r)"
  obtain p1 s1 r1 where e: "exec_p E rq t k (None, s) = ((p1, s1), r1)" by (metis surj_pair)
  show "case r of Inr _ \<Rightarrow> s_status s' = s_status s \<and> p' = None | Inl e \<Rightarrow> what e = None \<or> bad_ptr E p'"
  proof (cases r1)
    case (Inl x)
    then show ?thesis using p b e exec_p_failure[of E rq t k s] by auto
  next
    case (Inr rsp)
    then have "f rsp (p1, s1) = ((p', s'), r)" "s_status s1 = s_status s"
      using p b e exec_p_status[OF e] by auto
    then show ?thesis using assms[of rsp] unfolding honest_p_def by metis
  qed
qed

lemma honest_add [honest_rules]:
  assumes "\<And>x. honest_p E False (f x)"
  shows "honest_p E True (bind_s add_p f)"
  unfolding honest_p_def
proof (intro allI impI, elim conjE)
  fix p s p' s' r
  assume b: "bind_s add_p f (p, s) = ((p', s'), r)"
  obtain s1 where "add_p (p, s) = ((None, s1), Inr ())" "s_status s1 = s_status s" by (cases p) auto
  then have "f () (None, s1) = ((p', s'), r)" "s_status s = s_status s1" using b by auto
  then show "case r of Inr _ \<Rightarrow> s_status s' = s_status s \<and> p' = None | Inl e \<Rightarrow> what e = None \<or> bad_ptr E p'"
    using honest_pD[OF assms, of "()" None s1] by (auto split: sum.splits)
qed

lemma honest_p_basic [honest_rules]: "honest_p E False (ret x)" "honest_p E full add_p"
    "(\<And>s. s_status (g s) = s_status s) \<Longrightarrow> honest_p E False (lift_p (upd g))"
  by (auto simp: honest_p_def add_p_def split: option.splits)

lemma honest_p_upd [honest_rules]:
  assumes g: "\<And>s. s_status (g s) = s_status s" and f: "\<And>x. honest_p E full (f x)"
  shows "honest_p E full (bind_s (lift_p (upd g)) f)"
  unfolding honest_p_def
proof (intro allI impI, elim conjE)
  fix p s p' s' r
  assume p: "p \<noteq> None \<longrightarrow> full" and b: "bind_s (lift_p (upd g)) f (p, s) = ((p', s'), r)"
  then have "f () (p, g s) = ((p', s'), r)" by (simp add: bind_s_def)
  then show "case r of Inr _ \<Rightarrow> s_status s' = s_status s \<and> p' = None | Inl e \<Rightarrow> what e = None \<or> bad_ptr E p'"
    using honest_pD[OF f, of "()" p "g s"] g p by (auto split: sum.splits)
qed

lemma honest_p_bind:
  assumes m: "honest_p E False m" and f: "\<And>x. honest_p E False (f x)"
  shows "honest_p E False (bind_s m f)"
  unfolding honest_p_def
proof (intro allI impI, elim conjE)
  fix p s p' s' r
  assume p: "p \<noteq> None \<longrightarrow> False" and b: "bind_s m f (p, s) = ((p', s'), r)"
  obtain p1 s1 r1 where e: "m (p, s) = ((p1, s1), r1)" by (metis surj_pair)
  show "case r of Inr _ \<Rightarrow> s_status s' = s_status s \<and> p' = None | Inl e \<Rightarrow> what e = None \<or> bad_ptr E p'"
  proof (cases r1)
    case (Inl x)
    then show ?thesis using b honest_pD[OF m e p] e by auto
  next
    case (Inr x)
    then have "f x (p1, s1) = ((p', s'), r)" "s_status s1 = s_status s" "p1 = None"
      using b honest_pD[OF m e p] e by auto
    then show ?thesis using honest_pD[OF f, of x p1 s1] by (auto split: sum.splits)
  qed
qed

lemma honest_write_blocks [honest_rules]: "honest_p E False (write_blocks E prm a ds)"
proof (induction ds arbitrary: a rule: induct_list012)
  case (3 d d' ds)
  show ?case by (auto simp: Let_def intro!: honest_rules 3)
qed (auto intro!: honest_rules)

lemma honest_upload_prepared:
  assumes "TRN_OK E = 0" "deviceAddress prm \<noteq> BROADCAST_ADDRESS E"
  shows "honest (upload_prepared E D offset prm Upload u)"
proof -
  note t = honest_try[OF _ assms(1)]
  have w: "honest (writeInternalEeprom E prm a d)" "honest (writeExternalEeprom E prm b d)" for a b d
    unfolding writeInternalEeprom_def writeExternalEeprom_def by (intro honest_rules t)+
  have "honest (osRead E prm)"
    unfolding osRead_def insert_device_def by (intro honest_rules t) simp
  moreover have "honest (check_devices D prm u)"
    unfolding check_devices_def incompatibleDevice_def
    by (intro honest_rules) (auto intro!: honest_rules split: prod.split)
  moreover have "honest (check_eeprom E prm bs)" "honest (check_eeeprom prm bs)" for bs
    unfolding check_eeprom_def check_eeeprom_def eepromContentNotUploaded_def invalidEepromAddress_def
    by (intro honest_rules; simp)+
  moreover have "honest (upload_eeprom E prm bs)" "honest (upload_eeeprom E prm bs)" for bs
    unfolding upload_eeprom_def upload_eeeprom_def by (auto intro!: honest_rules w)
  moreover have "honest (writeDataToExtEEPROM E prm a ds)" for a ds
    unfolding writeDataToExtEEPROM_def by (intro honest_rules t honest_p_bind) simp_all
  ultimately show ?thesis
    unfolding upload_prepared_def read_devices_def using assms(2) by (auto intro!: honest_rules)
qed

section \<open>Effect on the memory\<close>

definition writes :: "('n \<Rightarrow> memory) \<Rightarrow> (('n, 'z) svc_scheme, 'a) act \<Rightarrow> (u16 \<times> bytes) list \<Rightarrow> bool" where
  "writes mem m wl \<longleftrightarrow> (\<forall>s s' x. m s = (s', Inr x) \<longrightarrow> mem (net s') = fold store wl (mem (net s)))"

definition writes_p :: "('n \<Rightarrow> memory) \<Rightarrow> (trans_result option \<times> ('n, 'z) svc_scheme, 'a) act \<Rightarrow> (u16 \<times> bytes) list \<Rightarrow> bool" where
  "writes_p mem m wl \<longleftrightarrow> (\<forall>ps ps' x. m ps = (ps', Inr x) \<longrightarrow> mem (net (snd ps')) = fold store wl (mem (net (snd ps))))"

lemma writes_basic [writes_rules]: "writes mem (ret x) []" "writes mem (get_s f) []" "writes mem (fail_with status str) []"
    "(\<And>s. net (g s) = net s) \<Longrightarrow> writes mem (upd g) []"
    "writes_p mem (ret x) []" "writes_p mem add_p []" "(\<And>s. net (g s) = net s) \<Longrightarrow> writes_p mem (lift_p (upd g)) []"
  by (auto simp: writes_def writes_p_def fail_with_def bind_s_def setStatus_def add_p_def split: option.splits)

lemma writes_bind [writes_rules]:
  "writes mem m wl \<Longrightarrow> (\<And>x. writes mem (f x) vl) \<Longrightarrow> writes mem (bind_s m f) (wl @ vl)"
  "writes_p mem m' wl \<Longrightarrow> (\<And>x. writes_p mem (f' x) vl) \<Longrightarrow> writes_p mem (bind_s m' f') (wl @ vl)"
  unfolding writes_def writes_p_def bind_s_Inr by force+

lemma writes_try [writes_rules]: "writes_p mem m wl \<Longrightarrow> writes mem (try_p m) wl"
  unfolding writes_def writes_p_def try_p_Inr by force

lemma writes_for: "(\<And>x. writes mem (f x) (g x)) \<Longrightarrow> writes mem (for_s f xs) (concat (map g xs))"
  by (induction xs) (auto intro: writes_rules)

lemma writes_exec:
  assumes "node_memory E (rq_nadr rq) mem" "writes_of E rq = Some wl" "0 \<le> k"
  shows "writes_p mem (exec_p E rq t k) wl"
  unfolding writes_p_def
proof (intro allI impI)
  fix ps ps' rsp
  assume e: "exec_p E rq t k ps = (ps', Inr rsp)"
  have law: "if ok_tr E r then mem n' = fold store wl (mem n) else \<forall>x. covered wl x \<or> mem n' x = mem n x"
    if "execTransaction E rq t n = (n', r)" for n n' r
    using assms(1,2) that unfolding node_memory_def by blast
  let ?P = "\<lambda>n. fold store wl (mem n) = fold store wl (mem (net (snd ps)))"
  have keep: "?P n'" if "?P n" "execTransaction E rq t n = (n', r)" "\<not> ok_tr E r" for n n' r
    using law[OF that(2)] that(1,3) store_absorb[of wl "mem n'" "mem n"] by simp
  from e have e': "exec_p E rq t k (fst ps, snd ps) = ((fst ps', snd ps'), Inr rsp)" by simp
  have "\<exists>n1 n' tr. ?P n1 \<and> execTransaction E rq t n1 = (n', Inr tr) \<and> tr_errorCode tr = TRN_OK E \<and> fst ps' = Some tr \<and>
      snd ps' = (snd ps)\<lparr>net := n'\<rparr> \<and> rsp = tr_response tr"
    by (rule exec_p_success[where P = ?P, OF e' assms(3) refl]) (rule keep)
  then obtain n1 n' tr where x: "?P n1" "execTransaction E rq t n1 = (n', Inr tr)" "tr_errorCode tr = TRN_OK E"
    "snd ps' = (snd ps)\<lparr>net := n'\<rparr>" by blast
  with law[OF x(2)] show "mem (net (snd ps')) = fold store wl (mem (net (snd ps)))" by (simp add: ok_tr_def)
qed

text \<open>The writes of the blocks one after another are those of the whole image.\<close>

fun placed :: "u16 \<Rightarrow> bytes list \<Rightarrow> (u16 \<times> bytes) list" where
  "placed a [] = []"
| "placed a (d # ds) = (a, d) # placed (a + of_nat (length d)) ds"

lemma store_placed: "length (c @ concat ds) \<le> 65536 \<Longrightarrow> fold store (placed (a + of_nat (length c)) ds) (store (a, c) m) = store (a, c @ concat ds) m"
proof (induction ds arbitrary: c)
  case (Cons d ds)
  have "store (a + of_nat (length c), d) (store (a, c) m) = store (a, c @ d) m"
    using Cons.prems by (intro store_concat) simp
  then show ?case using Cons.IH[of "c @ d"] Cons.prems by (simp add: add.assoc)
qed simp

lemma store_image: "length (concat ds) \<le> 65536 \<Longrightarrow> fold store (placed a ds) m = store (a, concat ds) m"
  using store_placed[of "[]" ds a m] by (simp add: store_def)

lemma batch_packet:
  assumes "length d = 16" "batch_writes E rest = Some vl"
  shows "batch_writes E (addEmbeddedWritePacket E a (HWPID_DoNotCheck E) d @ rest) = Some ((a, d) # vl)"
proof -
  let ?p = "addEmbeddedWritePacket E a (HWPID_DoNotCheck E) d"
  have p: "?p = 23 # tl ?p" "length ?p = 23" using assms(1) by (simp_all add: addEmbeddedWritePacket_def EMB_WRITE_PACKET_HEADER_SIZE_def)
  have "packet_writes E ?p = Some [(a, d)]" using assms(1)
    by (simp add: addEmbeddedWritePacket_def EMB_WRITE_PACKET_HEADER_SIZE_def)
  moreover have "take 23 (?p @ rest) = ?p" "drop 23 (?p @ rest) = rest" using p(2) by simp_all
  moreover have "?p @ rest = 23 # tl (?p @ rest)" using p by (metis append_Cons list.sel(3))
  ultimately show ?thesis using assms(2)
    by (subst batch_writes.simps) (auto split: list.split)
qed

lemma writes_exec_then:
  assumes "node_memory E (rq_nadr rq) mem" "writes_of E rq = Some wl" "0 \<le> k" "\<And>x. writes_p mem (f x) vl"
  shows "writes_p mem (bind_s (exec_p E rq t k) f) (wl @ vl)"
  using writes_bind(2)[OF writes_exec[OF assms(1-3)] assms(4)] .

lemma writes_of_xwrite:
  "deviceAddress prm \<noteq> BROADCAST_ADDRESS E \<Longrightarrow>
   writes_of E (to_device E prm (PNUM_EEEPROM E) (CMD_EEEPROM_XWRITE E) (setExtendedWritePacketData a d)) = Some [(a, d)]"
  by (simp add: writes_of_def to_device_def write_hwpid_def setExtendedWritePacketData_def)

lemma writes_of_batch:
  assumes "dpa_codes E" "deviceAddress prm \<noteq> BROADCAST_ADDRESS E" "length d = 16" "length d' = 16"
  shows "writes_of E (to_device E prm (PNUM_OS E) (CMD_OS_BATCH E) (addEmbeddedWritePacket E a (write_hwpid E prm) d @
    addEmbeddedWritePacket E a' (write_hwpid E prm) d' @ [0])) = Some [(a, d), (a', d')]"
proof -
  have "batch_writes E [0] = Some []" by (simp add: batch_writes.simps)
  from batch_packet[OF assms(3) batch_packet[OF assms(4) this, of a'], of a] show ?thesis
    using assms(1,2) by (simp add: writes_of_def to_device_def write_hwpid_def)
qed

lemma writes_blocks:
  assumes "dpa_codes E" "node_memory E (deviceAddress prm) mem" "deviceAddress prm \<noteq> BROADCAST_ADDRESS E"
  shows "writes_p mem (write_blocks E prm a ds) (placed a ds)"
proof (induction ds arbitrary: a rule: induct_list012)
  case 1
  show ?case by (simp add: writes_p_def)
next
  case (2 d)
  have "writes_p mem (write_blocks E prm a [d]) ([(a, d)] @ [])"
    unfolding write_blocks.simps using assms(2)
    by (intro writes_exec_then writes_of_xwrite assms(3) writes_rules) (simp_all add: to_device_def repeat_of_def)
  then show ?case by simp
next
  case (3 d d' ds)
  let ?a = "a + of_nat (length d)"
  show ?case
  proof (cases "length d = 16 \<and> length d' = 16")
    case True
    have p: "placed a (d # d' # ds) = [(a, d), (?a, d')] @ [] @ placed (?a + of_nat (length d')) ds" by simp
    show ?thesis
      unfolding p write_blocks.simps(3) Let_def if_P[OF True] using True assms
      by (intro writes_exec_then writes_of_batch writes_bind(2) writes_basic(6) 3(1)) (simp_all add: to_device_def repeat_of_def)
  next
    case False
    have p: "placed a (d # d' # ds) = [(a, d)] @ [] @ placed ?a (d' # ds)" by simp
    show ?thesis
      unfolding p write_blocks.simps(3) Let_def if_not_P[OF False] using assms
      by (intro writes_exec_then writes_of_xwrite writes_bind(2) writes_basic(6) 3(2)) (simp_all add: to_device_def repeat_of_def)
  qed
qed

lemma parts54_placed:
  "index + left \<le> length code \<Longrightarrow>
   map (\<lambda>(off, d). (a + of_nat off, d)) (parts54 code index left) = placed (a + of_nat index) (map snd (parts54 code index left))
   \<and> concat (map snd (parts54 code index left)) = take left (drop index code)"
proof (induction code index left rule: parts54.induct)
  case (1 code index left)
  let ?len = "if left > 54 then 54 else left"
  show ?case
  proof (cases "left - ?len = 0")
    case True
    then have "parts54 code index left = [(index, take ?len (drop index code))]" by (subst parts54.simps) (simp add: Let_def)
    then show ?thesis using True by (auto split: if_splits)
  next
    case False
    then have l: "left > 54" "parts54 code index left = (index, take 54 (drop index code)) # parts54 code (index + 54) (left - 54)"
      by (auto simp: parts54.simps[of code index left] Let_def split: if_splits)
    have "take 54 (drop index code) @ take (left - 54) (drop (index + 54) code) = take left (drop index code)"
      using l(1) take_add[of 54 "left - 54" "drop index code"] by (simp add: add.commute)
    with 1 False l show ?thesis by (auto simp: add.assoc)
  qed
qed

lemma store_parts:
  assumes "length (m_code b) < 65536"
  shows "fold store (map (\<lambda>(off, d). (m_startAddr b + of_nat off, d)) (parts54 (m_code b) 0 (unat (getLength b)))) m = store (m_startAddr b, m_code b) m"
proof -
  have l: "unat (getLength b) = length (m_code b)" using assms by (simp add: getLength_def unat_of_nat_u16)
  have p: "map (\<lambda>(off, d). (m_startAddr b + of_nat off, d)) (parts54 (m_code b) 0 (length (m_code b)))
      = placed (m_startAddr b) (map snd (parts54 (m_code b) 0 (length (m_code b))))"
    "concat (map snd (parts54 (m_code b) 0 (length (m_code b)))) = m_code b"
    using parts54_placed[of 0 "length (m_code b)" "m_code b" "m_startAddr b"] by simp_all
  show ?thesis unfolding l p(1) using store_image[of "map snd (parts54 (m_code b) 0 (length (m_code b)))"] p(2) assms by simp
qed

definition eeeprom_writes :: "code_block list \<Rightarrow> (u16 \<times> bytes) list" where
  "eeeprom_writes blocks = concat (map (\<lambda>b. map (\<lambda>(off, d). (m_startAddr b + of_nat off, d)) (parts54 (m_code b) 0 (unat (getLength b)))) blocks)"

lemma store_eeeprom_writes:
  "\<forall>b\<in>set blocks. length (m_code b) < 65536 \<Longrightarrow>
   fold store (eeeprom_writes blocks) m = fold (\<lambda>b. store (m_startAddr b, m_code b)) blocks m"
  by (induction blocks arbitrary: m) (simp_all add: eeeprom_writes_def store_parts)

lemma check_eeeprom_result: "check_eeeprom prm bs s = (s', Inr x) \<Longrightarrow> x = (bs \<noteq> [])"
  by (auto simp: check_eeeprom_def fail_with_def setStatus_def bind_s_Inr split: if_splits)

lemma writes_if: "(b \<Longrightarrow> writes mem m wl) \<Longrightarrow> (\<not> b \<Longrightarrow> writes mem m' wl) \<Longrightarrow> writes mem (if b then m else m') wl"
  by simp

lemma writes_bind_nothing: "writes mem m [] \<Longrightarrow> (\<And>x. writes mem (f x) wl) \<Longrightarrow> writes mem (bind_s m f) wl"
  using writes_bind(1)[of mem m "[]" f wl] by simp

lemma writes_nothing_for: "(\<And>x. writes mem (f x) []) \<Longrightarrow> writes mem (for_s f xs) []"
  by (induction xs) (auto intro: writes_basic writes_bind_nothing)

lemma writes_checks: "writes mem (check_eeprom E prm bs) []" "writes mem (check_eeeprom prm bs) []" "writes mem (check_devices D prm u) []"
  unfolding check_eeprom_def check_eeeprom_def check_devices_def
  by (auto intro!: writes_if writes_bind_nothing writes_nothing_for writes_rules split: prod.split)

text \<open>The steps of a unicast upload that talk to the device.\<close>

lemma writes_steps:
  assumes "dpa_codes E" "node_memory E (deviceAddress prm) mem" "deviceAddress prm \<noteq> BROADCAST_ADDRESS E"
  shows "writes mem (osRead E prm) []" "writes mem (upload_eeprom E prm bs) []" "writes mem (upload_eeeprom E prm bs) (eeeprom_writes bs)"
    "writes mem (writeDataToExtEEPROM E prm a ds) (placed a ds)"
proof -
  have "writes mem (osRead E prm) ([] @ [] @ [])"
    unfolding osRead_def insert_device_def using assms
    by (intro writes_try writes_exec_then writes_bind(2) writes_basic(6,7)) (simp_all add: writes_of_def repeat_of_def)
  then show "writes mem (osRead E prm) []" by simp
  have "writes mem (writeInternalEeprom E prm b d) ([] @ [])" for b d
    unfolding writeInternalEeprom_def using assms
    by (intro writes_try writes_exec_then writes_rules) (simp_all add: writes_of_def to_device_def write_hwpid_def repeat_of_def)
  then show "writes mem (upload_eeprom E prm bs) []"
    unfolding upload_eeprom_def by (auto intro!: writes_nothing_for split: prod.split)
  have "writes mem (writeExternalEeprom E prm b d) ([(b, d)] @ [])" for b d
    unfolding writeExternalEeprom_def using assms writes_of_xwrite[OF assms(3)]
    by (intro writes_try writes_exec_then writes_rules) (simp_all add: to_device_def repeat_of_def)
  then have x: "writes mem (writeExternalEeprom E prm b d) [(b, d)]" for b d by simp
  have "writes mem (for_s (\<lambda>(off, data). writeExternalEeprom E prm (b + of_nat off) data) ps) (concat (map (\<lambda>(off, d). [(b + of_nat off, d)]) ps))" for b ps
    by (rule writes_for) (auto simp: x split: prod.split)
  then show "writes mem (upload_eeeprom E prm bs) (eeeprom_writes bs)"
    unfolding upload_eeeprom_def eeeprom_writes_def by (intro writes_for) (simp add: case_prod_beta' concat_map_singleton)
  have "writes mem (writeDataToExtEEPROM E prm a ds) (placed a ds @ [])"
    unfolding writeDataToExtEEPROM_def by (intro writes_try writes_bind(2) writes_blocks assms writes_basic(7)) simp
  then show "writes mem (writeDataToExtEEPROM E prm a ds) (placed a ds)" by simp
qed

lemma writes_upload_prepared:
  assumes "dpa_codes E" "node_memory E (deviceAddress prm) mem" "deviceAddress prm \<noteq> BROADCAST_ADDRESS E"
    and "upload_prepared E D offset prm Upload u s = (s', Inr ())"
  shows "mem (net s') = fold store (placed (startMemAddr prm) (prepared_data.m_data (flashData u)))
    (fold store (eeeprom_writes (eeepromData u)) (mem (net s)))"
proof -
  note steps = writes_steps[OF assms(1-3)]
  obtain s1 x s2 y where c: "check_eeprom E prm (eepromData u) s = (s1, Inr x)" "check_eeeprom prm (eeepromData u) s1 = (s2, Inr y)"
    and r': "bind_s (osRead E prm) (\<lambda>_. bind_s (check_devices D prm u) (\<lambda>_.
      bind_s (if x then upload_eeprom E prm (eepromData u) else ret ()) (\<lambda>_.
      bind_s (if y then upload_eeeprom E prm (eeepromData u) else ret ()) (\<lambda>_.
        writeDataToExtEEPROM E prm (startMemAddr prm) (prepared_data.m_data (flashData u)))))) s2 = (s', Inr ())"
    using assms(3,4) by (auto simp: upload_prepared_def read_devices_def bind_s_Inr)
  note r = r'[unfolded check_eeeprom_result[OF c(2)]]
  have e: "writes mem (if eeepromData u \<noteq> [] then upload_eeeprom E prm (eeepromData u) else ret ()) (eeeprom_writes (eeepromData u))"
    using steps(3) writes_basic(1) by (auto simp: eeeprom_writes_def)
  have "writes mem (bind_s (osRead E prm) (\<lambda>_. bind_s (check_devices D prm u) (\<lambda>_.
      bind_s (if x then upload_eeprom E prm (eepromData u) else ret ()) (\<lambda>_.
      bind_s (if eeepromData u \<noteq> [] then upload_eeeprom E prm (eeepromData u) else ret ()) (\<lambda>_.
        writeDataToExtEEPROM E prm (startMemAddr prm) (prepared_data.m_data (flashData u)))))))
      (eeeprom_writes (eeepromData u) @ placed (startMemAddr prm) (prepared_data.m_data (flashData u)))"
    by (intro writes_bind_nothing[OF steps(1)] writes_bind_nothing[OF writes_checks(3)] writes_bind_nothing[OF writes_if[OF steps(2) writes_basic(1)]]
        writes_bind(1)[OF e] steps(4))
  with r have "mem (net s') = fold store (eeeprom_writes (eeepromData u) @ placed (startMemAddr prm) (prepared_data.m_data (flashData u))) (mem (net s2))"
    unfolding writes_def by blast
  moreover have "mem (net s2) = mem (net s)"
    using c writes_checks[of mem] unfolding writes_def by fastforce
  ultimately show ?thesis by simp
qed

section \<open>The whole service\<close>

lemma createResponse_status: "jget [''data'', ''status''] (createResponse E stack com mType prm action s) = Some (JNum (s_status s))"
  unfolding createResponse_def append_assoc[symmetric] by (rule response_status)

lemma upload_success:
  assumes "dpa_codes E" "deviceAddress prm \<noteq> BROADCAST_ADDRESS E" "upload E D offset prm Upload rd s = (s', r)" "s_status s' = 0"
    and "case r of Inr _ \<Rightarrow> True | Inl e \<Rightarrow> what e \<noteq> None"
  shows "\<exists>u. rd = Inr u \<and> upload_prepared E D offset prm Upload u s = (s', Inr ())"
proof (cases rd)
  case (Inl e)
  then show ?thesis using assms(3-5)
    by (auto simp: upload_def fail_with_def bind_s_def setStatus_def uploadFileProcessingError_def split: option.splits if_splits)
next
  case (Inr u)
  obtain s1 r1 where p: "upload_prepared E D offset prm Upload u s = (s1, r1)" by fastforce
  have "honest (upload_prepared E D offset prm Upload u)" using assms(1,2) by (intro honest_upload_prepared) simp_all
  with p have "case r1 of Inr _ \<Rightarrow> True | Inl e \<Rightarrow> what e = None \<or> s_status s1 \<noteq> 0"
    unfolding honest_def by (fastforce split: sum.splits)
  with p assms(3-5) Inr show ?thesis by (auto simp: upload_def split: sum.splits if_splits)
qed

section \<open>A simulated device\<close>

text \<open>
  For evaluation on a concrete input: every second transaction is executed but not confirmed, and the device compatible with plugins for its MCU.
\<close>

definition sample_env :: "(nat \<times> memory) dpa_env" where
  "sample_env = sample_codes\<lparr>execTransaction := \<lambda>rq t n. ((Suc (fst n), fold store (case writes_of (sample_codes :: (nat \<times> memory) dpa_env) rq of None \<Rightarrow> [] | Some wl \<Rightarrow> wl) (snd n)),
     Inr \<lparr>tr_request = rq, tr_errorCode = (if even (fst n) then -1 else 0), tr_errorString = '''', tr_response = replicate 56 4\<rparr>)\<rparr>"

definition sample_params :: TOtaUploadInputParams where
  "sample_params = \<lparr>deviceAddress = 1, o_hwpId = 0xFFFF, fileName = ''a.iqrf'', o_repeat = 1, startMemAddr = 0x300, loadingAction = ''Upload'',
     uploadEepromData = False, uploadEeepromData = False\<rparr>"

definition sample_ota :: ota_env where
  "sample_ota = \<lparr>e_ihp = sample_ihp, e_device = \<lparr>getTrFamily = \<lambda>_ _. 2, UNKNOWN_FAMILY = 0, TR_7xG = 1, TR_8xG = 3, osCompatible = \<lambda>_ _. True\<rparr>,
     e_offset = 4, e_uninit = (0, 0, 0), e_stack = False, e_params = sample_params,
     e_files = \<lambda>_. Some [''#'', ''#'', ''#'', ''#'', ''#----'', ''0102'', ''FF34'']\<rparr>"

definition sample_request :: json where
  "sample_request = JObj [(''mType'', JStr ''iqmeshNetwork_OtaUpload''), (''data'', JObj [(''msgId'', JStr ''1''), (''req'', JObj [
     (''deviceAddr'', JNum 1), (''fileName'', JStr ''a.iqrf''), (''startMemAddr'', JNum 768), (''loadingAction'', JStr ''Upload'')])])]"

definition sample_svc :: "(nat \<times> memory) svc" where
  "sample_svc = \<lparr>net = (0, \<lambda>_. 0), frcTime = 0, exclusive = False, s_status = 0, s_statusStr = '''', s_results = [], sent = []\<rparr>"


lemma sample_read:
  "\<exists>u. read_file sample_env (e_ihp sample_ota) (e_uninit sample_ota) (e_files sample_ota) ''u'' sample_params Upload = Some (Inr u)
    \<and> eepromData u = [] \<and> eeepromData u = [] \<and> u_type u = Iqrf_plugin \<and> headerInfo u = module_info 0 0 4 2 \<and>
    concat (prepared_data.m_data (flashData u)) = mem_image [1, 2, 0xFF, 0x34] 128"
proof -
  have "parseLoadingContentType (getFullFileName ''u'' (fileName sample_params)) = Inr Iqrf_plugin" by code_simp
  moreover have "IqrfParser sample_ihp (0, 0) (getFullFileName ''u'' (fileName sample_params)) (Some [''#'', ''#'', ''#'', ''#'', ''#----'', ''0102'', ''FF34''])
    = Inr \<lparr>q_contents = [''0102'', ''FF34''], q_mcu = 4, q_tr = 2, q_os = [''#'']\<rparr>" by code_simp
  moreover have "iqrfGetFlashData sample_ihp \<lparr>q_contents = [''0102'', ''FF34''], q_mcu = 4, q_tr = 2, q_os = [''#'']\<rparr> = Inr (CodeBlock [1, 2, 0xFF, 0x34] 0 3)"
    by code_simp
  moreover obtain d where "fromIqrf (CodeBlock [1, 2, 0xFF, 0x34] 0 3) False = Some (Inr d)" "concat (prepared_data.m_data d) = mem_image [1, 2, 0xFF, 0x34] 128"
    using fromIqrf_data[OF refl, of "[1, 2, 0xFF, 0x34]"] by auto
  moreover have "deviceAddress sample_params \<noteq> BROADCAST_ADDRESS sample_env" by code_simp
  ultimately show ?thesis
    by (simp add: read_file_def read_iqrf_def bind_o_def sample_ota_def iqrfGetHeaderModuleInfo_def)
qed


lemma packet_writes_codes: "packet_writes (E\<lparr>execTransaction := f\<rparr>) bs = packet_writes E bs"
  by (cases "(E, bs)" rule: packet_writes.cases) simp_all

lemma writes_of_codes: "writes_of (E\<lparr>execTransaction := f\<rparr>) rq = writes_of E rq"
proof -
  have "batch_writes (E\<lparr>execTransaction := f\<rparr>) bs = batch_writes E bs" for bs
    by (induction E bs rule: batch_writes.induct) (subst (1 2) batch_writes.simps, auto simp: packet_writes_codes split: list.split option.split)
  then show ?thesis by (simp add: writes_of_def)
qed

lemma store_frame: "\<not> covered wl x \<Longrightarrow> fold store wl m x = m x"
  by (induction wl arbitrary: m) (auto simp: covered_def store_def)

lemma sample_node: "node_memory sample_env nadr snd"
  unfolding node_memory_def sample_env_def writes_of_codes by (auto simp: ok_tr_def sample_codes_def) (metis store_frame)

lemma sample_codes_ok: "dpa_codes sample_env" "deviceAddress sample_params \<noteq> BROADCAST_ADDRESS sample_env"
  by (simp_all add: dpa_codes_def sample_env_def sample_codes_def sample_params_def)

lemma sample_transaction: "\<exists>m tr. execTransaction sample_env rq t n = ((Suc (fst n), m), Inr tr) \<and>
    tr_errorCode tr = (if even (fst n) then -1 else 0) \<and> tr_response tr = replicate 56 4"
  by (simp add: sample_env_def)

lemma sample_exec: "\<exists>tr n'. exec_p sample_env rq t (repeat_of sample_params) (p, s) = ((Some tr, s\<lparr>net := n'\<rparr>), Inr (replicate 56 4))"
proof -
  have r: "repeat_of sample_params = 1" by (simp add: repeat_of_def sample_params_def)
  obtain m tr where 1: "execTransaction sample_env rq t (net s) = ((Suc (fst (net s)), m), Inr tr)"
    "tr_errorCode tr = (if even (fst (net s)) then -1 else 0)" "tr_response tr = replicate 56 4" using sample_transaction by blast
  obtain m' tr' where 2: "execTransaction sample_env rq t (Suc (fst (net s)), m) = ((Suc (Suc (fst (net s))), m'), Inr tr')"
    "tr_errorCode tr' = (if even (Suc (fst (net s))) then -1 else 0)" "tr_response tr' = replicate 56 4"
    using sample_transaction[of rq t "(Suc (fst (net s)), m)"] by auto
  show ?thesis using r 1 2 sample_codes_ok(1)
    by (cases "even (fst (net s))") (auto simp: exec_p_def executeDpaTransactionRepeat.simps simp del: split_paired_Ex)
qed

lemma sample_then:
  assumes "\<And>s. \<exists>s'. f (None, s) = ((None, s'), Inr x)"
  shows "\<exists>s'. bind_s (exec_p sample_env rq t (repeat_of sample_params)) (\<lambda>_. bind_s add_p (\<lambda>_. f)) (None, s) = ((None, s'), Inr x)"
proof -
  obtain tr n' where "exec_p sample_env rq t (repeat_of sample_params) (None, s) = ((Some tr, s\<lparr>net := n'\<rparr>), Inr (replicate 56 4))"
    using sample_exec by blast
  then show ?thesis using assms by simp
qed

lemma sample_blocks: "\<exists>s'. write_blocks sample_env sample_params a ds (None, s) = ((None, s'), Inr ())"
proof (induction ds arbitrary: a s rule: induct_list012)
  case (2 d)
  obtain tr n' where "exec_p sample_env (to_device sample_env sample_params (PNUM_EEEPROM sample_env) (CMD_EEEPROM_XWRITE sample_env)
      (setExtendedWritePacketData a d)) (-1) (repeat_of sample_params) (None, s) = ((Some tr, s\<lparr>net := n'\<rparr>), Inr (replicate 56 4))"
    using sample_exec by blast
  then show ?case by simp
next
  case (3 d d' ds)
  show ?case unfolding write_blocks.simps Let_def by (split if_split) (intro conjI impI; rule sample_then, rule 3)
qed simp

lemma sample_device:
  assumes "u_type u = Iqrf_plugin" "headerInfo u = module_info 0 0 4 2" "m_devices s = []"
  shows "\<exists>s1 s2. osRead sample_env sample_params s = (s1, Inr ()) \<and> check_devices (e_device sample_ota) sample_params u s1 = (s2, Inr ())"
proof -
  obtain tr n' where e: "exec_p sample_env \<lparr>rq_nadr = deviceAddress sample_params, rq_pnum = PNUM_OS sample_env, rq_pcmd = CMD_OS_READ sample_env,
      rq_hwpid = HWPID_DoNotCheck sample_env, rq_pdata = []\<rparr> (-1) (repeat_of sample_params) (None, s) = ((Some tr, s\<lparr>net := n'\<rparr>), Inr (replicate 56 4))"
    using sample_exec by blast
  have "compatible (e_device sample_ota) u (device_info 4 4 4 4)"
    using assms by (simp add: compatible_def sample_ota_def device_info_def module_info_def Let_def)
  then show ?thesis using assms(3)
    by (simp add: osRead_def try_p_def e insert_device_def check_devices_def)
qed

lemma sample_upload:
  assumes "eepromData u = []" "eeepromData u = []" "u_type u = Iqrf_plugin" "headerInfo u = module_info 0 0 4 2" "m_devices s = []" "s_status s = 0"
  shows "\<exists>s'. upload_prepared sample_env (e_device sample_ota) 4 sample_params Upload u s = (s', Inr ()) \<and> s_status s' = 0"
proof -
  obtain s1 s2 where d: "osRead sample_env sample_params s = (s1, Inr ())" "check_devices (e_device sample_ota) sample_params u s1 = (s2, Inr ())"
    using sample_device[OF assms(3-5)] by blast
  obtain s3 where b: "write_blocks sample_env sample_params (startMemAddr sample_params) (prepared_data.m_data (flashData u)) (None, s2) = ((None, s3), Inr ())"
    using sample_blocks by blast
  then have "upload_prepared sample_env (e_device sample_ota) 4 sample_params Upload u s = (s3\<lparr>m_uploadResult := Some True\<rparr>, Inr ())"
    using assms(1,2) d sample_codes_ok(2)
    by (simp add: upload_prepared_def check_eeprom_def check_eeeprom_def read_devices_def writeDataToExtEEPROM_def try_p_def)
  moreover have "honest (upload_prepared sample_env (e_device sample_ota) 4 sample_params Upload u)"
    using sample_codes_ok by (intro honest_upload_prepared) simp_all
  ultimately show ?thesis using assms(6) unfolding honest_def by fastforce
qed

text \<open>
  C5: A unicast upload that is reported with status 0 has arrived: the file could be read and prepared, and the external EEPROM of the device then
  holds the prepared image at the requested address, over the blocks for the external EEPROM the file contains, and is otherwise unchanged. Requests that were not
  confirmed may have been executed in part before their repetition.\<close>

theorem reported_upload_written:
  assumes "handleMsg E X refused path mType doc s = Some (s', Inr ())"
    and "jget [''data'', ''status''] (last (sent s')) = Some (JNum 0)"
    and "parse_ota E (e_params X) doc = Inr prm" "loading_action prm = Inr Upload" "deviceAddress prm \<noteq> BROADCAST_ADDRESS E"
    and "dpa_codes E" "node_memory E (deviceAddress prm) mem"
  shows "\<exists>u. read_file E (e_ihp X) (e_uninit X) (e_files X) path prm Upload = Some (Inr u) \<and>
    (length (concat (prepared_data.m_data (flashData u))) \<le> 65536 \<and> (\<forall>b\<in>set (eeepromData u). length (m_code b) < 65536) \<longrightarrow>
     mem (net s') = store (startMemAddr prm, concat (prepared_data.m_data (flashData u)))
       (fold (\<lambda>b. store (m_startAddr b, m_code b)) (eeepromData u) (mem (net s))))"
proof -
  obtain com where com: "ComBase doc = Inr com" "mType = ''iqmeshNetwork_OtaUpload''"
    using assms(1,3) by (cases "ComBase doc") (auto simp: handleMsg_def bind_r_def split: if_splits)
  obtain rd where rd: "read_file E (e_ihp X) (e_uninit X) (e_files X) path prm Upload = Some rd"
    "run_exclusive E None (\<lambda>_. JNull) (upload E (e_device X) (e_offset X) prm Upload rd)
       (createResponse E (e_stack X) com mType prm Upload) (new_ota s) = (s', Inr ())"
    using assms(1-4) com
    by (auto simp: handleMsg_def bind_r_def emptyUploadPathError_def exclusiveAccessError_def error_response_status dest!: send_response_Inr
        split: if_splits option.splits)
  obtain s1 r where r: "upload E (e_device X) (e_offset X) prm Upload rd ((new_ota s)\<lparr>exclusive := True\<rparr>) = (s1, r)"
    "case r of Inr _ \<Rightarrow> True | Inl e \<Rightarrow> \<forall>w. e \<noteq> UB w"
    "s' = s1\<lparr>sent := sent s1 @ [createResponse E (e_stack X) com mType prm Upload s1], exclusive := False\<rparr>"
    using run_exclusive_Inr[OF rd(2)] by blast
  have "case r of Inr _ \<Rightarrow> True | Inl e \<Rightarrow> what e \<noteq> None" using r(2) by (auto simp: what_def split: sum.splits exc.splits)
  moreover have "s_status s1 = 0" using assms(2) r(3) by (simp add: createResponse_status)
  ultimately obtain u where u: "rd = Inr u" "upload_prepared E (e_device X) (e_offset X) prm Upload u ((new_ota s)\<lparr>exclusive := True\<rparr>) = (s1, Inr ())"
    using upload_success[OF assms(6,5) r(1)] by blast
  from writes_upload_prepared[OF assms(6,7,5) u(2)] show ?thesis
    using u(1) rd(1) r(3) by (auto simp: store_eeeprom_writes store_image new_ota_def)
qed

theorem reported_upload_written_witness:
  "\<exists>s' u. handleMsg sample_env sample_ota None ''u'' ''iqmeshNetwork_OtaUpload'' sample_request sample_svc = Some (s', Inr ()) \<and>
     jget [''data'', ''status''] (last (sent s')) = Some (JNum 0) \<and>
     read_file sample_env (e_ihp sample_ota) (e_uninit sample_ota) (e_files sample_ota) ''u'' sample_params Upload = Some (Inr u) \<and>
     snd (net s') = store (0x300, mem_image [1, 2, 0xFF, 0x34] 128) (\<lambda>_. 0)"
proof -
  obtain u where u: "read_file sample_env (e_ihp sample_ota) (e_uninit sample_ota) (e_files sample_ota) ''u'' sample_params Upload = Some (Inr u)"
    "eepromData u = []" "eeepromData u = []" "u_type u = Iqrf_plugin" "headerInfo u = module_info 0 0 4 2"
    "concat (prepared_data.m_data (flashData u)) = mem_image [1, 2, 0xFF, 0x34] 128"
    using sample_read by (elim exE conjE)
  have n: "m_devices ((new_ota sample_svc)\<lparr>exclusive := True\<rparr>) = []" "s_status ((new_ota sample_svc)\<lparr>exclusive := True\<rparr>) = 0"
    by (simp_all add: new_ota_def)
  obtain s1 where s1: "upload_prepared sample_env (e_device sample_ota) 4 sample_params Upload u ((new_ota sample_svc)\<lparr>exclusive := True\<rparr>) = (s1, Inr ())"
    "s_status s1 = 0" using sample_upload[OF u(2-5) n] by blast
  have p: "ComBase sample_request = Inr \<lparr>c_mType = ''iqmeshNetwork_OtaUpload'', c_msgId = ''1'', c_timeout = -1, c_verbose = False\<rparr>"
    "parse_ota sample_env (e_params sample_ota) sample_request = Inr sample_params" "loading_action sample_params = Inr Upload"
    by code_simp+
  have o: "e_offset sample_ota = 4" by code_simp
  let ?rsp = "createResponse sample_env (e_stack sample_ota) \<lparr>c_mType = ''iqmeshNetwork_OtaUpload'', c_msgId = ''1'', c_timeout = -1, c_verbose = False\<rparr>
    ''iqmeshNetwork_OtaUpload'' sample_params Upload s1"
  have h: "handleMsg sample_env sample_ota None ''u'' ''iqmeshNetwork_OtaUpload'' sample_request sample_svc =
      Some (s1\<lparr>sent := sent s1 @ [?rsp], exclusive := False\<rparr>, Inr ())"
    using p u(1) s1 o by (simp add: handleMsg_def bind_r_def run_exclusive_def upload_def send_response_def sample_env_def sample_codes_def)
  have "length (mem_image [1, 2, 0xFF, 0x34] 128) = 128" by (simp add: mem_image_def)
  moreover have r: "jget [''data'', ''status''] (last (sent (s1\<lparr>sent := sent s1 @ [?rsp], exclusive := False\<rparr>))) = Some (JNum 0)"
    by (simp add: createResponse_status s1(2))
  ultimately have "snd (net s1) = store (startMemAddr sample_params, mem_image [1, 2, 0xFF, 0x34] 128) (snd (net sample_svc))"
    using reported_upload_written[OF h r p(2,3) sample_codes_ok(2,1) sample_node] u by simp
  moreover have "startMemAddr sample_params = 0x300" "snd (net sample_svc) = (\<lambda>_. 0)" by (simp_all add: sample_params_def sample_svc_def)
  ultimately show ?thesis using h r u(1) by auto
qed

end
