(* ===== verification/Ota_Verify.thy ===== *)
theory Ota_Verify
  imports Ota_Upload
begin

text \<open>
  The broadcast part of the upload service: the results of the verification, which the nodes report in the bytes of FRC responses, and the
  reading of the types of all devices.
\<close>

section \<open>Selected nodes\<close>

lemma select_bits:
  fixes sel :: bytes
  assumes "length sel = 30" "\<forall>a\<in>set nodes. unat a < 240" "i < 240"
  shows "bit (fold (\<lambda>a sel. sel[unat a div 8 := sel ! (unat a div 8) OR push_bit (unat a mod 8) 1]) nodes sel ! (i div 8)) (i mod 8) \<longleftrightarrow>
    bit (sel ! (i div 8)) (i mod 8) \<or> i \<in> unat ` set nodes"
  using assms(1,2)
proof (induction nodes arbitrary: sel)
  case (Cons a nodes)
  let ?sel = "sel[unat a div 8 := sel ! (unat a div 8) OR push_bit (unat a mod 8) 1]"
  have "unat a div 8 < 30" using Cons.prems by auto
  then have "bit (?sel ! (i div 8)) (i mod 8) \<longleftrightarrow> bit (sel ! (i div 8)) (i mod 8) \<or> i = unat a"
    using Cons.prems(1) div_mult_mod_eq[of i 8] div_mult_mod_eq[of "unat a" 8]
    by (cases "i div 8 = unat a div 8") (auto simp: bit_or_iff bit_exp_iff possible_bit_def)
  then show ?case using Cons by auto
qed simp

lemma length_selectNodes: "length (selectNodes nodes) = 30"
proof -
  have "length (fold (\<lambda>a sel. sel[unat a div 8 := sel ! (unat a div 8) OR push_bit (unat a mod 8) 1]) nodes sel) = length sel" for sel :: bytes
    by (induction nodes arbitrary: sel) simp_all
  then show ?thesis by (simp add: selectNodes_def)
qed

lemma selected_nodes:
  assumes "MAX_ADDRESS E = 239" "ascending nodes"
  shows "bitmapToNodes E (selectNodes nodes) = nodes"
proof -
  have f: "bit (selectNodes nodes ! (i div 8)) (i mod 8) \<longleftrightarrow> i \<in> unat ` set nodes" if "i < 240" for i
    using select_bits[of "replicate 30 0" nodes i] assms(2) that by (simp add: selectNodes_def ascending_def)
  have "filter (\<lambda>i. selectNodes nodes ! (i div 8) AND push_bit (i mod 8) 1 \<noteq> 0) [0..<240] = filter (\<lambda>i. i \<in> unat ` set nodes) [0..<240]"
    by (intro filter_cong) (simp_all only: and_push_bit_iff f atLeastLessThan_upt[symmetric] atLeastLessThan_iff)
  moreover have "filter (\<lambda>i. i \<in> unat ` set nodes) [0..<240] = map unat nodes"
    using assms(2) by (intro strict_sorted_equal) (auto simp: ascending_def intro: sorted_wrt_filter)
  ultimately show ?thesis using assms(1) by (simp add: bitmapToNodes_def comp_def)
qed

lemma ascending_take_drop: "ascending nodes \<Longrightarrow> ascending (take k nodes)" "ascending nodes \<Longrightarrow> ascending (drop k nodes)"
  by (auto simp: ascending_def take_map[symmetric] drop_map[symmetric] sorted_wrt_take sorted_wrt_drop dest: in_set_takeD in_set_dropD)

section \<open>Responses of FRC commands\<close>

text \<open>
  What the coordinator promises about a selective FRC command with one byte per node: \<open>results\<close> are its 64 bytes, of which the first belongs to the
  coordinator and the next ones to the selected nodes in ascending order. The response carries 55 of them and the extra result the others.
\<close>

definition frc_law :: "('n, 'e) dpa_env_scheme \<Rightarrow> (bytes \<Rightarrow> u8 \<Rightarrow> u8) \<Rightarrow> ('n \<Rightarrow> bytes) \<Rightarrow> bool" where
  "frc_law E answer results \<longleftrightarrow>
     (\<forall>t n n' tr sel ud. length sel = 30 \<and> execTransaction E (to_coordinator E (PNUM_FRC E) (CMD_FRC_SEND_SELECTIVE E)
          (enc_FrcSendSelective E (FRC_MemoryReadPlus1 E) sel ud)) t n = (n', Inr tr) \<and> tr_errorCode tr = TRN_OK E \<and>
        FrcSend_Status E (tr_response tr) \<le> MAX_ADDRESS E \<longrightarrow>
          length (results n') = 64 \<and> take 55 (drop 1 (tr_response tr)) = take 55 (results n') \<and>
          (\<forall>i < min 63 (length (bitmapToNodes E sel)). results n' ! Suc i = answer ud (bitmapToNodes E sel ! i))) \<and>
     (\<forall>t n n' r. execTransaction E (to_coordinator E (PNUM_FRC E) (CMD_FRC_EXTRARESULT E) []) t n = (n', r) \<longrightarrow>
        results n' = results n \<and> (case r of Inl _ \<Rightarrow> True | Inr tr \<Rightarrow> tr_errorCode tr = TRN_OK E \<longrightarrow> take 9 (tr_response tr) = drop 55 (results n)))"

lemma frc_send:
  assumes "frc_law E answer results" "FrcSend_Status E rsp \<le> MAX_ADDRESS E" "0 \<le> k" "length sel = 30"
    and "exec_p E (to_coordinator E (PNUM_FRC E) (CMD_FRC_SEND_SELECTIVE E) (enc_FrcSendSelective E (FRC_MemoryReadPlus1 E) sel ud)) t k (p, s)
      = ((p', s'), Inr rsp)"
  shows "\<exists>n'. s' = s\<lparr>net := n'\<rparr> \<and> length (results n') = 64 \<and> take 55 (drop 1 rsp) = take 55 (results n') \<and>
    (\<forall>i < min 63 (length (bitmapToNodes E sel)). results n' ! Suc i = answer ud (bitmapToNodes E sel ! i))"
  using exec_p_success[where P = "\<lambda>_. True", OF assms(5,3)] assms(1,2,4) unfolding frc_law_def by blast

lemma frc_extra:
  assumes "frc_law E answer results" "getFrcExtraResult E prm s = (s', Inr x)"
  shows "\<exists>n'. s' = s\<lparr>net := n'\<rparr> \<and> take 9 x = drop 55 (results (net s))"
proof -
  obtain p' where e: "exec_p E (to_coordinator E (PNUM_FRC E) (CMD_FRC_EXTRARESULT E) []) (-1) (repeat_of prm) (None, s) = ((p', s'), Inr x)"
    using assms(2) by (auto simp: getFrcExtraResult_def try_p_Inr)
  have keep: "results n' = results (net s)" if "results n = results (net s)"
    "execTransaction E (to_coordinator E (PNUM_FRC E) (CMD_FRC_EXTRARESULT E) []) (-1) n = (n', r)" for n n' r
    using assms(1) that unfolding frc_law_def by metis
  have "\<exists>n1 n' tr. results n1 = results (net s) \<and> execTransaction E (to_coordinator E (PNUM_FRC E) (CMD_FRC_EXTRARESULT E) []) (-1) n1 = (n', Inr tr) \<and>
      tr_errorCode tr = TRN_OK E \<and> p' = Some tr \<and> s' = s\<lparr>net := n'\<rparr> \<and> x = tr_response tr"
    by (rule exec_p_success[where P = "\<lambda>n. results n = results (net s)", OF e]) (auto simp: repeat_of_def intro: keep)
  then show ?thesis using assms(1) unfolding frc_law_def by fastforce
qed

section \<open>Verification\<close>

definition verify_data :: "('n, 'e) dpa_env_scheme \<Rightarrow> TOtaUploadInputParams \<Rightarrow> LoadingAction \<Rightarrow> LoadingContentType \<Rightarrow> prepared_data \<Rightarrow> bytes" where
  "verify_data E prm action type fd =
     [0xa0, 0x04, PNUM_OS E, CMD_OS_LOAD_CODE E, of_nat (length (load_request E prm action type fd))] @ load_request E prm action type fd"

definition set_all_verify :: "(u8 \<Rightarrow> bool) \<Rightarrow> u8 list \<Rightarrow> (nat \<times> bool) list \<Rightarrow> (nat \<times> bool) list" where
  "set_all_verify f nodes m = fold (\<lambda>a. map_put (unat a) (f a)) nodes m"

lemma fold_set_verify:
  "m_verifyResultMap (fold (\<lambda>(i, a). set_verify (unat a) (g i)) (zip is nodes) s) = fold (\<lambda>(i, a). map_put (unat a) (g i)) (zip is nodes) (m_verifyResultMap s)"
proof (induction "is" arbitrary: nodes s)
  case (Cons i "is")
  then show ?case by (cases nodes) (simp_all add: set_verify_def)
qed simp

lemma fold_zip_upt:
  assumes "\<And>i. i < length nodes \<Longrightarrow> g (k + i) = f (nodes ! i)"
  shows "fold (\<lambda>(i, a). map_put (unat a) (g i)) (zip [k..<k + length nodes] nodes) m = set_all_verify f nodes m"
  using assms
proof (induction nodes arbitrary: k m)
  case (Cons a nodes)
  have "zip [k..<k + length (a # nodes)] (a # nodes) = (k, a) # zip [Suc k..<Suc k + length nodes] nodes"
    by (simp add: upt_rec)
  moreover have "g (Suc k + i) = f (nodes ! i)" if "i < length nodes" for i using Cons.prems[of "Suc i"] that by simp
  ultimately show ?case using Cons.IH[of "Suc k"] Cons.prems[of 0] by (simp add: set_all_verify_def)
qed (simp add: set_all_verify_def)

text \<open>The bytes the service looks at are those of the selected nodes.\<close>

lemma frc_bytes:
  assumes "length res = 64" "take 55 (drop 1 rsp) = take 55 res" "i < 63" "54 \<le> i \<Longrightarrow> extra = drop 55 res"
  shows "(take 54 (drop 2 rsp) @ extra) ! i = res ! Suc i"
proof -
  have l: "55 \<le> length (drop 1 rsp)" using assms(1) arg_cong[OF assms(2), of length] by simp
  have n: "drop 1 rsp ! j = res ! j" if "j < 55" for j using arg_cong[OF assms(2), of "\<lambda>xs. xs ! j"] that by simp
  show ?thesis
  proof (cases "i < 54")
    case True
    then show ?thesis using n[of "Suc i"] l by (simp add: nth_append)
  next
    case False
    then show ?thesis using l assms by (simp add: nth_append)
  qed
qed

lemma add_p_state: "add_p ps = (ps', Inr x) \<Longrightarrow> \<exists>rs. snd ps' = (snd ps)\<lparr>s_results := rs\<rparr>"
  by (cases ps) (auto simp: add_p_def intro: exI[of _ "s_results (snd ps)"] split: option.splits)

lemma fold_set_verify_nodes: "m_nodesList (fold (\<lambda>(i, a). set_verify (unat a) (g i)) xs s) = m_nodesList s"
  by (induction xs arbitrary: s) (auto simp: set_verify_def split: prod.split)

lemma verify_chunk_results:
  assumes "frc_law E answer results" "MAX_ADDRESS E = 239" "ascending nodes" "length nodes \<le> 63"
    and "verify_chunk E prm action type fd nodes (p, s) = ((p', s'), Inr ())"
  shows "m_verifyResultMap s' = set_all_verify (\<lambda>a. answer (verify_data E prm action type fd) a = 2) nodes (m_verifyResultMap s) \<and> m_nodesList s' = m_nodesList s"
proof -
  let ?X = "if length nodes > 54 then bind_s (lift_p (getFrcExtraResult E prm)) (\<lambda>x. ret (take 9 x)) else ret []"
  let ?F = "\<lambda>rsp extra. lift_p (upd (fold (\<lambda>(i, addr). set_verify (unat addr) ((take 54 (drop 2 rsp) @ extra) ! i = 2)) (zip [0..<length nodes] nodes)))"
  obtain p1 s1 rsp where
    c: "exec_p E (to_coordinator E (PNUM_FRC E) (CMD_FRC_SEND_SELECTIVE E)
          (enc_FrcSendSelective E (FRC_MemoryReadPlus1 E) (selectNodes nodes) (verify_data E prm action type fd))) (-1) (repeat_of prm) (p, s) = ((p1, s1), Inr rsp)"
    and b: "(if FrcSend_Status E rsp > MAX_ADDRESS E then throw (LogicError ''Bad FRC status: '')
      else bind_s add_p (\<lambda>_. bind_s ?X (?F rsp))) (p1, s1) = ((p', s'), Inr ())"
    using assms(5) unfolding verify_chunk_def verify_data_def[symmetric] Let_def
    by (subst (asm) bind_s_Inr) (elim exE conjE, metis surj_pair)
  from b have st: "FrcSend_Status E rsp \<le> MAX_ADDRESS E" and "bind_s add_p (\<lambda>_. bind_s ?X (?F rsp)) (p1, s1) = ((p', s'), Inr ())"
    by (auto simp: not_le split: if_splits)
  then obtain p2 s2 where c3: "add_p (p1, s1) = ((p2, s2), Inr ())" and "bind_s ?X (?F rsp) (p2, s2) = ((p', s'), Inr ())"
    by (subst (asm) bind_s_Inr) auto
  then obtain p3 s3 extra where e: "?X (p2, s2) = ((p3, s3), Inr extra)"
    and f: "s' = fold (\<lambda>(i, addr). set_verify (unat addr) ((take 54 (drop 2 rsp) @ extra) ! i = 2)) (zip [0..<length nodes] nodes) s3"
    by (subst (asm) bind_s_Inr) auto
  obtain n' where n': "s1 = s\<lparr>net := n'\<rparr>" "length (results n') = 64" "take 55 (drop 1 rsp) = take 55 (results n')"
    "\<forall>i < min 63 (length nodes). results n' ! Suc i = answer (verify_data E prm action type fd) (nodes ! i)"
    using frc_send[OF assms(1) st _ _ c] selected_nodes[OF assms(2,3)] by (auto simp: repeat_of_def length_selectNodes)
  obtain rs where s2: "s2 = s1\<lparr>s_results := rs\<rparr>" using add_p_state[OF c3] by auto
  have e': "(54 < length nodes \<longrightarrow> extra = drop 55 (results n')) \<and> m_verifyResultMap s3 = m_verifyResultMap s \<and> m_nodesList s3 = m_nodesList s"
    using e s2 n'(1) frc_extra[OF assms(1), of prm s2] by (auto simp: bind_s_Inr split: if_splits prod.splits)
  have "(take 54 (drop 2 rsp) @ extra) ! i = answer (verify_data E prm action type fd) (nodes ! i)" if "i < length nodes" for i
    using frc_bytes[OF n'(2,3), of i extra] that assms(4) e' n'(4) by auto
  then have "fold (\<lambda>(i, a). map_put (unat a) ((take 54 (drop 2 rsp) @ extra) ! i = 2)) (zip [0..<0 + length nodes] nodes) (m_verifyResultMap s3)
      = set_all_verify (\<lambda>a. answer (verify_data E prm action type fd) a = 2) nodes (m_verifyResultMap s3)"
    by (intro fold_zip_upt) simp
  then show ?thesis using e' by (simp add: f fold_set_verify fold_set_verify_nodes)
qed

lemma verify_loop_results:
  assumes "frc_law E answer results" "MAX_ADDRESS E = 239" "ascending nodes" "verify_loop E prm action type fd nodes (p, s) = ((p', s'), Inr ())"
  shows "m_verifyResultMap s' = set_all_verify (\<lambda>a. answer (verify_data E prm action type fd) a = 2) nodes (m_verifyResultMap s) \<and> m_nodesList s' = m_nodesList s"
  using assms(3,4)
proof (induction "length nodes" arbitrary: nodes p s rule: less_induct)
  case less
  show ?case
  proof (cases "nodes = []")
    case True
    then show ?thesis using less.prems(2) by (simp add: verify_loop.simps set_all_verify_def)
  next
    case False
    then obtain p1 s1 where 1: "verify_chunk E prm action type fd (take 63 nodes) (p, s) = ((p1, s1), Inr ())"
      "verify_loop E prm action type fd (drop 63 nodes) (p1, s1) = ((p', s'), Inr ())"
      using less.prems(2) by (subst (asm) verify_loop.simps) (auto simp: bind_s_Inr)
    have "m_verifyResultMap s1 = set_all_verify (\<lambda>a. answer (verify_data E prm action type fd) a = 2) (take 63 nodes) (m_verifyResultMap s) \<and>
        m_nodesList s1 = m_nodesList s"
      using verify_chunk_results[OF assms(1,2) ascending_take_drop(1)[OF less.prems(1)] _ 1(1)] by simp
    moreover have "m_verifyResultMap s' = set_all_verify (\<lambda>a. answer (verify_data E prm action type fd) a = 2) (drop 63 nodes) (m_verifyResultMap s1) \<and>
        m_nodesList s' = m_nodesList s1"
      using False by (intro less.hyps[OF _ ascending_take_drop(2)[OF less.prems(1)] 1(2)]) simp
    moreover have "set_all_verify f (drop 63 nodes) (set_all_verify f (take 63 nodes) m) = set_all_verify f nodes m" for f m
      using fold_append[of "\<lambda>a. map_put (unat a) (f a)" "take 63 nodes" "drop 63 nodes"] by (simp add: set_all_verify_def fun_eq_iff)
    ultimately show ?thesis by simp
  qed
qed

lemma map_of_set_all_verify:
  "map_ok m \<Longrightarrow> map_of (set_all_verify f nodes m) = (\<lambda>k. if k \<in> unat ` set nodes then Some (f (of_nat k)) else map_of m k)"
  unfolding set_all_verify_def
proof (induction nodes arbitrary: m)
  case (Cons a nodes)
  then show ?case by (auto simp: fun_eq_iff)
qed (simp add: fun_eq_iff)

lemma nodes_to_verify_ascending:
  assumes "MAX_ADDRESS E = 239" "nodes_to_verify E prm (p, s) = ((p', s'), Inr (Some nodes))"
  shows "ascending nodes"
proof -
  have "ascending xs" if "getBondedNodes E k s = (s1, Inr xs)" for k s1 xs
    using that ascending_bitmap[OF assms(1)] by (auto simp: getBondedNodes_def try_p_Inr bind_s_Inr)
  then show ?thesis using assms ascending_bitmap[OF assms(1)]
    by (auto simp: nodes_to_verify_def bind_s_Inr Let_def split: if_splits prod.splits)
qed

lemma verify_kept: "kept s s' \<Longrightarrow> m_verifyResultMap s' = m_verifyResultMap s \<and> m_nodesList s' = m_nodesList s"
  by (cases s; cases s') (simp add: kept_def)

lemma kept_nodes_to_verify: "nodes_to_verify E prm (p, s) = ((p', s'), Inr x) \<Longrightarrow> kept s s'"
  by (auto simp: nodes_to_verify_def bind_s_Inr Let_def dest!: kept_exec kept_add kept_getBondedNodes split: if_splits prod.splits)
    (simp_all add: kept_def)

text \<open>
  C6: The reported results of a broadcast verification belong to the right nodes: for every node that was to be verified the map says whether its byte of the FRC
  response was 2, that is, whether the node found the checksum right, and there is no entry for another address. Requests go to groups of 63
  nodes, and the bytes of a large group are in two responses.\<close>

theorem verification_results:
  assumes "verifyCode E prm action type fd s = (s', Inr ())" "frc_law E answer results" "MAX_ADDRESS E = 239" "m_verifyResultMap s = []"
  shows "map_of (m_verifyResultMap s') = (\<lambda>k. if k \<in> unat ` set (m_nodesList s')
    then Some (answer (verify_data E prm action type fd) (of_nat k) = 2) else None)"
proof -
  obtain p1 s1 nodes where n: "nodes_to_verify E prm (None, s) = ((p1, s1), Inr (Some nodes))"
    using assms(1) by (auto simp: verifyCode_def setStatus_def split: prod.splits sum.splits option.splits)
  let ?t = "verify_frc_time E type (m_length fd)"
  obtain p2 where "bind_s (lift_p (upd (\<lambda>s. s\<lparr>m_nodesList := nodes\<rparr>))) (\<lambda>_. bind_s (lift_p (setFrcTime ?t)) (\<lambda>_.
      bind_s (lift_p (setFrcReponseTime E (repeat_of prm) ?t)) (\<lambda>_. verify_loop E prm action type fd nodes))) (p1, s1) = ((p2, s'), Inr ())"
    using assms(1) n by (auto simp: verifyCode_def split: prod.splits sum.splits)
  then obtain s2 x where s2: "setFrcReponseTime E (repeat_of prm) ?t (s1\<lparr>m_nodesList := nodes, frcTime := ?t\<rparr>) = (s2, Inr x)"
    and l: "verify_loop E prm action type fd nodes (p1, s2) = ((p2, s'), Inr ())"
    by (auto simp: bind_s_Inr setFrcTime_def split: prod.splits)
  have "m_nodesList s2 = nodes" "m_verifyResultMap s2 = []"
    using verify_kept[OF kept_setFrcReponseTime[OF s2]] verify_kept[OF kept_nodes_to_verify[OF n]] assms(4) by simp_all
  then show ?thesis
    using verify_loop_results[OF assms(2,3) nodes_to_verify_ascending[OF assms(3) n] l] map_of_set_all_verify[of "[]"]
    by (auto simp: fun_eq_iff map_ok_def)
qed

section \<open>A simulated network\<close>

text \<open>The nodes 1 and 5 are bonded and node 1 confirms; the state of the network are the results of the last FRC command.\<close>

definition sample_answer :: "bytes \<Rightarrow> u8 \<Rightarrow> u8" where
  "sample_answer ud a = (if a = 1 then 2 else 1)"

definition sample_results :: "bytes \<Rightarrow> bytes" where
  "sample_results pdata =
     (let nodes = take 63 (bitmapToNodes (sample_codes :: bytes dpa_env) (take 30 (drop 1 pdata)))
      in 0 # map (sample_answer []) nodes @ replicate (63 - length nodes) 0)"

definition sample_net :: "bytes dpa_env" where
  "sample_net = sample_codes\<lparr>execTransaction := \<lambda>rq t n.
     (let ok = \<lambda>d. Inr \<lparr>tr_request = rq, tr_errorCode = 0, tr_errorString = ''ok'', tr_response = d\<rparr> in
      if rq_pnum rq = 13 \<and> rq_pcmd rq = 2 then (sample_results (rq_pdata rq), ok (0 # take 55 (sample_results (rq_pdata rq))))
      else if rq_pnum rq = 13 \<and> rq_pcmd rq = 1 then (n, ok (take 9 (drop 55 n)))
      else (n, ok (0x22 # replicate 29 0)))\<rparr>"

lemma sample_net_codes: "bitmapToNodes sample_net = bitmapToNodes (sample_codes :: bytes dpa_env)" "TRN_OK sample_net = 0" "MAX_ADDRESS sample_net = 239"
  by (simp_all add: fun_eq_iff bitmapToNodes_def sample_net_def sample_codes_def)

lemma sample_frc_law: "frc_law sample_net sample_answer (take 64)"
proof -
  have a: "sample_answer ud = sample_answer []" for ud by (simp add: fun_eq_iff sample_answer_def)
  have r: "length (sample_results pdata) = 64" for pdata by (simp add: sample_results_def Let_def)
  have "sample_results (c # sel @ ud) ! Suc i = sample_answer ud (bitmapToNodes (sample_codes :: bytes dpa_env) sel ! i)"
    if "length sel = 30" "i < 63" "i < length (bitmapToNodes (sample_codes :: bytes dpa_env) sel)" for c sel ud i
    using that a[of ud] by (simp add: sample_results_def Let_def nth_append)
  then show ?thesis unfolding frc_law_def sample_net_codes using r
    by (auto simp: sample_net_def sample_codes_def to_coordinator_def Let_def drop_take)
qed

definition sample_state :: "bytes ota" where
  "sample_state = new_ota \<lparr>net = [], frcTime = 0, exclusive = True, s_status = 0, s_statusStr = ''ok'', s_results = [], sent = []\<rparr>"

definition sample_verify :: TOtaUploadInputParams where
  "sample_verify = \<lparr>deviceAddress = 255, o_hwpId = 0xFFFF, fileName = ''a.hex'', o_repeat = 0, startMemAddr = 0x300, loadingAction = ''Verify'',
     uploadEepromData = False, uploadEeepromData = False\<rparr>"

lemma verify_sample_bonded: "bitmapToNodes sample_net (0x22 # replicate 29 0) = [1, 5]"
proof -
  have "selectNodes [1, 5] = 0x22 # replicate 29 0" by code_simp
  moreover have "ascending [1, 5]" by (simp add: ascending_def)
  ultimately show ?thesis using selected_nodes[of sample_net "[1, 5]"] by (simp add: sample_net_codes)
qed

lemma verify_sample_exec:
  "exec_p sample_net rq t 0 (p, s) =
     (let d = (if rq_pnum rq = 13 \<and> rq_pcmd rq = 2 then 0 # take 55 (sample_results (rq_pdata rq))
               else if rq_pnum rq = 13 \<and> rq_pcmd rq = 1 then take 9 (drop 55 (net s)) else 0x22 # replicate 29 0)
      in ((Some \<lparr>tr_request = rq, tr_errorCode = 0, tr_errorString = ''ok'', tr_response = d\<rparr>,
           if rq_pnum rq = 13 \<and> rq_pcmd rq = 2 then s\<lparr>net := sample_results (rq_pdata rq)\<rparr> else s), Inr d))"
  by (simp add: exec_p_def executeDpaTransactionRepeat.simps sample_net_def sample_codes_def Let_def)

lemma sample_verified:
  "\<exists>s'. verifyCode sample_net sample_verify Verify Hex (PreparedData [] 64 7) sample_state = (s', Inr ()) \<and> m_nodesList s' = [1, 5]"
proof -
  have r: "repeat_of sample_verify = 0" "o_hwpId sample_verify = HWPID_DoNotCheck sample_net"
    by (simp_all add: repeat_of_def sample_verify_def sample_net_def sample_codes_def)
  have c: "rq_pnum (to_coordinator sample_net a b d) = a" "rq_pcmd (to_coordinator sample_net a b d) = b" for a b d by (simp_all add: to_coordinator_def)
  have k: "PNUM_COORDINATOR sample_net = 0" "PNUM_FRC sample_net = 13" "CMD_FRC_SET_PARAMS sample_net = 3" "CMD_FRC_SEND_SELECTIVE sample_net = 2"
    "FrcSend_Status sample_net (0 # d) = 0" "MAX_ADDRESS sample_net = 239" for d by (simp_all add: sample_net_def sample_codes_def)
  show ?thesis
    by (simp add: verifyCode_def nodes_to_verify_def getBondedNodes_def setFrcReponseTime_def try_p_def verify_sample_exec r c k Let_def verify_sample_bonded
        verify_loop.simps verify_chunk_def setFrcTime_def bind_s_def set_verify_def)
qed

theorem verification_results_witness:
  "\<exists>s'. verifyCode sample_net sample_verify Verify Hex (PreparedData [] 64 7) sample_state = (s', Inr ()) \<and>
    map_of (m_verifyResultMap s') = [1 \<mapsto> True, 5 \<mapsto> False]"
proof -
  obtain s' where s': "verifyCode sample_net sample_verify Verify Hex (PreparedData [] 64 7) sample_state = (s', Inr ())" "m_nodesList s' = [1, 5]"
    using sample_verified by blast
  have "m_verifyResultMap sample_state = []" by (simp add: sample_state_def new_ota_def)
  from verification_results[OF s'(1) sample_frc_law sample_net_codes(3) this] s' show ?thesis
    by (auto simp: fun_eq_iff sample_answer_def)
qed

section \<open>Types of the devices\<close>

lemma read_chunk_length:
  assumes "read_chunk E prm address nodes s = (s', Inr d)"
  shows "length d = (if 13 < length nodes then 59 else 51)"
  using assms by (auto simp: read_chunk_def frcMemoryRead4BSelective_def frcExtraResult_def bind_s_Inr try_p_Inr split: if_splits)

lemma frcOsMcuData_length:
  assumes "frcOsMcuData E prm offset bonded s = (s', Inr data)" "bonded \<noteq> []" "length bonded \<le> 15"
  shows "length data = (if 13 < length bonded then 59 else 51)"
proof -
  obtain d s1 where "read_chunk E prm (0x04A0 + offset) bonded s = (s1, Inr d)" "data = d"
    using assms unfolding frcOsMcuData_def
    by (subst (asm) frcOsMcuData_loop.simps) (auto simp: bind_s_Inr frcOsMcuData_loop.simps[of _ _ _ "[]"])
  then show ?thesis using read_chunk_length by blast
qed

lemma device_at_range:
  assumes "i < 64"
  shows "device_at data i = (if 4 * i + 3 < length data then Inr (device_info (data ! (4 * i)) (data ! (4 * i + 1)) (data ! (4 * i + 2)) (data ! (4 * i + 3)))
    else Inl (UB ''vector index''))"
proof -
  have "unat (of_nat (4 * i) :: u8) = 4 * i" using assms by (intro unat_of_nat_u8) simp
  then show ?thesis by (simp add: device_at_def vec_at_def Let_def bind_r_def)
qed

text \<open>
  The types of the devices of a network of up to 15 nodes are read in one FRC command. All reads of the collected bytes are inside the vector except in a network
  of 13 or of 15 nodes: the last device then needs one byte more than the service has copied, because it asks for the extra result only for
  more than 13 nodes and copies only 8 of its 9 bytes.\<close>

theorem device_types_bounds:
  assumes "frcOsMcuData E prm offset bonded s = (s', Inr data)" "bonded \<noteq> []" "length bonded \<le> 15"
  shows "if length bonded = 13 \<or> length bonded = 15 then device_at data (length bonded - 1) = Inl (UB ''vector index'')
    else \<forall>i < length bonded. \<exists>d. device_at data i = Inr d"
proof -
  have l: "length data = (if 13 < length bonded then 59 else 51)" by (rule frcOsMcuData_length[OF assms])
  show ?thesis
  proof (cases "length bonded = 13 \<or> length bonded = 15")
    case True
    then show ?thesis using l by (auto simp: device_at_range)
  next
    case False
    have "\<exists>d. device_at data i = Inr d" if "i < length bonded" for i
      using that False assms(3) l by (auto simp: device_at_range split: if_splits)
    then show ?thesis using False by auto
  qed
qed

theorem device_types_bounds_witness:
  "\<exists>s' data. frcOsMcuData sample_net sample_verify 4 (replicate 13 1) sample_state = (s', Inr data) \<and> device_at data 12 = Inl (UB ''vector index'')"
proof -
  have "repeat_of sample_verify = 0" "FrcSend_Status sample_net (0 # d) = 0" "MAX_ADDRESS sample_net = 239" for d
    by (simp_all add: repeat_of_def sample_verify_def sample_net_def sample_codes_def)
  then have "\<exists>s' data. frcOsMcuData sample_net sample_verify 4 (replicate 13 1) sample_state = (s', Inr data)"
    by (simp add: frcOsMcuData_def frcOsMcuData_loop.simps read_chunk_def frcMemoryRead4BSelective_def try_p_def bind_s_def verify_sample_exec Let_def
        to_coordinator_def) (simp add: sample_net_def sample_codes_def)
  then obtain s' data where "frcOsMcuData sample_net sample_verify 4 (replicate 13 1) sample_state = (s', Inr data)" by blast
  from device_types_bounds[OF this] this show ?thesis by auto
qed

end
