(* ===== verification/Backup_Restore.thy ===== *)
theory Backup_Restore
  imports Dpa_Service Hex_String
begin

text \<open>
  Backup and restore of the network data: \<open>IqrfBackup/IqrfBackup.cpp\<close>, \<open>IqrfRestore/IqrfRestore.cpp\<close> and the services \<open>IqmeshServices/BackupService\<close> and
  \<open>IqmeshServices/RestoreService\<close>. A device hands out its data in blocks of \<open>BLOCK\<close> bytes, the last of which says how many blocks remain. The backup is the number of blocks, a check byte and
  the blocks; the client gets it as a hexadecimal text and sends it back for the restoration.

  The member \<open>m_errorCode\<close> of both components is \<open>s_status\<close>, their list of transactions \<open>s_results\<close>.
\<close>

record 'n backup_env = "'n dpa_env" +
  PNUM_ENUMERATION :: u8
  CMD_GET_PER_INFO :: u8
  CMD_COORDINATOR_BACKUP :: u8
  CMD_COORDINATOR_RESTORE :: u8
  CMD_NODE_BACKUP :: u8
  CMD_NODE_RESTORE :: u8
  CMD_OS_RESET :: u8
  BLOCK :: nat
  EmbeddedPers :: "bytes \<Rightarrow> bytes"
  OSRead_MID :: "bytes \<Rightarrow> u32"
  OSRead_DpaVersion :: "bytes \<Rightarrow> u16"
  NetworkData :: "bytes \<Rightarrow> bytes"
  roundProgress :: "nat \<Rightarrow> nat \<Rightarrow> int"

section \<open>Transactions\<close>

text \<open>The handlers of these components store the error code only.\<close>

definition report_code :: "trans_result option \<Rightarrow> exc \<Rightarrow> (('n, 'z) svc_scheme, 'a) act" where
  "report_code ptr e s =
     (case what e of
        None \<Rightarrow> (s, Inl e)
      | Some w \<Rightarrow>
          (case ptr of
             None \<Rightarrow> (s, Inl (UB ''nullptr''))
           | Some tr \<Rightarrow> (s\<lparr>s_status := tr_errorCode tr, s_results := s_results s @ [tr]\<rparr>, Inl (LogicError w))))"

definition try_code :: "(trans_result option \<times> ('n, 'z) svc_scheme, 'a) act \<Rightarrow> (('n, 'z) svc_scheme, 'a) act" where
  "try_code body s =
     (case body (None, s) of ((ptr, s'), Inr x) \<Rightarrow> (s', Inr x) | ((ptr, s'), Inl e) \<Rightarrow> report_code ptr e s')"

definition per_found :: "('n, 'e) backup_env_scheme \<Rightarrow> bytes \<Rightarrow> u8 \<Rightarrow> bool" where
  "per_found E rsp p \<longleftrightarrow> uint (EmbeddedPers E rsp ! (unat p div 8)) AND push_bit (unat p) 1 = push_bit (unat p) 1"

definition checkPresentCoordAndCoordOs :: "('n, 'e) backup_env_scheme \<Rightarrow> (('n, 'z) svc_scheme, unit) act" where
  "checkPresentCoordAndCoordOs E =
     try_code (bind_s (exec_p E (to_coordinator E (PNUM_ENUMERATION E) (CMD_GET_PER_INFO E) []) (-1) 1) (\<lambda>rsp.
       if \<not> per_found E rsp (PNUM_COORDINATOR E) then throw (LogicError ''Coordinator peripheral NOT found.'')
       else if \<not> per_found E rsp (PNUM_OS E) then throw (LogicError ''OS peripheral NOT found.'')
       else add_p))"

definition to_node :: "('n, 'e) dpa_env_scheme \<Rightarrow> u16 \<Rightarrow> u8 \<Rightarrow> u8 \<Rightarrow> bytes \<Rightarrow> request" where
  "to_node E nadr pnum pcmd pdata =
     \<lparr>rq_nadr = nadr, rq_pnum = pnum, rq_pcmd = pcmd, rq_hwpid = HWPID_DoNotCheck E, rq_pdata = pdata\<rparr>"

definition readOsInfo :: "('n, 'e) backup_env_scheme \<Rightarrow> u16 \<Rightarrow> (('n, 'z) svc_scheme, bytes) act" where
  "readOsInfo E deviceAddress =
     try_code (bind_s (exec_p E (to_node E deviceAddress (PNUM_OS E) (CMD_OS_READ E) []) (-1) 3) (\<lambda>rsp. bind_s add_p (\<lambda>_. ret rsp)))"

text \<open>Addresses from 1 on.\<close>

definition bondedAddresses :: "('n, 'e) backup_env_scheme \<Rightarrow> (('n, 'z) svc_scheme, u16 list) act" where
  "bondedAddresses E =
     try_code (bind_s (exec_p E (to_coordinator E (PNUM_COORDINATOR E) (CMD_COORDINATOR_BONDED_DEVICES E) []) (-1) 2) (\<lambda>rsp.
       bind_s add_p (\<lambda>_.
         ret (map of_nat (filter (\<lambda>i. rsp ! (i div 8) AND push_bit (i mod 8) 1 \<noteq> 0) [1..<Suc (unat (MAX_ADDRESS E))])))))"

section \<open>Backup\<close>

definition backup_request :: "('n, 'e) backup_env_scheme \<Rightarrow> u16 \<Rightarrow> u8 \<Rightarrow> request" where
  "backup_request E deviceAddress index =
     (if deviceAddress = COORDINATOR_ADDRESS E then to_node E deviceAddress (PNUM_COORDINATOR E) (CMD_COORDINATOR_BACKUP E) [index]
      else to_node E deviceAddress (PNUM_NODE E) (CMD_NODE_BACKUP E) [index])"

text \<open>
  The loop ends when a block says that no block remains: \<open>None\<close> when the device never does. Its index is a byte.
\<close>

partial_function (option) backup_loop ::
    "('n, 'e) backup_env_scheme \<Rightarrow> u16 \<Rightarrow> u8 \<Rightarrow> bytes \<Rightarrow> ('n, 'z) svc_scheme \<Rightarrow>
     ((trans_result option \<times> ('n, 'z) svc_scheme) \<times> (u8 \<times> bytes) result) option" where
  "backup_loop E deviceAddress index data s =
     (case exec_p E (backup_request E deviceAddress index) (-1) 3 (None, s) of
        (ps, Inl e) \<Rightarrow> Some (ps, Inl e)
      | (ps, Inr rsp) \<Rightarrow>
          (case add_p ps of
             (ps, _) \<Rightarrow>
               if NetworkData E rsp ! (BLOCK E - 1) = 0 then Some (ps, Inr (index + 1, data @ take (BLOCK E) (NetworkData E rsp)))
               else backup_loop E deviceAddress (index + 1) (data @ take (BLOCK E) (NetworkData E rsp)) (snd ps)))"

declare backup_loop.simps [code]

definition crc8 :: "bytes \<Rightarrow> u8" where
  "crc8 data = fold (\<lambda>b c. c XOR b) data 0x5f"

text \<open>The number of blocks is a byte: its upper half is always zero.\<close>

definition readBackupData :: "('n, 'e) backup_env_scheme \<Rightarrow> u16 \<Rightarrow> ('n, 'z) svc_scheme \<Rightarrow> (('n, 'z) svc_scheme \<times> bytes result) option" where
  "readBackupData E deviceAddress s =
     (case backup_loop E deviceAddress 0 [] s of
        None \<Rightarrow> None
      | Some ((ptr, s'), Inl e) \<Rightarrow> Some (report_code ptr e s')
      | Some ((ptr, s'), Inr (index, data)) \<Rightarrow> Some (s', Inr ([index, 0, crc8 data] @ data)))"

record DeviceBackupData =
  d_address :: u16
  d_online :: bool
  d_mid :: u32
  d_dpaVersion :: u16
  d_data :: bytes

definition no_data :: "u16 \<Rightarrow> DeviceBackupData" where
  "no_data address = \<lparr>d_address = address, d_online = False, d_mid = 0, d_dpaVersion = 0, d_data = []\<rparr>"

text \<open>\<open>refused\<close>: the text of the exception when the exclusive access is taken. The access is released on every path but undefined behaviour.\<close>

definition release :: "('n, 'z) svc_scheme \<times> 'a result \<Rightarrow> ('n, 'z) svc_scheme \<times> 'a result" where
  "release r =
     (case r of
        (s, Inr x) \<Rightarrow> (s\<lparr>exclusive := False\<rparr>, Inr x)
      | (s, Inl e) \<Rightarrow> (case what e of None \<Rightarrow> (s, Inl e) | Some w \<Rightarrow> (s\<lparr>exclusive := False\<rparr>, Inl (LogicError w))))"

definition backup ::
    "('n, 'e) backup_env_scheme \<Rightarrow> string option \<Rightarrow> u16 \<Rightarrow> ('n, 'z) svc_scheme \<Rightarrow> (('n, 'z) svc_scheme \<times> DeviceBackupData result) option" where
  "backup E refused address s =
     (case refused of
        Some w \<Rightarrow> Some (s\<lparr>s_status := 1002\<rparr>, Inl (LogicError w))
      | None \<Rightarrow>
          (case bind_s (checkPresentCoordAndCoordOs E) (\<lambda>_. readOsInfo E address) (s\<lparr>s_status := 0, exclusive := True, s_results := []\<rparr>) of
             (s, Inl e) \<Rightarrow> Some (release (s, Inl e))
           | (s, Inr osInfo) \<Rightarrow>
               map_option (\<lambda>(s, r). release (s, bind_r r (\<lambda>data.
                   Inr \<lparr>d_address = address, d_online = True, d_mid = OSRead_MID E osInfo, d_dpaVersion = OSRead_DpaVersion E osInfo, d_data = data\<rparr>)))
                 (readBackupData E address s)))"

section \<open>Restoration\<close>

definition restore_request :: "('n, 'e) backup_env_scheme \<Rightarrow> u16 \<Rightarrow> bytes \<Rightarrow> request" where
  "restore_request E deviceAddress block =
     (if deviceAddress = COORDINATOR_ADDRESS E then to_node E deviceAddress (PNUM_COORDINATOR E) (CMD_COORDINATOR_RESTORE E) block
      else to_node E deviceAddress (PNUM_NODE E) (CMD_NODE_RESTORE E) block)"

text \<open>
  \<open>std::string::copy\<close> throws when the offset is behind the end and otherwise overwrites the beginning of the field with what there is: the rest of the field is what the
  memory contains, \<open>junk\<close>. The loop runs at least once.
\<close>

function restore_loop ::
    "('n, 'e) backup_env_scheme \<Rightarrow> bytes \<Rightarrow> u16 \<Rightarrow> bytes \<Rightarrow> nat \<Rightarrow> int \<Rightarrow> (trans_result option \<times> ('n, 'z) svc_scheme, unit) act" where
  "restore_loop E junk deviceAddress data offset restoreCycles =
     (if offset > length data \<or> BLOCK E = 0 then throw (OutOfRange ''basic_string::copy'')
      else let block = take (BLOCK E) (drop offset data) in
        bind_s (exec_p E (restore_request E deviceAddress (take (BLOCK E) (block @ drop (length block) junk))) (-1) 3) (\<lambda>_.
        bind_s add_p (\<lambda>_.
          if restoreCycles - 1 = 0 then ret ()
          else restore_loop E junk deviceAddress data (offset + BLOCK E) (restoreCycles - 1))))"
  by pat_completeness auto
termination by (relation "measure (\<lambda>(E, _, _, data, offset, _). Suc (length data) - offset)") auto

declare restore_loop.simps [simp del]

definition writeBackupData :: "('n, 'e) backup_env_scheme \<Rightarrow> bytes \<Rightarrow> u16 \<Rightarrow> bytes \<Rightarrow> (('n, 'z) svc_scheme, unit) act" where
  "writeBackupData E junk deviceAddress networkData =
     try_code (restore_loop E junk deviceAddress networkData 0 (int (length networkData div BLOCK E)))"

definition restartDevice :: "('n, 'e) backup_env_scheme \<Rightarrow> u16 \<Rightarrow> (('n, 'z) svc_scheme, unit) act" where
  "restartDevice E deviceAddress =
     try_code (bind_s (exec_p E (to_node E deviceAddress (PNUM_OS E) (CMD_OS_RESET E) []) (-1) 2) (\<lambda>_. add_p))"

text \<open>Reading an element of a string: the position after the last one is the null character.\<close>

definition str_at :: "bytes \<Rightarrow> nat \<Rightarrow> u8 result" where
  "str_at s i = (if i < length s then Inr (s ! i) else if i = length s then Inr 0 else Inl (UB ''basic_string index''))"

definition restore ::
    "('n, 'e) backup_env_scheme \<Rightarrow> bytes \<Rightarrow> string option \<Rightarrow> u16 \<Rightarrow> bytes \<Rightarrow> bool \<Rightarrow> (('n, 'z) svc_scheme, unit) act" where
  "restore E junk refused deviceAddress backupData restartCoordinator s =
     (if deviceAddress \<noteq> COORDINATOR_ADDRESS E
      then (s\<lparr>s_status := 1003\<rparr>, Inl (LogicError ''Restore function of [N] device is currently not supported.''))
      else case bind_r (str_at backupData 1) (\<lambda>hi. bind_r (str_at backupData 0) (\<lambda>lo. Inr (256 * unat hi + unat lo))) of
        Inl e \<Rightarrow> (s\<lparr>s_status := 0\<rparr>, Inl e)
      | Inr count \<Rightarrow>
          if count * BLOCK E + 3 \<noteq> length backupData then (s\<lparr>s_status := 1004\<rparr>, Inl (LogicError ''Incorrect backupData size.''))
          else if crc8 (drop 3 backupData) \<noteq> backupData ! 2 then (s\<lparr>s_status := 1005\<rparr>, Inl (LogicError ''BackupData CRC8 mismatch.''))
          else (case refused of
             Some w \<Rightarrow> (s\<lparr>s_status := 1002\<rparr>, Inl (LogicError w))
           | None \<Rightarrow>
               release (bind_s (checkPresentCoordAndCoordOs E) (\<lambda>_.
                 bind_s (writeBackupData E junk deviceAddress (drop 3 backupData)) (\<lambda>_.
                   if restartCoordinator then bind_s (restartDevice E deviceAddress) (\<lambda>_. checkPresentCoordAndCoordOs E) else ret ()))
                 (s\<lparr>s_status := 0, exclusive := True, s_results := []\<rparr>))))"

section \<open>Backup service\<close>

record TBackupInputParams =
  b_deviceAddress :: u16
  b_wholeNetwork :: bool

text \<open>The address as both services read it.\<close>

definition parse_address :: "('n, 'e) dpa_env_scheme \<Rightarrow> json \<Rightarrow> u16 result" where
  "parse_address E doc =
     (case jget [''data'', ''req'', ''deviceAddr''] doc of
        None \<Rightarrow> Inr (COORDINATOR_ADDRESS E)
      | Some _ \<Rightarrow>
          bind_r (int_member [''data'', ''req'', ''deviceAddr''] doc 0) (\<lambda>n.
            let addr = (of_int n :: u32) in Inr (if addr < ucast (MAX_ADDRESS E) then ucast addr else COORDINATOR_ADDRESS E)))"

definition parse_backup :: "('n, 'e) dpa_env_scheme \<Rightarrow> json \<Rightarrow> TBackupInputParams result" where
  "parse_backup E doc =
     bind_r (parse_address E doc) (\<lambda>a.
     bind_r (bool_member [''data'', ''req'', ''wholeNetwork''] doc False) (\<lambda>w. Inr \<lparr>b_deviceAddress = a, b_wholeNetwork = w\<rparr>))"

definition raw_member :: "('n, 'e) dpa_env_scheme \<Rightarrow> com_base \<Rightarrow> ('n, 'z) svc_scheme \<Rightarrow> (string list \<times> json) list" where
  "raw_member E com s = (if c_verbose com then [([''data'', ''raw''], JArr (map (rawObject E) (s_results s)))] else [])"

text \<open>\<open>getTransResults\<close> takes the results out of the list.\<close>

definition getTransResults :: "com_base \<Rightarrow> ('n, 'z) svc_scheme \<Rightarrow> ('n, 'z) svc_scheme" where
  "getTransResults com s = (if c_verbose com then s\<lparr>s_results := []\<rparr> else s)"

definition sendBackupError :: "('n, 'e) dpa_env_scheme \<Rightarrow> com_base \<Rightarrow> string \<Rightarrow> int \<Rightarrow> string \<Rightarrow> (('n, 'z) svc_scheme, unit) act" where
  "sendBackupError E com mType status str s =
     send_response E
       (jset_all ([([''mType''], JStr mType), ([''data'', ''msgId''], JStr (c_msgId com))] @ raw_member E com s
          @ [([''data'', ''status''], JNum status), ([''data'', ''statusStr''], JStr str)]) JNull)
       (getTransResults com s)"

definition backup_text :: "bytes \<Rightarrow> string" where
  "backup_text data = concat (map (\<lambda>byte. pad_left 2 (CHR ''0'') (show_hex (unat byte))) data)"

definition backup_object :: "DeviceBackupData \<Rightarrow> json" where
  "backup_object d =
     JObj ([(''deviceAddr'', JNum (uint (d_address d))), (''online'', JBool (d_online d))]
       @ (if d_online d
          then [(''mid'', JNum (uint (d_mid d))), (''dpaVer'', JNum (uint (d_dpaVersion d AND 0x3fff))), (''data'', JStr (backup_text (d_data d)))]
          else []))"

definition sendBackupResult ::
    "('n, 'e) dpa_env_scheme \<Rightarrow> com_base \<Rightarrow> string \<Rightarrow> int \<Rightarrow> string \<Rightarrow> DeviceBackupData \<Rightarrow> int \<Rightarrow> (('n, 'z) svc_scheme, unit) act" where
  "sendBackupResult E com mType status str d progress s =
     send_response E
       (jset_all ([([''mType''], JStr mType), ([''data'', ''msgId''], JStr (c_msgId com)), ([''data'', ''rsp'', ''progress''], JNum progress),
           ([''data'', ''rsp'', ''devices''], JArr [backup_object d])] @ raw_member E com s
          @ [([''data'', ''status''], JNum status), ([''data'', ''statusStr''], JStr str)]) JNull)
       (getTransResults com s)"

text \<open>
  One response per device; \<open>refused k\<close> says whether the exclusive access is refused for the \<open>k\<close>-th one. The progress is a sum of floating-point numbers, rounded:
  \<open>roundProgress E k n\<close> after \<open>k\<close> of \<open>n\<close> devices.
\<close>

definition device_outcome :: "u16 \<Rightarrow> DeviceBackupData result \<Rightarrow> (string \<times> DeviceBackupData) result" where
  "device_outcome device r =
     (case r of Inr d \<Rightarrow> Inr (''ok'', d) | Inl e \<Rightarrow> (case what e of None \<Rightarrow> Inl e | Some w \<Rightarrow> Inr (w, no_data device)))"

fun backup_devices ::
    "('n, 'e) backup_env_scheme \<Rightarrow> (nat \<Rightarrow> string option) \<Rightarrow> com_base \<Rightarrow> string \<Rightarrow> nat \<Rightarrow> nat \<Rightarrow> u16 list \<Rightarrow> ('n, 'z) svc_scheme \<Rightarrow>
     (('n, 'z) svc_scheme \<times> unit result) option" where
  "backup_devices E refused com mType cnt k [] s = Some (s, Inr ())"
| "backup_devices E refused com mType cnt k (device # devices) s =
     (case backup E (refused k) device s of
        None \<Rightarrow> None
      | Some (s, r) \<Rightarrow>
          (case device_outcome device r of
             Inl e \<Rightarrow> Some (s, Inl e)
           | Inr (statusStr, d) \<Rightarrow>
               (case sendBackupResult E com mType (s_status s) statusStr d (roundProgress E (Suc k) cnt) s of
                  (s, Inl e) \<Rightarrow> Some (s, Inl e)
                | (s, Inr _) \<Rightarrow> backup_devices E refused com mType cnt (Suc k) devices s)))"

definition runBackup ::
    "('n, 'e) backup_env_scheme \<Rightarrow> (nat \<Rightarrow> string option) \<Rightarrow> com_base \<Rightarrow> string \<Rightarrow> TBackupInputParams \<Rightarrow> ('n, 'z) svc_scheme \<Rightarrow>
     (('n, 'z) svc_scheme \<times> unit result) option" where
  "runBackup E refused com mType prm s =
     (if b_wholeNetwork prm
      then case bondedAddresses E s of
             (s, Inl e) \<Rightarrow> Some (s, Inl e)
           | (s, Inr nodes) \<Rightarrow> backup_devices E refused com mType (Suc (length nodes)) 0 (COORDINATOR_ADDRESS E # nodes) s
      else backup_devices E refused com mType 1 0 [b_deviceAddress prm] s)"

definition handle_backup ::
    "('n, 'e) backup_env_scheme \<Rightarrow> (nat \<Rightarrow> string option) \<Rightarrow> string \<Rightarrow> json \<Rightarrow> ('n, 'z) svc_scheme \<Rightarrow> (('n, 'z) svc_scheme \<times> unit result) option" where
  "handle_backup E refused mType doc s =
     (if mType \<noteq> ''iqmeshNetwork_Backup'' then Some (s, Inl (LogicError ''Unsupported message type: ''))
      else case bind_r (ComBase doc) (\<lambda>com. bind_r (parse_backup E doc) (\<lambda>prm. Inr (com, prm))) of
        Inl e \<Rightarrow> Some (s, Inl e)
      | Inr (com, prm) \<Rightarrow>
          map_option (\<lambda>(s, r). case r of Inr _ \<Rightarrow> (s, r)
              | Inl e \<Rightarrow> (case what e of None \<Rightarrow> (s, r) | Some w \<Rightarrow> sendBackupError E com mType (s_status s) w s))
            (runBackup E refused com mType prm s))"

section \<open>Restore service\<close>

record TRestoreInputParams =
  r_deviceAddress :: u16
  r_data :: string
  r_restartCoodinator :: bool

definition parse_restore :: "('n, 'e) dpa_env_scheme \<Rightarrow> json \<Rightarrow> TRestoreInputParams result" where
  "parse_restore E doc =
     bind_r (parse_address E doc) (\<lambda>a.
     bind_r (string_member [''data'', ''req'', ''data''] doc []) (\<lambda>d.
     bind_r (bool_member [''data'', ''req'', ''restartCoordinator''] doc False) (\<lambda>r.
       Inr \<lparr>r_deviceAddress = a, r_data = d, r_restartCoodinator = r\<rparr>)))"

text \<open>\<open>strtol\<close> with base 16 of a short string: white space, a sign, \<open>0x\<close> and digits; 0 when there are none.\<close>

definition strtol16 :: "string \<Rightarrow> int" where
  "strtol16 s =
     (case split_sign (dropWhile isspace s) of
        (neg, t) \<Rightarrow> (let v = int (hex_number (takeWhile isxdigit (split_0x t))) in if neg then - v else v))"

fun restore_data :: "string \<Rightarrow> bytes" where
  "restore_data [] = []"
| "restore_data [a] = [of_int (strtol16 [a])]"
| "restore_data (a # b # text') = of_int (strtol16 [a, b]) # restore_data text'"

definition sendRestoreResult ::
    "('n, 'e) dpa_env_scheme \<Rightarrow> com_base \<Rightarrow> string \<Rightarrow> int \<Rightarrow> string \<Rightarrow> TRestoreInputParams \<Rightarrow> int \<Rightarrow> (('n, 'z) svc_scheme, unit) act" where
  "sendRestoreResult E com mType status str prm progress s =
     send_response E
       (jset_all ([([''mType''], JStr mType), ([''data'', ''msgId''], JStr (c_msgId com)), ([''data'', ''rsp'', ''progress''], JNum progress),
           ([''data'', ''rsp'', ''devices''],
            JArr [JObj [(''deviceAddr'', JNum (uint (r_deviceAddress prm))), (''restoreStatus'', JBool (str = ''ok''))]])] @ raw_member E com s
          @ [([''data'', ''status''], JNum status), ([''data'', ''statusStr''], JStr str)]) JNull)
       (getTransResults com s)"

definition runRestore ::
    "('n, 'e) backup_env_scheme \<Rightarrow> bytes \<Rightarrow> string option \<Rightarrow> com_base \<Rightarrow> string \<Rightarrow> TRestoreInputParams \<Rightarrow> (('n, 'z) svc_scheme, unit) act" where
  "runRestore E junk refused com mType prm s =
     (case restore E junk refused (r_deviceAddress prm) (restore_data (r_data prm)) (r_restartCoodinator prm) s of
        (s, Inr _) \<Rightarrow> sendRestoreResult E com mType (s_status s) ''ok'' prm 100 s
      | (s, Inl e) \<Rightarrow> (case what e of None \<Rightarrow> (s, Inl e) | Some w \<Rightarrow> sendRestoreResult E com mType (s_status s) w prm 100 s))"

definition handle_restore ::
    "('n, 'e) backup_env_scheme \<Rightarrow> bytes \<Rightarrow> string option \<Rightarrow> string \<Rightarrow> json \<Rightarrow> (('n, 'z) svc_scheme, unit) act" where
  "handle_restore E junk refused mType doc s =
     (if mType \<noteq> ''iqmeshNetwork_Restore'' then (s, Inl (LogicError ''Unsupported message type: ''))
      else case bind_r (ComBase doc) (\<lambda>com. bind_r (parse_restore E doc) (\<lambda>prm. Inr (com, prm))) of
        Inl e \<Rightarrow> (s, Inl e)
      | Inr (com, prm) \<Rightarrow>
          (case runRestore E junk refused com mType prm s of
             (s, Inr _) \<Rightarrow> (s, Inr ())
           | (s, Inl e) \<Rightarrow>
               (case what e of None \<Rightarrow> (s, Inl e)
                | Some w \<Rightarrow> send_response E (error_response mType (c_msgId com) (s_status s) w) s)))"

end
