(* ===== verification/Backup_Props.thy ===== *)
theory Backup_Props
  imports Backup_Restore
begin

text \<open>
  Properties of backup and restoration: the loop of the backup ends for every device that counts its blocks down, the backup is complete, it comes back through its text, a damaged one is refused before
  anything is sent, and a backup without blocks is not.
\<close>

section \<open>Backup\<close>

text \<open>
  What the device promises: the confirmed request for block \<open>i\<close> is answered by that block, and the last byte of a block is the number of those that follow.
\<close>

definition backup_law :: "('n, 'e) backup_env_scheme \<Rightarrow> u16 \<Rightarrow> bytes list \<Rightarrow> bool" where
  "backup_law E addr blocks \<longleftrightarrow>
     0 < BLOCK E \<and> blocks \<noteq> [] \<and> length blocks \<le> 256 \<and>
     (\<forall>i<length blocks. length (blocks ! i) = BLOCK E \<and> blocks ! i ! (BLOCK E - 1) = of_nat (length blocks - 1 - i)) \<and>
     (\<forall>i<length blocks. \<forall>t n n' tr. execTransaction E (backup_request E addr (of_nat i)) t n = (n', Inr tr) \<and> tr_errorCode tr = TRN_OK E \<longrightarrow>
        take (BLOCK E) (NetworkData E (tr_response tr)) = blocks ! i)"

lemma backup_lawD:
  assumes "backup_law E addr blocks" "i < length blocks"
  shows "0 < BLOCK E" "length blocks \<le> 256" "length (blocks ! i) = BLOCK E" "blocks ! i ! (BLOCK E - 1) = of_nat (length blocks - 1 - i)"
    "execTransaction E (backup_request E addr (of_nat i)) t n = (n', Inr tr) \<Longrightarrow> tr_errorCode tr = TRN_OK E \<Longrightarrow>
     take (BLOCK E) (NetworkData E (tr_response tr)) = blocks ! i"
  using assms unfolding backup_law_def by blast+

lemma of_nat_u8_0: "n < 256 \<Longrightarrow> (of_nat n :: u8) = 0 \<longleftrightarrow> n = 0"
  using unat_of_nat_u8[of n] by (auto simp: word_unat_eq_iff)

lemma backup_block:
  assumes "backup_law E addr blocks" "i < length blocks" "exec_p E (backup_request E addr (of_nat i)) (-1) 3 (None, s) = (ps, Inr rsp)"
  shows "take (BLOCK E) (NetworkData E rsp) = blocks ! i \<and> (NetworkData E rsp ! (BLOCK E - 1) = 0 \<longleftrightarrow> Suc i = length blocks)"
proof -
  obtain p' s' where ps: "ps = (p', s')" by fastforce
  have "\<exists>n1 n' tr. True \<and> execTransaction E (backup_request E addr (of_nat i)) (-1) n1 = (n', Inr tr) \<and> tr_errorCode tr = TRN_OK E \<and>
      p' = Some tr \<and> s' = s\<lparr>net := n'\<rparr> \<and> rsp = tr_response tr"
    by (rule exec_p_success[OF assms(3)[unfolded ps]]) simp_all
  then have b: "take (BLOCK E) (NetworkData E rsp) = blocks ! i" using backup_lawD(5)[OF assms(1,2)] by blast
  have "NetworkData E rsp ! (BLOCK E - 1) = take (BLOCK E) (NetworkData E rsp) ! (BLOCK E - 1)" using backup_lawD(1)[OF assms(1,2)] by simp
  then have "NetworkData E rsp ! (BLOCK E - 1) = of_nat (length blocks - 1 - i)" using backup_lawD(4)[OF assms(1,2)] b by simp
  moreover have "(of_nat (length blocks - 1 - i) :: u8) = 0 \<longleftrightarrow> length blocks - 1 - i = 0"
    using backup_lawD(2)[OF assms(1,2)] assms(2) by (intro of_nat_u8_0) linarith
  ultimately show ?thesis using b assms(2) by auto
qed

lemma backup_loop_ends:
  assumes "backup_law E addr blocks" "i < length blocks"
  shows "\<exists>ps r. backup_loop E addr (of_nat i) data s = Some (ps, r) \<and> sent (snd ps) = sent s \<and>
    (\<forall>x. r = Inr x \<longrightarrow> x = (of_nat (length blocks), data @ concat (drop i blocks)))"
  using assms(2)
proof (induction "length blocks - i" arbitrary: i data s)
  case (Suc k)
  obtain ps r where e: "exec_p E (backup_request E addr (of_nat i)) (-1) 3 (None, s) = (ps, r)" by fastforce
  have se: "sent (snd ps) = sent s" using keeps_sent(1)[unfolded keeps_def] e by (metis fst_conv snd_conv)
  show ?case
  proof (cases r)
    case (Inl x)
    then show ?thesis using e se by (subst backup_loop.simps) simp
  next
    case (Inr rsp)
    obtain ptr s1 where a: "add_p ps = ((ptr, s1), Inr ())" "sent s1 = sent s" using se by (cases "fst ps"; cases ps) auto
    note b = backup_block[OF assms(1) Suc.prems e[unfolded Inr]]
    have d: "drop i blocks = blocks ! i # drop (Suc i) blocks" using Suc.prems by (simp add: Cons_nth_drop_Suc)
    have si: "(of_nat i :: u8) + 1 = of_nat (Suc i)" by simp
    show ?thesis
    proof (cases "Suc i = length blocks")
      case True
      then show ?thesis using e Inr a b d by (subst backup_loop.simps) (auto simp flip: True)
    next
      case False
      have "backup_loop E addr (of_nat i) data s = backup_loop E addr (of_nat (Suc i)) (data @ blocks ! i) s1"
        using e Inr a b False by (subst backup_loop.simps) (simp add: si)
      then show ?thesis using Suc.hyps(1)[of "Suc i" "data @ blocks ! i" s1] Suc.hyps(2) Suc.prems False d a(2) by auto
    qed
  qed
qed simp

text \<open>The backup of a device with these blocks.\<close>

definition backup_of :: "bytes list \<Rightarrow> bytes" where
  "backup_of blocks = [of_nat (length blocks), 0, crc8 (concat blocks)] @ concat blocks"

lemma readBackupData_ends:
  assumes "backup_law E addr blocks"
  shows "\<exists>s' r. readBackupData E addr s = Some (s', r) \<and> sent s' = sent s \<and> (\<forall>x. r = Inr x \<longrightarrow> x = backup_of blocks)"
proof -
  have "0 < length blocks" using assms by (simp add: backup_law_def)
  from backup_loop_ends[OF assms this, of "[]" s] obtain ptr s' r where
    "backup_loop E addr 0 [] s = Some ((ptr, s'), r)" "sent s' = sent s" "\<forall>x. r = Inr x \<longrightarrow> x = (of_nat (length blocks), concat blocks)" by auto
  then show ?thesis by (cases r) (auto simp: readBackupData_def report_code_def backup_of_def split: option.split)
qed

lemma release_free: "release r = (s, x) \<Longrightarrow> (\<And>w. x \<noteq> Inl (UB w)) \<Longrightarrow> \<not> exclusive s"
  by (auto simp: release_def what_def split: prod.splits sum.splits option.splits exc.splits)

lemma release_Inr: "release r = (s, Inr x) \<Longrightarrow> \<exists>s1. r = (s1, Inr x) \<and> s = s1\<lparr>exclusive := False\<rparr>"
  by (auto simp: release_def split: prod.splits sum.splits option.splits)

lemma sent_release: "release r = (s, x) \<Longrightarrow> sent s = sent (fst r)"
  by (auto simp: release_def split: prod.splits sum.splits option.splits)

lemma keeps_try_code [keeps_rules]: "keeps (\<lambda>ps. sent (snd ps)) m \<Longrightarrow> keeps sent (try_code m)"
  by (auto simp: keeps_def try_code_def report_code_def split: prod.split sum.split option.split) (metis fst_conv snd_conv)+

lemma keeps_backup_parts [keeps_rules]: "keeps sent (checkPresentCoordAndCoordOs E)" "keeps sent (readOsInfo E a)" "keeps sent (bondedAddresses E)"
  unfolding checkPresentCoordAndCoordOs_def readOsInfo_def bondedAddresses_def by (intro keeps_rules)+

lemma backup_ends:
  assumes "backup_law E addr blocks"
  shows "\<exists>s' r. backup E refused addr s = Some (s', r) \<and> sent s' = sent s \<and>
    (\<forall>d. r = Inr d \<longrightarrow> d_address d = addr \<and> d_online d \<and> d_data d = backup_of blocks)"
proof (cases refused)
  case None
  let ?s = "s\<lparr>s_status := 0, exclusive := True, s_results := []\<rparr>"
  obtain s1 r1 where 1: "bind_s (checkPresentCoordAndCoordOs E) (\<lambda>_. readOsInfo E addr) ?s = (s1, r1)" by fastforce
  have "keeps sent (bind_s (checkPresentCoordAndCoordOs E) (\<lambda>_. readOsInfo E addr))" by (intro keeps_rules)
  then have se: "sent s1 = sent s" using 1 by (auto simp: keeps_def dest!: spec[of _ ?s])
  show ?thesis
  proof (cases r1)
    case (Inl e)
    then have b: "backup E refused addr s = Some (release (s1, Inl e))" using None 1 by (simp add: backup_def)
    obtain s' r where "release (s1, Inl e :: DeviceBackupData result) = (s', r)" by fastforce
    then show ?thesis unfolding b using se by (auto dest: release_Inr sent_release)
  next
    case (Inr osInfo)
    obtain s2 r2 where 2: "readBackupData E addr s1 = Some (s2, r2)" "sent s2 = sent s1" "\<forall>x. r2 = Inr x \<longrightarrow> x = backup_of blocks"
      using readBackupData_ends[OF assms, of s1] by blast
    let ?rel = "release (s2, bind_r r2 (\<lambda>data.
      Inr \<lparr>d_address = addr, d_online = True, d_mid = OSRead_MID E osInfo, d_dpaVersion = OSRead_DpaVersion E osInfo, d_data = data\<rparr>))"
    have b: "backup E refused addr s = Some ?rel" using None 1 2 Inr by (simp add: backup_def)
    obtain s' r where rel: "?rel = (s', r)" by fastforce
    then show ?thesis unfolding b using 2(2,3) se sent_release[OF rel] by (auto dest!: release_Inr simp: bind_r_eq_Inr)
  qed
qed (simp add: backup_def)

section \<open>Restoration\<close>

lemma concat_block:
  "\<forall>b\<in>set blocks. length b = m \<Longrightarrow> i < length blocks \<Longrightarrow> take m (drop (m * i) (concat blocks)) = blocks ! i"
proof (induction blocks arbitrary: i)
  case (Cons b blocks)
  then show ?case by (cases i) (simp_all add: less_Suc_eq_0_disj)
qed simp

lemma length_concat_blocks: "\<forall>b\<in>set blocks. length b = m \<Longrightarrow> length (concat blocks) = m * length blocks"
  by (induction blocks) auto

text \<open>
  The blocks a coordinator has taken over. A block that comes again, because its confirmation was lost, is not stored twice; a confirmed block is stored, one whose
  transaction failed may be; other requests store none.
\<close>

definition take_block :: "bytes list \<Rightarrow> bytes \<Rightarrow> bytes list" where
  "take_block xs b = (if xs \<noteq> [] \<and> last xs = b then xs else xs @ [b])"

definition is_restore :: "('n, 'e) backup_env_scheme \<Rightarrow> request \<Rightarrow> bool" where
  "is_restore E rq \<longleftrightarrow> rq_nadr rq = COORDINATOR_ADDRESS E \<and> rq_pnum rq = PNUM_COORDINATOR E \<and> rq_pcmd rq = CMD_COORDINATOR_RESTORE E"

definition restore_law :: "('n, 'e) backup_env_scheme \<Rightarrow> ('n \<Rightarrow> bytes list) \<Rightarrow> bool" where
  "restore_law E taken \<longleftrightarrow>
     0 < BLOCK E \<and> PNUM_COORDINATOR E \<noteq> PNUM_ENUMERATION E \<and> PNUM_COORDINATOR E \<noteq> PNUM_OS E \<and>
     (\<forall>rq t n n' r. execTransaction E rq t n = (n', r) \<longrightarrow>
        (if is_restore E rq then taken n' = take_block (taken n) (rq_pdata rq) \<or> \<not> ok_tr E r \<and> taken n' = taken n else taken n' = taken n))"

lemma take_block_idem [simp]: "take_block (take_block xs b) b = take_block xs b"
  by (simp add: take_block_def)

lemma restore_exec:
  assumes "restore_law E taken" "exec_p E rq t k (p, s) = ((p', s'), Inr rsp)" "0 \<le> k"
  shows "taken (net s') = (if is_restore E rq then take_block (taken (net s)) (rq_pdata rq) else taken (net s))"
proof -
  let ?P = "\<lambda>n. taken n = taken (net s) \<or> is_restore E rq \<and> taken n = take_block (taken (net s)) (rq_pdata rq)"
  note law = assms(1)[unfolded restore_law_def, THEN conjunct2, THEN conjunct2, THEN conjunct2, rule_format]
  have "\<exists>n1 n' tr. ?P n1 \<and> execTransaction E rq t n1 = (n', Inr tr) \<and> tr_errorCode tr = TRN_OK E \<and> p' = Some tr \<and>
      s' = s\<lparr>net := n'\<rparr> \<and> rsp = tr_response tr"
    by (rule exec_p_success[OF assms(2,3)]) (auto dest!: law split: if_splits)
  then show ?thesis by (auto dest!: law simp: ok_tr_def split: if_splits)
qed

lemma restore_loop_taken:
  assumes "restore_law E taken" "\<forall>b\<in>set blocks. length b = BLOCK E"
    and "restore_loop E junk (COORDINATOR_ADDRESS E) (concat blocks) (BLOCK E * i) (int (length blocks - i)) (None, s) = (ps', Inr ())" "i < length blocks"
  shows "taken (net (snd ps')) = foldl take_block (taken (net s)) (drop i blocks)"
  using assms(3,4)
proof (induction "length blocks - i" arbitrary: i s)
  case (Suc k)
  let ?rq = "restore_request E (COORDINATOR_ADDRESS E) (blocks ! i)"
  have b: "take (BLOCK E) (drop (BLOCK E * i) (concat blocks)) = blocks ! i" by (rule concat_block[OF assms(2) Suc.prems(2)])
  have len: "length (blocks ! i) = BLOCK E" using assms(2) Suc.prems(2) by simp
  have off: "\<not> BLOCK E * i > length (concat blocks)" "BLOCK E \<noteq> 0"
    using Suc.prems(2) assms(1) by (simp_all add: length_concat_blocks[OF assms(2)] restore_law_def)
  have d: "drop i blocks = blocks ! i # drop (Suc i) blocks" using Suc.prems(2) by (simp add: Cons_nth_drop_Suc)
  have rq: "is_restore E ?rq" "rq_pdata ?rq = blocks ! i" by (simp_all add: is_restore_def restore_request_def to_node_def)
  have step: "restore_loop E junk (COORDINATOR_ADDRESS E) (concat blocks) (BLOCK E * i) c =
      bind_s (exec_p E ?rq (-1) 3) (\<lambda>_. bind_s add_p (\<lambda>_.
        if c - 1 = 0 then ret () else restore_loop E junk (COORDINATOR_ADDRESS E) (concat blocks) (BLOCK E * i + BLOCK E) (c - 1)))" for c
    using off by (subst restore_loop.simps) (simp add: b len)
  obtain ps1 rsp ps2 x where 1: "exec_p E ?rq (-1) 3 (None, s) = (ps1, Inr rsp)" "add_p ps1 = (ps2, Inr x)"
    and 2: "(if int (length blocks - i) - 1 = 0 then ret () else restore_loop E junk (COORDINATOR_ADDRESS E) (concat blocks) (BLOCK E * i + BLOCK E)
        (int (length blocks - i) - 1)) ps2 = (ps', Inr ())"
    using Suc.prems(1)[unfolded step bind_s_Inr] by blast
  obtain s2 where s2: "ps2 = (None, s2)" "net s2 = net (snd ps1)" using 1(2) by (auto simp: add_p_def split: option.splits prod.splits)
  then have t: "taken (net s2) = take_block (taken (net s)) (blocks ! i)" using restore_exec[OF assms(1), of ?rq _ _ _ s "fst ps1" "snd ps1"] 1(1) rq by simp
  show ?case
  proof (cases "Suc i = length blocks")
    case True
    then show ?thesis using 2 t d s2(1) by (auto simp flip: True)
  next
    case False
    then have "int (length blocks - i) - 1 = int (length blocks - Suc i)" "Suc i < length blocks" using Suc.prems(2) by auto
    then show ?thesis using Suc.hyps(1)[of "Suc i" s2] Suc.hyps(2) 2 t d s2(1) by (simp add: algebra_simps)
  qed
qed simp

lemma try_code_Inr: "try_code b s = (s', Inr x) \<longleftrightarrow> (\<exists>ptr. b (None, s) = ((ptr, s'), Inr x))"
  by (auto simp: try_code_def report_code_def split: prod.split sum.split option.split)

lemma add_p_net: "add_p ps = (ps', r) \<Longrightarrow> net (snd ps') = net (snd ps)"
  by (auto simp: add_p_def split: prod.splits option.splits)

lemma other_requests_taken:
  assumes "restore_law E taken"
  shows "checkPresentCoordAndCoordOs E s = (s', Inr x) \<Longrightarrow> taken (net s') = taken (net s)"
    and "restartDevice E a s = (s', Inr x) \<Longrightarrow> taken (net s') = taken (net s)"
proof -
  have no: "\<not> is_restore E (to_coordinator E (PNUM_ENUMERATION E) c d)" "\<not> is_restore E (to_node E a (PNUM_OS E) c d)" for a c d
    using assms by (auto simp: is_restore_def to_coordinator_def to_node_def restore_law_def)
  show "taken (net s') = taken (net s)" if c: "checkPresentCoordAndCoordOs E s = (s', Inr x)"
  proof -
    obtain ps1 rsp p2 where "exec_p E (to_coordinator E (PNUM_ENUMERATION E) (CMD_GET_PER_INFO E) []) (-1) 1 (None, s) = (ps1, Inr rsp)"
      "net s' = net (snd ps1)"
      using c by (auto simp: checkPresentCoordAndCoordOs_def try_code_Inr bind_s_Inr dest!: add_p_net split: if_splits)
    then show ?thesis using restore_exec[OF assms, of _ _ _ None s "fst ps1" "snd ps1"] no(1) by simp
  qed
  show "taken (net s') = taken (net s)" if c: "restartDevice E a s = (s', Inr x)"
  proof -
    obtain ps1 rsp where "exec_p E (to_node E a (PNUM_OS E) (CMD_OS_RESET E) []) (-1) 2 (None, s) = (ps1, Inr rsp)" "net s' = net (snd ps1)"
      using c by (auto simp: restartDevice_def try_code_Inr bind_s_Inr dest!: add_p_net)
    then show ?thesis using restore_exec[OF assms, of _ _ _ None s "fst ps1" "snd ps1"] no(2) by simp
  qed
qed

text \<open>The text of the backup.\<close>

lemma strtol_pair: "strtol16 (hex_pair b) = int (unat b)"
proof -
  let ?a = "unat b div 16" and ?c = "unat b mod 16"
  have h: "isxdigit (hex_char ?a)" "isxdigit (hex_char ?c)" by simp_all
  have "hex_char ?c \<noteq> CHR ''x'' \<and> hex_char ?c \<noteq> CHR ''X''" using h(2) by (auto simp: isxdigit_def hex_val_def isdigit_def)
  then show ?thesis using isxdigit_facts[OF h(1)] h
    by (simp add: strtol16_def split_sign_def split_0x_def hex_number_def)
qed

lemma restore_data_text: "restore_data (backup_text bs) = bs"
proof (induction bs)
  case (Cons b bs)
  have "backup_text (b # bs) = hex_pair b @ backup_text bs" by (simp add: backup_text_def pad_hex_byte)
  then show ?case using Cons strtol_pair[of b] by simp
qed (simp add: backup_text_def)

lemma take_blocks:
  assumes "sorted_wrt (\<noteq>) (map last blocks)" "\<forall>b\<in>set blocks. xs = [] \<or> last (last xs) \<noteq> last b"
  shows "foldl take_block xs blocks = xs @ blocks"
  using assms by (induction blocks arbitrary: xs) (auto simp: take_block_def)

lemma countdown_distinct:
  assumes "backup_law E addr blocks"
  shows "sorted_wrt (\<noteq>) (map last blocks)"
proof -
  have l: "last (blocks ! i) = of_nat (length blocks - 1 - i)" if "i < length blocks" for i
    using backup_lawD[OF assms that] by (subst last_conv_nth) auto
  have "length blocks \<le> 256" using assms by (simp add: backup_law_def)
  then have "last (blocks ! i) \<noteq> last (blocks ! j)" if "i < j" "j < length blocks" for i j
    using l[of i] l[of j] that unat_of_nat_u8[of "length blocks - 1 - i"] unat_of_nat_u8[of "length blocks - 1 - j"] by (auto simp: word_unat_eq_iff)
  then show ?thesis by (simp add: sorted_wrt_iff_nth_less)
qed

text \<open>A response that reports the data of a device reports all of them.\<close>

definition complete :: "(u16 \<Rightarrow> bytes list) \<Rightarrow> json \<Rightarrow> bool" where
  "complete mem rsp \<longleftrightarrow>
     (\<forall>d. jget [''data'', ''rsp'', ''devices''] rsp = Some (JArr [backup_object d]) \<and> d_online d \<longrightarrow> d_data d = backup_of (mem (d_address d)))"

lemma backup_object_inj:
  assumes "backup_object d = backup_object d'" "d_online d'"
  shows "d_online d \<and> d_address d = d_address d' \<and> d_data d = d_data d'"
proof -
  have e: "backup_text (d_data d) = backup_text (d_data d')" "d_online d" "uint (d_address d) = uint (d_address d')"
    using assms by (cases "d_online d"; simp add: backup_object_def)+
  have "d_address d = d_address d'" using e(3) by (metis word_of_int_uint)
  moreover have "d_data d = d_data d'" using arg_cong[OF e(1), of restore_data] unfolding restore_data_text .
  ultimately show ?thesis using e(2) by blast
qed

lemma complete_result:
  assumes "sendBackupResult E com mType status str d progress s = (s', r)" "d_online d \<Longrightarrow> d_data d = backup_of (mem (d_address d))"
  shows "\<exists>new. sent s' = sent s @ new \<and> (\<forall>rsp\<in>set new. complete mem rsp) \<and> (r = Inr () \<longrightarrow> new \<noteq> [])"
proof -
  let ?rsp = "jset_all ([([''mType''], JStr mType), ([''data'', ''msgId''], JStr (c_msgId com)), ([''data'', ''rsp'', ''progress''], JNum progress),
           ([''data'', ''rsp'', ''devices''], JArr [backup_object d])] @ raw_member E com s
          @ [([''data'', ''status''], JNum status), ([''data'', ''statusStr''], JStr str)]) JNull"
  have "jget [''data'', ''rsp'', ''devices''] ?rsp = Some (JArr [backup_object d])"
    using jset_all_read[of "raw_member E com s @ [([''data'', ''status''], JNum status), ([''data'', ''statusStr''], JStr str)]"
        "[''data'', ''rsp'', ''devices'']" "[([''mType''], JStr mType), ([''data'', ''msgId''], JStr (c_msgId com)), ([''data'', ''rsp'', ''progress''], JNum progress)]"]
    by (simp add: raw_member_def)
  moreover have "d_data d' = backup_of (mem (d_address d'))" if "backup_object d = backup_object d'" "d_online d'" for d'
    using backup_object_inj[OF that] assms(2) by simp
  ultimately have "complete mem ?rsp" by (auto simp: complete_def)
  then show ?thesis using assms(1)
    by (auto simp: sendBackupResult_def send_response_def getTransResults_def split: sum.splits if_splits)
qed

lemma complete_error:
  assumes "sendBackupError E com mType status str s = (s', r)"
  shows "\<exists>new. sent s' = sent s @ new \<and> (\<forall>rsp\<in>set new. complete mem rsp) \<and> (r = Inr () \<longrightarrow> new \<noteq> [])"
proof -
  let ?rsp = "jset_all ([([''mType''], JStr mType), ([''data'', ''msgId''], JStr (c_msgId com))] @ raw_member E com s
          @ [([''data'', ''status''], JNum status), ([''data'', ''statusStr''], JStr str)]) JNull"
  have "jget [''data'', ''rsp'', ''devices''] ?rsp = jget [''data'', ''rsp'', ''devices''] JNull"
    by (rule jset_all_other) (auto simp: raw_member_def)
  then have "complete mem ?rsp" by (simp add: complete_def jget.simps)
  then show ?thesis using assms by (auto simp: sendBackupError_def send_response_def getTransResults_def split: sum.splits if_splits)
qed

lemma backup_devices_complete:
  assumes "\<forall>a. backup_law E a (mem a)"
  shows "\<exists>s' r new. backup_devices E refused com mType cnt k devices s = Some (s', r) \<and> sent s' = sent s @ new \<and>
    (\<forall>rsp\<in>set new. complete mem rsp) \<and> (r = Inr () \<and> devices \<noteq> [] \<longrightarrow> new \<noteq> [])"
proof (induction devices arbitrary: k s)
  case (Cons device devices)
  obtain s1 r1 where b: "backup E (refused k) device s = Some (s1, r1)" "sent s1 = sent s"
    "\<forall>d. r1 = Inr d \<longrightarrow> d_address d = device \<and> d_online d \<and> d_data d = backup_of (mem device)"
    using backup_ends assms by blast
  show ?case
  proof (cases "device_outcome device r1")
    case (Inl e)
    then show ?thesis using b by simp
  next
    case (Inr o1)
    obtain str d where o1: "o1 = (str, d)" by fastforce
    have d: "d_online d \<Longrightarrow> d_data d = backup_of (mem (d_address d))"
      using Inr b(3) by (auto simp: o1 device_outcome_def no_data_def split: sum.splits option.splits)
    obtain s2 r2 where s2: "sendBackupResult E com mType (s_status s1) str d (roundProgress E (Suc k) cnt) s1 = (s2, r2)" by fastforce
    obtain new2 where new2: "sent s2 = sent s @ new2" "\<forall>rsp\<in>set new2. complete mem rsp" "r2 = Inr () \<longrightarrow> new2 \<noteq> []"
      using complete_result[where mem = mem, OF s2 d] b(2) by auto
    show ?thesis
    proof (cases r2)
      case (Inl e)
      then show ?thesis using b(1) Inr o1 s2 new2 by auto
    next
      case r2: (Inr x)
      obtain s' r new where "backup_devices E refused com mType cnt (Suc k) devices s2 = Some (s', r)" "sent s' = sent s2 @ new"
        "\<forall>rsp\<in>set new. complete mem rsp" using Cons.IH by blast
      then show ?thesis using b(1) Inr o1 s2 new2 r2 by auto
    qed
  qed
qed simp

lemma runBackup_complete:
  assumes "\<forall>a. backup_law E a (mem a)"
  shows "\<exists>s' r new. runBackup E refused com mType prm s = Some (s', r) \<and> sent s' = sent s @ new \<and>
    (\<forall>rsp\<in>set new. complete mem rsp) \<and> (r = Inr () \<longrightarrow> new \<noteq> [])"
proof (cases "b_wholeNetwork prm")
  case True
  obtain s1 r1 where 1: "bondedAddresses E s = (s1, r1)" by fastforce
  then have "sent s1 = sent s" using keeps_backup_parts(3) by (metis keeps_def fst_conv)
  then show ?thesis using True 1 backup_devices_complete[OF assms, of refused com mType _ 0 _ s1]
    by (cases r1) (fastforce simp: runBackup_def simp del: backup_devices.simps)+
next
  case False
  then show ?thesis using backup_devices_complete[OF assms, of refused com mType 1 0 "[b_deviceAddress prm]" s] by (simp add: runBackup_def del: backup_devices.simps)
qed

section \<open>The check byte\<close>

lemma crc_xor: "fold (\<lambda>b c. c XOR b) xs (a XOR y) = fold (\<lambda>b c. c XOR b) xs (a :: u8) XOR y"
proof (induction xs arbitrary: a)
  case (Cons x xs)
  have "(a XOR y) XOR x = (a XOR x) XOR y" by (simp add: ac_simps)
  then show ?case using Cons by simp
qed simp

lemma crc_update: "k < length xs \<Longrightarrow> fold (\<lambda>b c. c XOR b) (xs[k := v]) (a :: u8) = fold (\<lambda>b c. c XOR b) xs a XOR (xs ! k XOR v)"
proof (induction xs arbitrary: k a)
  case (Cons x xs)
  show ?case
  proof (cases k)
    case 0
    have "a XOR v = (a XOR x) XOR (x XOR v)" by (simp add: bit_eq_iff bit_xor_iff) blast
    then show ?thesis using 0 by (simp add: crc_xor)
  qed (use Cons in simp)
qed simp

lemma crc8_update: "k < length xs \<Longrightarrow> v \<noteq> xs ! k \<Longrightarrow> crc8 (xs[k := v]) \<noteq> crc8 xs"
  using crc_update[of k xs v "0x5f"] by (auto simp: crc8_def bit_eq_iff bit_xor_iff)

lemma restore_loop_behind: "0 < BLOCK E \<Longrightarrow> restore_loop E junk a [] (BLOCK E) c ps = (ps, Inl (OutOfRange ''basic_string::copy''))"
  by (subst restore_loop.simps) simp

section \<open>Properties\<close>


text \<open>
  C9: What was backed up comes back: when a restoration with the text of a backup succeeds on a coordinator that has not taken any block yet, the coordinator has taken exactly the blocks of the
  backup in their order, also when transactions had to be repeated, and the exclusive access is free.\<close>

theorem backup_restored:
  assumes "backup E refused addr s = Some (s1, Inr d)" "backup_law E addr blocks" "length blocks < 256"
    and "restore_law E2 taken" "BLOCK E2 = BLOCK E" "taken (net s2) = []"
    and "restore E2 junk None (COORDINATOR_ADDRESS E2) (restore_data (backup_text (d_data d))) restart s2 = (s3, Inr ())"
  shows "taken (net s3) = blocks \<and> \<not> exclusive s3"
proof -
  have data: "d_data d = backup_of blocks" using backup_ends[OF assms(2)] assms(1) by (metis option.inject prod.inject)
  have len: "\<forall>b\<in>set blocks. length b = BLOCK E2" using assms(2,5) by (auto simp: backup_law_def in_set_conv_nth)
  have n: "0 < length blocks" "0 < BLOCK E2" using assms(2,5) by (auto simp: backup_law_def)
  let ?w = "bind_s (checkPresentCoordAndCoordOs E2) (\<lambda>_.
      bind_s (writeBackupData E2 junk (COORDINATOR_ADDRESS E2) (concat blocks)) (\<lambda>_.
        if restart then bind_s (restartDevice E2 (COORDINATOR_ADDRESS E2)) (\<lambda>_. checkPresentCoordAndCoordOs E2) else ret ()))
      (s2\<lparr>s_status := 0, exclusive := True, s_results := []\<rparr>)"
  have "release ?w = (s3, Inr ())"
    using assms(7) n assms(3) length_concat_blocks[OF len]
    by (auto simp: restore_data_text data backup_of_def restore_def str_at_def unat_of_nat_u8 split: if_splits)
  then obtain s4 where w: "?w = (s4, Inr ())" and s3: "s3 = s4\<lparr>exclusive := False\<rparr>" by (auto dest!: release_Inr)
  then obtain sa x sb y where a: "checkPresentCoordAndCoordOs E2 (s2\<lparr>s_status := 0, exclusive := True, s_results := []\<rparr>) = (sa, Inr x)"
    and b: "writeBackupData E2 junk (COORDINATOR_ADDRESS E2) (concat blocks) sa = (sb, Inr y)"
    and c: "(if restart then bind_s (restartDevice E2 (COORDINATOR_ADDRESS E2)) (\<lambda>_. checkPresentCoordAndCoordOs E2) else ret ()) sb = (s4, Inr ())"
    by (auto simp only: bind_s_Inr)
  have "taken (net s4) = taken (net sb)"
    using c by (auto simp: bind_s_Inr dest!: other_requests_taken[OF assms(4)] split: if_splits)
  moreover have "taken (net sb) = foldl take_block (taken (net sa)) blocks"
  proof -
    have "length (concat blocks) div BLOCK E2 = length blocks" using n length_concat_blocks[OF len] by simp
    then obtain ptr where "restore_loop E2 junk (COORDINATOR_ADDRESS E2) (concat blocks) (BLOCK E2 * 0) (int (length blocks - 0)) (None, sa) = ((ptr, sb), Inr ())"
      using b by (auto simp: writeBackupData_def try_code_Inr)
    from restore_loop_taken[OF assms(4) len this n(1)] show ?thesis by simp
  qed
  moreover have "taken (net sa) = []" using other_requests_taken(1)[OF assms(4) a] assms(6) by simp
  ultimately show ?thesis using take_blocks[OF countdown_distinct[OF assms(2)], of "[]"] s3 by simp
qed

text \<open>
  C25: A backup of which one byte has been changed is refused before anything is sent to the coordinator: a wrong number of blocks as a wrong size, any other byte by the check byte.\<close>

theorem damaged_backup_refused:
  assumes "backup E refused addr s = Some (s1, Inr d)" "backup_law E addr blocks" "length blocks < 256" "BLOCK E2 = BLOCK E"
    and "k < length (d_data d)" "v \<noteq> d_data d ! k"
  shows "restore E2 junk refused2 (COORDINATOR_ADDRESS E2) ((d_data d)[k := v]) restart s2 =
    (s2\<lparr>s_status := if k < 2 then 1004 else 1005\<rparr>,
     Inl (LogicError (if k < 2 then ''Incorrect backupData size.'' else ''BackupData CRC8 mismatch.'')))"
proof -
  let ?c = "concat blocks"
  have data: "d_data d = backup_of blocks" using backup_ends[OF assms(2)] assms(1) by (metis option.inject prod.inject)
  have len: "\<forall>b\<in>set blocks. length b = BLOCK E2" using assms(2,4) by (auto simp: backup_law_def in_set_conv_nth)
  have n: "length ?c = BLOCK E2 * length blocks" "0 < BLOCK E2" using length_concat_blocks[OF len] assms(2,4) by (auto simp: backup_law_def)
  consider "k = 0" | "k = 1" | "k = 2" | j where "k = Suc (Suc (Suc j))" by (metis One_nat_def Suc_1 not0_implies_Suc)
  then show ?thesis
  proof cases
    case 1
    then have "v \<noteq> of_nat (length blocks)" using assms(6) by (simp add: data backup_of_def)
    then have "unat v \<noteq> length blocks" using word_of_nat_unat[of v] by metis
    then show ?thesis using 1 n by (auto simp: data backup_of_def restore_def str_at_def)
  next
    case 2
    then have "0 < unat v" using assms(6) by (auto simp: data backup_of_def unat_gt_0)
    then have "256 * unat v + length blocks \<noteq> length blocks" by simp
    then have "(256 * unat v + length blocks) * BLOCK E2 \<noteq> length blocks * BLOCK E2" using n(2) by simp
    then show ?thesis using 2 n assms(3) by (simp add: data backup_of_def restore_def str_at_def unat_of_nat_u8 mult.commute)
  next
    case 3
    then show ?thesis using n assms(3,6) by (simp add: data backup_of_def restore_def str_at_def unat_of_nat_u8)
  next
    case 4
    then have "crc8 (?c[j := v]) \<noteq> crc8 ?c" using assms(5,6) by (intro crc8_update) (auto simp: data backup_of_def)
    then show ?thesis using 4 n assms(3) by (simp add: data backup_of_def restore_def str_at_def unat_of_nat_u8)
  qed
qed

text \<open>
  C35: A backup without blocks passes both checks. The loop nevertheless sends one block, which is memory that was never written, to the coordinator and stores it there; then it
  fails behind the end of the data and reads the error code through a null pointer.\<close>

theorem empty_backup_sends_garbage:
  assumes "checkPresentCoordAndCoordOs E (s\<lparr>s_status := 0, exclusive := True, s_results := []\<rparr>) = (s1, Inr ())"
    and "execTransaction E (restore_request E (COORDINATOR_ADDRESS E) (take (BLOCK E) junk)) (-1) (net s1) = (n', Inr tr)" "tr_errorCode tr = TRN_OK E"
    and "restore_law E taken"
  shows "\<exists>s'. restore E junk None (COORDINATOR_ADDRESS E) [0, 0, 0x5f] restart s = (s', Inl (UB ''nullptr'')) \<and>
    taken (net s') = take_block (taken (net s)) (take (BLOCK E) junk)"
proof -
  let ?rq = "restore_request E (COORDINATOR_ADDRESS E) (take (BLOCK E) junk)"
  have b: "0 < BLOCK E" using assms(4) by (simp add: restore_law_def)
  have "taken n' = take_block (taken (net s1)) (take (BLOCK E) junk)"
    using restore_exec[OF assms(4), of ?rq "-1" 3 None s1 "Some tr" "s1\<lparr>net := n'\<rparr>" "tr_response tr"] assms(2,3)
    by (simp add: is_restore_def restore_request_def to_node_def)
  then have t: "taken n' = take_block (taken (net s)) (take (BLOCK E) junk)" using other_requests_taken(1)[OF assms(4,1)] by simp
  have "restore_loop E junk (COORDINATOR_ADDRESS E) [] 0 0 (None, s1) =
      ((None, s1\<lparr>net := n', s_results := s_results s1 @ [tr]\<rparr>), Inl (OutOfRange ''basic_string::copy''))"
    using b assms(2,3) by (subst restore_loop.simps) (simp add: restore_loop_behind)
  then have "writeBackupData E junk (COORDINATOR_ADDRESS E) [] s1 = (s1\<lparr>net := n', s_results := s_results s1 @ [tr]\<rparr>, Inl (UB ''nullptr''))"
    by (simp add: writeBackupData_def try_code_def report_code_def what_def)
  then show ?thesis using assms(1) t by (simp add: restore_def str_at_def crc8_def release_def what_def)
qed

text \<open>
  C36: A request to restore a device whose address is not below \<open>MAX_ADDRESS\<close>, node 239 among them, or is negative is processed exactly as the request to restore the coordinator.\<close>

theorem restore_of_last_node_hits_coordinator:
  assumes "jget [''data'', ''req'', ''deviceAddr''] doc = Some (JNum n)" "is_int n" "n < 0 \<or> 239 \<le> n" "MAX_ADDRESS E = 239" "COORDINATOR_ADDRESS E = 0"
  shows "handle_restore E junk refused mType doc s = handle_restore E junk refused mType (jset [''data'', ''req'', ''deviceAddr''] (JNum 0) doc) s"
proof -
  let ?doc = "jset [''data'', ''req'', ''deviceAddr''] (JNum 0) doc"
  have "uint (of_int n :: u32) = n mod 2 ^ 32" by (simp add: uint_word_of_int)
  moreover have "239 \<le> n mod 2 ^ 32"
  proof (cases "n < 0")
    case True
    then have "n mod 2 ^ 32 = n + 2 ^ 32" using assms(2) mod_pos_pos_trivial[of "n + 2 ^ 32" "2 ^ 32"] by (simp add: is_int_def)
    then show ?thesis using assms(2) by (simp add: is_int_def)
  next
    case False
    then show ?thesis using assms(2,3) by (simp add: is_int_def)
  qed
  ultimately have "\<not> (of_int n :: u32) < 239" by (simp add: word_less_alt)
  then have "parse_address E doc = Inr 0" using assms by (simp add: parse_address_def int_member_def)
  moreover have "parse_address E ?doc = Inr 0" using assms by (simp add: parse_address_def int_member_def is_int_def)
  moreover have "ComBase ?doc = ComBase doc" by (simp add: ComBase_def jget_jset_apart)
  ultimately show ?thesis
    by (simp add: handle_restore_def parse_restore_def string_member_def bool_member_def jget_jset_apart)
qed

section \<open>A simulated device\<close>

text \<open>A device with two blocks of two bytes, which stores the blocks it is given.\<close>

definition two_blocks :: "bytes list" where
  "two_blocks = [[7, 1], [9, 0]]"

definition device_net :: "bytes list backup_env" where
  "device_net = dpa_env.extend (sample_codes\<lparr>execTransaction := \<lambda>rq t n.
     (let ok = \<lambda>d. Inr \<lparr>tr_request = rq, tr_errorCode = 0, tr_errorString = ''ok'', tr_response = d\<rparr> in
      if rq_pnum rq = 0xFF then (n, ok [5])
      else if rq_pnum rq = 0 \<and> rq_pcmd rq = 11 \<or> rq_pnum rq = 1 \<and> rq_pcmd rq = 6 then (n, ok (two_blocks ! unat (hd (rq_pdata rq))))
      else if rq_nadr rq = 0 \<and> rq_pnum rq = 0 \<and> rq_pcmd rq = 12 then (take_block n (rq_pdata rq), ok [])
      else (n, ok []))\<rparr>)
   (backup_env.fields 0xFF 0x3F 11 12 6 7 8 2 id (\<lambda>_. 1) (\<lambda>_. 0x0418) id (\<lambda>_ _. 100))"

definition device_svc :: "bytes list svc" where
  "device_svc = \<lparr>net = [], frcTime = 0, exclusive = False, s_status = 0, s_statusStr = [], s_results = [], sent = []\<rparr>"

lemma device_codes: "BLOCK device_net = 2" "NetworkData device_net = id" "TRN_OK device_net = 0" "PNUM_COORDINATOR device_net = 0" "PNUM_NODE device_net = 1"
    "CMD_COORDINATOR_BACKUP device_net = 11" "CMD_NODE_BACKUP device_net = 6" "COORDINATOR_ADDRESS device_net = 0" "CMD_COORDINATOR_RESTORE device_net = 12"
    "PNUM_ENUMERATION device_net = 0xFF" "PNUM_OS device_net = 2" "MAX_ADDRESS device_net = 239"
  by (simp_all add: device_net_def dpa_env.defs backup_env.defs sample_codes_def)

lemma device_laws: "backup_law device_net a two_blocks" "restore_law device_net id"
proof -
  have i: "i < length two_blocks \<Longrightarrow> i = 0 \<or> i = 1" for i by (auto simp: two_blocks_def)
  have "take 2 (two_blocks ! 0) = two_blocks ! 0" "take 2 (two_blocks ! 1) = two_blocks ! 1" by (simp_all add: two_blocks_def)
  then show "backup_law device_net a two_blocks" unfolding backup_law_def
    by (auto simp: device_codes backup_request_def to_node_def dest!: i)
      (auto simp: device_net_def dpa_env.defs backup_env.defs two_blocks_def Let_def)
  show "restore_law device_net id"
    unfolding restore_law_def is_restore_def device_codes
    by (auto simp: device_net_def dpa_env.defs backup_env.defs sample_codes_def Let_def ok_tr_def split: if_splits)
qed

definition backup_doc :: json where
  "backup_doc = JObj [(''mType'', JStr ''iqmeshNetwork_Backup''), (''data'', JObj [(''msgId'', JStr ''7''), (''req'', JObj [(''deviceAddr'', JNum 0)])])]"


lemma device_backup: "\<exists>s1 d. backup device_net None 0 device_svc = Some (s1, Inr d) \<and> d_data d = [2, 0, 0x50, 7, 1, 9, 0]"
proof -
  have "map_option (map_sum id d_data o snd) (backup device_net None 0 device_svc) = Some (Inr [2, 0, 0x50, 7, 1, 9, 0])" by code_simp
  then obtain s1 r where r: "backup device_net None 0 device_svc = Some (s1, r)" "map_sum id d_data r = Inr [2, 0, 0x50, 7, 1, 9, 0]" by auto
  then show ?thesis by (cases r) auto
qed

theorem backup_restored_witness:
  "\<exists>s3. restore device_net [] None 0 (restore_data (backup_text [2, 0, 0x50, 7, 1, 9, 0])) True device_svc = (s3, Inr ()) \<and> net s3 = [[7, 1], [9, 0]]"
proof -
  obtain s1 d where d: "backup device_net None 0 device_svc = Some (s1, Inr d)" "d_data d = [2, 0, 0x50, 7, 1, 9, 0]" using device_backup by blast
  have "snd (restore device_net [] None 0 (restore_data (backup_text [2, 0, 0x50, 7, 1, 9, 0])) True device_svc) = Inr ()" by code_simp
  then obtain s3 where s3: "restore device_net [] None (COORDINATOR_ADDRESS device_net) (restore_data (backup_text (d_data d))) True device_svc = (s3, Inr ())"
    unfolding d(2) device_codes by (metis prod.collapse)
  have "length two_blocks < 256" "id (net device_svc) = []" by (simp_all add: two_blocks_def device_svc_def)
  from backup_restored[OF d(1) device_laws(1) this(1) device_laws(2) refl this(2) s3] s3 show ?thesis
    unfolding d(2) device_codes by (simp add: two_blocks_def)
qed

theorem damaged_backup_refused_witness:
  "restore device_net [] None 0 [2, 0, 0x50, 7, 1, 8, 0] True device_svc =
    (device_svc\<lparr>s_status := 1005\<rparr>, Inl (LogicError ''BackupData CRC8 mismatch.''))"
proof -
  obtain s1 d where d: "backup device_net None 0 device_svc = Some (s1, Inr d)" "d_data d = [2, 0, 0x50, 7, 1, 9, 0]" using device_backup by blast
  have l: "length two_blocks < 256" by (simp add: two_blocks_def)
  have k: "5 < length (d_data d)" "8 \<noteq> d_data d ! 5" by (simp_all add: d(2))
  from damaged_backup_refused[OF d(1) device_laws(1) l refl k, of "[]" None True device_svc] show ?thesis unfolding d(2) device_codes by simp
qed

theorem empty_backup_sends_garbage_witness:
  "\<exists>s'. restore device_net [0xAA, 0xBB] None 0 [0, 0, 0x5f] False device_svc = (s', Inl (UB ''nullptr'')) \<and> net s' = [[0xAA, 0xBB]]"
proof -
  let ?s = "device_svc\<lparr>s_status := 0, exclusive := True, s_results := []\<rparr>"
  have "map_prod net id (checkPresentCoordAndCoordOs device_net ?s) = ([], Inr ())" by code_simp
  then obtain s1 where s1: "checkPresentCoordAndCoordOs device_net ?s = (s1, Inr ())" "net s1 = []" by (cases "checkPresentCoordAndCoordOs device_net ?s") auto
  let ?rq = "restore_request device_net (COORDINATOR_ADDRESS device_net) (take (BLOCK device_net) [0xAA, 0xBB])"
  have "map_prod id (map_sum id tr_errorCode) (execTransaction device_net ?rq (-1) []) = ([[0xAA, 0xBB]], Inr (TRN_OK device_net))" by code_simp
  then obtain n' tr where tr: "execTransaction device_net ?rq (-1) (net s1) = (n', Inr tr)" "tr_errorCode tr = TRN_OK device_net"
    unfolding s1(2) by (cases "execTransaction device_net ?rq (-1) []") (auto simp: map_sum_def split: sum.splits)
  from empty_backup_sends_garbage[OF s1(1) tr device_laws(2), of False] show ?thesis
    by (simp add: device_codes device_svc_def take_block_def)
qed

definition restore_doc :: "int \<Rightarrow> json" where
  "restore_doc n = JObj [(''mType'', JStr ''iqmeshNetwork_Restore''),
     (''data'', JObj [(''msgId'', JStr ''7''), (''req'', JObj [(''deviceAddr'', JNum n), (''data'', JStr ''02005007010900'')])])]"

theorem restore_of_last_node_hits_coordinator_witness:
  "net (fst (handle_restore device_net [] None ''iqmeshNetwork_Restore'' (restore_doc 239) device_svc)) = [[7, 1], [9, 0]]"
proof -
  have d: "jget [''data'', ''req'', ''deviceAddr''] (restore_doc 239) = Some (JNum 239)"
    "jset [''data'', ''req'', ''deviceAddr''] (JNum 0) (restore_doc 239) = restore_doc 0" "is_int 239" by code_simp+
  have "net (fst (handle_restore device_net [] None ''iqmeshNetwork_Restore'' (restore_doc 0) device_svc)) = [[7, 1], [9, 0]]" by code_simp
  then show ?thesis
    using restore_of_last_node_hits_coordinator[OF d(1,3) _ device_codes(12,8), of "[]" None "''iqmeshNetwork_Restore''" device_svc] d(2) by simp
qed

end
