(* ===== verification/Remove_Bond.thy ===== *)
theory Remove_Bond
  imports Dpa_Service
begin

text \<open>
  Removal of bonds, \<open>IqmeshServices/RemoveBondService\<close>: of one node or of the whole network with the cooperation of the nodes, or in the coordinator only. A list of
  addresses is given to the coordinator in batches of nine; the index into the list is a byte, and the loop over the list may not end: the service is a function with an optional result,
  \<open>None\<close> when it never returns.
\<close>

record 'n remove_env = "'n dpa_env" +
  CMD_COORDINATOR_REMOVE_BOND :: u8
  CMD_COORDINATOR_CLEAR_ALL_BONDS :: u8
  CMD_COORDINATOR_ADDR_INFO :: u8
  CMD_NODE_REMOVE_BOND :: u8
  CMD_OS_RESTART :: u8
  AddrInfo_DevNr :: "bytes \<Rightarrow> u8"
  dpaVerWord :: u16

record TRemoveBondInputParams =
  rb_deviceAddr :: u8
  rb_hwpId :: u16
  rb_wholeNetwork :: bool
  rb_repeat :: int
  rb_deviceAddrList :: "u8 list"
  rb_clearAllBonds :: bool

record 'n remove = "'n svc" +
  m_nodesNr :: u8
  m_notRemovedNodes :: "u8 list"

section \<open>Transactions\<close>

text \<open>The set bits of a bitmap from address 1 on.\<close>

definition bitmap_nodes :: "('n, 'e) dpa_env_scheme \<Rightarrow> bytes \<Rightarrow> u8 list" where
  "bitmap_nodes E bm =
     map of_nat (filter (\<lambda>i. bm ! (i div 8) AND push_bit (i mod 8) 1 \<noteq> 0) [1..<Suc (unat (MAX_ADDRESS E))])"

definition bonded_nodes :: "('n, 'e) remove_env_scheme \<Rightarrow> int \<Rightarrow> (('n, 'z) svc_scheme, u8 list) act" where
  "bonded_nodes E repeat =
     try_p (bind_s (exec_p E (to_coordinator E (PNUM_COORDINATOR E) (CMD_COORDINATOR_BONDED_DEVICES E) []) (-1) repeat) (\<lambda>rsp.
       bind_s add_p (\<lambda>_. ret (bitmap_nodes E rsp))))"

definition getAddressingInfo :: "('n, 'e) remove_env_scheme \<Rightarrow> int \<Rightarrow> (('n, 'z) remove_scheme, unit) act" where
  "getAddressingInfo E repeat =
     try_p (bind_s (exec_p E (to_coordinator E (PNUM_COORDINATOR E) (CMD_COORDINATOR_ADDR_INFO E) []) (-1) repeat) (\<lambda>rsp.
       bind_s add_p (\<lambda>_. lift_p (upd (\<lambda>s. s\<lparr>m_nodesNr := AddrInfo_DevNr E rsp\<rparr>)))))"

definition ack_request :: "('n, 'e) remove_env_scheme \<Rightarrow> u8 \<Rightarrow> u8 \<Rightarrow> u16 \<Rightarrow> bytes \<Rightarrow> request" where
  "ack_request E pnum pcmd hwpId data =
     to_coordinator E (PNUM_FRC E) (CMD_FRC_SEND E)
       (enc_FrcSend E (FRC_AcknowledgedBroadcastBits E)
         ([of_nat (5 + length data), pnum, pcmd, ucast (hwpId AND 0xFF), ucast (drop_bit 8 hwpId)] @ data))"

definition FRCAcknowledgedBroadcastBits ::
    "('n, 'e) remove_env_scheme \<Rightarrow> int \<Rightarrow> u8 \<Rightarrow> u8 \<Rightarrow> u16 \<Rightarrow> bytes \<Rightarrow> (('n, 'z) svc_scheme, u8 list) act" where
  "FRCAcknowledgedBroadcastBits E repeat pnum pcmd hwpId data =
     try_p (bind_s (exec_p E (ack_request E pnum pcmd hwpId data) (-1) repeat) (\<lambda>rsp.
       if FrcSend_Status E rsp \<le> MAX_ADDRESS E then bind_s add_p (\<lambda>_. ret (bitmap_nodes E (FrcSend_FrcData E rsp)))
       else throw (LogicError ''Bad FRC status: '')))"

definition coordRemoveBond :: "('n, 'e) remove_env_scheme \<Rightarrow> int \<Rightarrow> u8 \<Rightarrow> (('n, 'z) svc_scheme, unit) act" where
  "coordRemoveBond E repeat nodeAddr =
     try_p (bind_s (exec_p E (to_coordinator E (PNUM_COORDINATOR E) (CMD_COORDINATOR_REMOVE_BOND E) [nodeAddr]) (-1) repeat) (\<lambda>_. add_p))"

definition clearAllBonds :: "('n, 'e) remove_env_scheme \<Rightarrow> int \<Rightarrow> (('n, 'z) svc_scheme, unit) act" where
  "clearAllBonds E repeat =
     try_p (bind_s (exec_p E (to_coordinator E (PNUM_COORDINATOR E) (CMD_COORDINATOR_CLEAR_ALL_BONDS E) []) (-1) repeat) (\<lambda>_. add_p))"

definition node_request :: "u16 \<Rightarrow> u8 \<Rightarrow> u8 \<Rightarrow> u16 \<Rightarrow> bytes \<Rightarrow> request" where
  "node_request nadr pnum pcmd hwpId pdata = \<lparr>rq_nadr = nadr, rq_pnum = pnum, rq_pcmd = pcmd, rq_hwpid = hwpId, rq_pdata = pdata\<rparr>"

definition nodeRemoveBond :: "('n, 'e) remove_env_scheme \<Rightarrow> int \<Rightarrow> u8 \<Rightarrow> u16 \<Rightarrow> (('n, 'z) svc_scheme, unit) act" where
  "nodeRemoveBond E repeat nodeAddr hwpId =
     try_p (bind_s (exec_p E (node_request (ucast nodeAddr) (PNUM_NODE E) (CMD_NODE_REMOVE_BOND E) hwpId []) (-1) repeat) (\<lambda>_. add_p))"

text \<open>The batch is prepared in the packet, but only the header is copied to the request.\<close>

definition nodeRemoveBondBatch :: "('n, 'e) remove_env_scheme \<Rightarrow> int \<Rightarrow> u8 \<Rightarrow> u16 \<Rightarrow> (('n, 'z) svc_scheme, unit) act" where
  "nodeRemoveBondBatch E repeat nodeAddr hwpId =
     (let lo = ucast (hwpId AND 0xFF); hi = ucast (drop_bit 8 hwpId);
          packet = [5, PNUM_NODE E, CMD_NODE_REMOVE_BOND E, lo, hi, 5, PNUM_OS E, CMD_OS_RESTART E, lo, hi, 0 :: u8];
          request_data = take 0 packet
      in try_p (bind_s (exec_p E (node_request (ucast nodeAddr) (PNUM_OS E) (CMD_OS_BATCH E) hwpId request_data) (-1) repeat) (\<lambda>_. add_p)))"

section \<open>Batches\<close>

definition batch_entry :: "('n, 'e) remove_env_scheme \<Rightarrow> u8 \<Rightarrow> bytes" where
  "batch_entry E node =
     [6, ucast (COORDINATOR_ADDRESS E), CMD_COORDINATOR_REMOVE_BOND E, ucast (HWPID_DoNotCheck E AND 0xFF), ucast (drop_bit 8 (HWPID_DoNotCheck E)), node]"

text \<open>The inner loop, with the number of entries that still fit.\<close>

fun batch_loop :: "('n, 'e) remove_env_scheme \<Rightarrow> u8 list \<Rightarrow> nat \<Rightarrow> u8 \<Rightarrow> bytes \<times> u8" where
  "batch_loop E nodes 0 nodeIndex = ([], nodeIndex)"
| "batch_loop E nodes (Suc k) nodeIndex =
     (let entry = batch_entry E (nodes ! unat nodeIndex); nodeIndex' = nodeIndex + 1 in
      if 0 < k \<and> unat nodeIndex' < length nodes
      then case batch_loop E nodes k nodeIndex' of (d, i) \<Rightarrow> (entry @ d, i)
      else (entry, nodeIndex'))"

definition batch_request :: "('n, 'e) remove_env_scheme \<Rightarrow> bytes \<Rightarrow> request" where
  "batch_request E d = to_coordinator E (PNUM_OS E) (CMD_OS_BATCH E) (d @ [0])"

partial_function (option) remove_batches ::
    "('n, 'e) remove_env_scheme \<Rightarrow> int \<Rightarrow> u8 list \<Rightarrow> u8 \<Rightarrow> trans_result option \<times> ('n, 'z) svc_scheme \<Rightarrow>
     ((trans_result option \<times> ('n, 'z) svc_scheme) \<times> unit result) option" where
  "remove_batches E repeat nodes nodeIndex ps =
     (case batch_loop E nodes 9 nodeIndex of (d, nodeIndex') \<Rightarrow>
        (case exec_p E (batch_request E d) (-1) repeat ps of
           (ps, Inl e) \<Rightarrow> Some (ps, Inl e)
         | (ps, Inr _) \<Rightarrow>
             (case add_p ps of
                (ps, _) \<Rightarrow> if unat nodeIndex' < length nodes then remove_batches E repeat nodes nodeIndex' ps else Some (ps, Inr ()))))"

declare remove_batches.simps [code]

text \<open>Services with an optional result.\<close>

type_synonym ('s, 'a) oact = "'s \<Rightarrow> ('s \<times> 'a result) option"

definition lift_o :: "('s, 'a) act \<Rightarrow> ('s, 'a) oact" where
  "lift_o m s = Some (m s)"

definition bind_o :: "('s, 'a) oact \<Rightarrow> ('a \<Rightarrow> ('s, 'b) oact) \<Rightarrow> ('s, 'b) oact" where
  "bind_o m f s = (case m s of None \<Rightarrow> None | Some (s', Inl e) \<Rightarrow> Some (s', Inl e) | Some (s', Inr x) \<Rightarrow> f x s')"

definition coordRemoveBondBatch :: "('n, 'e) remove_env_scheme \<Rightarrow> int \<Rightarrow> u8 list \<Rightarrow> (('n, 'z) svc_scheme, unit) oact" where
  "coordRemoveBondBatch E repeat nodes s =
     (if nodes = [] then Some (s, Inr ())
      else map_option (\<lambda>((ptr, s'), r). case r of Inr x \<Rightarrow> (s', Inr x) | Inl e \<Rightarrow> report False ptr e s') (remove_batches E repeat nodes 0 (None, s)))"

section \<open>The service\<close>

definition removeBond_body :: "('n, 'e) remove_env_scheme \<Rightarrow> int \<Rightarrow> u8 \<Rightarrow> u16 \<Rightarrow> (('n, 'z) remove_scheme, unit) oact" where
  "removeBond_body E repeat nodeAddr hwpId =
     bind_o (lift_o (bonded_nodes E repeat)) (\<lambda>_.
     bind_o
       (if ucast nodeAddr = BROADCAST_ADDRESS E then
          if dpaVerWord E < 0x0400 then
            lift_o (bind_s (nodeRemoveBondBatch E repeat (ucast (BROADCAST_ADDRESS E)) hwpId) (\<lambda>_. clearAllBonds E repeat))
          else
            bind_o (lift_o (bind_s (setFrcReponseTime E repeat (k40Ms E)) (\<lambda>initialFrcResponseTime.
              bind_s (FRCAcknowledgedBroadcastBits E repeat (PNUM_NODE E) (CMD_NODE_REMOVE_BOND E) hwpId []) (\<lambda>removedNodes.
              bind_s (setFrcReponseTime E repeat initialFrcResponseTime) (\<lambda>_. ret removedNodes))))) (\<lambda>removedNodes.
            bind_o (coordRemoveBondBatch E repeat removedNodes) (\<lambda>_.
            lift_o (bind_s (bonded_nodes E repeat) (\<lambda>bondedNodes. upd (\<lambda>s. s\<lparr>m_notRemovedNodes := bondedNodes\<rparr>)))))
        else
          lift_o (bind_s (if dpaVerWord E < 0x0400 then nodeRemoveBondBatch E repeat nodeAddr hwpId else nodeRemoveBond E repeat nodeAddr hwpId) (\<lambda>_.
            coordRemoveBond E repeat nodeAddr))) (\<lambda>_.
     lift_o (getAddressingInfo E repeat)))"

definition removeBondOnlyInC_body :: "('n, 'e) remove_env_scheme \<Rightarrow> TRemoveBondInputParams \<Rightarrow> (('n, 'z) remove_scheme, unit) oact" where
  "removeBondOnlyInC_body E prm =
     (let repeat = rb_repeat prm; nodes = rb_deviceAddrList prm in
      bind_o (lift_o (bonded_nodes E repeat)) (\<lambda>_.
      bind_o
        (if rb_clearAllBonds prm then lift_o (clearAllBonds E repeat)
         else if nodes = [] then lift_o (ret ())
         else if length nodes = 1 then lift_o (coordRemoveBond E repeat (nodes ! 0))
         else coordRemoveBondBatch E repeat nodes) (\<lambda>_.
      lift_o (getAddressingInfo E repeat))))"

text \<open>Both catch every exception: what happened is in the status.\<close>

definition quiet :: "('s, unit) oact \<Rightarrow> ('s, unit) oact" where
  "quiet m s = map_option (\<lambda>(s, r). case r of Inr x \<Rightarrow> (s, Inr x) | Inl e \<Rightarrow> (case what e of None \<Rightarrow> (s, Inl e) | Some _ \<Rightarrow> (s, Inr ()))) (m s)"

definition removeBond :: "('n, 'e) remove_env_scheme \<Rightarrow> int \<Rightarrow> u8 \<Rightarrow> u16 \<Rightarrow> (('n, 'z) remove_scheme, unit) oact" where
  "removeBond E repeat nodeAddr hwpId = quiet (removeBond_body E repeat nodeAddr hwpId)"

definition removeBondOnlyInC :: "('n, 'e) remove_env_scheme \<Rightarrow> TRemoveBondInputParams \<Rightarrow> (('n, 'z) remove_scheme, unit) oact" where
  "removeBondOnlyInC E prm = quiet (removeBondOnlyInC_body E prm)"

definition createResponse :: "('n, 'e) dpa_env_scheme \<Rightarrow> com_base \<Rightarrow> string \<Rightarrow> ('n, 'z) remove_scheme \<Rightarrow> json" where
  "createResponse E com mType s =
     jset_all
       ([([''mType''], JStr mType), ([''data'', ''msgId''], JStr (c_msgId com))]
        @ (if s_status s = 0
           then [([''data'', ''rsp'', ''nodesNr''], JNum (uint (m_nodesNr s)))]
             @ (if mType = ''iqmeshNetwork_RemoveBond'' \<and> m_notRemovedNodes s \<noteq> []
                then [([''data'', ''rsp'', ''removeBondFailedNodes''], JArr (map (\<lambda>n. JNum (uint n)) (m_notRemovedNodes s)))] else [])
           else [])
        @ (if c_verbose com then [([''data'', ''raw''], JArr (map (rawObject E) (s_results s)))] else [])
        @ [([''data'', ''status''], JNum (s_status s)), ([''data'', ''statusStr''], JStr (s_statusStr s))]) JNull"

definition json_u8 :: "json \<Rightarrow> u8 list" where
  "json_u8 v = (case v of JNum n \<Rightarrow> if is_int n then [of_int n] else [] | _ \<Rightarrow> [])"

definition parse_remove :: "('n, 'e) dpa_env_scheme \<Rightarrow> json \<Rightarrow> TRemoveBondInputParams result" where
  "parse_remove E doc =
     bind_r (int_member [''data'', ''req'', ''hwpId''] doc (uint (HWPID_DoNotCheck E))) (\<lambda>hwpId.
     bind_r (bool_member [''data'', ''req'', ''wholeNetwork''] doc False) (\<lambda>whole.
     bind_r (bool_member [''data'', ''req'', ''clearAllBonds''] doc False) (\<lambda>clear.
     bind_r (int_member [''data'', ''repeat''] doc 1) (\<lambda>repeat.
       let addr = jget [''data'', ''req'', ''deviceAddr''] doc in
       Inr \<lparr>rb_deviceAddr = (case addr of Some v \<Rightarrow> (case json_u8 v of [a] \<Rightarrow> a | _ \<Rightarrow> 0) | None \<Rightarrow> 0), rb_hwpId = of_int hwpId, rb_wholeNetwork = whole,
            rb_repeat = repeat, rb_deviceAddrList = (case addr of Some (JArr vs) \<Rightarrow> concat (map json_u8 vs) | _ \<Rightarrow> []),
            rb_clearAllBonds = clear\<rparr>))))"

definition new_remove :: "('n, 'z) svc_scheme \<Rightarrow> 'n remove" where
  "new_remove s =
     \<lparr>net = net s, frcTime = frcTime s, exclusive = exclusive s, s_status = 0, s_statusStr = ''ok'', s_results = [], sent = sent s,
      m_nodesNr = 0, m_notRemovedNodes = []\<rparr>"

text \<open>The response and the end of the exclusive access.\<close>

definition answer :: "('n, 'e) dpa_env_scheme \<Rightarrow> (('n, 'z) svc_scheme \<Rightarrow> json) \<Rightarrow> ('n, 'z) svc_scheme \<times> unit result \<Rightarrow> ('n, 'z) svc_scheme \<times> unit result" where
  "answer E response r =
     (case r of
        (s, Inl e) \<Rightarrow> (s, Inl e)
      | (s, Inr _) \<Rightarrow>
          (case send_response E (response s) s of
             (s, Inr _) \<Rightarrow> (s\<lparr>exclusive := False\<rparr>, Inr ())
           | (s, Inl e) \<Rightarrow> (case what e of None \<Rightarrow> (s, Inl e) | Some w \<Rightarrow> (s\<lparr>exclusive := False\<rparr>, Inl (LogicError w)))))"

definition handleMsg ::
    "('n, 'e) remove_env_scheme \<Rightarrow> string option \<Rightarrow> string \<Rightarrow> json \<Rightarrow> ('n, 'z) svc_scheme \<Rightarrow> ('n remove \<times> unit result) option" where
  "handleMsg E refused mType doc s =
     (if mType \<noteq> ''iqmeshNetwork_RemoveBond'' \<and> mType \<noteq> ''iqmeshNetwork_RemoveBondOnlyInC''
      then Some (new_remove s, Inl (LogicError ''Unsupported message type: ''))
      else case bind_r (ComBase doc) (\<lambda>com. bind_r (parse_remove E doc) (\<lambda>prm. Inr (com, prm))) of
        Inl e \<Rightarrow> Some (new_remove s, Inl e)
      | Inr (com, prm) \<Rightarrow>
          (case refused of
             Some w \<Rightarrow> Some (send_response E (error_response mType (c_msgId com) 1002 w) (new_remove s))
           | None \<Rightarrow>
               map_option (answer E (createResponse E com mType))
                 ((if mType = ''iqmeshNetwork_RemoveBond''
                   then removeBond E (rb_repeat prm) (if rb_wholeNetwork prm then ucast (BROADCAST_ADDRESS E) else rb_deviceAddr prm) (rb_hwpId prm)
                   else removeBondOnlyInC E prm) ((new_remove s)\<lparr>exclusive := True\<rparr>))))"

end
