(* ===== verification/Remove_Props.thy ===== *)
theory Remove_Props
  imports Remove_Bond
begin

text \<open>
  Properties of the removal of bonds: the coordinator forgets only nodes that have confirmed the removal, the removal of the whole network reports what is left, and the removal
  of a list in the coordinator returns exactly for lists of at most 255 addresses.
\<close>

section \<open>The network\<close>

text \<open>
  \<open>bonded\<close> is the table of the coordinator, \<open>released\<close> the nodes that have removed their bond. A request that the coordinator confirms has removed the
  addresses it names, one that is not confirmed may have. The nodes whose bit is set in the answer of an acknowledged broadcast, and a node that confirms the request, have
  released themselves.
\<close>

fun batch_removes :: "('n, 'e) remove_env_scheme \<Rightarrow> bytes \<Rightarrow> u8 set" where
  "batch_removes E (l # p # c # h # h' # a # ds) =
     (if l = 6 \<and> p = PNUM_COORDINATOR E \<and> c = CMD_COORDINATOR_REMOVE_BOND E then insert a (batch_removes E ds) else {})"
| "batch_removes E _ = {}"

definition removes :: "('n, 'e) remove_env_scheme \<Rightarrow> request \<Rightarrow> u8 set" where
  "removes E rq =
     (if rq_nadr rq \<noteq> COORDINATOR_ADDRESS E then {}
      else if rq_pnum rq = PNUM_COORDINATOR E \<and> rq_pcmd rq = CMD_COORDINATOR_REMOVE_BOND E then set (rq_pdata rq)
      else if rq_pnum rq = PNUM_COORDINATOR E \<and> rq_pcmd rq = CMD_COORDINATOR_CLEAR_ALL_BONDS E then UNIV
      else if rq_pnum rq = PNUM_OS E \<and> rq_pcmd rq = CMD_OS_BATCH E then batch_removes E (rq_pdata rq)
      else {})"

definition codes_apart :: "('n, 'e) remove_env_scheme \<Rightarrow> bool" where
  "codes_apart E \<longleftrightarrow>
     PNUM_COORDINATOR E = ucast (COORDINATOR_ADDRESS E) \<and> distinct [PNUM_COORDINATOR E, PNUM_NODE E, PNUM_OS E, PNUM_FRC E] \<and>
     distinct [CMD_COORDINATOR_REMOVE_BOND E, CMD_COORDINATOR_CLEAR_ALL_BONDS E, CMD_COORDINATOR_BONDED_DEVICES E, CMD_COORDINATOR_ADDR_INFO E] \<and>
     MAX_ADDRESS E = 239"

definition step_law :: "('n, 'e) remove_env_scheme \<Rightarrow> ('n \<Rightarrow> u8 set) \<Rightarrow> ('n \<Rightarrow> u8 set) \<Rightarrow> bool" where
  "step_law E bonded released \<longleftrightarrow>
     (\<forall>rq t n n' r. execTransaction E rq t n = (n', r) \<longrightarrow>
        released n \<subseteq> released n' \<and> (bonded n' = bonded n - removes E rq \<or> bonded n' = bonded n \<and> \<not> ok_tr E r))"

definition removal_law :: "('n, 'e) remove_env_scheme \<Rightarrow> ('n \<Rightarrow> u8 set) \<Rightarrow> ('n \<Rightarrow> u8 set) \<Rightarrow> bool" where
  "removal_law E bonded released \<longleftrightarrow> step_law E bonded released \<and>
     (\<forall>t n n' tr. execTransaction E (to_coordinator E (PNUM_COORDINATOR E) (CMD_COORDINATOR_BONDED_DEVICES E) []) t n = (n', Inr tr) \<and> tr_errorCode tr = TRN_OK E \<longrightarrow>
        set (bitmap_nodes E (tr_response tr)) = bonded n') \<and>
     (\<forall>hwpId t n n' tr. execTransaction E (ack_request E (PNUM_NODE E) (CMD_NODE_REMOVE_BOND E) hwpId []) t n = (n', Inr tr) \<and> tr_errorCode tr = TRN_OK E \<and>
        FrcSend_Status E (tr_response tr) \<le> MAX_ADDRESS E \<longrightarrow> set (bitmap_nodes E (FrcSend_FrcData E (tr_response tr))) \<subseteq> released n') \<and>
     (\<forall>a hwpId t n n' tr. execTransaction E (node_request (ucast a) (PNUM_NODE E) (CMD_NODE_REMOVE_BOND E) hwpId []) t n = (n', Inr tr) \<and>
        tr_errorCode tr = TRN_OK E \<longrightarrow> a \<in> released n')"

lemma removal_step:
  assumes "step_law E bonded released" "execTransaction E rq t n = (n', r)"
  shows "released n \<subseteq> released n'" "bonded n' = bonded n - removes E rq \<or> bonded n' = bonded n \<and> \<not> ok_tr E r"
  using assms(1)[unfolded step_law_def, rule_format, OF assms(2)] by blast+

lemma removal_lawD:
  assumes "removal_law E bonded released"
  shows "step_law E bonded released"
    "execTransaction E (to_coordinator E (PNUM_COORDINATOR E) (CMD_COORDINATOR_BONDED_DEVICES E) []) t n = (n', Inr tr) \<Longrightarrow> tr_errorCode tr = TRN_OK E \<Longrightarrow>
       set (bitmap_nodes E (tr_response tr)) = bonded n'"
    "execTransaction E (ack_request E (PNUM_NODE E) (CMD_NODE_REMOVE_BOND E) hwpId []) t n = (n', Inr tr) \<Longrightarrow> tr_errorCode tr = TRN_OK E \<Longrightarrow>
       FrcSend_Status E (tr_response tr) \<le> MAX_ADDRESS E \<Longrightarrow> set (bitmap_nodes E (FrcSend_FrcData E (tr_response tr))) \<subseteq> released n'"
    "execTransaction E (node_request (ucast a) (PNUM_NODE E) (CMD_NODE_REMOVE_BOND E) hwpId []) t n = (n', Inr tr) \<Longrightarrow> tr_errorCode tr = TRN_OK E \<Longrightarrow>
       a \<in> released n'"
  using assms unfolding removal_law_def by blast+

lemma removes_simps [simp]:
  assumes "codes_apart E"
  shows "removes E (to_coordinator E (PNUM_COORDINATOR E) (CMD_COORDINATOR_BONDED_DEVICES E) d) = {}"
    "removes E (to_coordinator E (PNUM_COORDINATOR E) (CMD_COORDINATOR_ADDR_INFO E) d) = {}"
    "removes E (to_coordinator E (PNUM_COORDINATOR E) (CMD_COORDINATOR_REMOVE_BOND E) [a]) = {a}"
    "removes E (to_coordinator E (PNUM_FRC E) c d) = {}"
    "removes E (node_request na (PNUM_NODE E) c hwpId d) = {}"
    "removes E (ack_request E p c hwpId d) = {}"
  using assms by (auto simp: removes_def to_coordinator_def node_request_def ack_request_def codes_apart_def)

text \<open>A batch names the addresses of its entries.\<close>

lemma batch_removes_entries:
  assumes "codes_apart E"
  shows "batch_removes E (concat (map (batch_entry E) xs) @ [0]) = set xs"
  using assms by (induction xs) (auto simp: batch_entry_def codes_apart_def)

lemma removes_batch: "codes_apart E \<Longrightarrow> removes E (batch_request E d) = batch_removes E (d @ [0])"
  by (auto simp: removes_def batch_request_def to_coordinator_def codes_apart_def)

lemma batch_loop_entries:
  assumes "unat i < length nodes" "length nodes \<le> 255"
  shows "\<exists>m. 0 < m \<and> m \<le> Suc k \<and> unat i + m \<le> length nodes \<and>
    batch_loop E nodes (Suc k) i = (concat (map (batch_entry E) (take m (drop (unat i) nodes))), of_nat (unat i + m)) \<and>
    (unat i + m = length nodes \<or> m = Suc k)"
  using assms(1)
proof (induction k arbitrary: i)
  case 0
  have "take 1 (drop (unat i) nodes) = [nodes ! unat i]" using 0 by (simp add: take_Suc_conv_app_nth)
  then show ?case using 0 by (intro exI[of _ 1]) (auto simp: Let_def)
next
  case (Suc k)
  have i1: "unat (i + 1) = Suc (unat i)" using Suc.prems assms(2) by (simp add: unat_word_ariths)
  have d: "drop (unat i) nodes = nodes ! unat i # drop (Suc (unat i)) nodes" using Suc.prems by (simp add: Cons_nth_drop_Suc)
  show ?case
  proof (cases "Suc (unat i) < length nodes")
    case True
    then obtain m where m: "0 < m" "m \<le> Suc k" "unat (i + 1) + m \<le> length nodes"
      "batch_loop E nodes (Suc k) (i + 1) = (concat (map (batch_entry E) (take m (drop (unat (i + 1)) nodes))), of_nat (unat (i + 1) + m))"
      "unat (i + 1) + m = length nodes \<or> m = Suc k" using Suc.IH[of "i + 1"] i1 by auto
    then show ?thesis using True d i1 by (intro exI[of _ "Suc m"]) (auto simp del: batch_loop.simps simp add: batch_loop.simps(2)[of E nodes "Suc k"])
  next
    case False
    then show ?thesis using Suc.prems d i1 by (intro exI[of _ 1]) (auto simp: Let_def)
  qed
qed

section \<open>Transactions and batches\<close>

text \<open>A transaction in any outcome, and one that succeeded.\<close>

lemma exec_removes:
  assumes "step_law E bonded released" "exec_p E rq t k ps = (ps', r)"
  shows "released (net (snd ps)) \<subseteq> released (net (snd ps'))" "bonded (net (snd ps)) - bonded (net (snd ps')) \<subseteq> removes E rq"
    "bonded (net (snd ps')) \<subseteq> bonded (net (snd ps))"
proof -
  let ?P = "\<lambda>n. released (net (snd ps)) \<subseteq> released n \<and> bonded (net (snd ps)) - bonded n \<subseteq> removes E rq \<and> bonded n \<subseteq> bonded (net (snd ps))"
  have "?P (net (snd ps'))"
    by (rule exec_p_inv[where P = ?P, OF assms(2)]) (use removal_step[OF assms(1)] in \<open>blast+\<close>)
  then show "released (net (snd ps)) \<subseteq> released (net (snd ps'))" "bonded (net (snd ps)) - bonded (net (snd ps')) \<subseteq> removes E rq"
    "bonded (net (snd ps')) \<subseteq> bonded (net (snd ps))" by blast+
qed

lemma exec_removed:
  assumes "step_law E bonded released" "exec_p E rq t k (p, s) = (ps', Inr rsp)" "0 \<le> k"
  shows "bonded (net (snd ps')) = bonded (net s) - removes E rq"
proof -
  obtain p' s' where ps: "ps' = (p', s')" by fastforce
  let ?P = "\<lambda>n. bonded n = bonded (net s) \<or> bonded n = bonded (net s) - removes E rq"
  have "\<exists>n1 n' tr. ?P n1 \<and> execTransaction E rq t n1 = (n', Inr tr) \<and> tr_errorCode tr = TRN_OK E \<and> p' = Some tr \<and>
      s' = s\<lparr>net := n'\<rparr> \<and> rsp = tr_response tr"
    by (rule exec_p_success[where P = ?P, OF assms(2)[unfolded ps] assms(3)]) (use removal_step(2)[OF assms(1)] in blast)+
  then obtain n1 n' tr where "?P n1" "execTransaction E rq t n1 = (n', Inr tr)" "tr_errorCode tr = TRN_OK E" "s' = s\<lparr>net := n'\<rparr>" by blast
  then show ?thesis using removal_step(2)[OF assms(1), of rq t n1 n' "Inr tr"] by (auto simp: ok_tr_def ps)
qed

lemma add_p_keeps: "add_p ps = (ps', r) \<Longrightarrow> net (snd ps') = net (snd ps) \<and> fst ps' = None \<and> r = Inr ()"
  by (auto simp: add_p_def split: prod.splits option.splits)

lemma remove_batches_ends:
  assumes "step_law E bonded released" "codes_apart E" "length nodes \<le> 255" "0 \<le> k" "unat i < length nodes"
  shows "\<exists>ps' r. remove_batches E k nodes i (p, s) = Some (ps', r) \<and> (r = Inr () \<longrightarrow> bonded (net (snd ps')) = bonded (net s) - set (drop (unat i) nodes)) \<and>
    bonded (net s) - bonded (net (snd ps')) \<subseteq> set nodes \<and> released (net s) \<subseteq> released (net (snd ps'))"
  using assms(5)
proof (induction "length nodes - unat i" arbitrary: i p s rule: less_induct)
  case less
  obtain m where m: "0 < m" "unat i + m \<le> length nodes"
    "batch_loop E nodes 9 i = (concat (map (batch_entry E) (take m (drop (unat i) nodes))), of_nat (unat i + m))"
    using batch_loop_entries[OF less.prems assms(3), of 8 E] by auto
  let ?xs = "take m (drop (unat i) nodes)"
  let ?rq = "batch_request E (concat (map (batch_entry E) ?xs))"
  have rem: "removes E ?rq = set ?xs"
    unfolding removes_batch[OF assms(2)] by (rule batch_removes_entries[OF assms(2)])
  have sub: "set ?xs \<subseteq> set nodes" by (meson set_drop_subset set_take_subset subset_trans)
  obtain ps1 r1 where e: "exec_p E ?rq (-1) k (p, s) = (ps1, r1)" by fastforce
  note x = exec_removes[OF assms(1) e, unfolded rem]
  show ?case
  proof (cases r1)
    case (Inl er)
    have eq: "remove_batches E k nodes i (p, s) = Some (ps1, Inl er)" using m(3) e Inl by (subst remove_batches.simps) simp
    show ?thesis unfolding eq using x sub by auto
  next
    case (Inr rsp)
    obtain ps2 r2 where a: "add_p ps1 = (ps2, r2)" by fastforce
    obtain s2 where s2: "ps2 = (None, s2)" "net s2 = net (snd ps1)" using add_p_keeps[OF a] by (cases ps2) auto
    have b: "bonded (net s2) = bonded (net s) - set ?xs" using exec_removed[OF assms(1) e[unfolded Inr] assms(4)] rem s2 by simp
    have i': "unat (of_nat (unat i + m) :: u8) = unat i + m" using m(2) assms(3) by (intro unat_of_nat_u8) simp
    have split: "set (drop (unat i) nodes) = set ?xs \<union> set (drop (unat i + m) nodes)"
      by (metis add.commute append_take_drop_id drop_drop set_append)
    show ?thesis
    proof (cases "unat i + m < length nodes")
      case True
      have "remove_batches E k nodes i (p, s) = remove_batches E k nodes (of_nat (unat i + m)) (None, s2)"
        using m(3) e Inr a True i' s2(1) by (subst remove_batches.simps) simp
      moreover have "length nodes - unat (of_nat (unat i + m) :: u8) < length nodes - unat i" "unat (of_nat (unat i + m) :: u8) < length nodes"
        using True m(1) i' by auto
      from less.hyps[OF this, of None s2, unfolded i'] obtain ps' r where
        "remove_batches E k nodes (of_nat (unat i + m)) (None, s2) = Some (ps', r)"
        "r = Inr () \<longrightarrow> bonded (net (snd ps')) = bonded (net s2) - set (drop (unat i + m) nodes)"
        "bonded (net s2) - bonded (net (snd ps')) \<subseteq> set nodes" "released (net s2) \<subseteq> released (net (snd ps'))" by blast
      moreover have "bonded (net s) - bonded (net (snd ps')) \<subseteq> set nodes" "released (net s) \<subseteq> released (net (snd ps'))"
        using calculation(4,5) b x(1) s2(2) sub by auto
      moreover have "r = Inr () \<longrightarrow> bonded (net (snd ps')) = bonded (net s) - set (drop (unat i) nodes)"
        using calculation(3) b split by blast
      ultimately show ?thesis by (intro exI[of _ ps'] exI[of _ r]) simp
    next
      case False
      have eq: "remove_batches E k nodes i (p, s) = Some ((None, s2), Inr ())"
        using m(3) e Inr a False i' s2(1) by (subst remove_batches.simps) simp
      have e': "set (drop (unat i + m) nodes) = {}" using False by simp
      have "bonded (net s2) = bonded (net s) - set (drop (unat i) nodes)" unfolding split e' Un_empty_right by (rule b)
      moreover have "bonded (net s) - bonded (net s2) \<subseteq> set nodes" "released (net s) \<subseteq> released (net s2)" using x(1,2) s2(2) sub by auto
      ultimately show ?thesis unfolding eq by (intro exI[of _ "(None, s2)"] exI[of _ "Inr ()"]) simp
    qed
  qed
qed

lemma coordRemoveBondBatch_ends:
  assumes "step_law E bonded released" "codes_apart E" "length nodes \<le> 255" "0 \<le> k"
  shows "\<exists>s' r. coordRemoveBondBatch E k nodes s = Some (s', r) \<and> (r = Inr () \<longrightarrow> bonded (net s') = bonded (net s) - set nodes) \<and>
    bonded (net s) - bonded (net s') \<subseteq> set nodes \<and> released (net s) \<subseteq> released (net s')"
proof (cases "nodes = []")
  case False
  then have "unat (0 :: u8) < length nodes" by simp
  from remove_batches_ends[OF assms this, of None s] obtain ps r where
    r: "remove_batches E k nodes 0 (None, s) = Some (ps, r)" "r = Inr () \<longrightarrow> bonded (net (snd ps)) = bonded (net s) - set nodes"
    "bonded (net s) - bonded (net (snd ps)) \<subseteq> set nodes" "released (net s) \<subseteq> released (net (snd ps))" by auto
  show ?thesis
  proof (cases r)
    case (Inl e)
    obtain s' r' where rep: "report False (fst ps) e (snd ps) = (s', r' :: unit result)" by fastforce
    then have "net s' = net (snd ps)" "r' \<noteq> Inr ()" using net_report[of False "fst ps" e "snd ps"] by (metis fst_conv, auto)
    then show ?thesis using False r Inl rep by (cases ps) (auto simp: coordRemoveBondBatch_def)
  next
    case (Inr x)
    then show ?thesis using False r by (cases ps) (auto simp: coordRemoveBondBatch_def)
  qed
qed (simp add: coordRemoveBondBatch_def)

text \<open>The other transactions: what they may have removed in any outcome, and have removed when they succeed.\<close>

lemma keeps_net_rest: "keeps (\<lambda>ps. net (snd ps)) (bind_s add_p (\<lambda>_. ret x))" "keeps (\<lambda>ps. net (snd ps)) (throw e)"
    "keeps (\<lambda>ps. net (snd ps)) (bind_s add_p (\<lambda>_. lift_p (upd (m_nodesNr_update f))))"
  by (intro keeps_rules; simp)+

lemma try_removes:
  assumes "step_law E bonded released" "try_p (bind_s (exec_p E rq t k) g) s = (s', r)" "\<And>rsp. keeps (\<lambda>ps. net (snd ps)) (g rsp)"
  shows "released (net s) \<subseteq> released (net s') \<and> bonded (net s) - bonded (net s') \<subseteq> removes E rq \<and> bonded (net s') \<subseteq> bonded (net s)"
  by (rule try_exec_inv[where P = "\<lambda>n. released (net s) \<subseteq> released n \<and> bonded (net s) - bonded n \<subseteq> removes E rq \<and> bonded n \<subseteq> bonded (net s)", OF assms(2,3)])
    (use removal_step[OF assms(1)] in \<open>blast+\<close>)

lemma try_removed:
  assumes "step_law E bonded released" "try_p (bind_s (exec_p E rq t k) g) s = (s', Inr x)" "\<And>rsp. keeps (\<lambda>ps. net (snd ps)) (g rsp)" "0 \<le> k"
  shows "bonded (net s') = bonded (net s) - removes E rq"
proof -
  let ?P = "\<lambda>n. bonded n = bonded (net s) \<or> bonded n = bonded (net s) - removes E rq"
  obtain n1 tr where "?P n1" "execTransaction E rq t n1 = (net s', Inr tr)" "tr_errorCode tr = TRN_OK E"
    using try_exec_success[where P = ?P, OF assms(2-4)] removal_step(2)[OF assms(1)] by blast
  then show ?thesis using removal_step(2)[OF assms(1), of rq t n1 "net s'" "Inr tr"] by (auto simp: ok_tr_def)
qed

section \<open>What the coordinator may forget\<close>

text \<open>
  \<open>ensures P m Q I\<close>: from a state with \<open>P\<close> the service ends, if it returns, with \<open>Q\<close> for its value, or by an exception in a state with \<open>I\<close>.
\<close>

definition ensures :: "('s \<Rightarrow> bool) \<Rightarrow> ('s, 'a) oact \<Rightarrow> ('a \<Rightarrow> 's \<Rightarrow> bool) \<Rightarrow> ('s \<Rightarrow> bool) \<Rightarrow> bool" where
  "ensures P m Q I \<longleftrightarrow> (\<forall>s s' r. P s \<longrightarrow> m s = Some (s', r) \<longrightarrow> (case r of Inr x \<Rightarrow> Q x s' | Inl _ \<Rightarrow> I s'))"

named_theorems ensures_rules

lemma ensures_bind [ensures_rules]: "ensures P m Q I \<Longrightarrow> (\<And>x. ensures (Q x) (f x) R I) \<Longrightarrow> ensures P (bind_o m f) R I"
  unfolding ensures_def bind_o_def by (fastforce split: option.splits sum.splits)

lemma lift_o_bind [simp]: "lift_o (bind_s m f) = bind_o (lift_o m) (\<lambda>x. lift_o (f x))"
  by (auto simp: fun_eq_iff lift_o_def bind_o_def bind_s_def split: prod.split sum.split)

lemma ensuresD: "ensures P m (\<lambda>_. I) I \<Longrightarrow> P s \<Longrightarrow> m s = Some (s', r) \<Longrightarrow> I s'"
  unfolding ensures_def by (cases r) (force split: sum.splits)+

lemma ensures_if [ensures_rules]: "(b \<Longrightarrow> ensures P m Q I) \<Longrightarrow> (\<not> b \<Longrightarrow> ensures P m' Q I) \<Longrightarrow> ensures P (if b then m else m') Q I"
  by simp

lemma ensures_weaken: "ensures P m Q I \<Longrightarrow> (\<And>s. P' s \<Longrightarrow> P s) \<Longrightarrow> (\<And>x s. Q x s \<Longrightarrow> Q' x s) \<Longrightarrow> ensures P' m Q' I"
  unfolding ensures_def by (fastforce split: sum.splits)

lemma ensures_ret: "(\<And>s. P s \<Longrightarrow> Q x s) \<Longrightarrow> ensures P (lift_o (ret x)) Q I"
  by (auto simp: ensures_def lift_o_def)

lemma ensures_keep: "(\<And>s s' r. P s \<Longrightarrow> m s = Some (s', r) \<Longrightarrow> P s') \<Longrightarrow> (\<And>s. P s \<Longrightarrow> I s) \<Longrightarrow> ensures P m (\<lambda>_. P) I"
  unfolding ensures_def by (auto split: sum.split)

lemma ensures_pre: "(c \<Longrightarrow> ensures P m Q I) \<Longrightarrow> ensures (\<lambda>s. P s \<and> c) m Q I"
  unfolding ensures_def by blast

lemma ensures_frame: "ensures P m Q I \<Longrightarrow> ensures (\<lambda>s. P s \<and> c) m (\<lambda>x s. Q x s \<and> c) I"
  unfolding ensures_def by (metis (no_types, lifting) sum.case_eq_if)

text \<open>Against the initial table \<open>B\<close> the coordinator has forgotten only released nodes; the nodes in \<open>A\<close> are released.\<close>

definition forgot_ok :: "('n \<Rightarrow> u8 set) \<Rightarrow> ('n \<Rightarrow> u8 set) \<Rightarrow> u8 set \<Rightarrow> u8 set \<Rightarrow> ('n, 'z) svc_scheme \<Rightarrow> bool" where
  "forgot_ok bonded released B A s \<longleftrightarrow> B - bonded (net s) \<subseteq> released (net s) \<and> A \<subseteq> released (net s)"

lemma forgot_ok_weaken: "forgot_ok bonded released B A s \<Longrightarrow> A' \<subseteq> A \<Longrightarrow> forgot_ok bonded released B A' s"
  by (auto simp: forgot_ok_def)

lemma ensures_transaction:
  assumes "step_law E bonded released" "removes E rq \<subseteq> A" "\<And>rsp. keeps (\<lambda>ps. net (snd ps)) (g rsp)"
  shows "ensures (forgot_ok bonded released B A) (lift_o (try_p (bind_s (exec_p E rq t k) g))) (\<lambda>_. forgot_ok bonded released B A) (forgot_ok bonded released B {})"
proof -
  have "forgot_ok bonded released B A s'" if s: "forgot_ok bonded released B A s" "try_p (bind_s (exec_p E rq t k) g) s = (s', r)" for s s' r
    using try_removes[OF assms(1) s(2) assms(3)] s(1) assms(2) unfolding forgot_ok_def by blast
  then show ?thesis unfolding lift_o_def by (intro ensures_keep) (auto intro: forgot_ok_weaken)
qed

text \<open>The services of the removal.\<close>

lemma ensures_services:
  assumes law: "step_law E bonded released" and codes: "codes_apart E"
  shows "ensures (forgot_ok bonded released B A) (lift_o (bonded_nodes E k)) (\<lambda>_. forgot_ok bonded released B A) (forgot_ok bonded released B {})"
    "ensures (forgot_ok bonded released B A) (lift_o (setFrcReponseTime E k' t)) (\<lambda>_. forgot_ok bonded released B A) (forgot_ok bonded released B {})"
    "ensures (forgot_ok bonded released B A) (lift_o (getAddressingInfo E k)) (\<lambda>_. forgot_ok bonded released B A) (forgot_ok bonded released B {})"
    "a \<in> A \<Longrightarrow> ensures (forgot_ok bonded released B A) (lift_o (coordRemoveBond E k a)) (\<lambda>_. forgot_ok bonded released B A) (forgot_ok bonded released B {})"
  unfolding bonded_nodes_def setFrcReponseTime_def getAddressingInfo_def coordRemoveBond_def
  by (rule ensures_transaction[OF law]; use codes in \<open>simp add: keeps_net_rest keeps_net\<close>)+

lemma ensures_batch:
  assumes "step_law E bonded released" "codes_apart E" "0 \<le> k" "set nodes \<subseteq> A" "length nodes \<le> 255"
  shows "ensures (forgot_ok bonded released B A) (coordRemoveBondBatch E k nodes) (\<lambda>_. forgot_ok bonded released B A) (forgot_ok bonded released B {})"
proof -
  have "forgot_ok bonded released B A s'" if s: "forgot_ok bonded released B A s" "coordRemoveBondBatch E k nodes s = Some (s', r)" for s s' r
  proof -
    have "bonded (net s) - bonded (net s') \<subseteq> set nodes" "released (net s) \<subseteq> released (net s')"
      using coordRemoveBondBatch_ends[OF assms(1,2,5,3), of s] s(2) by (metis option.inject prod.inject)+
    then show ?thesis using s(1) assms(4) unfolding forgot_ok_def by blast
  qed
  then show ?thesis by (intro ensures_keep) (auto intro: forgot_ok_weaken)
qed

lemma short_bitmap: "codes_apart E \<Longrightarrow> length (bitmap_nodes E bm) \<le> 255"
  by (auto simp: bitmap_nodes_def codes_apart_def intro: order_trans[OF length_filter_le])

lemma ensures_acknowledged:
  assumes law: "removal_law E bonded released" and codes: "codes_apart E" and k: "0 \<le> k"
  shows "ensures (forgot_ok bonded released B A) (lift_o (FRCAcknowledgedBroadcastBits E k (PNUM_NODE E) (CMD_NODE_REMOVE_BOND E) hwpId []))
      (\<lambda>x s. forgot_ok bonded released B (A \<union> set x) s \<and> length x \<le> 255) (forgot_ok bonded released B {})"
    "ensures (forgot_ok bonded released B A) (lift_o (nodeRemoveBond E k a hwpId)) (\<lambda>_. forgot_ok bonded released B (insert a A)) (forgot_ok bonded released B {})"
proof -
  let ?ack = "ack_request E (PNUM_NODE E) (CMD_NODE_REMOVE_BOND E) hwpId []"
  let ?g = "\<lambda>rsp. if FrcSend_Status E rsp \<le> MAX_ADDRESS E then bind_s add_p (\<lambda>_. ret (bitmap_nodes E (FrcSend_FrcData E rsp)))
    else throw (LogicError ''Bad FRC status: '')"
  have g: "keeps (\<lambda>ps. net (snd ps)) (?g rsp)" for rsp by (simp add: keeps_net_rest)
  have "case r of Inr x \<Rightarrow> forgot_ok bonded released B (A \<union> set x) s' \<and> length x \<le> 255 | Inl _ \<Rightarrow> forgot_ok bonded released B {} s'"
    if s: "forgot_ok bonded released B A s" "try_p (bind_s (exec_p E ?ack (-1) k) ?g) s = (s', r)" for s s' r
  proof -
    have f: "forgot_ok bonded released B A s'"
      using try_removes[OF removal_lawD(1)[OF law] s(2) g] s(1) codes unfolding forgot_ok_def by auto
    show ?thesis
    proof (cases r)
      case (Inr x)
      obtain n1 tr ptr where tr: "execTransaction E ?ack (-1) n1 = (net s', Inr tr)" "tr_errorCode tr = TRN_OK E"
        "?g (tr_response tr) (Some tr, s\<lparr>net := net s'\<rparr>) = ((ptr, s'), Inr x)"
        using try_exec_success[where P = "\<lambda>_. True", OF s(2)[unfolded Inr] g k] by auto
      then have "FrcSend_Status E (tr_response tr) \<le> MAX_ADDRESS E" "x = bitmap_nodes E (FrcSend_FrcData E (tr_response tr))" by (auto split: if_splits)
      then show ?thesis using f Inr removal_lawD(3)[OF law tr(1,2)] short_bitmap[OF codes] by (auto simp: forgot_ok_def)
    qed (use f in \<open>simp add: forgot_ok_def\<close>)
  qed
  then show "ensures (forgot_ok bonded released B A) (lift_o (FRCAcknowledgedBroadcastBits E k (PNUM_NODE E) (CMD_NODE_REMOVE_BOND E) hwpId []))
      (\<lambda>x s. forgot_ok bonded released B (A \<union> set x) s \<and> length x \<le> 255) (forgot_ok bonded released B {})"
    unfolding ensures_def lift_o_def FRCAcknowledgedBroadcastBits_def by blast
  let ?rq = "node_request (ucast a) (PNUM_NODE E) (CMD_NODE_REMOVE_BOND E) hwpId []"
  have "case r of Inr _ \<Rightarrow> forgot_ok bonded released B (insert a A) s' | Inl _ \<Rightarrow> forgot_ok bonded released B {} s'"
    if s: "forgot_ok bonded released B A s" "try_p (bind_s (exec_p E ?rq (-1) k) (\<lambda>_. add_p)) s = (s', r)" for s s' r
  proof -
    have f: "forgot_ok bonded released B A s'"
      using try_removes[OF removal_lawD(1)[OF law] s(2) keeps_net] s(1) codes unfolding forgot_ok_def by auto
    show ?thesis
    proof (cases r)
      case (Inr x)
      obtain n1 tr where "execTransaction E ?rq (-1) n1 = (net s', Inr tr)" "tr_errorCode tr = TRN_OK E"
        using try_exec_success[where P = "\<lambda>_. True", OF s(2)[unfolded Inr] keeps_net k] by auto
      then show ?thesis using f Inr removal_lawD(4)[OF law] by (auto simp: forgot_ok_def)
    qed (use f in \<open>simp add: forgot_ok_def\<close>)
  qed
  then show "ensures (forgot_ok bonded released B A) (lift_o (nodeRemoveBond E k a hwpId)) (\<lambda>_. forgot_ok bonded released B (insert a A)) (forgot_ok bonded released B {})"
    unfolding ensures_def lift_o_def nodeRemoveBond_def by blast
qed

lemma ensures_removal:
  assumes law: "removal_law E bonded released" and codes: "codes_apart E" and k: "0 \<le> k" and ver: "0x0400 \<le> dpaVerWord E"
  shows "ensures (forgot_ok bonded released B {}) (removeBond_body E k addr hwpId) (\<lambda>_. forgot_ok bonded released B {}) (forgot_ok bonded released B {})"
proof -
  note step = removal_lawD(1)[OF law]
  note serv = ensures_services[OF step codes] and ack = ensures_acknowledged[OF law codes k]
  have b: "ensures (\<lambda>s. forgot_ok bonded released B ({} \<union> set x) s \<and> length x \<le> 255) (coordRemoveBondBatch E k x) (\<lambda>_. forgot_ok bonded released B {})
      (forgot_ok bonded released B {})" for x
    by (rule ensures_pre, rule ensures_weaken[OF ensures_batch[OF step codes k subset_refl]]) (auto intro: forgot_ok_weaken)
  have f: "ensures (\<lambda>s. forgot_ok bonded released B ({} \<union> set x) s \<and> length x \<le> 255) (lift_o (setFrcReponseTime E k t))
      (\<lambda>_ s. forgot_ok bonded released B ({} \<union> set x) s \<and> length x \<le> 255) (forgot_ok bonded released B {})" for x t
    by (rule ensures_frame[OF serv(2)])
  have r: "ensures (\<lambda>s. forgot_ok bonded released B ({} \<union> set x) s \<and> length x \<le> 255) (lift_o (ret x))
      (\<lambda>x s. forgot_ok bonded released B ({} \<union> set x) s \<and> length x \<le> 255) (forgot_ok bonded released B {})" for x
    by (rule ensures_ret)
  have u: "ensures (forgot_ok bonded released B {}) (lift_o (upd (\<lambda>s. s\<lparr>m_notRemovedNodes := x\<rparr>))) (\<lambda>_. forgot_ok bonded released B {}) (forgot_ok bonded released B {})" for x
    by (simp add: ensures_def lift_o_def forgot_ok_def)
  have c: "ensures (forgot_ok bonded released B {addr}) (lift_o (coordRemoveBond E k addr)) (\<lambda>_. forgot_ok bonded released B {}) (forgot_ok bonded released B {})"
    by (rule ensures_weaken[OF serv(4)[where A = "{addr}"]]) (auto intro: forgot_ok_weaken)
  have "\<not> dpaVerWord E < 0x0400" using ver by simp
  then show ?thesis unfolding removeBond_body_def lift_o_bind if_False
    by (simp only: if_False) (rule ensures_bind serv(1) ensures_if b f r u c serv(2) ack(1) ack(2)[where A = "{}"] serv(3))+
qed

section \<open>Services that return\<close>

definition returns :: "('s, 'a) oact \<Rightarrow> ('a \<Rightarrow> bool) \<Rightarrow> bool" where
  "returns m R \<longleftrightarrow> (\<forall>s. \<exists>s' r. m s = Some (s', r) \<and> (\<forall>x. r = Inr x \<longrightarrow> R x))"

lemma returns_bind: "returns m R \<Longrightarrow> (\<And>x. R x \<Longrightarrow> returns (f x) S) \<Longrightarrow> returns (bind_o m f) S"
proof -
  assume m: "returns m R" and f: "\<And>x. R x \<Longrightarrow> returns (f x) S"
  have "\<exists>s' r. bind_o m f s = Some (s', r) \<and> (\<forall>x. r = Inr x \<longrightarrow> S x)" for s
  proof -
    obtain s1 r1 where 1: "m s = Some (s1, r1)" "\<forall>x. r1 = Inr x \<longrightarrow> R x" using m unfolding returns_def by blast
    show ?thesis using 1 f by (cases r1) (auto simp: bind_o_def returns_def)
  qed
  then show ?thesis unfolding returns_def by blast
qed

lemma returns_lift: "(\<And>s s' x. m s = (s', Inr x) \<Longrightarrow> R x) \<Longrightarrow> returns (lift_o m) R"
  unfolding returns_def lift_o_def by (metis surj_pair)

lemma returns_if: "(b \<Longrightarrow> returns m R) \<Longrightarrow> (\<not> b \<Longrightarrow> returns m' R) \<Longrightarrow> returns (if b then m else m') R"
  by simp

lemma returns_quiet: "returns m R \<Longrightarrow> \<exists>s' r. quiet m s = Some (s', r)"
proof -
  assume "returns m R"
  then obtain p where "m s = Some p" unfolding returns_def by blast
  then show ?thesis unfolding quiet_def by (cases p; cases "snd p") (auto split: option.split)
qed

lemma quiet_state: "quiet m s = Some (s', r) \<Longrightarrow> \<exists>r'. m s = Some (s', r')"
proof -
  assume q: "quiet m s = Some (s', r)"
  then obtain s1 r1 where "m s = Some (s1, r1)" by (auto simp: quiet_def)
  then show ?thesis using q by (cases r1) (auto simp: quiet_def split: option.splits)
qed

lemma returns_batch: "codes_apart E \<Longrightarrow> 0 \<le> k \<Longrightarrow> length nodes \<le> 255 \<Longrightarrow> returns (coordRemoveBondBatch E k nodes) (\<lambda>_. True)"
  using coordRemoveBondBatch_ends[of E "\<lambda>_. {}" "\<lambda>_. {}"] unfolding returns_def step_law_def by auto

lemma short_acknowledged: "codes_apart E \<Longrightarrow> FRCAcknowledgedBroadcastBits E k p c hwpId d s = (s', Inr x) \<Longrightarrow> length x \<le> 255"
  by (auto simp: FRCAcknowledgedBroadcastBits_def try_p_Inr bind_s_Inr short_bitmap split: if_splits)

lemma returns_removal:
  assumes codes: "codes_apart E" and k: "0 \<le> k"
  shows "returns (removeBond_body E k addr hwpId) (\<lambda>_. True)"
proof -
  have a: "returns (lift_o (FRCAcknowledgedBroadcastBits E k p c hwpId d)) (\<lambda>x. length x \<le> 255)" for p c d
    by (rule returns_lift) (rule short_acknowledged[OF codes])
  have r: "length x \<le> 255 \<Longrightarrow> returns (lift_o (ret x)) (\<lambda>x. length x \<le> 255)" for x :: "u8 list" by (rule returns_lift) simp
  have l: "returns (lift_o m) (\<lambda>_. True)" for m :: "(_, 'x) act" by (rule returns_lift) simp
  show ?thesis unfolding removeBond_body_def lift_o_bind
    by (rule returns_bind returns_if a r returns_batch[OF codes k] l | assumption)+
qed

text \<open>A list of more than 255 addresses: the index never reaches its length.\<close>

lemma batches_never_return:
  assumes "\<forall>rq t n. \<exists>n' tr. execTransaction E rq t n = (n', Inr tr) \<and> tr_errorCode tr = TRN_OK E" "0 \<le> k" "256 \<le> length nodes"
    and "remove_batches E k nodes i ps = Some r"
  shows False
proof -
  let ?P = "\<lambda>E' k' nodes' i ps r. E' = E \<and> k' = k \<and> nodes' = nodes \<longrightarrow> False"
  have "?P E k nodes i ps r"
  proof (rule remove_batches.raw_induct[where P = ?P, OF _ assms(4)], intro impI)
    fix loop E' k' nodes' i ps r
    assume ih: "\<And>E' k' nodes' i ps r. loop E' k' nodes' i ps = Some r \<Longrightarrow> ?P E' k' nodes' i ps r"
      and step: "(case batch_loop E' nodes' 9 i of (d, nodeIndex') \<Rightarrow>
        (case exec_p E' (batch_request E' d) (-1) k' ps of
           (ps, Inl e) \<Rightarrow> Some (ps, Inl e)
         | (ps, Inr _) \<Rightarrow>
             (case add_p ps of
                (ps, _) \<Rightarrow> if unat nodeIndex' < length nodes' then loop E' k' nodes' nodeIndex' ps else Some (ps, Inr ())))) = Some r"
      and e: "E' = E \<and> k' = k \<and> nodes' = nodes"
    obtain d i' where b: "batch_loop E nodes 9 i = (d, i')" by fastforce
    obtain p s where ps: "ps = (p, s)" by fastforce
    obtain n' tr where tr: "execTransaction E (batch_request E d) (-1) (net s) = (n', Inr tr)" "tr_errorCode tr = TRN_OK E" using assms(1) by blast
    have x: "exec_p E (batch_request E d) (-1) k (p, s) = ((Some tr, s\<lparr>net := n'\<rparr>), Inr (tr_response tr))" by (rule exec_p_first[OF tr assms(2)])
    have "unat i' < length nodes" using assms(3) unat_lt_256[of i'] by linarith
    then have "loop E k nodes i' (None, s\<lparr>net := n', s_results := s_results s @ [tr]\<rparr>) = Some r" using step b x ps e by simp
    then show False using ih by blast
  qed
  then show False by blast
qed

section \<open>What a successful removal has done\<close>

lemma bind_o_Inr: "bind_o m f s = Some (s', Inr y) \<longleftrightarrow> (\<exists>s1 x. m s = Some (s1, Inr x) \<and> f x s1 = Some (s', Inr y))"
  by (auto simp: bind_o_def split: option.split sum.split)

lemma lift_o_Some: "lift_o m s = Some r \<longleftrightarrow> m s = r"
  by (simp add: lift_o_def)

lemma bonded_nodes_known:
  assumes "removal_law E bonded released" "codes_apart E" "0 \<le> k" "bonded_nodes E k s = (s', Inr x)"
  shows "set x = bonded (net s') \<and> bonded (net s') = bonded (net s)"
proof -
  obtain n1 tr ptr where tr: "execTransaction E (to_coordinator E (PNUM_COORDINATOR E) (CMD_COORDINATOR_BONDED_DEVICES E) []) (-1) n1 = (net s', Inr tr)"
    "tr_errorCode tr = TRN_OK E" "bind_s add_p (\<lambda>_. ret (bitmap_nodes E (tr_response tr))) (Some tr, s\<lparr>net := net s'\<rparr>) = ((ptr, s'), Inr x)"
    using try_exec_success[where P = "\<lambda>_. True", OF assms(4)[unfolded bonded_nodes_def] keeps_net_rest(1) assms(3)] by auto
  then have "x = bitmap_nodes E (tr_response tr)" by simp
  moreover have "bonded (net s') = bonded (net s)"
    using try_removed[OF removal_lawD(1)[OF assms(1)] assms(4)[unfolded bonded_nodes_def] keeps_net_rest(1) assms(3)] assms(2) by simp
  ultimately show ?thesis using removal_lawD(2)[OF assms(1) tr(1,2)] by simp
qed

lemma nothing_removed:
  assumes "step_law E bonded released" "codes_apart E" "0 \<le> k"
  shows "setFrcReponseTime E k t s = (s', Inr y) \<Longrightarrow> bonded (net s') = bonded (net s)"
    "getAddressingInfo E k s2 = (s2', Inr z) \<Longrightarrow> bonded (net s2') = bonded (net s2) \<and> m_notRemovedNodes s2' = m_notRemovedNodes s2"
proof -
  show "bonded (net s') = bonded (net s)" if "setFrcReponseTime E k t s = (s', Inr y)"
    using try_removed[OF assms(1) that[unfolded setFrcReponseTime_def] keeps_net_rest(1) assms(3)] assms(2) by simp
  assume g: "getAddressingInfo E k s2 = (s2', Inr z)"
  have "bonded (net s2') = bonded (net s2)"
    using try_removed[OF assms(1) g[unfolded getAddressingInfo_def] keeps_net_rest(3) assms(3)] assms(2) by simp
  moreover obtain n1 tr ptr where "bind_s add_p (\<lambda>_. lift_p (upd (\<lambda>s. s\<lparr>m_nodesNr := AddrInfo_DevNr E (tr_response tr)\<rparr>))) (Some tr, s2\<lparr>net := net s2'\<rparr>) =
      ((ptr, s2'), Inr z)"
    using try_exec_success[where P = "\<lambda>_. True", OF g[unfolded getAddressingInfo_def] keeps_net_rest(3) assms(3)] by auto
  then have "s2' = s2\<lparr>net := net s2', s_results := s_results s2 @ [tr], m_nodesNr := AddrInfo_DevNr E (tr_response tr)\<rparr>" by simp
  from arg_cong[OF this, of m_notRemovedNodes] have "m_notRemovedNodes s2' = m_notRemovedNodes s2" by simp
  ultimately show "bonded (net s2') = bonded (net s2) \<and> m_notRemovedNodes s2' = m_notRemovedNodes s2" by blast
qed

text \<open>The nodes that acknowledged the removal in a confirmed answer of the network.\<close>

definition acknowledged :: "('n, 'e) remove_env_scheme \<Rightarrow> u16 \<Rightarrow> u8 set \<Rightarrow> bool" where
  "acknowledged E hwpId A \<longleftrightarrow> (\<exists>n n' tr. execTransaction E (ack_request E (PNUM_NODE E) (CMD_NODE_REMOVE_BOND E) hwpId []) (-1) n = (n', Inr tr) \<and>
     tr_errorCode tr = TRN_OK E \<and> FrcSend_Status E (tr_response tr) \<le> MAX_ADDRESS E \<and> A = set (bitmap_nodes E (FrcSend_FrcData E (tr_response tr))))"

lemma acknowledged_nodes:
  assumes "step_law E bonded released" "codes_apart E" "0 \<le> k"
    and "FRCAcknowledgedBroadcastBits E k (PNUM_NODE E) (CMD_NODE_REMOVE_BOND E) hwpId [] s = (s', Inr x)"
  shows "acknowledged E hwpId (set x) \<and> bonded (net s') = bonded (net s)"
proof -
  let ?g = "\<lambda>rsp. if FrcSend_Status E rsp \<le> MAX_ADDRESS E then bind_s add_p (\<lambda>_. ret (bitmap_nodes E (FrcSend_FrcData E rsp)))
    else throw (LogicError ''Bad FRC status: '')"
  have g: "keeps (\<lambda>ps. net (snd ps)) (?g rsp)" for rsp by (simp add: keeps_net_rest)
  note run = assms(4)[unfolded FRCAcknowledgedBroadcastBits_def]
  obtain n1 tr ptr where tr: "execTransaction E (ack_request E (PNUM_NODE E) (CMD_NODE_REMOVE_BOND E) hwpId []) (-1) n1 = (net s', Inr tr)"
    "tr_errorCode tr = TRN_OK E" "?g (tr_response tr) (Some tr, s\<lparr>net := net s'\<rparr>) = ((ptr, s'), Inr x)"
    using try_exec_success[where P = "\<lambda>_. True", OF run g assms(3)] by auto
  then have "FrcSend_Status E (tr_response tr) \<le> MAX_ADDRESS E" "x = bitmap_nodes E (FrcSend_FrcData E (tr_response tr))" by (auto split: if_splits)
  then show ?thesis using tr(1,2) try_removed[OF assms(1) run g assms(3)] assms(2) unfolding acknowledged_def by auto
qed

section \<open>Properties\<close>

text \<open>
  C10: From DPA 4.00 on, the coordinator forgets a node only when the node itself has confirmed that it removed its bond, for the removal of one node and of the whole network, whatever transactions
  fail or are lost on the way: no node is left bonded to a coordinator that does not know it.\<close>

theorem coordinator_forgets_only_released:
  assumes "removal_law E bonded released" "codes_apart E" "0 \<le> k" "0x0400 \<le> dpaVerWord E" "removeBond E k addr hwpId s = Some (s', r)"
  shows "bonded (net s) - bonded (net s') \<subseteq> released (net s')"
proof -
  obtain r' where b: "removeBond_body E k addr hwpId s = Some (s', r')"
    using quiet_state[OF assms(5)[unfolded removeBond_def]] by blast
  have "forgot_ok bonded released (bonded (net s)) {} s" by (simp add: forgot_ok_def)
  then have "forgot_ok bonded released (bonded (net s)) {} s'"
    by (rule ensuresD[OF ensures_removal[OF assms(1-4)] _ b])
  then show ?thesis by (simp add: forgot_ok_def)
qed


text \<open>
  C27: When all transactions are confirmed, a request to remove a list of addresses in the coordinator is processed to the end exactly when the list has at most 255 elements or all bonds are
  cleared: for a longer list the byte that indexes it runs around and the service sends batches for ever, with the exclusive access taken.\<close>

theorem list_removal_returns_iff:
  assumes "\<forall>rq t n. \<exists>n' tr. execTransaction E rq t n = (n', Inr tr) \<and> tr_errorCode tr = TRN_OK E" "codes_apart E" "0 \<le> rb_repeat prm"
  shows "(\<exists>s' r. removeBondOnlyInC E prm s = Some (s', r)) \<longleftrightarrow> rb_clearAllBonds prm \<or> length (rb_deviceAddrList prm) \<le> 255"
proof
  have l: "returns (lift_o m) (\<lambda>_. True)" for m :: "(_, 'x) act" by (rule returns_lift) simp
  assume short: "rb_clearAllBonds prm \<or> length (rb_deviceAddrList prm) \<le> 255"
  have "returns (removeBondOnlyInC_body E prm) (\<lambda>_. True)" unfolding removeBondOnlyInC_body_def Let_def
    by (rule returns_bind returns_if l returns_batch[OF assms(2,3)] | use short in simp)+
  then show "\<exists>s' r. removeBondOnlyInC E prm s = Some (s', r)" unfolding removeBondOnlyInC_def by (rule returns_quiet)
next
  assume "\<exists>s' r. removeBondOnlyInC E prm s = Some (s', r)"
  then obtain s' r where "removeBondOnlyInC E prm s = Some (s', r)" by blast
  then obtain r' where run: "removeBondOnlyInC_body E prm s = Some (s', r')" using quiet_state[of "removeBondOnlyInC_body E prm"] unfolding removeBondOnlyInC_def by blast
  show "rb_clearAllBonds prm \<or> length (rb_deviceAddrList prm) \<le> 255"
  proof (rule ccontr)
    assume "\<not> ?thesis"
    then have n: "\<not> rb_clearAllBonds prm" "256 \<le> length (rb_deviceAddrList prm)" by auto
    obtain n' tr where tr: "execTransaction E (to_coordinator E (PNUM_COORDINATOR E) (CMD_COORDINATOR_BONDED_DEVICES E) []) (-1) (net s) = (n', Inr tr)"
      "tr_errorCode tr = TRN_OK E" using assms(1) by blast
    obtain s1 x where bn: "bonded_nodes E (rb_repeat prm) s = (s1, Inr x)"
      using exec_p_first[OF tr assms(3), of None] by (simp add: bonded_nodes_def try_p_def)
    have "rb_deviceAddrList prm \<noteq> []" "length (rb_deviceAddrList prm) \<noteq> 1" using n(2) by auto
    then have "removeBondOnlyInC_body E prm s =
        bind_o (coordRemoveBondBatch E (rb_repeat prm) (rb_deviceAddrList prm)) (\<lambda>_. lift_o (getAddressingInfo E (rb_repeat prm))) s1"
      using bn n(1) by (simp add: removeBondOnlyInC_body_def bind_o_def lift_o_def Let_def)
    then have "coordRemoveBondBatch E (rb_repeat prm) (rb_deviceAddrList prm) s1 \<noteq> None"
      using run by (cases "coordRemoveBondBatch E (rb_repeat prm) (rb_deviceAddrList prm) s1") (auto simp: bind_o_def)
    moreover have "remove_batches E (rb_repeat prm) (rb_deviceAddrList prm) 0 (None, s1) = None"
      using batches_never_return[OF assms(1,3) n(2), of 0 "(None, s1)"] by (cases "remove_batches E (rb_repeat prm) (rb_deviceAddrList prm) 0 (None, s1)") auto
    ultimately show False using \<open>rb_deviceAddrList prm \<noteq> []\<close> by (simp add: coordRemoveBondBatch_def)
  qed
qed

section \<open>Simulated networks\<close>

text \<open>
  Nodes 1 and 5 are bonded; node 5 acknowledges the removal and node 1 does not. The state says whether the coordinator has removed node 5. Other requests fail.
\<close>

definition five_net :: "bool remove_env" where
  "five_net = dpa_env.extend (sample_codes\<lparr>execTransaction := \<lambda>rq t n.
     (let ok = \<lambda>d. Inr \<lparr>tr_request = rq, tr_errorCode = 0, tr_errorString = ''ok'', tr_response = d\<rparr> in
      if rq_nadr rq \<noteq> 0 then (n, Inl ''offline'')
      else if rq_pnum rq = 0 \<and> rq_pcmd rq = 2 then (n, ok ((if n then 0x02 else 0x22) # replicate 29 0))
      else if rq_pnum rq = 0 \<and> rq_pcmd rq = 0 then (n, ok [1, 0])
      else if rq_pnum rq = 13 then (n, ok (if rq_pcmd rq = 3 then [0x30] else 0 # 0x20 # replicate 54 0))
      else if rq_pnum rq = 2 \<and> rq_pcmd rq = 5 \<and> rq_pdata rq = [6, 0, 5, 0xFF, 0xFF, 5, 0] then (True, ok [])
      else (n, Inl ''offline''))\<rparr>)
   (remove_env.fields 5 3 0 1 8 (\<lambda>d. d ! 0) 0x0418)"

definition five_bonded :: "bool \<Rightarrow> u8 set" where
  "five_bonded n = (if n then {1} else {1, 5})"

definition remove_svc :: "bool remove" where
  "remove_svc = \<lparr>net = False, frcTime = 0, exclusive = True, s_status = 0, s_statusStr = ''ok'', s_results = [], sent = [], m_nodesNr = 0, m_notRemovedNodes = []\<rparr>"

lemma five_codes: "codes_apart five_net" "PNUM_COORDINATOR five_net = 0" "PNUM_NODE five_net = 1" "PNUM_OS five_net = 2" "PNUM_FRC five_net = 13"
    "CMD_COORDINATOR_BONDED_DEVICES five_net = 2" "CMD_NODE_REMOVE_BOND five_net = 1" "CMD_FRC_SEND five_net = 0" "COORDINATOR_ADDRESS five_net = 0"
    "TRN_OK five_net = 0" "MAX_ADDRESS five_net = 239" "dpaVerWord five_net = 0x0418" "BROADCAST_ADDRESS five_net = 255" "CMD_FRC_SET_PARAMS five_net = 3"
    "FrcSend_Status five_net (x # d) = x" "FrcSend_FrcData five_net (x # d) = d" "CMD_COORDINATOR_REMOVE_BOND five_net = 5"
    "CMD_COORDINATOR_ADDR_INFO five_net = 0" "CMD_OS_BATCH five_net = 5" "CMD_COORDINATOR_CLEAR_ALL_BONDS five_net = 3"
  by (simp_all add: five_net_def dpa_env.defs remove_env.defs sample_codes_def codes_apart_def)

lemma five_bitmaps:
  "bitmap_nodes five_net (0x22 # replicate 29 0) = [1, 5]" "bitmap_nodes five_net (0x02 # replicate 29 0) = [1]"
  "bitmap_nodes five_net (0x20 # replicate 54 0) = [5]"
proof -
  have "filter (\<lambda>i. (0x22 # replicate 29 0 :: bytes) ! (i div 8) AND push_bit (i mod 8) 1 \<noteq> 0) [1..<240] = [1, 5]"
    "filter (\<lambda>i. (0x02 # replicate 29 0 :: bytes) ! (i div 8) AND push_bit (i mod 8) 1 \<noteq> 0) [1..<240] = [1]"
    "filter (\<lambda>i. (0x20 # replicate 54 0 :: bytes) ! (i div 8) AND push_bit (i mod 8) 1 \<noteq> 0) [1..<240] = [5]" by code_simp+
  then show "bitmap_nodes five_net (0x22 # replicate 29 0) = [1, 5]" "bitmap_nodes five_net (0x02 # replicate 29 0) = [1]"
    "bitmap_nodes five_net (0x20 # replicate 54 0) = [5]"
    by (simp_all add: bitmap_nodes_def five_codes)
qed

lemma five_exec:
  "execTransaction five_net rq t n =
     (let ok = \<lambda>d. Inr \<lparr>tr_request = rq, tr_errorCode = 0, tr_errorString = ''ok'', tr_response = d\<rparr> in
      if rq_nadr rq \<noteq> 0 then (n, Inl ''offline'')
      else if rq_pnum rq = 0 \<and> rq_pcmd rq = 2 then (n, ok ((if n then 0x02 else 0x22) # replicate 29 0))
      else if rq_pnum rq = 0 \<and> rq_pcmd rq = 0 then (n, ok [1, 0])
      else if rq_pnum rq = 13 then (n, ok (if rq_pcmd rq = 3 then [0x30] else 0 # 0x20 # replicate 54 0))
      else if rq_pnum rq = 2 \<and> rq_pcmd rq = 5 \<and> rq_pdata rq = [6, 0, 5, 0xFF, 0xFF, 5, 0] then (True, ok [])
      else (n, Inl ''offline''))"
  by (simp add: five_net_def dpa_env.defs remove_env.defs)

lemma five_law: "removal_law five_net five_bonded (\<lambda>_. {5})"
proof -
  have l1: "step_law five_net five_bonded (\<lambda>_. {5})"
    unfolding step_law_def five_exec removes_def five_codes
    by (auto simp: Let_def ok_tr_def five_codes five_bonded_def split: if_splits)
  have l2: "set (bitmap_nodes five_net (tr_response tr)) = five_bonded n'"
    if "execTransaction five_net (to_coordinator five_net (PNUM_COORDINATOR five_net) (CMD_COORDINATOR_BONDED_DEVICES five_net) []) t n = (n', Inr tr)" for t n n' tr
  proof -
    have "tr_response tr = (if n then 0x02 else 0x22) # replicate 29 0" "n' = n" using that by (auto simp: five_exec to_coordinator_def five_codes Let_def)
    then show ?thesis by (simp add: five_bitmaps five_bonded_def)
  qed
  have l3: "set (bitmap_nodes five_net (FrcSend_FrcData five_net (tr_response tr))) \<subseteq> {5}"
    if "execTransaction five_net (ack_request five_net (PNUM_NODE five_net) (CMD_NODE_REMOVE_BOND five_net) hwpId []) t n = (n', Inr tr)" for hwpId t n n' tr
  proof -
    have "tr_response tr = 0 # 0x20 # replicate 54 0" using that by (auto simp: five_exec ack_request_def to_coordinator_def five_codes Let_def)
    then show ?thesis by (simp add: five_bitmaps five_codes)
  qed
  have l4: "execTransaction five_net (node_request na (PNUM_NODE five_net) c hwpId []) t n \<noteq> (n', Inr tr)" for na c hwpId t n n' tr
    by (simp add: five_exec node_request_def five_codes Let_def)
  show ?thesis unfolding removal_law_def
    by (intro conjI allI impI; (elim conjE)?) (rule l1 | erule l2 | erule l3 | erule notE[OF l4])+
qed

lemma five_run: "map_option snd (removeBond_body five_net 1 255 0xFFFF remove_svc) = Some (Inr ())"
  by code_simp

theorem coordinator_forgets_only_released_witness:
  "\<exists>s' r. removeBond five_net 1 255 0xFFFF remove_svc = Some (s', r) \<and> five_bonded (net remove_svc) - five_bonded (net s') \<subseteq> {5}"
proof -
  obtain s' r where run: "removeBond five_net 1 255 0xFFFF remove_svc = Some (s', r)"
    using returns_quiet[OF returns_removal[OF five_codes(1)], of 1 255 "0xFFFF" remove_svc] unfolding removeBond_def by auto
  from coordinator_forgets_only_released[OF five_law five_codes(1) _ _ run] run show ?thesis by (simp add: five_codes)
qed


definition yes_net :: "unit remove_env" where
  "yes_net = dpa_env.extend (sample_codes\<lparr>execTransaction := \<lambda>rq t n.
     (n, Inr \<lparr>tr_request = rq, tr_errorCode = 0, tr_errorString = ''ok'', tr_response = replicate 30 0\<rparr>)\<rparr>)
   (remove_env.fields 5 3 0 1 8 (\<lambda>d. d ! 0) 0x0418)"

definition list_svc :: "unit remove" where
  "list_svc = \<lparr>net = (), frcTime = 0, exclusive = True, s_status = 0, s_statusStr = ''ok'', s_results = [], sent = [], m_nodesNr = 0, m_notRemovedNodes = []\<rparr>"

definition list_prm :: "nat \<Rightarrow> TRemoveBondInputParams" where
  "list_prm n = \<lparr>rb_deviceAddr = 0, rb_hwpId = 0xFFFF, rb_wholeNetwork = False, rb_repeat = 1, rb_deviceAddrList = replicate n 7, rb_clearAllBonds = False\<rparr>"

theorem list_removal_returns_iff_witness:
  "removeBondOnlyInC yes_net (list_prm 256) list_svc = None \<and> (\<exists>s' r. removeBondOnlyInC yes_net (list_prm 255) list_svc = Some (s', r))"
proof -
  have y: "\<forall>rq t n. \<exists>n' tr. execTransaction yes_net rq t n = (n', Inr tr) \<and> tr_errorCode tr = TRN_OK yes_net" "codes_apart yes_net"
    by (simp_all add: yes_net_def dpa_env.defs remove_env.defs sample_codes_def codes_apart_def)
  have l: "0 \<le> rb_repeat (list_prm n)" "\<not> rb_clearAllBonds (list_prm n)" "length (rb_deviceAddrList (list_prm n)) = n" for n by (simp_all add: list_prm_def)
  show ?thesis
    using list_removal_returns_iff[OF y l(1), of 256 list_svc] list_removal_returns_iff[OF y l(1), of 255 list_svc] l by (cases "removeBondOnlyInC yes_net (list_prm 256) list_svc") auto
qed

end
