(* ===== verification/Bonding.thy ===== *)
theory Bonding
  imports Dpa_Os Iqrf_Code Dpa_Service
begin

text \<open>
  The services that bond a new node: \<open>IqmeshServices/SmartConnectService\<close>, with the identification and the key of the node from an IQRF code, and
  \<open>IqmeshServices/BondNodeLocalService\<close>. Both check the requested address against the nodes of the coordinator, bond, enumerate the new node, read its operating system and
  look up the product.

  Parameters besides those of \<open>Dpa_Service\<close>: the result of the OS read command (modelled by \<open>Dpa_Os\<close>) with the hardware profile of the response, the repository of products, and the values of
  memory that the program does not initialise (\<open>indet_\<close>).
\<close>

record 'n bond_env = "'n dpa_env" +
  PNUM_ENUMERATION :: u8
  CMD_GET_PER_INFO :: u8
  CMD_COORDINATOR_SMART_CONNECT :: u8
  CMD_COORDINATOR_BOND_NODE :: u8
  DPA_MAX_DATA_LENGTH :: nat
  Response_HWPID :: "trans_result \<Rightarrow> u16"
  BondAddr :: "bytes \<Rightarrow> u8"
  DevNr :: "bytes \<Rightarrow> u8"
  enc_SmartConnect :: "u8 \<Rightarrow> u8 \<Rightarrow> bytes \<Rightarrow> bytes \<Rightarrow> u8 \<Rightarrow> u8 \<Rightarrow> bytes \<Rightarrow> bytes"
  enc_BondNode_Current :: "u8 \<Rightarrow> u8 \<Rightarrow> bytes"
  enc_BondNode_Previous :: "u8 \<Rightarrow> u8 \<Rightarrow> bytes"
  read_os :: "trans_result \<Rightarrow> (u16 \<times> Read) result"
  dpaVerWord :: u16
  dpaVerWordAsStr :: string
  getManufacturer :: "u16 \<Rightarrow> string option"
  getProduct :: "u16 \<Rightarrow> string option"
  getPackage :: "u16 \<Rightarrow> u16 \<Rightarrow> string \<Rightarrow> string \<Rightarrow> string list option"
  voltageText :: "voltage \<Rightarrow> string"
  indet_address :: u16
  indet_word :: u16
  indet_byte :: u8
  indet_bytes :: bytes

record 'n bond = "'n svc" +
  b_hwpId :: u16
  b_hwpIdVer :: u16
  b_addr :: u8
  b_nodesNum :: u8
  b_manufacturer :: string
  b_product :: string
  b_standards :: "string list"
  b_enumPer :: bytes
  b_osRead :: "(u16 \<times> Read) option"
  b_osBuild :: u16

definition new_bond :: "('n, 'e) bond_env_scheme \<Rightarrow> ('n, 'z) svc_scheme \<Rightarrow> 'n bond" where
  "new_bond E s =
     \<lparr>net = net s, frcTime = frcTime s, exclusive = exclusive s, s_status = 0, s_statusStr = ''ok'', s_results = [], sent = sent s,
      b_hwpId = indet_word E, b_hwpIdVer = indet_word E, b_addr = indet_byte E, b_nodesNum = indet_byte E, b_manufacturer = [], b_product = [],
      b_standards = [''''], b_enumPer = indet_bytes E, b_osRead = None, b_osBuild = indet_word E\<rparr>"

section \<open>The steps of bonding\<close>

text \<open>
  The address is compared as the 16 bit number of the request. With address 0 the coordinator chooses one; the search for a free address starts at 0.
\<close>

definition array_bit :: "bytes \<Rightarrow> nat \<Rightarrow> bool" where
  "array_bit a i \<longleftrightarrow> a ! (i div 8) AND push_bit (i mod 8) 1 \<noteq> 0"

definition fail_status :: "int \<Rightarrow> string \<Rightarrow> (('n, 'z) svc_scheme, 'a) act" where
  "fail_status status str = bind_s (setStatus status str) (\<lambda>_. throw (LogicError str))"

definition check_address :: "('n, 'e) bond_env_scheme \<Rightarrow> u16 \<Rightarrow> bytes \<Rightarrow> (('n, 'z) svc_scheme, unit) act" where
  "check_address E addr bondedArray =
     (if addr = 0 then
        if list_ex (\<lambda>i. \<not> array_bit bondedArray i) [0..<Suc (unat (MAX_ADDRESS E))] then ret ()
        else fail_status 1004 ''No available address to assign to a new node found.''
      else if DPA_MAX_DATA_LENGTH E \<le> unat addr div 8 then throw (UB ''bondedArray'')
      else if array_bit bondedArray (unat addr) then fail_status 1003 ''Requested address is already assigned to another device.''
      else ret ())"

definition bonded_array :: "('n, 'e) bond_env_scheme \<Rightarrow> int \<Rightarrow> (('n, 'z) svc_scheme, bytes) act" where
  "bonded_array E repeat =
     try_p (bind_s (exec_p E (to_coordinator E (PNUM_COORDINATOR E) (CMD_COORDINATOR_BONDED_DEVICES E) []) (-1) repeat) (\<lambda>rsp.
       bind_s add_p (\<lambda>_. ret (map (\<lambda>i. rsp ! i) [0..<DPA_MAX_DATA_LENGTH E]))))"

definition checkBondedNodes :: "('n, 'e) bond_env_scheme \<Rightarrow> int \<Rightarrow> u16 \<Rightarrow> (('n, 'z) svc_scheme, unit) act" where
  "checkBondedNodes E repeat addr = bind_s (bonded_array E repeat) (check_address E addr)"

definition to_bonded :: "('n, 'e) dpa_env_scheme \<Rightarrow> u8 \<Rightarrow> u8 \<Rightarrow> u8 \<Rightarrow> request" where
  "to_bonded E addr pnum pcmd = \<lparr>rq_nadr = ucast addr, rq_pnum = pnum, rq_pcmd = pcmd, rq_hwpid = HWPID_DoNotCheck E, rq_pdata = []\<rparr>"

definition getPerInfo :: "('n, 'e) bond_env_scheme \<Rightarrow> int \<Rightarrow> (('n, 'z) bond_scheme, unit) act" where
  "getPerInfo E repeat s =
     try_p (bind_s (exec_p E (to_bonded E (b_addr s) (PNUM_ENUMERATION E) (CMD_GET_PER_INFO E)) (-1) repeat) (\<lambda>rsp.
       bind_s (lift_p (upd (\<lambda>s. s\<lparr>b_enumPer := rsp\<rparr>))) (\<lambda>_. add_p))) s"

text \<open>The result is moved into the command object before it is evaluated: when that fails, the handler finds a null pointer.\<close>

definition process_os :: "('n, 'e) bond_env_scheme \<Rightarrow> (trans_result option \<times> ('n, 'z) bond_scheme, unit) act" where
  "process_os E ps =
     (case ps of
        (None, s) \<Rightarrow> (ps, Inl (UB ''nullptr''))
      | (Some tr, s) \<Rightarrow>
          (case read_os E tr of
             Inl e \<Rightarrow> ((None, s), Inl e)
           | Inr (hwpid, r) \<Rightarrow>
               ((None, s\<lparr>b_osBuild := of_int (Read.m_osBuild r), b_hwpId := hwpid, s_results := s_results s @ [tr], b_osRead := Some (hwpid, r)\<rparr>), Inr ())))"

definition osRead :: "('n, 'e) bond_env_scheme \<Rightarrow> int \<Rightarrow> (('n, 'z) bond_scheme, unit) act" where
  "osRead E repeat s =
     try_p (bind_s (exec_p E (to_bonded E (b_addr s) (PNUM_OS E) (CMD_OS_READ E)) (-1) repeat) (\<lambda>_. process_os E)) s"

definition product_info :: "('n, 'e) bond_env_scheme \<Rightarrow> ('n, 'z) bond_scheme \<Rightarrow> ('n, 'z) bond_scheme" where
  "product_info E s =
     s\<lparr>b_manufacturer := (case getManufacturer E (b_hwpId s) of None \<Rightarrow> b_manufacturer s | Some m \<Rightarrow> m),
       b_product := (case getProduct E (b_hwpId s) of None \<Rightarrow> b_product s | Some p \<Rightarrow> p),
       b_standards :=
         (case getPackage E (b_hwpId s) (b_hwpIdVer s) (pad_left 4 (CHR ''0'') (show_hex_upper (unat (b_osBuild s)))) (dpaVerWordAsStr E) of
            None \<Rightarrow> b_standards s | Some ds \<Rightarrow> ds)\<rparr>"

definition after_bonding :: "('n, 'e) bond_env_scheme \<Rightarrow> int \<Rightarrow> (('n, 'z) bond_scheme, unit) act" where
  "after_bonding E repeat = bind_s (getPerInfo E repeat) (\<lambda>_. bind_s (osRead E repeat) (\<lambda>_. upd (product_info E)))"

text \<open>Every exception is caught; what happened is in the status.\<close>

definition quiet_s :: "('s, unit) act \<Rightarrow> ('s, unit) act" where
  "quiet_s m s = (case m s of (s', Inr x) \<Rightarrow> (s', Inr x) | (s', Inl e) \<Rightarrow> (case what e of None \<Rightarrow> (s', Inl e) | Some _ \<Rightarrow> (s', Inr ())))"

section \<open>Smart Connect\<close>

record TSmartConnectInputParams =
  sc_deviceAddress :: u16
  sc_smartConnectCode :: string
  sc_bondingRetries :: int
  sc_userData :: bytes
  sc_MID :: bytes
  sc_IBK :: bytes
  sc_hwpId :: u16
  sc_repeat :: int

text \<open>A field of the packet after \<open>std::copy\<close> to its beginning.\<close>

definition field :: "nat \<Rightarrow> bytes \<Rightarrow> bytes \<Rightarrow> bytes" where
  "field n indet xs = take n (xs @ drop (length xs) indet)"

definition smart_request :: "('n, 'e) bond_env_scheme \<Rightarrow> TSmartConnectInputParams \<Rightarrow> request" where
  "smart_request E prm =
     to_coordinator E (PNUM_COORDINATOR E) (CMD_COORDINATOR_SMART_CONNECT E)
       (enc_SmartConnect E (ucast (sc_deviceAddress prm)) (of_int (sc_bondingRetries prm)) (field 16 (indet_bytes E) (sc_IBK prm))
         (field 4 (indet_bytes E) (rev (sc_MID prm))) 0 0xff (field 4 (indet_bytes E) (sc_userData prm)))"

definition bonding_result :: "('n, 'e) bond_env_scheme \<Rightarrow> bytes \<Rightarrow> ('n, 'z) bond_scheme \<Rightarrow> ('n, 'z) bond_scheme" where
  "bonding_result E rsp s = s\<lparr>b_addr := BondAddr E rsp, b_nodesNum := DevNr E rsp\<rparr>"

definition set_hwpId :: "('n, 'e) bond_env_scheme \<Rightarrow> (trans_result option \<times> ('n, 'z) bond_scheme, unit) act" where
  "set_hwpId E ps = (case ps of (None, s) \<Rightarrow> (ps, Inl (UB ''nullptr'')) | (Some tr, s) \<Rightarrow> ((Some tr, s\<lparr>b_hwpId := Response_HWPID E tr\<rparr>), Inr ()))"

definition doSmartConnect :: "('n, 'e) bond_env_scheme \<Rightarrow> TSmartConnectInputParams \<Rightarrow> (('n, 'z) bond_scheme, unit) act" where
  "doSmartConnect E prm =
     (if 4 < length (sc_userData prm) then throw (UB ''UserData'')
      else try_p (bind_s (exec_p E (smart_request E prm) (-1) (sc_repeat prm)) (\<lambda>rsp.
        bind_s (set_hwpId E) (\<lambda>_. bind_s add_p (\<lambda>_. lift_p (upd (bonding_result E rsp)))))))"

definition smartConnect_body :: "('n, 'e) bond_env_scheme \<Rightarrow> TSmartConnectInputParams \<Rightarrow> (('n, 'z) bond_scheme, unit) act" where
  "smartConnect_body E prm =
     (if dpaVerWord E < 0x0303 then throw (LogicError ''Old version of DPA: '')
      else bind_s (checkBondedNodes E (sc_repeat prm) (sc_deviceAddress prm)) (\<lambda>_.
           bind_s (doSmartConnect E prm) (\<lambda>_. after_bonding E (sc_repeat prm))))"

definition smartConnect :: "('n, 'e) bond_env_scheme \<Rightarrow> TSmartConnectInputParams \<Rightarrow> (('n, 'z) bond_scheme, unit) act" where
  "smartConnect E prm = quiet_s (smartConnect_body E prm)"

section \<open>Local bonding\<close>

record TBondNodeInputParams =
  bn_deviceAddress :: u16
  bn_bondingMask :: int
  bn_bondingTestRetries :: int
  bn_repeat :: int

definition bond_request :: "('n, 'e) bond_env_scheme \<Rightarrow> TBondNodeInputParams \<Rightarrow> request" where
  "bond_request E prm =
     to_coordinator E (PNUM_COORDINATOR E) (CMD_COORDINATOR_BOND_NODE E)
       (if 0x400 \<le> dpaVerWord E then enc_BondNode_Current E (ucast (bn_deviceAddress prm)) (of_int (bn_bondingTestRetries prm))
        else enc_BondNode_Previous E (ucast (bn_deviceAddress prm)) (of_int (bn_bondingMask prm)))"

definition doBondNode :: "('n, 'e) bond_env_scheme \<Rightarrow> TBondNodeInputParams \<Rightarrow> (('n, 'z) bond_scheme, unit) act" where
  "doBondNode E prm =
     try_p (bind_s (exec_p E (bond_request E prm) (-1) (bn_repeat prm)) (\<lambda>rsp.
       bind_s (lift_p (upd (bonding_result E rsp))) (\<lambda>_. add_p)))"

definition bondNode :: "('n, 'e) bond_env_scheme \<Rightarrow> TBondNodeInputParams \<Rightarrow> (('n, 'z) bond_scheme, unit) act" where
  "bondNode E prm =
     quiet_s (bind_s (checkBondedNodes E (bn_repeat prm) (bn_deviceAddress prm)) (\<lambda>_.
       bind_s (doBondNode E prm) (\<lambda>_. after_bonding E (bn_repeat prm))))"

section \<open>Responses and requests\<close>

definition os_path :: "string list \<Rightarrow> string list" where
  "os_path p = [''data'', ''rsp'', ''osRead''] @ p"

definition os_members :: "('n, 'e) bond_env_scheme \<Rightarrow> u16 \<Rightarrow> Read \<Rightarrow> (string list \<times> json) list" where
  "os_members E hwpid r =
     [(os_path [''mid''], JStr (getMidAsString r)), (os_path [''osVersion''], JStr (getOsVersionAsString r)),
      (os_path [''trMcuType'', ''value''], JNum (uint (m_trMcuType r))), (os_path [''trMcuType'', ''trType''], JStr (getTrTypeAsString r)),
      (os_path [''trMcuType'', ''fccCertified''], JBool (isFccCertified r)), (os_path [''trMcuType'', ''mcuType''], JStr (getTrMcuTypeAsString r)),
      (os_path [''osBuild''], JStr (getOsBuildAsString (Read.m_osBuild r))), (os_path [''rssi''], JStr (getRssiAsString r)),
      (os_path [''supplyVoltage''], JStr (voltageText E (m_supplyVoltage r))), (os_path [''flags'', ''value''], JNum (m_flags r)),
      (os_path [''flags'', if 0x0417 \<le> Read_getDpaVer r then ''insufficientOsVersion'' else ''insufficientOsBuild''], JBool (isInsufficientOs r)),
      (os_path [''flags'', ''interfaceType''], JStr (getInterfaceAsString r)), (os_path [''flags'', ''dpaHandlerDetected''], JBool (isDpaHandlerDetected r)),
      (os_path [''flags'', ''dpaHandlerNotDetectedButEnabled''], JBool (isDpaHandlerNotDetectedButEnabled r)),
      (os_path [''flags'', ''noInterfaceSupported''], JBool (isNoInterfaceSupported r))]
     @ (if 0x0413 \<le> Read_getDpaVer r then [(os_path [''flags'', ''iqrfOsChanged''], JBool (isIqrfOsChanges r))] else [])
     @ (if 0x0416 \<le> Read_getDpaVer r then [(os_path [''flags'', ''frcAggregationEnabled''], JBool (isFrcAggregationEnabled r))] else [])
     @ [(os_path [''slotLimits'', ''value''], JNum (m_slotLimits r)),
        (os_path [''slotLimits'', ''shortestTimeslot''], JStr (getShortestTimeSlotAsString r)),
        (os_path [''slotLimits'', ''longestTimeslot''], JStr (getLongestTimeSlotAsString r))]
     @ (if m_is410Compliant r
        then [(os_path [''dpaVer''], JStr (Read_getDpaVerAsString (m_dpaVer r))), (os_path [''perNr''], JNum (m_perNr r)),
              (os_path [''embPers''], JArr (map JNum (sorted_list_of_set (m_embedPer r)))), (os_path [''hwpId''], JNum (uint hwpid)),
              (os_path [''hwpIdVer''], JNum (Read.m_hwpidVer r)), (os_path [''enumFlags'', ''value''], JNum (m_flags r)),
              (os_path [''enumFlags'', ''rfModeStd''], JBool (m_flags r AND 1 = 1)), (os_path [''enumFlags'', ''rfModeLp''], JBool (m_flags r AND 1 \<noteq> 1))]
          @ (if 0x0400 \<le> Read_getDpaVer r then [(os_path [''enumFlags'', ''stdAndLpNetwork''], JBool (m_flags r AND 4 = 4))] else [])
          @ [(os_path [''userPers''], JArr (map JNum (sorted_list_of_set (m_userPer r))))]
        else [])"

definition createResponse :: "('n, 'e) bond_env_scheme \<Rightarrow> com_base \<Rightarrow> string \<Rightarrow> ('n, 'z) bond_scheme \<Rightarrow> json result" where
  "createResponse E com mType s =
     bind_r
       (if s_status s \<noteq> 0 then Inr []
        else case b_osRead s of
          None \<Rightarrow> Inl (UB ''nullptr'')
        | Some (hwpid, r) \<Rightarrow>
            Inr ([([''data'', ''rsp'', ''assignedAddr''], JNum (uint (b_addr s))), ([''data'', ''rsp'', ''nodesNr''], JNum (uint (b_nodesNum s))),
                  ([''data'', ''rsp'', ''hwpId''], JNum (uint (b_hwpId s))), ([''data'', ''rsp'', ''manufacturer''], JStr (b_manufacturer s)),
                  ([''data'', ''rsp'', ''product''], JStr (b_product s)), ([''data'', ''rsp'', ''standards''], JArr (map JStr (b_standards s)))]
                 @ os_members E hwpid r)) (\<lambda>members.
     Inr (jset_all
       ([([''mType''], JStr mType), ([''data'', ''msgId''], JStr (c_msgId com))] @ members
        @ (if c_verbose com then [([''data'', ''raw''], JArr (map (rawObject E) (s_results s)))] else [])
        @ [([''data'', ''status''], JNum (s_status s)), ([''data'', ''statusStr''], JStr (s_statusStr s))]) JNull))"

definition respond ::
    "('n, 'e) bond_env_scheme \<Rightarrow> com_base \<Rightarrow> string \<Rightarrow> string option \<Rightarrow> (('n, 'z) bond_scheme, unit) act \<Rightarrow> (('n, 'z) bond_scheme, unit) act" where
  "respond E com mType refused service s =
     (case refused of
        Some w \<Rightarrow> send_response E (error_response mType (c_msgId com) 1002 w) s
      | None \<Rightarrow>
          (case service (s\<lparr>exclusive := True\<rparr>) of
             (s, Inl e) \<Rightarrow> (s, Inl e)
           | (s, Inr _) \<Rightarrow>
               (case bind_s (of_result (createResponse E com mType s)) (send_response E) s of
                  (s, Inr _) \<Rightarrow> (s\<lparr>exclusive := False\<rparr>, Inr ())
                | (s, Inl e) \<Rightarrow> (case what e of None \<Rightarrow> (s, Inl e) | Some w \<Rightarrow> (s\<lparr>exclusive := False\<rparr>, Inl (LogicError w))))))"

definition int_elem :: "json \<Rightarrow> u8 result" where
  "int_elem v = (case v of JNum n \<Rightarrow> if is_int n then Inr (of_int n) else Inl (UB ''RAPIDJSON_ASSERT'') | _ \<Rightarrow> Inl (UB ''RAPIDJSON_ASSERT''))"

definition user_data :: "json \<Rightarrow> bytes result" where
  "user_data doc =
     (case jget [''data'', ''req'', ''userData''] doc of
        None \<Rightarrow> Inr []
      | Some (JArr vs) \<Rightarrow> map_r int_elem vs
      | Some _ \<Rightarrow> Inl (UB ''RAPIDJSON_ASSERT''))"

definition parse_smart :: "('n, 'e) bond_env_scheme \<Rightarrow> json \<Rightarrow> TSmartConnectInputParams result" where
  "parse_smart E doc =
     bind_r (int_member [''data'', ''repeat''] doc 1) (\<lambda>repeat.
     bind_r (int_member [''data'', ''req'', ''deviceAddr''] doc (uint (indet_address E))) (\<lambda>addr.
     bind_r (string_member [''data'', ''req'', ''smartConnectCode''] doc []) (\<lambda>code.
     bind_r (int_member [''data'', ''req'', ''bondingTestRetries''] doc 1) (\<lambda>retries.
     bind_r (user_data doc) (\<lambda>user.
       Inr \<lparr>sc_deviceAddress = of_int addr, sc_smartConnectCode = code, sc_bondingRetries = retries, sc_userData = user, sc_MID = [], sc_IBK = [],
            sc_hwpId = indet_word E, sc_repeat = repeat\<rparr>)))))"

definition parse_bond :: "('n, 'e) bond_env_scheme \<Rightarrow> json \<Rightarrow> TBondNodeInputParams result" where
  "parse_bond E doc =
     bind_r (int_member [''data'', ''repeat''] doc 1) (\<lambda>repeat.
     bind_r (int_member [''data'', ''req'', ''deviceAddr''] doc (uint (indet_address E))) (\<lambda>addr.
     bind_r (int_member [''data'', ''req'', ''bondingMak''] doc 255) (\<lambda>mask.
     bind_r (int_member [''data'', ''req'', ''bondingTestRetries''] doc 1) (\<lambda>retries.
       Inr \<lparr>bn_deviceAddress = of_int addr, bn_bondingMask = mask, bn_bondingTestRetries = retries, bn_repeat = repeat\<rparr>))))"

text \<open>The decoder of the IQRF code consists of static members, which keep their values between requests: \<open>dec\<close>.\<close>

definition handle_smart ::
    "('n, 'e) bond_env_scheme \<Rightarrow> string option \<Rightarrow> string \<Rightarrow> json \<Rightarrow> IqrfCodeDecoder \<Rightarrow> ('n, 'z) svc_scheme \<Rightarrow> IqrfCodeDecoder \<times> ('n bond \<times> unit result)" where
  "handle_smart E refused mType doc dec s =
     (if mType \<noteq> ''iqmeshNetwork_SmartConnect'' then (dec, new_bond E s, Inl (LogicError ''Unsupported message type: ''))
      else case bind_r (ComBase doc) (\<lambda>com. bind_r (parse_smart E doc) (\<lambda>prm. Inr (com, prm))) of
        Inl e \<Rightarrow> (dec, new_bond E s, Inl e)
      | Inr (com, prm) \<Rightarrow>
          (case decode (sc_smartConnectCode prm) dec of
             (dec, Inl e) \<Rightarrow>
               (dec, case what e of None \<Rightarrow> (new_bond E s, Inl e)
                     | Some w \<Rightarrow> send_response E (error_response mType (c_msgId com) 1001 w) (new_bond E s))
           | (dec, Inr _) \<Rightarrow>
               (dec, respond E com mType refused
                  (smartConnect E (prm\<lparr>sc_MID := IqrfCodeDecoder.m_mid dec, sc_IBK := IqrfCodeDecoder.m_ibk dec, sc_hwpId := IqrfCodeDecoder.m_hwpId dec\<rparr>)) (new_bond E s))))"

definition handle_bond ::
    "('n, 'e) bond_env_scheme \<Rightarrow> string option \<Rightarrow> string \<Rightarrow> json \<Rightarrow> ('n, 'z) svc_scheme \<Rightarrow> 'n bond \<times> unit result" where
  "handle_bond E refused mType doc s =
     (if mType \<noteq> ''iqmeshNetwork_BondNodeLocal'' then (new_bond E s, Inl (LogicError ''Unsupported message type: ''))
      else case bind_r (ComBase doc) (\<lambda>com. bind_r (parse_bond E doc) (\<lambda>prm. Inr (com, prm))) of
        Inl e \<Rightarrow> (new_bond E s, Inl e)
      | Inr (com, prm) \<Rightarrow> respond E com mType refused (bondNode E prm) (new_bond E s))"

end
