(* ===== verification/Bonding_Props.thy ===== *)
theory Bonding_Props
  imports Bonding
begin

text \<open>
  Properties of bonding: a success that is reported comes from a request with the values of the IQRF code, an address in use is refused before bonding, the cases the
  check of the address misses, and what happens with an old coordinator.
\<close>

section \<open>What the steps leave alone\<close>

lemma keeps_bond [keeps_rules]:
  "keeps (\<lambda>ps. b_osRead (snd ps)) (exec_p E rq t k)" "keeps (\<lambda>ps. b_osRead (snd ps)) add_p"
  "keeps (\<lambda>ps. b_addr (snd ps)) (exec_p E rq t k)" "keeps (\<lambda>ps. b_addr (snd ps)) add_p"
  "keeps (\<lambda>ps. b_osRead (snd ps)) (set_hwpId E')" "keeps (\<lambda>ps. b_addr (snd ps)) (process_os E')"
  by (auto simp: keeps_def exec_p_def add_p_def set_hwpId_def process_os_def split: prod.split option.split sum.split)

lemma report_bond [simp]: "b_osRead (fst (report b ptr e s)) = b_osRead s" "b_addr (fst (report b ptr e s)) = b_addr s"
  by (auto simp: report_def split: option.split)

lemma keeps_try_bond [keeps_rules]:
  "keeps (\<lambda>ps. b_osRead (snd ps)) m \<Longrightarrow> keeps b_osRead (try_p m)" "keeps (\<lambda>ps. b_addr (snd ps)) m' \<Longrightarrow> keeps b_addr (try_p m')"
  by (auto simp: keeps_def try_p_def split: prod.split sum.split) (metis fst_conv snd_conv)+

lemma keeps_lift_upd:
  "(\<And>s. b_osRead (g s) = b_osRead s) \<Longrightarrow> keeps (\<lambda>ps. b_osRead (snd ps)) (lift_p (upd g))"
  "(\<And>s. b_addr (h s) = b_addr s) \<Longrightarrow> keeps (\<lambda>ps. b_addr (snd ps)) (lift_p (upd h))"
  by (simp_all add: keeps_def)

lemma keeps_at: "(\<And>s. keeps f (m s)) \<Longrightarrow> keeps f (\<lambda>s. m s s)"
  by (simp add: keeps_def)

lemma keeps_steps:
  "keeps b_osRead (checkBondedNodes E k a)" "keeps b_osRead (doSmartConnect E prm)" "keeps b_osRead (getPerInfo E k)" "keeps b_addr (getPerInfo E k)" "keeps b_addr (osRead E k)"
proof -
  note r = keeps_if keeps_try_bond keeps_bind keeps_bond keeps_basic(1,2) keeps_lift_upd
  have "keeps b_osRead (bonded_array E k)" unfolding bonded_array_def by (rule r)+
  moreover have "keeps b_osRead (check_address E a arr)" for arr
    by (auto simp: keeps_def check_address_def fail_status_def setStatus_def bind_s_def)
  ultimately show "keeps b_osRead (checkBondedNodes E k a)" unfolding checkBondedNodes_def by (rule keeps_bind)
  show "keeps b_osRead (doSmartConnect E prm)" unfolding doSmartConnect_def by (rule r)+ (simp add: bonding_result_def)
  show "keeps b_osRead (getPerInfo E k)" unfolding getPerInfo_def[abs_def] by (rule keeps_at) (rule r | simp)+
  show "keeps b_addr (getPerInfo E k)" unfolding getPerInfo_def[abs_def] by (rule keeps_at) (rule r | simp)+
  show "keeps b_addr (osRead E k)" unfolding osRead_def[abs_def] by (rule keeps_at) (rule r)+
qed

text \<open>A node whose operating system was read has been bonded by a confirmed request.\<close>

lemma read_after_bonding:
  assumes "smartConnect_body E prm s = (s', r)" "b_osRead s = None" "b_osRead s' \<noteq> None" "0 \<le> sc_repeat prm"
  shows "\<exists>n n' tr. execTransaction E (smart_request E prm) (-1) n = (n', Inr tr) \<and> tr_errorCode tr = TRN_OK E \<and> b_addr s' = BondAddr E (tr_response tr)"
proof -
  have v: "\<not> dpaVerWord E < 0x0303" using assms(1-3) by (auto simp: smartConnect_body_def)
  obtain s1 r1 where 1: "checkBondedNodes E (sc_repeat prm) (sc_deviceAddress prm) s = (s1, r1)" by fastforce
  have o1: "b_osRead s1 = None" using keepsD[OF keeps_steps(1) 1] assms(2) by simp
  have r1: "r1 = Inr ()" using assms(1,3) 1 o1 v by (cases r1) (auto simp: smartConnect_body_def)
  obtain s2 r2 where 2: "doSmartConnect E prm s1 = (s2, r2)" by fastforce
  have o2: "b_osRead s2 = None" using keepsD[OF keeps_steps(2) 2] o1 by simp
  have r2: "r2 = Inr ()" using assms(1,3) 1 2 r1 o2 v by (cases r2) (auto simp: smartConnect_body_def)
  obtain s3 r3 where 3: "getPerInfo E (sc_repeat prm) s2 = (s3, r3)" by fastforce
  have o3: "b_osRead s3 = None" "b_addr s3 = b_addr s2" using keepsD[OF keeps_steps(3) 3] keepsD[OF keeps_steps(4) 3] o2 by simp_all
  have rest: "after_bonding E (sc_repeat prm) s2 = (s', r)" using assms(1) 1 2 r1 r2 v by (simp add: smartConnect_body_def)
  have r3: "r3 = Inr ()" using rest assms(3) 3 o3 by (cases r3) (auto simp: after_bonding_def)
  obtain s4 r4 where 4: "osRead E (sc_repeat prm) s3 = (s4, r4)" by fastforce
  have "b_addr s' = b_addr s4" using rest 3 r3 4 by (cases r4) (auto simp: after_bonding_def product_info_def)
  then have addr: "b_addr s' = b_addr s2" using keepsD[OF keeps_steps(5) 4] o3 by simp
  have len: "\<not> 4 < length (sc_userData prm)" using 2 r2 by (auto simp: doSmartConnect_def)
  obtain ptr ps1 rsp where e: "exec_p E (smart_request E prm) (-1) (sc_repeat prm) (None, s1) = (ps1, Inr rsp)"
    "bind_s (set_hwpId E) (\<lambda>_. bind_s add_p (\<lambda>_. lift_p (upd (bonding_result E rsp)))) ps1 = ((ptr, s2), Inr ())"
    using 2 r2 len by (auto simp: doSmartConnect_def try_p_Inr bind_s_Inr)
  obtain p1 t1 where ps1: "ps1 = (p1, t1)" by fastforce
  have "\<exists>n1 n' tr. True \<and> execTransaction E (smart_request E prm) (-1) n1 = (n', Inr tr) \<and> tr_errorCode tr = TRN_OK E \<and> p1 = Some tr \<and>
      t1 = s1\<lparr>net := n'\<rparr> \<and> rsp = tr_response tr"
    by (rule exec_p_success[OF e(1)[unfolded ps1] assms(4)]) simp_all
  then obtain n1 n' tr where tr: "execTransaction E (smart_request E prm) (-1) n1 = (n', Inr tr)" "tr_errorCode tr = TRN_OK E" "p1 = Some tr"
    "rsp = tr_response tr" by blast
  have "b_addr s2 = BondAddr E rsp" using e(2) ps1 tr(3) by (auto simp: bind_s_Inr set_hwpId_def bonding_result_def)
  then show ?thesis using tr addr by auto
qed

section \<open>Responses\<close>

lemma os_members_apart: "\<forall>(p, v)\<in>set (os_members E h r). apart p [''data'', ''rsp'', k] = (k \<noteq> ''osRead'')"
  by (simp add: os_members_def os_path_def) auto

lemma assigned_reported:
  assumes "createResponse E com mType s = Inr rsp" "s_status s = 0"
  shows "b_osRead s \<noteq> None \<and> jget [''data'', ''rsp'', ''assignedAddr''] rsp = Some (JNum (uint (b_addr s)))"
proof -
  obtain h r where o: "b_osRead s = Some (h, r)" using assms by (cases "b_osRead s") (auto simp: createResponse_def)
  let ?l = "[([''data'', ''rsp'', ''nodesNr''], JNum (uint (b_nodesNum s))),
                  ([''data'', ''rsp'', ''hwpId''], JNum (uint (b_hwpId s))), ([''data'', ''rsp'', ''manufacturer''], JStr (b_manufacturer s)),
                  ([''data'', ''rsp'', ''product''], JStr (b_product s)), ([''data'', ''rsp'', ''standards''], JArr (map JStr (b_standards s)))]
                 @ os_members E h r
        @ (if c_verbose com then [([''data'', ''raw''], JArr (map (rawObject E) (s_results s)))] else [])
        @ [([''data'', ''status''], JNum (s_status s)), ([''data'', ''statusStr''], JStr (s_statusStr s))]"
  have "rsp = jset_all ([([''mType''], JStr mType), ([''data'', ''msgId''], JStr (c_msgId com))] @ ([''data'', ''rsp'', ''assignedAddr''], JNum (uint (b_addr s))) # ?l) JNull"
    using assms o by (simp add: createResponse_def)
  moreover have "\<forall>(p, v)\<in>set ?l. apart p [''data'', ''rsp'', ''assignedAddr'']"
    using os_members_apart[of E h r "''assignedAddr''"] by auto
  ultimately show ?thesis using jset_all_read o by blast
qed

section \<open>Properties\<close>

text \<open>
  C11: Smart Connect uses the values of the code. When a request whose code was made from a module identification and a bonding key is answered with status 0, the coordinator has confirmed a
  request with exactly this key, this identification in reverse byte order and the low byte of the requested address, and the address reported is the one the coordinator assigned.\<close>

theorem smart_connect_uses_code:
  assumes "handle_smart E None mType doc dec s = (dec', s', Inr ())" "s_status s' = 0"
    and "parse_smart E doc = Inr prm" "sc_smartConnectCode prm = encode items" "0 \<le> sc_repeat prm"
    and "list_all wf_item items" "fold apply_item items dec = \<lparr>m_mid = mid, m_ibk = ibk, m_hwpId = h\<rparr>" "length mid = 4" "length ibk = 16"
  shows "\<exists>n n' tr rsp. execTransaction E
      (to_coordinator E (PNUM_COORDINATOR E) (CMD_COORDINATOR_SMART_CONNECT E)
        (enc_SmartConnect E (ucast (sc_deviceAddress prm)) (of_int (sc_bondingRetries prm)) ibk (rev mid) 0 0xff (field 4 (indet_bytes E) (sc_userData prm))))
      (-1) n = (n', Inr tr) \<and> tr_errorCode tr = TRN_OK E \<and>
    last (sent s') = rsp \<and> jget [''data'', ''rsp'', ''assignedAddr''] rsp = Some (JNum (uint (BondAddr E (tr_response tr))))"
proof -
  let ?prm = "prm\<lparr>sc_MID := mid, sc_IBK := ibk, sc_hwpId := h\<rparr>"
  have dec: "decode (encode items) dec = (\<lparr>m_mid = mid, m_ibk = ibk, m_hwpId = h\<rparr>, Inr ())" using decode_encoded[OF assms(6)] assms(7) by simp
  obtain com where r: "respond E com mType None (smartConnect E ?prm) (new_bond E s) = (s', Inr ())"
    using assms(1,3,4) dec by (auto simp: handle_smart_def bind_r_def split: if_splits sum.splits)
  let ?s = "(new_bond E s)\<lparr>exclusive := True\<rparr>"
  obtain s1 rsp where 1: "smartConnect E ?prm ?s = (s1, Inr ())" "createResponse E com mType s1 = Inr rsp" "s' = s1\<lparr>sent := sent s1 @ [rsp], exclusive := False\<rparr>"
    using r by (auto simp: respond_def bind_s_def send_response_def split: prod.splits sum.splits option.splits)
  obtain r1 where body: "smartConnect_body E ?prm ?s = (s1, r1)"
    using 1(1) by (auto simp: smartConnect_def quiet_s_def split: prod.splits sum.splits option.splits)
  have st: "s_status s1 = 0" using assms(2) 1(3) by simp
  note rep = assigned_reported[OF 1(2) st]
  have "b_osRead ?s = None" "0 \<le> sc_repeat ?prm" using assms(5) by (simp_all add: new_bond_def)
  from read_after_bonding[OF body this(1) conjunct1[OF rep] this(2)]
  obtain n n' tr where "execTransaction E (smart_request E ?prm) (-1) n = (n', Inr tr)" "tr_errorCode tr = TRN_OK E" "b_addr s1 = BondAddr E (tr_response tr)" by blast
  moreover have "last (sent s') = rsp" using 1(3) by simp
  ultimately show ?thesis using rep assms(8,9) by (auto simp: smart_request_def field_def)
qed

text \<open>
  C28: An address that the coordinator has already assigned is refused by both services with status 1003, before any request to bond.\<close>

theorem used_address_refused:
  assumes "bonded_array E k s = (s1, Inr arr)" "addr \<noteq> 0" "unat addr < 8 * DPA_MAX_DATA_LENGTH E" "array_bit arr (unat addr)"
    and "sc_repeat p = k" "sc_deviceAddress p = addr" "bn_repeat q = k" "bn_deviceAddress q = addr" "0x0303 \<le> dpaVerWord E"
  shows "smartConnect E p s = (s1\<lparr>s_status := 1003, s_statusStr := ''Requested address is already assigned to another device.''\<rparr>, Inr ()) \<and>
    bondNode E q s = (s1\<lparr>s_status := 1003, s_statusStr := ''Requested address is already assigned to another device.''\<rparr>, Inr ())"
proof -
  have "unat addr div 8 < DPA_MAX_DATA_LENGTH E" using assms(3) by (simp add: less_mult_imp_div_less mult.commute)
  then have "checkBondedNodes E k addr s =
      (s1\<lparr>s_status := 1003, s_statusStr := ''Requested address is already assigned to another device.''\<rparr>,
       Inl (LogicError ''Requested address is already assigned to another device.''))"
    using assms(1,2,4) by (simp add: checkBondedNodes_def check_address_def fail_status_def setStatus_def)
  then show ?thesis using assms(5-9)
    by (simp add: smartConnect_def bondNode_def smartConnect_body_def quiet_s_def what_def bind_s_def linorder_not_less)
qed

text \<open>
  C37: What the check of the address misses. When every address from 1 on is assigned, a request for any address is still accepted, since address 0 counts as free; and the
  check uses all 16 bits of the address while the request carries its low byte: for 257 the bit of node 257 is tested and address 1 is requested, whether or not it is in use.\<close>

theorem address_check_gaps:
  assumes "\<not> array_bit arr 0" "\<not> array_bit arr 257" "257 < 8 * DPA_MAX_DATA_LENGTH E"
  shows "check_address E 0 arr s = (s, Inr ()) \<and> check_address E 257 arr s = (s, Inr ()) \<and>
    (sc_deviceAddress p = 257 \<and> sc_deviceAddress q = 1 \<and> sc_bondingRetries p = sc_bondingRetries q \<and> sc_IBK p = sc_IBK q \<and> sc_MID p = sc_MID q \<and>
     sc_userData p = sc_userData q \<longrightarrow> smart_request E p = smart_request E q)"
proof -
  have "list_ex (\<lambda>i. \<not> array_bit arr i) [0..<Suc (unat (MAX_ADDRESS E))]"
    using assms(1) unfolding list_ex_iff by (intro bexI[of _ 0]) auto
  moreover have "\<not> DPA_MAX_DATA_LENGTH E \<le> 32" using assms(3) by simp
  moreover have w: "(257 :: u8) = 1" by (simp add: word_eq_iff_unsigned)
  ultimately show ?thesis using assms(2) by (auto simp: check_address_def smart_request_def w)
qed

text \<open>
  C38: With a coordinator older than DPA 3.03 a Smart Connect request with a valid code does not get a response: the exception leaves status 0, and the response is then built from the information
  about the operating system, a null pointer.\<close>

theorem old_coordinator_crashes:
  assumes "dpaVerWord E < 0x0303" "ComBase doc = Inr com" "parse_smart E doc = Inr prm" "decode (sc_smartConnectCode prm) dec = (dec', Inr ())"
  shows "\<exists>s'. handle_smart E None ''iqmeshNetwork_SmartConnect'' doc dec s = (dec', s', Inl (UB ''nullptr'')) \<and> exclusive s' \<and> sent s' = sent s"
  using assms
  by (simp add: handle_smart_def respond_def smartConnect_def smartConnect_body_def quiet_s_def what_def createResponse_def new_bond_def)

section \<open>A simulated coordinator\<close>

text \<open>It confirms every request and assigns address 7; \<open>bm\<close> is the table of nodes, \<open>ver\<close> the version.\<close>

definition bond_net :: "bytes \<Rightarrow> u16 \<Rightarrow> unit bond_env" where
  "bond_net bm ver = dpa_env.extend (sample_codes\<lparr>execTransaction := \<lambda>rq t n.
     (n, Inr \<lparr>tr_request = rq, tr_errorCode = 0, tr_errorString = ''ok'', tr_response = if rq_pcmd rq = 2 then bm else [7, 3]\<rparr>)\<rparr>)
   (bond_env.fields 0xFF 0x3F 18 4 56 (\<lambda>_. 0) (\<lambda>d. d ! 0) (\<lambda>d. d ! 1) (\<lambda>a r ibk mid x y u. [a, r] @ ibk @ mid @ [x, y] @ u) (\<lambda>a r. [a, r]) (\<lambda>a m. [a, m])
     (\<lambda>_. Inr (0x1234, Read0)) ver ''04.18'' (\<lambda>_. None) (\<lambda>_. None) (\<lambda>_ _ _ _. None) (\<lambda>_. []) 0 0 0 (replicate 16 0))"

definition bond_svc :: "unit svc" where
  "bond_svc = \<lparr>net = (), frcTime = 0, exclusive = False, s_status = 0, s_statusStr = [], s_results = [], sent = []\<rparr>"

definition bond_items :: "item list" where
  "bond_items = [Mid [0x81, 0, 0xA1, 0xB2], Ibk (replicate 16 9)]"

definition smart_doc :: json where
  "smart_doc = JObj [(''mType'', JStr ''iqmeshNetwork_SmartConnect''), (''data'', JObj [(''msgId'', JStr ''7''),
     (''req'', JObj [(''deviceAddr'', JNum 7), (''smartConnectCode'', JStr (encode bond_items)), (''userData'', JArr [JNum 0, JNum 0, JNum 0, JNum 0])])])]"

definition empty_decoder :: IqrfCodeDecoder where
  "empty_decoder = \<lparr>m_mid = [], m_ibk = [], m_hwpId = 0\<rparr>"

definition smart_prm :: "u16 \<Rightarrow> TSmartConnectInputParams" where
  "smart_prm a = \<lparr>sc_deviceAddress = a, sc_smartConnectCode = encode bond_items, sc_bondingRetries = 1, sc_userData = [0, 0, 0, 0], sc_MID = [], sc_IBK = [],
     sc_hwpId = 0, sc_repeat = 1\<rparr>"

text \<open>A code contains no null character.\<close>

lemma code_c_str: "c_str (encode items) = encode items"
proof -
  have e: "set (encode_bytes bs) \<subseteq> set base57alphabet" for bs
  proof (induction bs rule: encode_bytes.induct)
    case (1 bs)
    then show ?case by (subst encode_bytes.simps) (auto simp: enc_piece_def alphabet_size)
  qed
  have n: "CHR 0x00 \<notin> set base57alphabet" by (simp add: base57alphabet_def)
  have c: "checkChar t \<in> set base57alphabet" for t
  proof -
    have "(57 - check_sum (rev t) 2 0 smod 57) smod 57 < 57" using smod_int_range[of 57 "57 - check_sum (rev t) 2 0 smod 57"] by simp
    then have "nat ((57 - check_sum (rev t) 2 0 smod 57) smod 57) < length base57alphabet" by (simp only: alphabet_size)
    then show ?thesis unfolding checkChar_def by (rule nth_mem)
  qed
  have "set (encode items) \<subseteq> set base57alphabet" using e c by (auto simp: encode_def Let_def)
  then have "\<forall>ch\<in>set (encode items). ch \<noteq> CHR 0x00" using n by blast
  then show ?thesis unfolding c_str_def by (subst takeWhile_eq_all_conv) simp
qed

lemma smart_doc_parsed: "parse_smart (bond_net bm ver) smart_doc = Inr (smart_prm 7)"
  by (simp add: parse_smart_def smart_doc_def int_member_def string_member_def user_data_def jget.simps GetString_def code_c_str is_int_def int_elem_def smart_prm_def
      bond_net_def dpa_env.defs bond_env.defs)

lemma bond_exec: "exec_p (bond_net bm ver) rq t 1 (p, s) =
    ((Some \<lparr>tr_request = rq, tr_errorCode = 0, tr_errorString = ''ok'', tr_response = if rq_pcmd rq = 2 then bm else [7, 3]\<rparr>, s),
     Inr (if rq_pcmd rq = 2 then bm else [7, 3]))"
  by (simp add: exec_p_def executeDpaTransactionRepeat.simps bond_net_def dpa_env.defs bond_env.defs sample_codes_def)

lemma bond_codes: "CMD_COORDINATOR_BONDED_DEVICES (bond_net bm ver) = 2" "CMD_COORDINATOR_SMART_CONNECT (bond_net bm ver) = 18" "CMD_GET_PER_INFO (bond_net bm ver) = 0x3F"
    "CMD_OS_READ (bond_net bm ver) = 0" "DPA_MAX_DATA_LENGTH (bond_net bm ver) = 56" "read_os (bond_net bm ver) tr = Inr (0x1234, Read0)" "dpaVerWord (bond_net bm ver) = ver"
    "sendDocument (bond_net bm ver) d = Inr ()" "BondAddr (bond_net bm ver) [x, y] = x" "PNUM_COORDINATOR (bond_net bm ver) = 0"
    "enc_SmartConnect (bond_net bm ver) a r ibk mid x' y' u = [a, r] @ ibk @ mid @ [x', y'] @ u" "TRN_OK (bond_net bm ver) = 0"
    "execTransaction (bond_net bm ver) rq t n =
       (n, Inr \<lparr>tr_request = rq, tr_errorCode = 0, tr_errorString = ''ok'', tr_response = if rq_pcmd rq = 2 then bm else [7, 3]\<rparr>)"
  by (simp_all add: bond_net_def dpa_env.defs bond_env.defs sample_codes_def)

lemma bond_items_decoded: "list_all wf_item bond_items"
    "fold apply_item bond_items empty_decoder = \<lparr>m_mid = [0x81, 0, 0xA1, 0xB2], m_ibk = replicate 16 9, m_hwpId = 0\<rparr>"
    "decode (encode bond_items) empty_decoder = (\<lparr>m_mid = [0x81, 0, 0xA1, 0xB2], m_ibk = replicate 16 9, m_hwpId = 0\<rparr>, Inr ())"
proof -
  show w: "list_all wf_item bond_items" by (simp add: bond_items_def)
  show f: "fold apply_item bond_items empty_decoder = \<lparr>m_mid = [0x81, 0, 0xA1, 0xB2], m_ibk = replicate 16 9, m_hwpId = 0\<rparr>"
    by (simp add: bond_items_def empty_decoder_def)
  show "decode (encode bond_items) empty_decoder = (\<lparr>m_mid = [0x81, 0, 0xA1, 0xB2], m_ibk = replicate 16 9, m_hwpId = 0\<rparr>, Inr ())"
    using decode_encoded[OF w, of empty_decoder] f by simp
qed

lemma smart_doc_base: "\<exists>com. ComBase smart_doc = Inr com"
  by (simp add: ComBase_def smart_doc_def jget.simps deref_def GetString_def)

lemma bond_run:
  "\<exists>dec' s'. handle_smart (bond_net (replicate 56 0) 0x0418) None ''iqmeshNetwork_SmartConnect'' smart_doc empty_decoder bond_svc = (dec', s', Inr ()) \<and> s_status s' = 0"
proof -
  obtain com where com: "ComBase smart_doc = Inr com" using smart_doc_base by blast
  show ?thesis
    by (simp add: handle_smart_def com smart_doc_parsed, simp add: smart_prm_def bond_items_decoded respond_def smartConnect_def smartConnect_body_def quiet_s_def
        checkBondedNodes_def bonded_array_def check_address_def doSmartConnect_def after_bonding_def getPerInfo_def osRead_def try_p_def bind_s_def
        bond_exec bond_codes to_coordinator_def smart_request_def to_bonded_def set_hwpId_def process_os_def bonding_result_def array_bit_def createResponse_def
        send_response_def new_bond_def product_info_def)
qed

theorem smart_connect_uses_code_witness:
  "\<exists>s' n tr rsp. execTransaction (bond_net (replicate 56 0) 0x0418)
       (to_coordinator (bond_net (replicate 56 0) 0x0418) 0 18 ([7, 1] @ replicate 16 9 @ [0xB2, 0xA1, 0, 0x81] @ [0, 0xff, 0, 0, 0, 0])) (-1) n = (n, Inr tr) \<and>
     last (sent s') = rsp \<and> jget [''data'', ''rsp'', ''assignedAddr''] rsp = Some (JNum 7) \<and>
     snd (handle_smart (bond_net (replicate 56 0) 0x0418) None ''iqmeshNetwork_SmartConnect'' smart_doc empty_decoder bond_svc) = (s', Inr ())"
proof -
  let ?E = "bond_net (replicate 56 0) 0x0418"
  obtain dec' s' where h: "handle_smart ?E None ''iqmeshNetwork_SmartConnect'' smart_doc empty_decoder bond_svc = (dec', s', Inr ())" "s_status s' = 0"
    using bond_run by blast
  have p: "sc_smartConnectCode (smart_prm 7) = encode bond_items" "0 \<le> sc_repeat (smart_prm 7)" by (simp_all add: smart_prm_def)
  have l: "length [0x81, 0, 0xA1, 0xB2 :: u8] = 4" "length (replicate 16 (9 :: u8)) = 16" by simp_all
  obtain n n' tr rsp where "execTransaction ?E
      (to_coordinator ?E (PNUM_COORDINATOR ?E) (CMD_COORDINATOR_SMART_CONNECT ?E)
        (enc_SmartConnect ?E (ucast (sc_deviceAddress (smart_prm 7))) (of_int (sc_bondingRetries (smart_prm 7))) (replicate 16 9) (rev [0x81, 0, 0xA1, 0xB2]) 0 0xff
          (field 4 (indet_bytes ?E) (sc_userData (smart_prm 7))))) (-1) n = (n', Inr tr)"
    "last (sent s') = rsp" "jget [''data'', ''rsp'', ''assignedAddr''] rsp = Some (JNum (uint (BondAddr ?E (tr_response tr))))"
    using smart_connect_uses_code[OF h smart_doc_parsed p bond_items_decoded(1,2) l] by blast
  then have "execTransaction ?E (to_coordinator ?E 0 18 ([7, 1] @ replicate 16 9 @ [0xB2, 0xA1, 0, 0x81] @ [0, 0xff, 0, 0, 0, 0])) (-1) n = (n, Inr tr)"
    "tr_response tr = [7, 3]"
    by (auto simp: bond_codes smart_prm_def field_def to_coordinator_def)
  with \<open>last (sent s') = rsp\<close> \<open>jget _ rsp = _\<close> h show ?thesis
    by (intro exI[of _ s'] exI[of _ n] exI[of _ tr] exI[of _ rsp]) (simp add: bond_codes(1-10))
qed

theorem used_address_refused_witness:
  "\<exists>s'. smartConnect (bond_net (replicate 56 255) 0x0418) (smart_prm 7) (new_bond (bond_net [] 0) bond_svc) = (s', Inr ()) \<and> s_status s' = 1003"
proof -
  let ?E = "bond_net (replicate 56 255) 0x0418"
  obtain s1 where s1: "bonded_array ?E 1 (new_bond (bond_net [] 0) bond_svc) = (s1, Inr (map (\<lambda>i. replicate 56 255 ! i) [0..<56]))"
    by (simp add: bonded_array_def try_p_def bind_s_def bond_exec bond_codes to_coordinator_def)
  have "array_bit (map (\<lambda>i. replicate 56 255 ! i) [0..<56]) (unat (7 :: u16))" by (simp add: array_bit_def)
  from used_address_refused[OF s1 _ _ this, of "smart_prm 7" "\<lparr>bn_deviceAddress = 7, bn_bondingMask = 0, bn_bondingTestRetries = 0, bn_repeat = 1\<rparr>"]
  show ?thesis by (simp add: bond_codes smart_prm_def)
qed

theorem address_check_gaps_witness:
  "check_address (bond_net [] 0x0418) 0 (0xFE # replicate 29 255 @ replicate 26 0) bond_svc = (bond_svc, Inr ()) \<and>
   check_address (bond_net [] 0x0418) 257 (0xFE # replicate 29 255 @ replicate 26 0) bond_svc = (bond_svc, Inr ()) \<and>
   smart_request (bond_net [] 0x0418) (smart_prm 257) = smart_request (bond_net [] 0x0418) (smart_prm 1)"
proof -
  have "\<not> array_bit (0xFE # replicate 29 255 @ replicate 26 0) 0" "\<not> array_bit (0xFE # replicate 29 255 @ replicate 26 0) 257" by code_simp+
  from address_check_gaps[OF this, of "bond_net [] 0x0418" bond_svc "smart_prm 257" "smart_prm 1"] show ?thesis by (simp add: bond_codes smart_prm_def)
qed

theorem old_coordinator_crashes_witness:
  "\<exists>dec' s'. handle_smart (bond_net [] 0x0302) None ''iqmeshNetwork_SmartConnect'' smart_doc empty_decoder bond_svc = (dec', s', Inl (UB ''nullptr''))"
proof -
  obtain com where com: "ComBase smart_doc = Inr com" using smart_doc_base by blast
  have "decode (sc_smartConnectCode (smart_prm 7)) empty_decoder = (\<lparr>m_mid = [0x81, 0, 0xA1, 0xB2], m_ibk = replicate 16 9, m_hwpId = 0\<rparr>, Inr ())"
    using bond_items_decoded(3) by (simp add: smart_prm_def)
  from old_coordinator_crashes[OF _ com smart_doc_parsed this, of "[]" "0x0302" bond_svc] show ?thesis by (auto simp: bond_codes)
qed

end
