(* ===== verification/Spec2Isabelle.thy ===== *)
theory Spec2Isabelle
  imports Hex_String Access_Control Task_Queue String_Utils Ota_Prepare Ota_Parsers Api_Token Ws_Session Ws_Messaging
    Ide_Counterpart Device_Info Dpa_Os Dpa_Explore Write_TrConf Mng_Scheduler Splitter_Props Iqrf_Code
    Ping_Service Ota_Upload_Props Ota_Verify Backup_Props Remove_Props Bonding_Props
begin

text \<open>
  The IQRF Gateway Daemon connects a wireless mesh of IQRF transceivers with applications. This development models its own C++ code under
  \<open>src/src\<close>; the paths below are relative to that directory.

  \<^bold>\<open>The program.\<close> A request arrives at a messaging, for example a WebSocket session (\<open>WebsocketServer\<close>,
  \<open>WebsocketMessaging\<close>), which the authentication service (\<open>AuthService\<close>, table of \<open>DbEntities\<close>, filled by
  \<open>ApiTokenCtl\<close>) has to accept first. The splitter (\<open>JsonSplitter\<close>) parses and checks it, puts it into
  the queue for management or for network messages (\<open>include/TaskQueue.h\<close>), whose worker hands it to the
  handler registered for its type. The management handler (\<open>JsonMngApi\<close>) operates the scheduler
  (\<open>Scheduler\<close>), which stores tasks in files and runs them at their time. The network services (\<open>IqmeshServices\<close>)
  build DPA commands (\<open>DpaParser\<close>) and send them through the channel, which \<open>include/AccessControl.h\<close> arbitrates between
  the normal user, an exclusive user and a sniffer. The exclusive user is the IQRF IDE, which speaks its own UDP protocol (\<open>IdeCounterpart\<close>).

  \<^bold>\<open>Theories and sources.\<close>
  \<^item> \<open>Gwd_Prelude\<close>: machine integers, exceptions as values (\<open>exc\<close>, \<open>result\<close>, \<open>bind_r\<close>; undefined behaviour is the exception \<open>UB\<close>),
    lemma collections. \<open>Cpp_Std\<close>: characters, \<open>std::string\<close> and streams. \<open>Std_Map\<close>: \<open>std::map\<close> and \<open>std::multimap\<close>, with the
    locale \<open>timetable\<close>. \<open>Json\<close>: JSON values and \<open>rapidjson::Pointer\<close>, with the locale \<open>member_access\<close>.
  \<^item> \<open>Hex_String\<close> (\<open>include/HexStringCoversion.h\<close>), \<open>String_Utils\<close> (\<open>include/StringUtils.h\<close>), \<open>Device_Info\<close> (\<open>include/Common.h\<close>),
    \<open>Time_Conversion\<close> (\<open>include/TimeConversion.h\<close>).
  \<^item> \<open>Task_Queue\<close> (\<open>include/TaskQueue.h\<close>; record \<open>task_queue\<close>, worker as \<open>worker_step\<close>, locale \<open>fifo\<close>) and \<open>Access_Control\<close>
    (\<open>include/AccessControl.h\<close>; locale \<open>exclusive_access\<close>).
  \<^item> \<open>Api_Token\<close> (\<open>include/ApiTokenUtils.h\<close>, \<open>DbEntities/models/api_token.hpp\<close>, \<open>DbEntities/repositories/api_token_repo.hpp\<close>, \<open>AuthService\<close>,
    \<open>ApiTokenCtl/commands.cpp\<close>), \<open>Ws_Session\<close> (\<open>WebsocketServer\<close>: the session as a state machine over the completions of Boost.Asio,
    \<open>ws_reach\<close>; the session manager with the locale \<open>bounded_registry\<close>), \<open>Ws_Messaging\<close> (\<open>WebsocketMessaging\<close>).
  \<^item> \<open>Json_Splitter\<close> (\<open>JsonSplitter/JsonSplitter.cpp\<close>, \<open>ErrorMessages.h\<close>, \<open>include/MessagingCommon.h\<close>) with the record \<open>splitter\<close>; its
    specification \<open>verdict\<close> and the properties are in \<open>Splitter_Props\<close>.
  \<^item> \<open>Scheduler_Record\<close> and \<open>Scheduler\<close> (\<open>Scheduler/SchedulerRecord.cpp\<close>, \<open>Scheduler/Scheduler.cpp\<close>; record \<open>scheduler\<close>, the worker in steps between
    its lock operations), \<open>Scheduler_Run\<close> (its runs), \<open>Mng_Scheduler\<close> (\<open>JsonMngApi.cpp\<close> and the scheduler messages of \<open>JsonMngApi/Messages\<close>).
  \<^item> \<open>Dpa_Solver\<close>, \<open>Dpa_Os\<close>, \<open>Dpa_Explore\<close> (\<open>DpaParser\<close>; locale \<open>dpa_command\<close>, interpreted for every command class), \<open>Write_TrConf\<close>
    (\<open>IqmeshServices/WriteTrConfService\<close>), \<open>Ota_Prepare\<close> and \<open>Ota_Parsers\<close> (\<open>IqmeshServices/OtaUploadService\<close>).
  \<^item> \<open>Crc_Ccitt\<close> and \<open>Ide_Counterpart\<close> (\<open>IdeCounterpart\<close>).

  \<^bold>\<open>What the lemmas show.\<close>
  \<^item> Access: a message of a WebSocket session is delivered only after a valid, unexpired token was presented, and only until it expires; revoked
    tokens stay revoked; unauthenticated sessions are closed; writes to a session do not overlap, with one exception that is shown; the channel serves the
    exclusive user alone.
  \<^item> Messages: the splitter refines the specification \<open>verdict\<close>: each request is queued, or answered by one error message whose code names the
    first check that failed; the queues stay within their capacities, are served in order and are emptied; the handler with the longest matching filter
    is called; responses go to each addressed messaging once. Requests that are not JSON objects violate an assertion.
  \<^item> Scheduler: tasks, timetable and files stay consistent under every operation and every step of the worker; due tasks run, in the order of
    their times; a restart restores exactly the stored tasks; what the client is told agrees with what is stored, and where it does not.
  \<^item> Codecs: textual bytes, bitmaps, versions, tokens, CRC by table against the bitwise definition, IDE packets, DPA requests and responses,
    transceiver configuration, HEX and IQRF files up to the blocks and the checksum sent to the nodes.

  \<^bold>\<open>Conventions and bounds.\<close> Integers with a width are words or carry explicit wrap-around; \<open>size_t\<close> lengths are naturals. Exceptions are
  \<open>Inl\<close> values; reads out of range and failing assertions of the libraries are \<open>UB\<close>. Loops are structural recursions, except
  \<open>String_Utils.split\<close>, the padding loops of \<open>Ota_Prepare\<close> and the parser loops, which are option valued where the code may not end,
  and \<open>worker_run\<close> and the rounds of the scheduler, which take the number of steps; the theorems on them state how many steps are enough. Threads are step
  relations whose steps are the sections between two lock operations. Texts of exceptions contain what the program adds itself; the parts printed by macros of
  the tracing library are left out.

  \<^bold>\<open>Parameters.\<close> Libraries outside the repository are records of functions that the definitions take as arguments: \<open>crypto\<close> (OpenSSL),
  \<open>json_lib\<close> and \<open>schema\<close> (rapidjson, valijson), \<open>dpa_lib\<close> (the DPA submodule), \<open>ihp_lib\<close> (the HEX header parser), the cron and date libraries
  of the scheduler, Boost.Asio as environment of the session steps. Hypotheses on them are named in the statements and have witnesses.

  \<^bold>\<open>Not modelled.\<close> The vendored Duktape engine and its glue; the SQLite entities, migrations and their API except the token table; the downloads of
  \<open>JsCache\<close>; the device drivers of the channels (\<open>IqrfSpi\<close>, \<open>IqrfUart\<close>, \<open>IqrfCdc\<close>, \<open>IqrfTcp\<close>) and \<open>IqrfDpa\<close>, which only call
  libraries of submodules; MQTT and UDP messagings; the transaction sequences of the remaining network services; monitoring, backup, restore, sensor data, logging,
  start-up code and tests. They are candidates for later extension in this order: the FRC and sensor parsers of \<open>DpaParser\<close>, the IQRF code of \<open>SmartConnectService\<close>,
  the transaction loops of \<open>WriteTrConfService\<close> and \<open>OtaUploadService\<close>, the bonding waves of \<open>AutonetworkService\<close>, the device table of \<open>IqrfDb\<close>.
\<close>

section \<open>OTA upload of a HEX file\<close>

lemma parse_hex_contiguous:
  assumes "record_blocks lib (h_mcu p) type (h_contents p) 0 = Some (Inr (d # ds))"
    and "list_all wf_block (d # ds)" "contiguous (unat (m_startAddr d)) (d # ds)" "m_code d \<noteq> []"
  shows "\<exists>b. parse_hex lib p type = Some (Inr [b]) \<and> wf_block b
    \<and> m_startAddr b = m_startAddr d \<and> m_code b = concat (map m_code (d # ds))"
proof -
  have "fold addCodeBlock (d # ds) [] = fold addCodeBlock ds [d]" by (simp add: addCodeBlock_def)
  moreover obtain e where "fold addCodeBlock ds [d]
      = [CodeBlock (m_code d @ concat (map m_code ds)) (m_startAddr d) e]"
    "wf_block (CodeBlock (m_code d @ concat (map m_code ds)) (m_startAddr d) e)"
    using fold_contiguous[of d ds] assms by auto
  ultimately show ?thesis using assms(1)
    by (simp add: parse_hex_def hex_parse_loop_fold del: fold.simps) (auto simp: CodeBlock_def)
qed



section \<open>Messages from WebSocket clients\<close>

text \<open>The callbacks the messaging component installs: the authentication service on some table.\<close>

definition service_callback :: "crypto \<Rightarrow> auth_callback \<Rightarrow> bool" where
  "service_callback cr cb \<longleftrightarrow> (\<exists>ts gt ut now sid out st.
     cb = (\<lambda>tid secret. snd (handleWebsocketSessionAuth cr ts gt ut now sid tid secret out st)))"

text \<open>At some moment the token was in the table, valid, not expired, and the secret was its secret.\<close>

definition accepted_by :: "crypto \<Rightarrow> token_db \<Rightarrow> int \<Rightarrow> u32 \<Rightarrow> string \<Rightarrow> int \<Rightarrow> bool" where
  "accepted_by cr db now tid secret e \<longleftrightarrow> (\<exists>row h key. db tid = Some row \<and> t_status row = Valid
     \<and> now < t_expiresAt row \<and> e = t_expiresAt row \<and> base64Decode cr (t_hash row) = Inr h
     \<and> base64Decode cr secret = Inr key \<and> sha256Hash cr key = Inr h)"

lemma service_callback_success:
  assumes "service_callback cr cb" "cb tid secret = Inr (success, e, svc)"
  shows "\<exists>db now. accepted_by cr db now tid secret e"
proof -
  obtain ts gt ut now sid out db tokens where
    cb: "snd (handleWebsocketSessionAuth cr ts gt ut now sid tid secret out (db, tokens)) = Inr (success, e, svc)"
    using assms by (auto simp: service_callback_def)
  have "snd (authenticate_token cr ts gt ut now tid secret out db) = Inr (Some Valid, e, svc)"
    using cb by (auto simp: handleWebsocketSessionAuth_def Let_def split: prod.splits sum.splits
        option.splits Status.splits)
  then have "accepted_by cr db now tid secret e"
    unfolding accepted_by_def authenticate_Valid_iff by auto
  then show ?thesis by metis
qed


lemma sample_service_callback:
  defines "cb \<equiv> \<lambda>tid secret. snd (handleWebsocketSessionAuth sample_crypto id False False 0 0 tid secret (0, False)
      ([1 \<mapsto> sample_row\<lparr>t_expiresAt := 10\<rparr>], []))"
  shows "service_callback sample_crypto cb" "cb 1 (replicate 44 CHR ''A'') = Inr (success, 10, False)"
proof -
  show "service_callback sample_crypto cb" unfolding service_callback_def cb_def by blast
  show "cb 1 (replicate 44 CHR ''A'') = Inr (success, 10, False)"
    by (simp add: cb_def handleWebsocketSessionAuth_def authenticate_token_def sample_row_def sample_crypto_def)
qed


end
